(* ===== verification/Prelude.thy ===== *)
theory Prelude
  imports
    Main
    "HOL-Library.AList"
    "HOL-Library.Char_ord"
    "HOL-Library.List_Lexorder"
    "HOL-Library.Product_Lexorder"
begin

text \<open>
  Shared vocabulary of the development.

  \<^item> Python values: JSON data (\<open>json\<close>), insertion-ordered dictionaries as association lists
    (\<open>jdict\<close>), exceptions as values of \<open>py_error\<close>, fallible calls as \<open>py_error + 'a\<close>.
  \<^item> Text: a Python \<^verbatim>\<open>str\<close> is a list of code points.  The HOL type \<open>string\<close> holds the code
    points below 256; \<open>utf8_encode\<close> writes out the encoding of exactly those.
  \<^item> Time: an aware \<^verbatim>\<open>datetime\<close> is the integer number of microseconds since the epoch.
  \<^item> SQL tables: a table is the list of its rows in rowid order; \<open>put_row\<close> is
    \<^verbatim>\<open>INSERT ... ON CONFLICT(key) DO UPDATE\<close>, \<open>get_row\<close> a lookup by key.
  \<^item> The interfaces the components share, as locales: \<open>row_store\<close> (what a lookup returns after an
    upsert), \<open>guarded_machine\<close> (an invariant every operation keeps) and \<open>monotone_machine\<close> (an order it
    follows as well).
\<close>

named_theorems row_simps \<open>lookups in a table after an upsert\<close>
named_theorems res_simps \<open>fallible calls\<close>

section \<open>Python data\<close>

datatype json =
    JNull
  | JBool bool
  | JInt int
  | JFloat string \<comment> \<open>carried by its printed form\<close>
  | JStr string
  | JList "json list"
  | JObj "(string \<times> json) list"

type_synonym jdict = "(string \<times> json) list"
type_synonym time = int

datatype py_error =
    KeyError string
  | ValueError string
  | PermissionError string
  | TimeoutError string
  | IndexError
  | IntegrityError string
  | TypeError string
  | ValidationError string \<comment> \<open>pydantic's, a \<^verbatim>\<open>ValueError\<close>\<close>
  | FileExistsError string
  | FileNotFoundError string
  | RuntimeError string
  | PreconditionFailed string \<comment> \<open>\<^verbatim>\<open>CanonicalTransactionPreconditionError\<close>\<close>
  | KnowledgeTargetError string \<comment> \<open>a \<^verbatim>\<open>ValueError\<close>\<close>
  | IdempotencyConflict string \<comment> \<open>\<^verbatim>\<open>CanonicalTransactionIdempotencyError\<close>\<close>

type_synonym 'a res = "py_error + 'a"

definition is_ok :: "'e + 'a \<Rightarrow> bool" where
  "is_ok r = (case r of Inl _ \<Rightarrow> False | Inr _ \<Rightarrow> True)"

lemma is_ok_simps [simp]: "is_ok (Inr x)" "\<not> is_ok (Inl e)"
  by (simp_all add: is_ok_def)

lemma is_ok_iff: "is_ok r \<longleftrightarrow> (\<exists>x. r = Inr x)"
  by (cases r) auto

definition bind_res :: "'e + 'a \<Rightarrow> ('a \<Rightarrow> 'e + 'b) \<Rightarrow> 'e + 'b" where
  "bind_res r f = (case r of Inl e \<Rightarrow> Inl e | Inr x \<Rightarrow> f x)"

lemma bind_res_simps [simp]: "bind_res (Inl e) f = Inl e" "bind_res (Inr x) f = f x"
  by (simp_all add: bind_res_def)

lemma bind_res_Inr [res_simps]: "bind_res r f = Inr y \<longleftrightarrow> (\<exists>x. r = Inr x \<and> f x = Inr y)"
  by (cases r) auto

fun map_res :: "('a \<Rightarrow> 'e + 'b) \<Rightarrow> 'a list \<Rightarrow> 'e + 'b list" where
  "map_res f [] = Inr []"
| "map_res f (x # xs) = bind_res (f x) (\<lambda>y. bind_res (map_res f xs) (\<lambda>ys. Inr (y # ys)))"

lemma map_res_Inr [res_simps]: "map_res f xs = Inr ys \<longleftrightarrow> list_all2 (\<lambda>x y. f x = Inr y) xs ys"
  by (induction xs arbitrary: ys) (auto simp: bind_res_Inr list_all2_Cons1)

text \<open>The first failing check of a list of independent checks raises.\<close>

fun check_all :: "('a \<Rightarrow> py_error option) \<Rightarrow> 'a list \<Rightarrow> py_error option" where
  "check_all f [] = None"
| "check_all f (x # xs) = (case f x of Some e \<Rightarrow> Some e | None \<Rightarrow> check_all f xs)"

lemma check_all_None [res_simps]: "check_all f xs = None \<longleftrightarrow> (\<forall>x\<in>set xs. f x = None)"
  by (induction xs) (auto split: option.splits)

section \<open>Dictionaries and ordered deduplication\<close>

text \<open>
  \<^verbatim>\<open>d.get(k)\<close> is \<open>map_of d k\<close>, \<^verbatim>\<open>d[k] = v\<close> is \<open>AList.update k v d\<close> (which keeps the position of an
  existing key and appends a new one) and \<^verbatim>\<open>del d[k]\<close> is \<open>AList.delete k d\<close>.
  \<open>dedup\<close> is \<^verbatim>\<open>list(dict.fromkeys(xs))\<close>: first occurrences, in order.
\<close>

definition dedup :: "'a list \<Rightarrow> 'a list" where
  "dedup xs = rev (remdups (rev xs))"

lemma set_dedup [simp]: "set (dedup xs) = set xs"
  by (simp add: dedup_def)

lemma distinct_dedup [simp]: "distinct (dedup xs)"
  by (simp add: dedup_def)

lemma image_ne: "f x \<notin> f ` A \<Longrightarrow> y \<in> A \<Longrightarrow> f y \<noteq> f x"
  by (metis imageI)

lemma dedup_Nil [simp]: "dedup [] = []"
  by (simp add: dedup_def)

lemma dedup_id: "distinct xs \<Longrightarrow> dedup xs = xs"
  by (simp add: dedup_def distinct_remdups_id)

definition truthy :: "string option \<Rightarrow> bool" where
  "truthy v = (case v of None \<Rightarrow> False | Some s \<Rightarrow> s \<noteq> [])"

lemma truthy_simps [simp]: "\<not> truthy None" "truthy (Some s) \<longleftrightarrow> s \<noteq> []"
  by (simp_all add: truthy_def)

section \<open>Text\<close>

definition newline :: char where "newline = CHR 0x0A"

definition py_space :: "char \<Rightarrow> bool" where
  "py_space c = (let n = (of_char c :: nat) in
     (9 \<le> n \<and> n \<le> 13) \<or> (28 \<le> n \<and> n \<le> 32) \<or> n = 133 \<or> n = 160)"

definition lstrip :: "string \<Rightarrow> string" where
  "lstrip s = dropWhile py_space s"

definition strip :: "string \<Rightarrow> string" where
  "strip s = rev (lstrip (rev (lstrip s)))"

fun split_words :: "string \<Rightarrow> string \<Rightarrow> string list" where
  "split_words acc [] = (if acc = [] then [] else [rev acc])"
| "split_words acc (c # cs) =
     (if py_space c then (if acc = [] then split_words [] cs else rev acc # split_words [] cs)
      else split_words (c # acc) cs)"

fun join_words :: "string \<Rightarrow> string list \<Rightarrow> string" where
  "join_words sep [] = []"
| "join_words sep [w] = w"
| "join_words sep (w # ws) = w @ sep @ join_words sep ws"

definition squash :: "string \<Rightarrow> string" where \<comment> \<open>\<^verbatim>\<open>" ".join(s.split())\<close>\<close>
  "squash s = join_words '' '' (split_words [] s)"

definition utf8_char :: "char \<Rightarrow> char list" where
  "utf8_char c = (let n = (of_char c :: nat) in
     if n < 128 then [c] else [char_of (192 + n div 64), char_of (128 + n mod 64)])"

definition utf8_encode :: "string \<Rightarrow> string" where
  "utf8_encode s = concat (map utf8_char s)"

definition digit_char :: "int \<Rightarrow> char" where
  "digit_char d = ''0123456789'' ! nat d"

function int_digits :: "int \<Rightarrow> string" where
  "int_digits n = (if n < 10 then [digit_char n] else int_digits (n div 10) @ [digit_char (n mod 10)])"
  by pat_completeness auto
termination
  by (relation "measure nat") auto

declare int_digits.simps [simp del]

definition int_str :: "int \<Rightarrow> string" where
  "int_str i = (if i < 0 then CHR ''-'' # int_digits (- i) else int_digits i)"

definition starts_with :: "string \<Rightarrow> string \<Rightarrow> bool" where
  "starts_with p s \<longleftrightarrow> take (length p) s = p"

text \<open>
  \<^verbatim>\<open>datetime.isoformat()\<close> of a UTC time (the proleptic Gregorian calendar from a day number), and
  \<^verbatim>\<open>date().isoformat()\<close>.
\<close>

definition pad :: "nat \<Rightarrow> int \<Rightarrow> string" where
  "pad w n = (let s = int_str n in replicate (w - length s) (CHR ''0'') @ s)"

definition civil_date :: "int \<Rightarrow> int \<times> int \<times> int" where
  "civil_date days =
     (let z = days + 719468; era = z div 146097; doe = z mod 146097;
          yoe = (doe - doe div 1460 + doe div 36524 - doe div 146096) div 365;
          doy = doe - (365 * yoe + yoe div 4 - yoe div 100);
          mp = (5 * doy + 2) div 153;
          m = (if mp < 10 then mp + 3 else mp - 9);
          y = yoe + era * 400 + (if m \<le> 2 then 1 else 0)
      in (y, m, doy - (153 * mp + 2) div 5 + 1))"

definition iso_date :: "time \<Rightarrow> string" where
  "iso_date t = (case civil_date (t div 86400000000) of (y, m, d) \<Rightarrow>
     pad 4 y @ ''-'' @ pad 2 m @ ''-'' @ pad 2 d)"

definition isoformat :: "time \<Rightarrow> string" where
  "isoformat t =
     (let us = t mod 86400000000; secs = us div 1000000; frac = us mod 1000000
      in iso_date t @ ''T'' @ pad 2 (secs div 3600) @ '':'' @ pad 2 (secs mod 3600 div 60) @ '':'' @
         pad 2 (secs mod 60) @ (if frac = 0 then [] else ''.'' @ pad 6 frac) @ ''+00:00'')"

definition seconds :: "int \<Rightarrow> time" where
  "seconds n = n * 1000000"

text \<open>\<open>slice s a b\<close> is \<^verbatim>\<open>s[a:b]\<close> for non-negative bounds.\<close>

definition slice :: "'a list \<Rightarrow> int \<Rightarrow> int \<Rightarrow> 'a list" where
  "slice s a b = take (nat (b - a)) (drop (nat a) s)"

lemma length_slice:
  assumes "0 \<le> a" "a \<le> b" "b \<le> int (length s)"
  shows "int (length (slice s a b)) = b - a"
proof -
  have "nat (b - a) \<le> length s - nat a" using assms by arith
  then show ?thesis using assms by (simp add: slice_def)
qed

lemma slice_append_drop:
  assumes "0 \<le> a" "a \<le> b"
  shows "slice s a b @ drop (nat b) s = drop (nat a) s"
proof -
  have "nat b = nat (b - a) + nat a" using assms by arith
  then have "drop (nat b) s = drop (nat (b - a)) (drop (nat a) s)" by simp
  then show ?thesis by (simp only: slice_def append_take_drop_id)
qed

lemma strip_idem_aux: "lstrip (lstrip s) = lstrip s"
  by (simp add: lstrip_def)

lemma dropWhile_rev_dropWhile:
  "dropWhile P (rev (dropWhile P (rev (dropWhile P s)))) = rev (dropWhile P (rev (dropWhile P s)))"
proof (cases "dropWhile P s")
  case Nil
  then show ?thesis by (simp only: rev.simps(1) dropWhile.simps(1))
next
  case (Cons x xs)
  then have nP: "\<not> P x" by (metis dropWhile_eq_Cons_conv)
  have "dropWhile P (rev (x # xs)) = dropWhile P (rev xs) @ [x] \<or> dropWhile P (rev (x # xs)) = [x]"
    using nP by (simp add: dropWhile_append)
  then show ?thesis using Cons nP by auto
qed

lemma strip_strip [simp]: "strip (strip s) = strip s"
  by (simp add: strip_def lstrip_def dropWhile_rev_dropWhile)

section \<open>Tables\<close>

fun put_row :: "('r \<Rightarrow> 'k) \<Rightarrow> 'r \<Rightarrow> 'r list \<Rightarrow> 'r list" where
  "put_row key r [] = [r]"
| "put_row key r (x # xs) = (if key x = key r then r # xs else x # put_row key r xs)"

fun get_row :: "('r \<Rightarrow> 'k) \<Rightarrow> 'k \<Rightarrow> 'r list \<Rightarrow> 'r option" where
  "get_row key k [] = None"
| "get_row key k (x # xs) = (if key x = k then Some x else get_row key k xs)"

lemma get_put_row [row_simps]:
  "get_row key k (put_row key r xs) = (if k = key r then Some r else get_row key k xs)"
  by (induction xs) auto

lemma get_row_key: "get_row key k xs = Some r \<Longrightarrow> key r = k"
  by (induction xs) (auto split: if_splits)

lemma get_row_in: "get_row key k xs = Some r \<Longrightarrow> r \<in> set xs"
  by (induction xs) (auto split: if_splits)

lemma get_row_key_in: "get_row key k xs = Some r \<Longrightarrow> k \<in> key ` set xs"
  by (induction xs) (auto split: if_splits)

lemma get_row_None: "get_row key k xs = None \<longleftrightarrow> k \<notin> key ` set xs"
  by (induction xs) auto

lemma in_get_row: "distinct (map key xs) \<Longrightarrow> r \<in> set xs \<Longrightarrow> get_row key (key r) xs = Some r"
  by (induction xs) (auto simp: rev_image_eqI)

lemma map_key_put_row:
  "map key (put_row key r xs) = (if key r \<in> key ` set xs then map key xs else map key xs @ [key r])"
  by (induction xs) auto

lemma keys_put_row [row_simps]: "key ` set (put_row key r xs) = insert (key r) (key ` set xs)"
  by (induction xs) auto

lemma distinct_put_row [row_simps]:
  "distinct (map key (put_row key r xs)) = distinct (map key xs)"
  by (auto simp: map_key_put_row)

lemma set_put_row:
  "distinct (map key xs) \<Longrightarrow> set (put_row key r xs) = insert r {x \<in> set xs. key x \<noteq> key r}"
proof (induction xs)
  case Nil
  then show ?case by simp
next
  case (Cons x xs)
  then show ?case by (cases "key x = key r") (auto simp: rev_image_eqI)
qed

lemma set_put_row_subset: "set (put_row key r xs) \<subseteq> insert r (set xs)"
  by (induction xs) auto

lemma put_row_mid:
  "key x = key r \<Longrightarrow> key r \<notin> key ` set ys \<Longrightarrow> put_row key r (ys @ x # xs) = ys @ r # xs"
  by (induction ys) auto

text \<open>Rewriting in place the rows a query selected.\<close>

lemma fold_put_row_map:
  assumes "\<And>x. key (g x) = key x"
  shows "distinct (map key (ys @ xs)) \<Longrightarrow>
    fold (\<lambda>x. put_row key (g x)) (filter P xs) (ys @ xs) = ys @ map (\<lambda>x. if P x then g x else x) xs"
proof (induction xs arbitrary: ys)
  case (Cons x xs)
  have "put_row key (g x) (ys @ x # xs) = ys @ g x # xs"
    using Cons.prems by (intro put_row_mid) (auto simp: assms)
  then show ?case
    using Cons.IH[of "ys @ [g x]"] Cons.IH[of "ys @ [x]"] Cons.prems by (auto simp: assms)
qed simp

lemma filter_map_if:
  "(\<And>x. P x \<Longrightarrow> P (g x)) \<Longrightarrow> filter P (map (\<lambda>x. if P x then g x else x) xs) = map g (filter P xs)"
  by (induction xs) auto

lemma length_filter_filter: "length (filter P (filter Q xs)) \<le> length (filter P xs)"
  by (induction xs) auto

lemma get_row_map:
  assumes "\<And>x. key (g x) = key x"
  shows "get_row key k (map g xs) = map_option g (get_row key k xs)"
  by (induction xs) (auto simp: assms)

lemma get_row_filter: "(\<And>x. key x = k \<Longrightarrow> P x) \<Longrightarrow> get_row key k (filter P xs) = get_row key k xs"
  by (induction xs) auto

lemma filter_put_row_single:
  "distinct (map key xs) \<Longrightarrow> (\<And>y. y \<in> set xs \<Longrightarrow> Q y \<Longrightarrow> key y = key x) \<Longrightarrow> Q x \<Longrightarrow>
   filter Q (put_row key x xs) = [x]"
proof (induction xs)
  case (Cons y ys)
  show ?case
  proof (cases "key y = key x")
    case True
    then have "key z \<noteq> key x" if "z \<in> set ys" for z
      using Cons.prems(1) that by (metis distinct.simps(2) image_eqI list.set_map list.simps(9))
    then have "filter Q ys = []" using Cons.prems(2) by (auto simp: filter_empty_conv)
    then show ?thesis using True Cons.prems(3) by simp
  next
    case False
    then show ?thesis using Cons by auto
  qed
qed simp

text \<open>
  The interface every keyed table offers its clients: a lookup after an upsert finds the new row
  under its own key and everything else unchanged.
\<close>

locale row_store =
  fixes key :: "'r \<Rightarrow> 'k"
    and get :: "'k \<Rightarrow> 'db \<Rightarrow> 'r option"
    and put :: "'r \<Rightarrow> 'db \<Rightarrow> 'db"
  assumes get_put: "get k (put r d) = (if k = key r then Some r else get k d)"
    and get_key: "get k d = Some r \<Longrightarrow> key r = k"
begin

definition put_all :: "'r list \<Rightarrow> 'db \<Rightarrow> 'db" where
  "put_all rs d = fold put rs d"

lemma put_all_simps [simp]: "put_all [] d = d" "put_all (r # rs) d = put_all rs (put r d)"
  by (simp_all add: put_all_def)

lemma put_all_append: "put_all (rs @ qs) d = put_all qs (put_all rs d)"
  by (simp add: put_all_def)

lemma get_put_same [simp]: "get (key r) (put r d) = Some r"
  by (simp add: get_put)

lemma get_put_other: "k \<noteq> key r \<Longrightarrow> get k (put r d) = get k d"
  by (simp add: get_put)

lemma get_put_all_other: "k \<notin> key ` set rs \<Longrightarrow> get k (put_all rs d) = get k d"
  by (induction rs arbitrary: d) (auto simp: get_put)

lemma get_put_all_in:
  "distinct (map key rs) \<Longrightarrow> r \<in> set rs \<Longrightarrow> get (key r) (put_all rs d) = Some r"
proof (induction rs arbitrary: d)
  case (Cons q qs)
  then show ?case by (cases "q = r") (auto simp: get_put_all_other rev_image_eqI)
qed simp

lemma get_put_commute:
  "key r \<noteq> key q \<Longrightarrow> get k (put r (put q d)) = get k (put q (put r d))"
  by (auto simp: get_put)

end

text \<open>
  A component as a guarded machine: a total step function over events and an invariant that every
  step keeps.  The client gets the invariant for every run.
\<close>

locale guarded_machine =
  fixes step :: "'e \<Rightarrow> 's \<Rightarrow> 's"
    and inv :: "'s \<Rightarrow> bool"
  assumes step_inv: "inv s \<Longrightarrow> inv (step e s)"
begin

definition run :: "'e list \<Rightarrow> 's \<Rightarrow> 's" where
  "run es s = fold step es s"

lemma run_simps [simp]: "run [] s = s" "run (e # es) s = run es (step e s)"
  by (simp_all add: run_def)

lemma run_inv: "inv s \<Longrightarrow> inv (run es s)"
  by (induction es arbitrary: s) (auto intro: step_inv)

lemma run_preserves:
  assumes "\<And>e s. inv s \<Longrightarrow> P s \<Longrightarrow> P (step e s)"
  shows "inv s \<Longrightarrow> P s \<Longrightarrow> P (run es s)"
  using assms by (induction es arbitrary: s) (auto intro: step_inv)

end

text \<open>A machine whose every step moves the state up in a preorder.\<close>

locale monotone_machine = guarded_machine step inv
  for step :: "'e \<Rightarrow> 's \<Rightarrow> 's" and inv :: "'s \<Rightarrow> bool" +
  fixes below :: "'s \<Rightarrow> 's \<Rightarrow> bool"
  assumes below_refl: "below s s"
    and below_trans: "below s t \<Longrightarrow> below t u \<Longrightarrow> below s u"
    and step_below: "inv s \<Longrightarrow> below s (step e s)"
begin

lemma run_below: "inv s \<Longrightarrow> below s (run es s)"
proof (induction es arbitrary: s)
  case Nil
  then show ?case by (simp add: below_refl)
next
  case (Cons e es)
  then show ?case by (auto intro: below_trans step_below step_inv)
qed

end

end
