(* ===== verification/Chunking.thy ===== *)
theory Chunking
  imports Prelude
begin

text \<open>
  Lossless transcript chunking: \<^verbatim>\<open>harness_mem/transcript_chunking.py\<close> and the chunk record of
  \<^verbatim>\<open>harness_mem/core/schemas/transcript.py\<close>.

  \<open>chunk_transcript_text\<close> cuts a text into bounded chunks, at logical units when the caller supplies
  them and at newlines otherwise; \<open>reconstruct_transcript\<close> joins chunks back after checking index,
  range and hash of each.  SHA-256 (over bytes) and UUID5 are parameters, collected in \<open>digests\<close>.
  The loop carries \<open>start\<close>, \<open>index\<close> and \<open>logical_index\<close> as the code does; it terminates because every
  cut moves \<open>start\<close> forward.
\<close>

record digests =
  sha256_hex :: "string \<Rightarrow> string" \<comment> \<open>\<^verbatim>\<open>hashlib.sha256(b).hexdigest()\<close>\<close>
  uuid5_url :: "string \<Rightarrow> string" \<comment> \<open>\<^verbatim>\<open>str(uuid5(NAMESPACE_URL, key))\<close>\<close>

definition sha256_bytes :: "digests \<Rightarrow> string \<Rightarrow> string" where
  "sha256_bytes h value = sha256_hex h value"

definition sha256_text :: "digests \<Rightarrow> string \<Rightarrow> string" where
  "sha256_text h value = sha256_hex h (utf8_encode value)"

definition transcript_source_id :: "digests \<Rightarrow> string \<Rightarrow> string \<Rightarrow> string \<Rightarrow> string \<Rightarrow> string" where
  "transcript_source_id h client project_name session_id source_uri =
     uuid5_url h (''harness-mem://transcript/'' @ client @ ''/'' @ project_name @ ''/'' @
                  session_id @ ''/'' @ source_uri)"

definition transcript_revision :: "digests \<Rightarrow> string \<Rightarrow> string" where
  "transcript_revision h value = ''sha256:'' @ sha256_text h value"

definition transcript_bytes_revision :: "digests \<Rightarrow> string \<Rightarrow> string" where
  "transcript_bytes_revision h value = ''sha256:'' @ sha256_bytes h value"

section \<open>Data\<close>

record logical_unit =
  u_char_start :: int
  u_char_end :: int
  u_unit_id :: string
  u_kind :: string

datatype boundary_strategy = Newline | LogicalUnit | HardLimit

record tchunk =
  c_id :: string
  c_source_id :: string
  c_project_name :: string
  c_client :: string
  c_session_id :: string
  c_source_revision :: string
  c_chunk_index :: int
  c_char_start :: int
  c_char_end :: int
  c_sequence_start :: "int option"
  c_sequence_end :: "int option"
  c_raw_content :: string
  c_content_sha256 :: string
  c_size_bytes :: int
  c_starts_on_boundary :: bool
  c_ends_on_boundary :: bool
  c_boundary_strategy :: boundary_strategy
  c_logical_unit_ids :: "string list"
  c_logical_unit_kinds :: "string list"
  c_starts_with_continuation :: bool
  c_ends_with_continuation :: bool
  c_created_at :: time

section \<open>Validation of logical units\<close>

fun validate_units_loop ::
  "int \<Rightarrow> int \<Rightarrow> string list \<Rightarrow> logical_unit list \<Rightarrow> py_error + int" where
  "validate_units_loop len expected_start seen_ids [] = Inr expected_start"
| "validate_units_loop len expected_start seen_ids (u # us) =
     (if u_char_start u \<noteq> expected_start
      then Inl (ValueError ''logical_units must be contiguous and ordered'')
      else if u_char_end u \<le> u_char_start u \<or> u_char_end u > len
      then Inl (ValueError ''logical unit range is outside the transcript'')
      else if u_unit_id u = [] \<or> u_unit_id u \<in> set seen_ids
      then Inl (ValueError ''logical unit ids must be non-empty and unique'')
      else if u_kind u = [] then Inl (ValueError ''logical unit kind must be non-empty'')
      else validate_units_loop len (u_char_end u) (u_unit_id u # seen_ids) us)"

definition validate_logical_units ::
  "string \<Rightarrow> logical_unit list option \<Rightarrow> py_error + logical_unit list option" where
  "validate_logical_units value logical_units =
     (case logical_units of
        None \<Rightarrow> Inr None
      | Some units \<Rightarrow>
          if units = []
          then Inl (ValueError ''logical_units must cover the non-empty transcript'')
          else (case validate_units_loop (int (length value)) 0 [] units of
                  Inl e \<Rightarrow> Inl e
                | Inr expected_start \<Rightarrow>
                    if expected_start \<noteq> int (length value)
                    then Inl (ValueError ''logical_units must cover the complete transcript'')
                    else Inr (Some units)))"

section \<open>One cut\<close>

text \<open>What one turn of the loop decides before it builds the chunk.\<close>

record cut =
  cut_end :: int
  cut_strategy :: boundary_strategy
  cut_seq_start :: "int option"
  cut_seq_end :: "int option"
  cut_unit_ids :: "string list"
  cut_unit_kinds :: "string list"
  cut_starts :: bool
  cut_ends :: bool
  cut_starts_cont :: bool
  cut_ends_cont :: bool
  cut_logical_index :: nat

text \<open>The scan for the last unit that ends at or before the hard limit.\<close>

fun scan_complete :: "logical_unit list \<Rightarrow> int \<Rightarrow> nat \<Rightarrow> nat option \<Rightarrow> nat option" where
  "scan_complete [] hard_end scan_index last_complete = last_complete"
| "scan_complete (u # us) hard_end scan_index last_complete =
     (if u_char_end u \<le> hard_end
      then scan_complete us hard_end (Suc scan_index) (Some scan_index)
      else last_complete)"

definition logical_cut ::
  "logical_unit list \<Rightarrow> int \<Rightarrow> int \<Rightarrow> nat \<Rightarrow> py_error + cut" where
  "logical_cut units start hard_end first_index =
     (if length units \<le> first_index then Inl IndexError
      else
        let starts_on = (start = u_char_start (units ! first_index));
            last_complete = scan_complete (drop first_index units) hard_end first_index None;
            last_index = (case last_complete of Some i \<Rightarrow> i | None \<Rightarrow> first_index);
            e = (case last_complete of Some i \<Rightarrow> u_char_end (units ! i) | None \<Rightarrow> hard_end);
            touched = take (Suc last_index - first_index) (drop first_index units);
            ends_on = (e = u_char_end (units ! last_index))
        in Inr \<lparr> cut_end = e,
             cut_strategy = (if last_complete = None then HardLimit else LogicalUnit),
             cut_seq_start = Some (int first_index),
             cut_seq_end = Some (int last_index + 1),
             cut_unit_ids = map u_unit_id touched,
             cut_unit_kinds = map u_kind touched,
             cut_starts = starts_on,
             cut_ends = ends_on,
             cut_starts_cont = (\<not> starts_on),
             cut_ends_cont = (\<not> ends_on),
             cut_logical_index = (if ends_on then Suc last_index else last_index) \<rparr>)"

text \<open>\<^verbatim>\<open>value.rfind("\n", lo, hi)\<close> for non-negative bounds.\<close>

definition rfind_newline :: "string \<Rightarrow> int \<Rightarrow> int \<Rightarrow> int" where
  "rfind_newline value lo hi =
     (let hits = filter (\<lambda>i. value ! nat i = newline) [lo..min hi (int (length value)) - 1]
      in if hits = [] then -1 else last hits)"

definition on_newline_boundary :: "string \<Rightarrow> int \<Rightarrow> bool" where
  "on_newline_boundary value pos \<longleftrightarrow> value ! nat (pos - 1) = newline"

definition newline_cut :: "string \<Rightarrow> int \<Rightarrow> int \<Rightarrow> nat \<Rightarrow> cut" where
  "newline_cut value start hard_end logical_index =
     (let len = int (length value);
          boundary = rfind_newline value (start + 1) (hard_end + 1);
          found = (hard_end < len \<and> boundary \<ge> start);
          e = (if found then boundary + 1 else hard_end)
      in \<lparr> cut_end = e,
           cut_strategy = (if hard_end < len \<and> \<not> found then HardLimit else Newline),
           cut_seq_start = None, cut_seq_end = None,
           cut_unit_ids = [], cut_unit_kinds = [],
           cut_starts = (start = 0 \<or> on_newline_boundary value start),
           cut_ends = (e = len \<or> on_newline_boundary value e),
           cut_starts_cont = False, cut_ends_cont = False,
           cut_logical_index = logical_index \<rparr>)"

record chunk_params =
  p_source_id :: string
  p_project_name :: string
  p_client :: string
  p_session_id :: string
  p_revision :: string
  p_max_chars :: int
  p_units :: "logical_unit list option"

definition next_cut :: "chunk_params \<Rightarrow> string \<Rightarrow> int \<Rightarrow> nat \<Rightarrow> py_error + cut" where
  "next_cut p value start logical_index =
     (let hard_end = min (start + p_max_chars p) (int (length value));
          r = (case p_units p of
                 Some units \<Rightarrow> logical_cut units start hard_end logical_index
               | None \<Rightarrow> Inr (newline_cut value start hard_end logical_index))
      in case r of
           Inl e \<Rightarrow> Inl e
         | Inr c \<Rightarrow> Inr (if cut_end c \<le> start then c\<lparr>cut_end := hard_end\<rparr> else c))"

definition make_chunk ::
  "digests \<Rightarrow> chunk_params \<Rightarrow> time \<Rightarrow> string \<Rightarrow> int \<Rightarrow> nat \<Rightarrow> cut \<Rightarrow> tchunk" where
  "make_chunk h p now value start index c =
     (let content = slice value start (cut_end c);
          digest = sha256_text h content;
          chunk_key = p_source_id p @ '':'' @ p_revision p @ '':'' @ int_str (int index) @ '':'' @
                      int_str start @ '':'' @ int_str (cut_end c) @ '':'' @ digest
      in \<lparr> c_id = uuid5_url h chunk_key,
           c_source_id = p_source_id p,
           c_project_name = p_project_name p,
           c_client = p_client p,
           c_session_id = p_session_id p,
           c_source_revision = p_revision p,
           c_chunk_index = int index,
           c_char_start = start,
           c_char_end = cut_end c,
           c_sequence_start = cut_seq_start c,
           c_sequence_end = cut_seq_end c,
           c_raw_content = content,
           c_content_sha256 = digest,
           c_size_bytes = int (length (utf8_encode content)),
           c_starts_on_boundary = cut_starts c,
           c_ends_on_boundary = cut_ends c,
           c_boundary_strategy = cut_strategy c,
           c_logical_unit_ids = cut_unit_ids c,
           c_logical_unit_kinds = cut_unit_kinds c,
           c_starts_with_continuation = cut_starts_cont c,
           c_ends_with_continuation = cut_ends_cont c,
           c_created_at = now \<rparr>)"

lemma next_cut_progress:
  assumes "next_cut p value start li = Inr c" and "0 < p_max_chars p" and "start < int (length value)"
  shows "start < cut_end c"
  using assms
  by (auto simp: next_cut_def Let_def split: option.splits sum.splits if_splits)

function chunk_loop ::
  "digests \<Rightarrow> chunk_params \<Rightarrow> time \<Rightarrow> string \<Rightarrow> int \<Rightarrow> nat \<Rightarrow> nat \<Rightarrow> py_error + tchunk list" where
  "chunk_loop h p now value start index logical_index =
     (if 0 < p_max_chars p \<and> start < int (length value)
      then (case next_cut p value start logical_index of
              Inl e \<Rightarrow> Inl e
            | Inr c \<Rightarrow>
                (case chunk_loop h p now value (cut_end c) (Suc index) (cut_logical_index c) of
                   Inl e \<Rightarrow> Inl e
                 | Inr rest \<Rightarrow> Inr (make_chunk h p now value start index c # rest)))
      else Inr [])"
  by pat_completeness auto
termination
  by (relation "measure (\<lambda>(h, p, now, value, start, index, li). nat (int (length value) - start))")
     (auto dest: next_cut_progress)

declare chunk_loop.simps [simp del]

definition chunk_transcript_text ::
  "digests \<Rightarrow> time \<Rightarrow> string \<Rightarrow> string \<Rightarrow> string \<Rightarrow> string \<Rightarrow> string \<Rightarrow> string option \<Rightarrow> int \<Rightarrow>
   logical_unit list option \<Rightarrow> py_error + tchunk list" where
  "chunk_transcript_text h now value source_id project_name client session_id source_revision
     max_chars logical_units =
     (if max_chars < 1 then Inl (ValueError ''max_chars must be positive'')
      else if value = [] then Inr []
      else case validate_logical_units value logical_units of
             Inl e \<Rightarrow> Inl e
           | Inr units \<Rightarrow>
               let revision = (if truthy source_revision then the source_revision
                               else transcript_revision h value);
                   p = \<lparr> p_source_id = source_id, p_project_name = project_name,
                         p_client = client, p_session_id = session_id, p_revision = revision,
                         p_max_chars = max_chars, p_units = units \<rparr>
               in chunk_loop h p now value 0 0 0)"

section \<open>Reconstruction\<close>

fun reconstruct_loop ::
  "digests \<Rightarrow> string \<Rightarrow> string \<Rightarrow> int \<Rightarrow> int \<Rightarrow> tchunk list \<Rightarrow> py_error + string list" where
  "reconstruct_loop h source_id revision expected_index expected_start [] = Inr []"
| "reconstruct_loop h source_id revision expected_index expected_start (c # cs) =
     (if c_source_id c \<noteq> source_id \<or> c_source_revision c \<noteq> revision
      then Inl (ValueError ''chunks belong to different transcript revisions'')
      else if c_chunk_index c \<noteq> expected_index
      then Inl (ValueError ''chunk index gap detected'')
      else if c_char_start c \<noteq> expected_start
      then Inl (ValueError ''chunk character range gap detected'')
      else if c_char_end c - c_char_start c \<noteq> int (length (c_raw_content c))
      then Inl (ValueError ''chunk character range does not match content'')
      else if sha256_text h (c_raw_content c) \<noteq> c_content_sha256 c
      then Inl (ValueError ''chunk content hash mismatch'')
      else case reconstruct_loop h source_id revision (expected_index + 1) (c_char_end c) cs of
             Inl e \<Rightarrow> Inl e
           | Inr contents \<Rightarrow> Inr (c_raw_content c # contents))"

definition reconstruct_transcript ::
  "digests \<Rightarrow> tchunk list \<Rightarrow> string option \<Rightarrow> py_error + string" where
  "reconstruct_transcript h chunks expected_sha256 =
     (case sort_key c_chunk_index chunks of
        [] \<Rightarrow> Inr []
      | c0 # cs \<Rightarrow>
          (case reconstruct_loop h (c_source_id c0) (c_source_revision c0) 0 0 (c0 # cs) of
             Inl e \<Rightarrow> Inl e
           | Inr contents \<Rightarrow>
               (let value = concat contents in
                if expected_sha256 \<noteq> None \<and> sha256_text h value \<noteq> the expected_sha256
                then Inl (ValueError ''reconstructed transcript content hash mismatch'')
                else Inr value)))"

section \<open>Lemmas: cuts\<close>

lemma scan_complete_closed:
  "scan_complete us hard_end i l =
     (let n = length (takeWhile (\<lambda>u. u_char_end u \<le> hard_end) us)
      in if n = 0 then l else Some (i + n - 1))"
  by (induction us arbitrary: i l) (auto simp: Let_def)

lemma scan_complete_Some:
  assumes "scan_complete (drop f units) hard_end f None = Some i"
  shows "f \<le> i \<and> i < length units \<and> u_char_end (units ! i) \<le> hard_end"
proof -
  let ?tw = "takeWhile (\<lambda>u. u_char_end u \<le> hard_end) (drop f units)"
  obtain n where n: "length ?tw = Suc n" and i: "i = f + n"
    using assms by (cases "length ?tw") (auto simp: scan_complete_closed Let_def split: if_splits)
  have le: "Suc n \<le> length units - f" using length_takeWhile_le[of _ "drop f units"] n by (metis length_drop)
  have "?tw ! n \<in> set ?tw" using n by (intro nth_mem) simp
  then have "u_char_end (?tw ! n) \<le> hard_end" by (rule set_takeWhileD[THEN conjunct2])
  moreover have "?tw ! n = drop f units ! n" using n by (intro takeWhile_nth) simp
  ultimately show ?thesis using i le by simp
qed

lemma rfind_newline_range:
  assumes "rfind_newline v lo hi = b" "b \<noteq> -1"
  shows "lo \<le> b \<and> b < hi \<and> b < int (length v) \<and> v ! nat b = newline"
proof -
  let ?hits = "filter (\<lambda>i. v ! nat i = newline) [lo..min hi (int (length v)) - 1]"
  have "?hits \<noteq> []" and b: "b = last ?hits"
    using assms by (auto simp: rfind_newline_def Let_def split: if_splits)
  then have "b \<in> set ?hits" by (metis last_in_set)
  then show ?thesis by auto
qed

lemma next_cut_le:
  assumes "next_cut p v start li = Inr c" "start \<le> int (length v)" "0 < p_max_chars p"
  shows "cut_end c \<le> int (length v)"
proof (cases "p_units p")
  case None
  let ?he = "min (start + p_max_chars p) (int (length v))"
  let ?b = "rfind_newline v (start + 1) (?he + 1)"
  have "?b \<noteq> -1 \<Longrightarrow> ?b < int (length v)" using rfind_newline_range[OF refl] by blast
  then have "?b + 1 \<le> int (length v)" by linarith
  then show ?thesis using assms None
    by (auto simp: next_cut_def newline_cut_def Let_def split: if_splits)
next
  case (Some units)
  let ?he = "min (start + p_max_chars p) (int (length v))"
  obtain c' where c': "logical_cut units start ?he li = Inr c'"
    and c: "c = (if cut_end c' \<le> start then c'\<lparr>cut_end := ?he\<rparr> else c')"
    using assms(1) Some by (auto simp: next_cut_def Let_def split: sum.splits)
  have "cut_end c' \<le> ?he"
  proof (cases "scan_complete (drop li units) ?he li None")
    case None
    then show ?thesis using c' by (auto simp: logical_cut_def Let_def split: if_splits)
  next
    case (Some i)
    then show ?thesis using c' scan_complete_Some[OF Some]
      by (auto simp: logical_cut_def Let_def split: if_splits)
  qed
  then show ?thesis using c by auto
qed

section \<open>Lemmas: the loop produces a chain\<close>

fun chunk_chain ::
  "digests \<Rightarrow> string \<Rightarrow> string \<Rightarrow> string \<Rightarrow> int \<Rightarrow> int \<Rightarrow> tchunk list \<Rightarrow> bool" where
  "chunk_chain h sid rv v idx start [] \<longleftrightarrow> start = int (length v)"
| "chunk_chain h sid rv v idx start (c # cs) \<longleftrightarrow>
     c_source_id c = sid \<and> c_source_revision c = rv \<and> c_chunk_index c = idx \<and>
     c_char_start c = start \<and> start < c_char_end c \<and> c_char_end c \<le> int (length v) \<and>
     c_raw_content c = slice v start (c_char_end c) \<and>
     c_content_sha256 c = sha256_text h (c_raw_content c) \<and>
     chunk_chain h sid rv v (idx + 1) (c_char_end c) cs"

lemma make_chunk_simps [simp]:
  "c_source_id (make_chunk h p now v s i c) = p_source_id p"
  "c_source_revision (make_chunk h p now v s i c) = p_revision p"
  "c_chunk_index (make_chunk h p now v s i c) = int i"
  "c_char_start (make_chunk h p now v s i c) = s"
  "c_char_end (make_chunk h p now v s i c) = cut_end c"
  "c_raw_content (make_chunk h p now v s i c) = slice v s (cut_end c)"
  "c_content_sha256 (make_chunk h p now v s i c) = sha256_text h (slice v s (cut_end c))"
  by (simp_all add: make_chunk_def Let_def)

lemma chunk_loop_chain:
  assumes "chunk_loop h p now v start index li = Inr cs"
    and "0 < p_max_chars p" "0 \<le> start" "start \<le> int (length v)"
  shows "chunk_chain h (p_source_id p) (p_revision p) v (int index) start cs"
  using assms
proof (induction h p now v start index li arbitrary: cs rule: chunk_loop.induct)
  case (1 h p now v start index li)
  show ?case
  proof (cases "start < int (length v)")
    case False
    then show ?thesis using 1 by (subst (asm) chunk_loop.simps) auto
  next
    case True
    obtain c rest where c: "next_cut p v start li = Inr c"
      and rest: "chunk_loop h p now v (cut_end c) (Suc index) (cut_logical_index c) = Inr rest"
      and cs: "cs = make_chunk h p now v start index c # rest"
      using True 1(2,3) by (subst (asm) chunk_loop.simps) (auto split: sum.splits)
    have fwd: "start < cut_end c" using next_cut_progress c 1(3) True by blast
    moreover have le: "cut_end c \<le> int (length v)" using next_cut_le c True 1(3) by force
    moreover have "chunk_chain h (p_source_id p) (p_revision p) v (int (Suc index)) (cut_end c) rest"
      using 1(1)[OF _ c rest] True 1(3,4) fwd le by simp
    ultimately show ?thesis using cs by (simp add: add.commute)
  qed
qed

lemma chunk_chain_index_ge:
  "chunk_chain h sid rv v idx start cs \<Longrightarrow> c \<in> set cs \<Longrightarrow> idx \<le> c_chunk_index c"
  by (induction cs arbitrary: idx start) force+

lemma chunk_chain_sorted:
  "chunk_chain h sid rv v idx start cs \<Longrightarrow> sorted (map c_chunk_index cs)"
proof (induction cs arbitrary: idx start)
  case (Cons c cs)
  then have "\<forall>d\<in>set cs. idx + 1 \<le> c_chunk_index d" using chunk_chain_index_ge by fastforce
  then show ?case using Cons by force
qed simp

lemma chunk_chain_reconstruct:
  "chunk_chain h sid rv v idx start cs \<Longrightarrow> 0 \<le> start \<Longrightarrow>
   \<exists>contents. reconstruct_loop h sid rv idx start cs = Inr contents \<and>
     concat contents = drop (nat start) v"
proof (induction cs arbitrary: idx start)
  case Nil
  then show ?case by simp
next
  case (Cons c cs)
  then have b: "0 \<le> start" "start < c_char_end c" "c_char_end c \<le> int (length v)"
    and raw: "c_raw_content c = slice v start (c_char_end c)" by auto
  from Cons.IH[of "idx + 1" "c_char_end c"] Cons.prems b obtain contents where
    IH: "reconstruct_loop h sid rv (idx + 1) (c_char_end c) cs = Inr contents"
        "concat contents = drop (nat (c_char_end c)) v" by auto
  have "int (length (c_raw_content c)) = c_char_end c - start"
    unfolding raw using b by (intro length_slice) auto
  then show ?case using Cons.prems IH b slice_append_drop[of start "c_char_end c" v] raw by auto
qed

lemma chunk_chain_concat:
  "chunk_chain h sid rv v idx start cs \<Longrightarrow> 0 \<le> start \<Longrightarrow>
   concat (map c_raw_content cs) = drop (nat start) v"
proof (induction cs arbitrary: idx start)
  case (Cons c cs)
  then show ?case using slice_append_drop[of start "c_char_end c" v] by auto
qed simp

lemma chunk_transcript_text_chain:
  assumes "chunk_transcript_text h now v sid pn cl ses rv mx us = Inr cs" "v \<noteq> []"
  obtains rv' where "chunk_chain h sid rv' v 0 0 cs"
  using assms chunk_loop_chain[where start = 0 and index = 0 and li = 0 and h = h]
  by (fastforce simp: chunk_transcript_text_def Let_def split: if_splits sum.splits)

lemma chunk_transcript_text_empty:
  "chunk_transcript_text h now [] sid pn cl ses rv mx us = Inr cs \<Longrightarrow> cs = []"
  by (simp add: chunk_transcript_text_def split: if_splits)

section \<open>Lemmas: validated units partition the text\<close>

fun units_partition :: "int \<Rightarrow> logical_unit list \<Rightarrow> int \<Rightarrow> bool" where
  "units_partition s [] t \<longleftrightarrow> s = t"
| "units_partition s (u # us) t \<longleftrightarrow>
     u_char_start u = s \<and> s < u_char_end u \<and> units_partition (u_char_end u) us t"

lemma validate_units_loop_partition:
  "validate_units_loop len s seen us = Inr t \<Longrightarrow> units_partition s us t"
  by (induction len s seen us rule: validate_units_loop.induct) (auto split: if_splits)

lemma validate_logical_units_partition:
  "validate_logical_units v (Some us) = Inr r \<Longrightarrow>
   r = Some us \<and> us \<noteq> [] \<and> units_partition 0 us (int (length v))"
  by (auto simp: validate_logical_units_def dest: validate_units_loop_partition
      split: if_splits sum.splits)

lemma units_partition_le: "units_partition s us t \<Longrightarrow> s \<le> t"
  by (induction us arbitrary: s) fastforce+

lemma units_partition_range:
  "units_partition s us t \<Longrightarrow> u \<in> set us \<Longrightarrow> s \<le> u_char_start u \<and> u_char_start u < u_char_end u \<and> u_char_end u \<le> t"
proof (induction us arbitrary: s)
  case (Cons w ws)
  then show ?case using units_partition_le[of "u_char_end w" ws t] by fastforce
qed simp

lemma units_partition_unique:
  assumes "units_partition s us t" "u \<in> set us" "w \<in> set us"
    and "u_char_start u < e" "e < u_char_end u" "u_char_start w < e" "e \<le> u_char_end w"
  shows "u = w"
  using assms
proof (induction us arbitrary: s)
  case (Cons x xs)
  have tail: "u_char_end x \<le> u_char_start y" if "y \<in> set xs" for y
    using units_partition_range[of "u_char_end x" xs t y] Cons.prems(1) that by simp
  show ?case
  proof (cases "u \<in> set xs \<and> w \<in> set xs")
    case True
    then show ?thesis using Cons by auto
  next
    case False
    then show ?thesis using Cons.prems tail[of u] tail[of w] by auto
  qed
qed simp

lemma units_partition_drop:
  "units_partition s us t \<Longrightarrow> n < length us \<Longrightarrow>
   units_partition (u_char_end (us ! n)) (drop (Suc n) us) t"
  by (induction us arbitrary: s n) (auto simp: nth_Cons split: nat.splits)

text \<open>
  The loop invariant with logical units: \<open>start\<close> lies in unit \<open>li\<close>, and strictly inside it only
  when that unit alone exceeds the limit.
\<close>

definition unit_at :: "int \<Rightarrow> logical_unit list \<Rightarrow> nat \<Rightarrow> int \<Rightarrow> int \<Rightarrow> bool" where
  "unit_at mx us li start len \<longleftrightarrow>
     start = len \<or>
     (\<exists>u rest. drop li us = u # rest \<and> u_char_start u \<le> start \<and> start < u_char_end u \<and>
        units_partition (u_char_end u) rest len \<and>
        (start \<noteq> u_char_start u \<longrightarrow> mx < u_char_end u - u_char_start u))"

definition at_unit_end_or_in_oversized :: "int \<Rightarrow> logical_unit list \<Rightarrow> int \<Rightarrow> bool" where
  "at_unit_end_or_in_oversized mx us e \<longleftrightarrow>
     (\<exists>w\<in>set us. u_char_start w < e \<and> e \<le> u_char_end w \<and>
        (e = u_char_end w \<or> mx < u_char_end w - u_char_start w))"

lemma unit_at_start:
  "units_partition 0 us len \<Longrightarrow> us \<noteq> [] \<Longrightarrow> unit_at mx us 0 0 len"
  by (cases us) (auto simp: unit_at_def)

lemma logical_cut_step:
  assumes at: "unit_at mx us li start len" and lt: "start < len" and mx: "1 \<le> mx"
    and he: "he = min (start + mx) len"
  shows "\<exists>c. logical_cut us start he li = Inr c \<and> start < cut_end c \<and> cut_end c \<le> he \<and>
           unit_at mx us (cut_logical_index c) (cut_end c) len \<and>
           at_unit_end_or_in_oversized mx us (cut_end c)"
proof -
  obtain u rest where d: "drop li us = u # rest" and u: "u_char_start u \<le> start" "start < u_char_end u"
    and part: "units_partition (u_char_end u) rest len"
    and big: "start \<noteq> u_char_start u \<longrightarrow> mx < u_char_end u - u_char_start u"
    using at lt by (auto simp: unit_at_def)
  have li: "li < length us" and u_nth: "us ! li = u"
    using d by (auto simp: nth_via_drop) (metis drop_all list.distinct(1) not_less)
  have u_in: "u \<in> set us" using li u_nth by auto
  have u_le: "u_char_end u \<le> len" using part by (rule units_partition_le)
  have full: "units_partition (u_char_start u) (u # rest) len" using part u by simp
  show ?thesis
  proof (cases "scan_complete (drop li us) he li None")
    case None
    then have gt: "he < u_char_end u"
      using d by (auto simp: scan_complete_closed Let_def split: if_splits)
    then have eq: "he = start + mx" using he u_le by linarith
    have over: "mx < u_char_end u - u_char_start u" using eq gt u by linarith
    have "unit_at mx us li he len"
      unfolding unit_at_def using d u eq gt part over mx by auto
    moreover have "at_unit_end_or_in_oversized mx us he"
      unfolding at_unit_end_or_in_oversized_def using u_in over u eq gt mx
      by (intro bexI[of _ u]) auto
    ultimately show ?thesis using None li u_nth gt eq mx
      by (auto simp: logical_cut_def Let_def)
  next
    case (Some i)
    define n where "n = i - li"
    have i: "i = li + n" "i < length us" "u_char_end (us ! i) \<le> he"
      using scan_complete_Some[OF Some] by (auto simp: n_def)
    let ?w = "us ! i"
    have w_nth: "(u # rest) ! n = ?w" using d i by (metis nth_drop li less_imp_le)
    have n_len: "n < length (u # rest)" using d i by (metis length_drop less_diff_conv add.commute)
    have w_in: "?w \<in> set (u # rest)" using w_nth n_len by (metis nth_mem)
    have part_w: "units_partition (u_char_end ?w) (drop (Suc i) us) len"
    proof -
      have "drop (Suc n) (u # rest) = drop (Suc i) us" using d i by (metis add_Suc_right drop_drop add.commute)
      then show ?thesis using units_partition_drop[OF full n_len] w_nth by metis
    qed
    have gt: "start < u_char_end ?w"
      using w_in u units_partition_range[OF part, of ?w] by auto
    have "unit_at mx us (Suc i) (u_char_end ?w) len"
      using part_w by (cases "drop (Suc i) us") (auto simp: unit_at_def)
    moreover have "at_unit_end_or_in_oversized mx us (u_char_end ?w)"
      unfolding at_unit_end_or_in_oversized_def using i units_partition_range[OF full w_in]
      by (intro bexI[of _ ?w]) auto
    ultimately show ?thesis using Some li i gt by (auto simp: logical_cut_def Let_def)
  qed
qed

lemma chunk_loop_units:
  assumes "p_units p = Some us" "1 \<le> p_max_chars p" "unit_at (p_max_chars p) us li start (int (length v))"
    and "0 \<le> start" "start \<le> int (length v)"
  shows "\<exists>cs. chunk_loop h p now v start index li = Inr cs \<and>
     (\<forall>c\<in>set cs. c_char_end c - c_char_start c \<le> p_max_chars p \<and>
        at_unit_end_or_in_oversized (p_max_chars p) us (c_char_end c))"
  using assms
proof (induction h p now v start index li rule: chunk_loop.induct)
  case (1 h p now v start index li)
  show ?case
  proof (cases "start < int (length v)")
    case False
    then show ?thesis by (subst chunk_loop.simps) auto
  next
    case True
    let ?he = "min (start + p_max_chars p) (int (length v))"
    obtain c where c: "logical_cut us start ?he li = Inr c" "start < cut_end c" "cut_end c \<le> ?he"
      "unit_at (p_max_chars p) us (cut_logical_index c) (cut_end c) (int (length v))"
      "at_unit_end_or_in_oversized (p_max_chars p) us (cut_end c)"
      using logical_cut_step[OF 1(4) True 1(3) refl] by blast
    have nc: "next_cut p v start li = Inr c" using c 1(2) by (simp add: next_cut_def Let_def)
    obtain cs where "chunk_loop h p now v (cut_end c) (Suc index) (cut_logical_index c) = Inr cs"
      "\<forall>d\<in>set cs. c_char_end d - c_char_start d \<le> p_max_chars p \<and>
         at_unit_end_or_in_oversized (p_max_chars p) us (c_char_end d)"
      using 1(1)[OF _ nc] c 1(2,3,5) True by auto
    then show ?thesis using nc True 1(3) c by (subst chunk_loop.simps) auto
  qed
qed

lemma chunk_loop_newlines:
  assumes "p_units p = None" "1 \<le> p_max_chars p" "0 \<le> start" "start \<le> int (length v)"
  shows "\<exists>cs. chunk_loop h p now v start index li = Inr cs \<and>
     (\<forall>c\<in>set cs. c_char_end c - c_char_start c \<le> p_max_chars p + 1 \<and>
        (c_char_end c - c_char_start c = p_max_chars p + 1 \<longrightarrow> v ! nat (c_char_end c - 1) = newline))"
  using assms
proof (induction h p now v start index li rule: chunk_loop.induct)
  case (1 h p now v start index li)
  show ?case
  proof (cases "start < int (length v)")
    case False
    then show ?thesis by (subst chunk_loop.simps) auto
  next
    case True
    let ?he = "min (start + p_max_chars p) (int (length v))"
    let ?c = "newline_cut v start ?he li"
    let ?b = "rfind_newline v (start + 1) (?he + 1)"
    have b: "?b \<noteq> -1 \<longrightarrow> start + 1 \<le> ?b \<and> ?b \<le> ?he \<and> ?b < int (length v) \<and> v ! nat ?b = newline"
      using rfind_newline_range[OF refl, of v "start + 1" "?he + 1"] by auto
    have ce: "start < cut_end ?c" "cut_end ?c \<le> int (length v)" "cut_end ?c \<le> ?he + 1"
      and nl: "cut_end ?c = ?he + 1 \<longrightarrow> v ! nat ?he = newline"
      using b True 1(3,4) by (auto simp: newline_cut_def Let_def)
    have nc: "next_cut p v start li = Inr ?c" using ce 1(2) by (simp add: next_cut_def Let_def)
    obtain cs where cs: "chunk_loop h p now v (cut_end ?c) (Suc index) (cut_logical_index ?c) = Inr cs"
      "\<forall>d\<in>set cs. c_char_end d - c_char_start d \<le> p_max_chars p + 1 \<and>
        (c_char_end d - c_char_start d = p_max_chars p + 1 \<longrightarrow> v ! nat (c_char_end d - 1) = newline)"
      using 1(1)[OF _ nc] ce 1(2-4) True by auto
    have "chunk_loop h p now v start index li = Inr (make_chunk h p now v start index ?c # cs)"
      using nc cs(1) True 1(3) by (subst chunk_loop.simps) auto
    moreover have "cut_end ?c - start \<le> p_max_chars p + 1" using ce(3) by linarith
    moreover have "cut_end ?c - start = p_max_chars p + 1 \<Longrightarrow> v ! nat (cut_end ?c - 1) = newline"
    proof -
      assume "cut_end ?c - start = p_max_chars p + 1"
      then have "cut_end ?c = ?he + 1" using ce(3) by linarith
      then show ?thesis using nl by simp
    qed
    ultimately show ?thesis using cs(2) by auto
  qed
qed

lemma chunk_transcript_text_total:
  assumes "1 \<le> mx" "v = [] \<or> is_ok (validate_logical_units v us)"
  shows "\<exists>cs. chunk_transcript_text h now v sid pn cl ses rv mx us = Inr cs"
proof (cases "v = []")
  case True
  then show ?thesis using assms by (simp add: chunk_transcript_text_def)
next
  case False
  then obtain r where r: "validate_logical_units v us = Inr r" using assms by (auto simp: is_ok_iff)
  let ?p = "\<lparr> p_source_id = sid, p_project_name = pn, p_client = cl, p_session_id = ses,
     p_revision = (if truthy rv then the rv else transcript_revision h v),
     p_max_chars = mx, p_units = r \<rparr>"
  have "\<exists>cs. chunk_loop h ?p now v 0 0 0 = Inr cs"
  proof (cases us)
    case None
    then have "p_units ?p = None" using r by (simp add: validate_logical_units_def)
    then show ?thesis using chunk_loop_newlines[of ?p 0 v h now 0 0] assms by auto
  next
    case (Some units)
    then have u: "r = Some units" "units \<noteq> []" "units_partition 0 units (int (length v))"
      using validate_logical_units_partition r by auto
    then show ?thesis
      using chunk_loop_units[of ?p units 0 0 v h now 0] unit_at_start assms by auto
  qed
  then show ?thesis using assms False r by (auto simp: chunk_transcript_text_def Let_def)
qed

lemma reconstruct_chunks:
  assumes "chunk_transcript_text h now v sid pn cl ses rv mx us = Inr cs"
  shows "reconstruct_transcript h cs (Some (sha256_text h v)) = Inr v"
proof (cases "v = []")
  case True
  then have "cs = []" using assms chunk_transcript_text_empty by blast
  then show ?thesis using True by (simp add: reconstruct_transcript_def)
next
  case False
  then obtain rv' where ch: "chunk_chain h sid rv' v 0 0 cs"
    using assms chunk_transcript_text_chain by blast
  then obtain c cs' where cs: "cs = c # cs'" using False by (cases cs) auto
  have "sort_key c_chunk_index cs = cs" using ch by (intro sort_key_id_if_sorted chunk_chain_sorted)
  then show ?thesis using ch chunk_chain_reconstruct[OF ch] cs
    by (auto simp: reconstruct_transcript_def Let_def simp del: reconstruct_loop.simps chunk_chain.simps(2)
        dest: chunk_chain.simps(2)[THEN iffD1])
qed

lemma reconstruct_loop_sound:
  "reconstruct_loop h sid rv i s cs = Inr contents \<Longrightarrow>
   map c_chunk_index cs = map (\<lambda>k. i + int k) [0..<length cs] \<and> contents = map c_raw_content cs \<and>
   (\<forall>c\<in>set cs. c_source_id c = sid \<and> c_source_revision c = rv \<and>
      sha256_text h (c_raw_content c) = c_content_sha256 c)"
proof (induction cs arbitrary: i s contents)
  case (Cons c cs)
  then obtain rest where
    rest: "reconstruct_loop h sid rv (i + 1) (c_char_end c) cs = Inr rest" "contents = c_raw_content c # rest"
    and c: "c_chunk_index c = i" "c_source_id c = sid" "c_source_revision c = rv"
      "sha256_text h (c_raw_content c) = c_content_sha256 c"
    by (auto split: if_splits sum.splits)
  have "map (\<lambda>k. i + int k) [0..<length (c # cs)] = i # map (\<lambda>k. (i + 1) + int k) [0..<length cs]"
    by (simp add: upt_conv_Cons map_Suc_upt[symmetric] del: upt_Suc map_Suc_upt)
  then show ?case using Cons.IH[OF rest(1)] rest(2) c by simp
qed simp

section \<open>Properties\<close>

text \<open>C22: Chunking is lossless.  For any positive limit and any text whose logical units (if given)
  validate, chunking succeeds and reconstructing the chunks with the text's own digest as the
  expected hash gives back exactly the text.\<close>

theorem chunk_reconstruct_roundtrip:
  assumes "1 \<le> max_chars" and "v = [] \<or> is_ok (validate_logical_units v units)"
  shows "\<exists>cs. chunk_transcript_text h now v sid pn cl ses rv max_chars units = Inr cs \<and>
     reconstruct_transcript h cs (Some (sha256_text h v)) = Inr v"
  using chunk_transcript_text_total[OF assms] reconstruct_chunks by blast

definition demo_digests :: digests where
  "demo_digests = \<lparr> sha256_hex = (\<lambda>s. s), uuid5_url = (\<lambda>s. s) \<rparr>"

theorem chunk_reconstruct_roundtrip_witness:
  "\<exists>cs. chunk_transcript_text demo_digests 0 ''abcdef'' ''s'' ''p'' ''c'' ''x'' None 4
      (Some [\<lparr>u_char_start = 0, u_char_end = 3, u_unit_id = ''a'', u_kind = ''message''\<rparr>,
             \<lparr>u_char_start = 3, u_char_end = 6, u_unit_id = ''b'', u_kind = ''message''\<rparr>]) = Inr cs \<and>
     reconstruct_transcript demo_digests cs (Some (sha256_text demo_digests ''abcdef'')) = Inr ''abcdef''"
  by (rule chunk_reconstruct_roundtrip) (simp_all add: validate_logical_units_def)

text \<open>With validated logical units every chunk is within the limit and no unit that fits in the
  limit is ever split: a chunk ends at the end of a unit, or inside a unit that alone exceeds
  the limit.\<close>

theorem chunk_keeps_units_intact:
  assumes "1 \<le> max_chars" and "validate_logical_units v (Some units) = Inr (Some units)"
    and "chunk_transcript_text h now v sid pn cl ses rv max_chars (Some units) = Inr cs"
    and "c \<in> set cs" and "u \<in> set units" and "u_char_end u - u_char_start u \<le> max_chars"
  shows "c_char_end c - c_char_start c \<le> max_chars \<and>
     \<not> (u_char_start u < c_char_end c \<and> c_char_end c < u_char_end u)"
proof -
  let ?p = "\<lparr> p_source_id = sid, p_project_name = pn, p_client = cl, p_session_id = ses,
     p_revision = (if truthy rv then the rv else transcript_revision h v),
     p_max_chars = max_chars, p_units = Some units \<rparr>"
  have part: "units \<noteq> []" "units_partition 0 units (int (length v))"
    using assms(2) validate_logical_units_partition by auto
  have ne: "v \<noteq> []" using assms(3,4) chunk_transcript_text_empty by fastforce
  have loop: "chunk_loop h ?p now v 0 0 0 = Inr cs"
    using assms(1-3) ne by (simp add: chunk_transcript_text_def Let_def)
  have "c_char_end c - c_char_start c \<le> max_chars \<and>
      at_unit_end_or_in_oversized max_chars units (c_char_end c)"
    using chunk_loop_units[of ?p units 0 0 v h now 0] loop unit_at_start part assms(1,4) by auto
  then show ?thesis
    using units_partition_unique[OF part(2), of u] assms(5,6)
    by (fastforce simp: at_unit_end_or_in_oversized_def)
qed

theorem chunk_keeps_units_intact_witness:
  "\<exists>cs c. chunk_transcript_text demo_digests 0 ''abcdef'' ''s'' ''p'' ''c'' ''x'' None 4
      (Some [\<lparr>u_char_start = 0, u_char_end = 3, u_unit_id = ''a'', u_kind = ''message''\<rparr>,
             \<lparr>u_char_start = 3, u_char_end = 6, u_unit_id = ''b'', u_kind = ''message''\<rparr>]) = Inr cs \<and>
     c \<in> set cs \<and> c_char_end c = 3 \<and> c_char_end c - c_char_start c \<le> 4"
proof -
  let ?us = "[\<lparr>u_char_start = 0, u_char_end = 3, u_unit_id = ''a'', u_kind = ''message''\<rparr>,
             \<lparr>u_char_start = 3, u_char_end = 6, u_unit_id = ''b'', u_kind = ''message''\<rparr>]"
  let ?r = "chunk_transcript_text demo_digests 0 ''abcdef'' ''s'' ''p'' ''c'' ''x'' None 4 (Some ?us)"
  have v: "validate_logical_units ''abcdef'' (Some ?us) = Inr (Some ?us)"
    by (simp add: validate_logical_units_def)
  have "(case ?r of Inl e \<Rightarrow> False | Inr cs \<Rightarrow> cs \<noteq> [] \<and> c_char_end (hd cs) = 3)" by code_simp
  then obtain c cs where r: "?r = Inr (c # cs)" and c: "c_char_end c = 3"
    by (cases ?r; cases "projr ?r") auto
  have "c_char_end c - c_char_start c \<le> 4"
    using chunk_keeps_units_intact[OF _ v r, of c "hd ?us"] by simp
  then show ?thesis using r c by auto
qed

text \<open>Without logical units a chunk can exceed the limit, by exactly one character: when a newline
  sits right at the hard limit the search for a boundary (whose end is \<open>hard_end + 1\<close>) finds it and
  the chunk takes it in.  It is never longer than that.\<close>

theorem chunk_newline_overrun:
  assumes "1 \<le> max_chars" and "max_chars < int (length v)" and "v ! nat max_chars = newline"
  shows "\<exists>c cs. chunk_transcript_text h now v sid pn cl ses rv max_chars None = Inr (c # cs) \<and>
     int (length (c_raw_content c)) = max_chars + 1 \<and>
     (\<forall>d\<in>set cs. c_char_end d - c_char_start d \<le> max_chars + 1)"
proof -
  let ?p = "\<lparr> p_source_id = sid, p_project_name = pn, p_client = cl, p_session_id = ses,
     p_revision = (if truthy rv then the rv else transcript_revision h v),
     p_max_chars = max_chars, p_units = None \<rparr>"
  obtain cs where cs: "chunk_loop h ?p now v 0 0 0 = Inr cs"
    "\<forall>d\<in>set cs. c_char_end d - c_char_start d \<le> max_chars + 1"
    using chunk_loop_newlines[of ?p 0 v h now 0 0] assms(1) by auto
  have len: "0 < int (length v)" using assms by linarith
  have "rfind_newline v 1 (max_chars + 1) = max_chars"
  proof -
    let ?hits = "filter (\<lambda>i. v ! nat i = newline) [1..max_chars]"
    have "[1..max_chars] = [1..max_chars - 1] @ [max_chars]"
      using assms(1) by (simp add: upto_rec2)
    then have "?hits \<noteq> [] \<and> last ?hits = max_chars" using assms(3) by simp
    moreover have "min (max_chars + 1) (int (length v)) - 1 = max_chars" using assms(2) by simp
    ultimately show ?thesis by (simp add: rfind_newline_def Let_def)
  qed
  then have nc: "next_cut ?p v 0 0 = Inr (newline_cut v 0 max_chars 0)"
    and ce: "cut_end (newline_cut v 0 max_chars 0) = max_chars + 1"
    using assms(1,2) by (auto simp: next_cut_def newline_cut_def Let_def)
  obtain rest where "cs = make_chunk h ?p now v 0 0 (newline_cut v 0 max_chars 0) # rest"
    using cs(1) nc len assms(1) by (subst (asm) chunk_loop.simps) (auto split: sum.splits)
  moreover have "int (length (slice v 0 (max_chars + 1))) = max_chars + 1"
    using assms length_slice[of 0 "max_chars + 1" v] by simp
  ultimately show ?thesis using cs ce len assms(1)
    by (auto simp: chunk_transcript_text_def validate_logical_units_def Let_def)
qed

theorem chunk_newline_overrun_witness:
  "\<exists>c cs. chunk_transcript_text demo_digests 0 (''abc'' @ [newline] @ ''d'') ''s'' ''p'' ''c'' ''x''
      None 3 None = Inr (c # cs) \<and> int (length (c_raw_content c)) = 4"
  using chunk_newline_overrun[of 3 "''abc'' @ [newline] @ ''d''" demo_digests 0 "''s''" "''p''" "''c''" "''x''" None]
  by (auto simp: eval_nat_numeral)

text \<open>Whatever chunks are offered, in whatever order, a successful reconstruction proves that
  they are exactly the chunks \<open>0..n-1\<close> of one source revision with valid content hashes, that the
  result is their concatenation in index order, and that it has the expected digest.\<close>

theorem reconstruct_sound:
  assumes "reconstruct_transcript h chunks (Some d) = Inr v" and "chunks \<noteq> []"
  shows "map c_chunk_index (sort_key c_chunk_index chunks) = map int [0..<length chunks] \<and>
     v = concat (map c_raw_content (sort_key c_chunk_index chunks)) \<and> sha256_text h v = d \<and>
     (\<forall>c\<in>set chunks. c_source_id c = c_source_id (hd chunks) \<and>
        c_source_revision c = c_source_revision (hd chunks) \<and>
        sha256_text h (c_raw_content c) = c_content_sha256 c)"
proof -
  let ?s = "sort_key c_chunk_index chunks"
  obtain c0 cs where s: "?s = c0 # cs" using assms(2) by (cases ?s) (auto dest: arg_cong[where f = set])
  obtain contents where r: "reconstruct_loop h (c_source_id c0) (c_source_revision c0) 0 0 ?s = Inr contents"
    and v: "v = concat contents" "sha256_text h v = d"
    using assms(1) unfolding reconstruct_transcript_def s
    by (auto simp: Let_def simp del: reconstruct_loop.simps split: sum.splits if_splits)
  have len: "length ?s = length chunks" and set: "set ?s = set chunks" by simp_all
  show ?thesis using reconstruct_loop_sound[OF r] v set len assms(2) by auto
qed

theorem reconstruct_sound_witness:
  "\<exists>cs. cs \<noteq> [] \<and> reconstruct_transcript demo_digests (rev cs) (Some ''abcdef'') = Inr ''abcdef'' \<and>
     map c_chunk_index (sort_key c_chunk_index (rev cs)) = [0, 1]"
proof -
  let ?r = "chunk_transcript_text demo_digests 0 ''abcdef'' ''s'' ''p'' ''c'' ''x'' None 4 None"
  have "(case ?r of Inl e \<Rightarrow> False | Inr cs \<Rightarrow> length cs = 2 \<and>
      reconstruct_transcript demo_digests (rev cs) (Some ''abcdef'') = Inr ''abcdef'')" by code_simp
  then obtain cs where cs: "length cs = 2"
    "reconstruct_transcript demo_digests (rev cs) (Some ''abcdef'') = Inr ''abcdef''"
    by (cases ?r) auto
  moreover have "rev cs \<noteq> []" using cs(1) by auto
  ultimately show ?thesis using reconstruct_sound[OF cs(2)] by (auto simp: upt_rec numeral_2_eq_2)
qed

lemma chunk_chain_bound:
  "chunk_chain h sid rv v idx start cs \<Longrightarrow>
   int (length cs) \<le> int (length v) - start \<and>
   list_all (\<lambda>c. 0 < length (c_raw_content c)) cs \<and> map c_chunk_index cs = map (\<lambda>k. idx + int k) [0..<length cs]"
  if "0 \<le> start" for start
  using that
proof (induction cs arbitrary: idx start)
  case (Cons c cs)
  have "int (length (slice v start (c_char_end c))) = c_char_end c - start"
    using Cons.prems by (intro length_slice) auto
  moreover have "[0..<Suc (length cs)] = 0 # map Suc [0..<length cs]" by (metis map_Suc_upt upt_conv_Cons zero_less_Suc)
  ultimately show ?case using Cons.prems Cons.IH[of "idx + 1" "c_char_end c"]
    by (auto simp del: upt_Suc simp: o_def)
qed simp

text \<open>C40: Chunking terminates.  For a positive limit and units that validate it returns after at most one
  round per character of the text, for the empty text after none; every chunk it makes is nonempty and
  the chunks are numbered from zero without gaps.\<close>

theorem chunking_terminates:
  assumes "1 \<le> max_chars" and "v = [] \<or> is_ok (validate_logical_units v units)"
  shows "\<exists>cs. chunk_transcript_text h now v sid pn cl ses rv max_chars units = Inr cs \<and>
    length cs \<le> length v \<and> list_all (\<lambda>c. c_raw_content c \<noteq> []) cs \<and>
    map c_chunk_index cs = map int [0..<length cs]"
proof -
  obtain cs where cs: "chunk_transcript_text h now v sid pn cl ses rv max_chars units = Inr cs"
    using chunk_transcript_text_total[OF assms] by blast
  show ?thesis
  proof (cases "v = []")
    case True
    then have "cs = []" using cs chunk_transcript_text_empty by blast
    then show ?thesis using cs by simp
  next
    case False
    then obtain rv' where "chunk_chain h sid rv' v 0 0 cs" using chunk_transcript_text_chain[OF cs] by blast
    from chunk_chain_bound[OF _ this] cs show ?thesis by (auto simp: list_all_iff)
  qed
qed

theorem chunking_terminates_witness:
  "\<exists>cs. chunk_transcript_text demo_digests 0 ''abcdef'' ''s'' ''p'' ''c'' ''x'' None 4 None = Inr cs \<and> length cs \<le> 6"
  using chunking_terminates[of 4 "''abcdef''" None demo_digests 0 "''s''" "''p''" "''c''" "''x''" None]
  by (auto simp: validate_logical_units_def)

end
