(* ===== verification/DistillSchema.thy ===== *)
theory DistillSchema
  imports Prelude
begin

text \<open>
  The data of a distillation job: \<^verbatim>\<open>harness_mem/core/schemas/session_distill.py\<close> and the summary test of
  \<^verbatim>\<open>harness_mem/session_notes.py\<close>.

  \<open>job\<close> and \<open>checkpoint\<close> are the rows the queue persists (\<^verbatim>\<open>SessionDistillJob\<close>,
  \<^verbatim>\<open>DistillChunkCheckpoint\<close>), field for field; a literal type of the source is a datatype.
  \<open>validate_review\<close> is what constructing a \<^verbatim>\<open>SessionSemanticReview\<close> checks, the zero-candidate
  challenge included.  Decoding an untyped dictionary into typed fields is pydantic's work and is not
  modelled: a \<open>semantic_review\<close> holds typed fields whose constraints are still to be checked.
\<close>

section \<open>Jobs and checkpoints\<close>

datatype job_status =
  Queued | Processing | Reviewing | Completed | Retryable | Parked | Failed | Stale

datatype job_phase = PhaseChunks | PhaseReview | PhasePromotion | PhaseDone

datatype chunk_status = CkPending | CkProcessing | CkCompleted | CkRetryable | CkFailed

datatype completion_disposition = Promoted | NoCandidate | Deferred | Handoff | Conflict

datatype source_cleanup_status = Retained | Deleted | PartialFailure | Unsupported

datatype drainer_lane = LaneRecent | LaneOldest

datatype challenge_version = ChallengeV1

record job =
  j_id :: string
  j_idempotency_key :: string
  j_project_name :: string
  j_project_root :: string
  j_client :: string
  j_session_id :: string
  j_source_id :: string
  j_source_revision :: string
  j_pipeline_version :: string
  j_status :: job_status
  j_phase :: job_phase
  j_expected_chunk_count :: int
  j_completed_chunk_count :: int
  j_output_candidate_ids :: "string list"
  j_structural_audit :: jdict
  j_semantic_review :: jdict
  j_zero_candidate_challenge_version :: "challenge_version option"
  j_completion_disposition :: "completion_disposition option"
  j_completion_reason_codes :: "string list"
  j_promotion_summary :: jdict
  j_source_cleanup_status :: "source_cleanup_status option"
  j_source_cleanup_receipt_id :: "string option"
  j_retain_source :: bool
  j_manual_only :: bool
  j_error :: "string option"
  j_attempt_count :: int
  j_retry_after :: "time option"
  j_drainer_lane :: "drainer_lane option"
  j_drainer_selected_at :: "time option"
  j_agent_offer_day :: "string option"
  j_agent_offer_count :: int
  j_last_agent_offered_at :: "time option"
  j_review_lease_owner :: "string option"
  j_review_lease_until :: "time option"
  j_review_attempt_count :: int
  j_review_execution_source :: "string option"
  j_last_review_heartbeat_at :: "time option"
  j_recovery_count :: int
  j_recovery_budget :: int
  j_recovery_reason_codes :: "string list"
  j_last_recovery_at :: "time option"
  j_last_progress_at :: "time option"
  j_recovery_exhausted_at :: "time option"
  j_created_at :: time
  j_updated_at :: time
  j_completed_at :: "time option"

text \<open>A freshly constructed job: the required fields, and the defaults of the schema.\<close>

definition new_job ::
  "string \<Rightarrow> string \<Rightarrow> string \<Rightarrow> string \<Rightarrow> string \<Rightarrow> string \<Rightarrow> string \<Rightarrow> string \<Rightarrow> time \<Rightarrow> job" where
  "new_job jid key project_name project_root client session_id source_id source_revision now =
     \<lparr> j_id = jid, j_idempotency_key = key, j_project_name = project_name,
       j_project_root = project_root, j_client = client, j_session_id = session_id,
       j_source_id = source_id, j_source_revision = source_revision,
       j_pipeline_version = ''lossless-distill-v1'', j_status = Queued, j_phase = PhaseChunks,
       j_expected_chunk_count = 0, j_completed_chunk_count = 0, j_output_candidate_ids = [],
       j_structural_audit = [], j_semantic_review = [], j_zero_candidate_challenge_version = None,
       j_completion_disposition = None, j_completion_reason_codes = [], j_promotion_summary = [],
       j_source_cleanup_status = None, j_source_cleanup_receipt_id = None,
       j_retain_source = False, j_manual_only = False, j_error = None, j_attempt_count = 0,
       j_retry_after = None, j_drainer_lane = None, j_drainer_selected_at = None,
       j_agent_offer_day = None, j_agent_offer_count = 0, j_last_agent_offered_at = None,
       j_review_lease_owner = None, j_review_lease_until = None, j_review_attempt_count = 0,
       j_review_execution_source = None, j_last_review_heartbeat_at = None,
       j_recovery_count = 0, j_recovery_budget = 3, j_recovery_reason_codes = [],
       j_last_recovery_at = None, j_last_progress_at = None, j_recovery_exhausted_at = None,
       j_created_at = now, j_updated_at = now, j_completed_at = None \<rparr>"

record checkpoint =
  k_job_id :: string
  k_chunk_id :: string
  k_chunk_index :: int
  k_status :: chunk_status
  k_attempt_count :: int
  k_lease_owner :: "string option"
  k_lease_until :: "time option"
  k_result :: jdict
  k_error :: "string option"
  k_updated_at :: time
  k_completed_at :: "time option"

definition new_checkpoint :: "string \<Rightarrow> string \<Rightarrow> int \<Rightarrow> time \<Rightarrow> checkpoint" where
  "new_checkpoint job_id chunk_id chunk_index now =
     \<lparr> k_job_id = job_id, k_chunk_id = chunk_id, k_chunk_index = chunk_index,
       k_status = CkPending, k_attempt_count = 0, k_lease_owner = None, k_lease_until = None,
       k_result = [], k_error = None, k_updated_at = now, k_completed_at = None \<rparr>"

section \<open>The semantic review\<close>

datatype finding = Absent | NotDurable | CandidateRequired
datatype fidelity = FidelityComplete | FidelityPartial | FidelityContradicted
datatype utility = UtilityNone | UtilitySessionOnly | UtilityDurable
datatype conclusion = NoDurableCandidate | ConcludeCandidateRequired

record exchange_ref =
  x_exchange_index :: int
  x_content_sha256 :: string

record candidate_checks =
  cc_user_correction :: finding
  cc_explicit_decision :: finding
  cc_successful_solution :: finding
  cc_repeated_failure :: finding
  cc_rule_or_preference :: finding
  cc_reusable_workflow_or_fact :: finding
  cc_version_or_migration :: finding
  cc_unfinished_handoff :: finding

definition findings_of :: "candidate_checks \<Rightarrow> finding list" where
  "findings_of c =
     [cc_user_correction c, cc_explicit_decision c, cc_successful_solution c, cc_repeated_failure c,
      cc_rule_or_preference c, cc_reusable_workflow_or_fact c, cc_version_or_migration c,
      cc_unfinished_handoff c]"

record challenge =
  ch_source_revision :: string
  ch_evidence_fidelity :: fidelity
  ch_future_utility :: utility
  ch_checks :: candidate_checks
  ch_inspected_exchange_refs :: "exchange_ref list"
  ch_conclusion :: conclusion
  ch_rationale :: string

definition is_sha256_hex :: "string \<Rightarrow> bool" where
  "is_sha256_hex s \<longleftrightarrow> length s = 64 \<and> list_all (\<lambda>c. c \<in> set ''0123456789abcdef'') s"

definition valid_exchange_ref :: "exchange_ref \<Rightarrow> bool" where
  "valid_exchange_ref x \<longleftrightarrow> 1 \<le> x_exchange_index x \<and> is_sha256_hex (x_content_sha256 x)"

definition validate_challenge :: "challenge \<Rightarrow> py_error + challenge" where
  "validate_challenge c =
     (if ch_source_revision c = [] \<or> \<not> list_all valid_exchange_ref (ch_inspected_exchange_refs c) \<or>
         8 < length (ch_inspected_exchange_refs c) \<or>
         length (ch_rationale c) < 12 \<or> 2000 < length (ch_rationale c)
      then Inl (ValidationError ''ZeroCandidateChallenge field constraint'')
      else if (CandidateRequired \<in> set (findings_of (ch_checks c)) \<or>
               ch_future_utility c = UtilityDurable) \<and> ch_conclusion c \<noteq> ConcludeCandidateRequired
      then Inl (ValidationError ''durable utility requires candidate_required'')
      else if ch_conclusion c = NoDurableCandidate \<and> ch_evidence_fidelity c \<noteq> FidelityComplete
      then Inl (ValidationError ''no_durable_candidate requires complete evidence fidelity'')
      else if \<not> distinct (map x_exchange_index (ch_inspected_exchange_refs c))
      then Inl (ValidationError ''inspected exchange references must be unique'')
      else Inr c)"

datatype last_turn_status = TurnAnswered | TurnUnfinished | TurnUnknown
datatype evidence_status = EvAnswered | EvPartial | EvContradicted | EvNotApplicable
datatype promotion_decision = DecidePromote | DecidePartial | DecideNoPromotion | DecideBlocked

record retained_ref =
  rf_candidate_id :: string
  rf_unfinished_work_item :: string

definition nonblank_reference :: "string \<Rightarrow> py_error + string" where
  "nonblank_reference value =
     (if strip value = [] then Inl (ValidationError ''retained-state references must not be blank'')
      else Inr (strip value))"

definition validate_retained_ref :: "retained_ref \<Rightarrow> py_error + retained_ref" where
  "validate_retained_ref r =
     bind_res (nonblank_reference (rf_candidate_id r)) (\<lambda>cid.
     bind_res (nonblank_reference (rf_unfinished_work_item r)) (\<lambda>item.
       Inr \<lparr> rf_candidate_id = cid, rf_unfinished_work_item = item \<rparr>))"

record semantic_review =
  sr_session_summary :: "string option"
  sr_final_user_request :: string
  sr_final_outcome :: string
  sr_last_turn_status :: last_turn_status
  sr_contradictions :: "string list"
  sr_unfinished_work :: "string list"
  sr_retained_state_refs :: "retained_ref list"
  sr_evidence_status :: evidence_status
  sr_promotion_decision :: promotion_decision
  sr_zero_candidate_challenge :: "challenge option"
  sr_extra :: jdict

definition validate_review :: "semantic_review \<Rightarrow> py_error + semantic_review" where
  "validate_review r =
     bind_res
       (case sr_session_summary r of
          None \<Rightarrow> Inr ()
        | Some s \<Rightarrow> if length s < 12 \<or> 2000 < length s
                    then Inl (ValidationError ''session_summary length'') else Inr ()) (\<lambda>_.
     bind_res (map_res validate_retained_ref (sr_retained_state_refs r)) (\<lambda>refs.
     bind_res
       (case sr_zero_candidate_challenge r of
          None \<Rightarrow> Inr None
        | Some c \<Rightarrow> bind_res (validate_challenge c) (\<lambda>c'. Inr (Some c'))) (\<lambda>challenge.
       Inr (r\<lparr>sr_retained_state_refs := refs, sr_zero_candidate_challenge := challenge\<rparr>))))"

section \<open>The persisted form of a review\<close>

definition finding_text :: "finding \<Rightarrow> string" where
  "finding_text f = (case f of Absent \<Rightarrow> ''absent'' | NotDurable \<Rightarrow> ''not_durable''
     | CandidateRequired \<Rightarrow> ''candidate_required'')"

definition challenge_to_json :: "challenge \<Rightarrow> json" where
  "challenge_to_json c = JObj
     [(''version'', JStr ''v1''),
      (''source_revision'', JStr (ch_source_revision c)),
      (''evidence_fidelity'', JStr (case ch_evidence_fidelity c of FidelityComplete \<Rightarrow> ''complete''
         | FidelityPartial \<Rightarrow> ''partial'' | FidelityContradicted \<Rightarrow> ''contradicted'')),
      (''future_utility'', JStr (case ch_future_utility c of UtilityNone \<Rightarrow> ''none''
         | UtilitySessionOnly \<Rightarrow> ''session_only'' | UtilityDurable \<Rightarrow> ''durable'')),
      (''checks'', JObj (zip
         [''user_correction'', ''explicit_decision'', ''successful_solution'', ''repeated_failure'',
          ''rule_or_preference'', ''reusable_workflow_or_fact'', ''version_or_migration'',
          ''unfinished_handoff'']
         (map (\<lambda>f. JStr (finding_text f)) (findings_of (ch_checks c))))),
      (''inspected_exchange_refs'', JList (map (\<lambda>x. JObj
         [(''exchange_index'', JInt (x_exchange_index x)),
          (''content_sha256'', JStr (x_content_sha256 x))]) (ch_inspected_exchange_refs c))),
      (''conclusion'', JStr (case ch_conclusion c of NoDurableCandidate \<Rightarrow> ''no_durable_candidate''
         | ConcludeCandidateRequired \<Rightarrow> ''candidate_required'')),
      (''rationale'', JStr (ch_rationale c))]"

text \<open>\<^verbatim>\<open>model_dump(mode="json", exclude_none=True)\<close>: absent options are left out.\<close>

definition review_to_dict :: "semantic_review \<Rightarrow> jdict" where
  "review_to_dict r =
     (case sr_session_summary r of None \<Rightarrow> [] | Some s \<Rightarrow> [(''session_summary'', JStr s)]) @
     [(''final_user_request'', JStr (sr_final_user_request r)),
      (''final_outcome'', JStr (sr_final_outcome r)),
      (''last_turn_status'', JStr (case sr_last_turn_status r of TurnAnswered \<Rightarrow> ''answered''
         | TurnUnfinished \<Rightarrow> ''unfinished'' | TurnUnknown \<Rightarrow> ''unknown'')),
      (''contradictions'', JList (map JStr (sr_contradictions r))),
      (''unfinished_work'', JList (map JStr (sr_unfinished_work r))),
      (''retained_state_refs'', JList (map (\<lambda>f. JObj
         [(''candidate_id'', JStr (rf_candidate_id f)),
          (''unfinished_work_item'', JStr (rf_unfinished_work_item f))]) (sr_retained_state_refs r))),
      (''evidence_status'', JStr (case sr_evidence_status r of EvAnswered \<Rightarrow> ''answered''
         | EvPartial \<Rightarrow> ''partial'' | EvContradicted \<Rightarrow> ''contradicted''
         | EvNotApplicable \<Rightarrow> ''not_applicable'')),
      (''promotion_decision'', JStr (case sr_promotion_decision r of DecidePromote \<Rightarrow> ''promote''
         | DecidePartial \<Rightarrow> ''partial'' | DecideNoPromotion \<Rightarrow> ''no_promotion''
         | DecideBlocked \<Rightarrow> ''blocked''))] @
     (case sr_zero_candidate_challenge r of None \<Rightarrow> []
      | Some c \<Rightarrow> [(''zero_candidate_challenge'', challenge_to_json c)]) @
     sr_extra r"

section \<open>Session summaries\<close>

text \<open>
  A persisted review carries its summary as a string or not at all, so
  \<^verbatim>\<open>str(review.get("session_summary") or "")\<close> is the string or the empty string.
\<close>

definition summary_of :: "jdict \<Rightarrow> string" where
  "summary_of review = (case map_of review ''session_summary'' of Some (JStr s) \<Rightarrow> s | _ \<Rightarrow> [])"

definition unrecoverable_session_summary :: string where
  "unrecoverable_session_summary =
     ''The session topic could not be recovered from the available evidence.''"

definition is_meaningful_session_summary :: "string \<Rightarrow> bool" where
  "is_meaningful_session_summary value \<longleftrightarrow>
     12 \<le> length (squash value) \<and> squash value \<noteq> unrecoverable_session_summary"

section \<open>Lemmas\<close>

lemma validate_challenge_sound:
  "validate_challenge c = Inr c' \<Longrightarrow> c' = c \<and>
   (ch_conclusion c = NoDurableCandidate \<longrightarrow>
      CandidateRequired \<notin> set (findings_of (ch_checks c)) \<and> ch_future_utility c \<noteq> UtilityDurable \<and>
      ch_evidence_fidelity c = FidelityComplete) \<and>
   distinct (map x_exchange_index (ch_inspected_exchange_refs c)) \<and>
   length (ch_inspected_exchange_refs c) \<le> 8"
  by (auto simp: validate_challenge_def split: if_splits)

lemma nonblank_reference_strip:
  "nonblank_reference v = Inr w \<Longrightarrow> w = strip v \<and> w \<noteq> [] \<and> strip w = w"
  by (auto simp: nonblank_reference_def split: if_splits)

lemma validate_retained_ref_idem:
  "validate_retained_ref r = Inr r' \<Longrightarrow> validate_retained_ref r' = Inr r'"
  by (auto simp: validate_retained_ref_def nonblank_reference_def split: if_splits)

lemma validate_retained_refs_idem:
  "map_res validate_retained_ref rs = Inr rs' \<Longrightarrow> map_res validate_retained_ref rs' = Inr rs'"
  by (auto simp: map_res_Inr list_all2_conv_all_nth dest: validate_retained_ref_idem)

lemma validate_review_idem:
  assumes "validate_review r = Inr r'"
  shows "validate_review r' = Inr r'"
proof -
  obtain refs ch where
    s: "case sr_session_summary r of None \<Rightarrow> True | Some s \<Rightarrow> 12 \<le> length s \<and> length s \<le> 2000" and
    refs: "map_res validate_retained_ref (sr_retained_state_refs r) = Inr refs" and
    ch: "(case sr_zero_candidate_challenge r of None \<Rightarrow> Inr None
        | Some c \<Rightarrow> bind_res (validate_challenge c) (\<lambda>c'. Inr (Some c'))) = Inr ch" and
    r': "r' = r\<lparr>sr_retained_state_refs := refs, sr_zero_candidate_challenge := ch\<rparr>"
    using assms by (auto simp: validate_review_def bind_res_Inr split: option.splits if_splits)
  have "ch = None \<or> (\<exists>c. ch = Some c \<and> validate_challenge c = Inr c)"
    using ch by (auto simp: bind_res_Inr split: option.splits)
      (metis validate_challenge_sound)+
  then show ?thesis using s r' validate_retained_refs_idem[OF refs]
    by (auto simp: validate_review_def split: option.splits)
qed

section \<open>Properties\<close>

text \<open>The zero-candidate gate.  A review that validates and concludes that nothing durable was
  found carries a challenge in which no check demands a candidate, the utility is not durable, the
  evidence is complete and every inspected exchange is cited once; validating it again changes
  nothing.\<close>

theorem zero_candidate_gate:
  assumes "validate_review r = Inr r'" and "sr_zero_candidate_challenge r' = Some c"
    and "ch_conclusion c = NoDurableCandidate"
  shows "CandidateRequired \<notin> set (findings_of (ch_checks c)) \<and>
     ch_future_utility c \<noteq> UtilityDurable \<and> ch_evidence_fidelity c = FidelityComplete \<and>
     distinct (map x_exchange_index (ch_inspected_exchange_refs c)) \<and>
     validate_review r' = Inr r'"
proof -
  have "validate_challenge c = Inr c"
    using assms(1,2) by (auto simp: validate_review_def bind_res_Inr split: option.splits if_splits)
      (metis validate_challenge_sound)+
  then show ?thesis using validate_challenge_sound assms(3) validate_review_idem[OF assms(1)] by blast
qed

definition demo_review :: semantic_review where
  "demo_review = \<lparr> sr_session_summary = Some ''a summary of it'', sr_final_user_request = ''q'',
     sr_final_outcome = ''done'', sr_last_turn_status = TurnAnswered, sr_contradictions = [],
     sr_unfinished_work = [], sr_retained_state_refs = [], sr_evidence_status = EvAnswered,
     sr_promotion_decision = DecideNoPromotion,
     sr_zero_candidate_challenge = Some
       \<lparr> ch_source_revision = ''r'', ch_evidence_fidelity = FidelityComplete,
         ch_future_utility = UtilityNone,
         ch_checks = \<lparr> cc_user_correction = Absent, cc_explicit_decision = Absent,
           cc_successful_solution = NotDurable, cc_repeated_failure = Absent,
           cc_rule_or_preference = Absent, cc_reusable_workflow_or_fact = Absent,
           cc_version_or_migration = Absent, cc_unfinished_handoff = Absent \<rparr>,
         ch_inspected_exchange_refs = [], ch_conclusion = NoDurableCandidate,
         ch_rationale = ''nothing durable'' \<rparr>,
     sr_extra = [] \<rparr>"

lemma demo_review_valid: "validate_review demo_review = Inr demo_review"
  by (simp add: demo_review_def validate_review_def validate_challenge_def findings_of_def)

theorem zero_candidate_gate_witness:
  "validate_review demo_review = Inr demo_review \<and>
   ch_future_utility (the (sr_zero_candidate_challenge demo_review)) \<noteq> UtilityDurable"
  using zero_candidate_gate[OF demo_review_valid, of "the (sr_zero_candidate_challenge demo_review)"]
    demo_review_valid
  by (simp add: demo_review_def)

end
