(* ===== verification/Ledger.thy ===== *)
theory Ledger
  imports Chunking DistillSchema
begin

text \<open>
  The transcript ledger: \<^verbatim>\<open>harness_mem/storage/transcript_store.py\<close> over its SQLite tables, with the row
  types of \<^verbatim>\<open>harness_mem/core/schemas/transcript.py\<close>.

  A \<open>ledger\<close> is the database: one list of rows per table, in rowid order.  The columns a table
  mirrors out of a row's JSON blob are the fields of the row.  An operation of the store is a
  function from the ledger (and the clock reading \<open>now\<close>) to \<open>py_error + result \<times> ledger\<close>; an \<open>Inl\<close>
  leaves the database as it was, which is the rollback of the code.  Primary keys, unique
  constraints and foreign keys that an operation can violate are explicit \<open>IntegrityError\<close>
  branches; \<^verbatim>\<open>ON DELETE CASCADE\<close> is written out in the delete primitives.
\<close>

section \<open>Rows\<close>

datatype source_status =
  Discovered | Syncing | Synced | Changed | Missing | SourceFailed | LegacyPartial

datatype coverage = CovComplete | CovPartial | CovUnknown

record tsource =
  s_id :: string
  s_project_name :: string
  s_project_root :: string
  s_client :: string
  s_session_id :: string
  s_source_kind :: string
  s_source_uri :: string
  s_source_revision :: string
  s_raw_sha256 :: string
  s_normalized_sha256 :: string
  s_raw_size_bytes :: int
  s_normalized_size_bytes :: int
  s_mtime_ns :: "int option"
  s_parser_version :: string
  s_status :: source_status
  s_coverage :: coverage
  s_chunk_count :: int
  s_sequence_count :: int
  s_metadata :: jdict
  s_error :: "string option"
  s_created_at :: time
  s_updated_at :: time
  s_synced_at :: "time option"

record trevision =
  r_source_id :: string
  r_source_revision :: string
  r_project_name :: string
  r_project_root :: string
  r_client :: string
  r_session_id :: string
  r_source_kind :: string
  r_source_uri :: string
  r_raw_sha256 :: string
  r_normalized_sha256 :: string
  r_raw_size_bytes :: int
  r_normalized_size_bytes :: int
  r_mtime_ns :: "int option"
  r_parser_version :: string
  r_coverage :: coverage
  r_chunk_count :: int
  r_sequence_count :: int
  r_metadata :: jdict
  r_captured_at :: time

text \<open>A revision row is its metadata and the captured native bytes.\<close>

record revision_row =
  rr_data :: trevision
  rr_raw_bytes :: string

record projection_row =
  pr_source_id :: string
  pr_source_revision :: string
  pr_record_version :: string
  pr_projection_sha256 :: string
  pr_updated_at :: time
  pr_data :: jdict

record audit_row =
  a_id :: string
  a_project_name :: string
  a_deleted_at :: string
  a_reason :: string
  a_data :: jdict

record ledger =
  l_sources :: "tsource list"
  l_revisions :: "revision_row list"
  l_chunks :: "tchunk list"
  l_projections :: "projection_row list"
  l_jobs :: "job list"
  l_checkpoints :: "checkpoint list"
  l_audit :: "audit_row list"

definition empty_ledger :: ledger where
  "empty_ledger = \<lparr> l_sources = [], l_revisions = [], l_chunks = [], l_projections = [],
     l_jobs = [], l_checkpoints = [], l_audit = [] \<rparr>"

definition rr_key :: "revision_row \<Rightarrow> string \<times> string" where
  "rr_key r = (r_source_id (rr_data r), r_source_revision (rr_data r))"

definition k_key :: "checkpoint \<Rightarrow> string \<times> string" where
  "k_key k = (k_job_id k, k_chunk_id k)"

definition pr_key :: "projection_row \<Rightarrow> string \<times> string \<times> string" where
  "pr_key p = (pr_source_id p, pr_source_revision p, pr_record_version p)"

section \<open>Primitive reads and writes\<close>

definition locator :: "tsource \<Rightarrow> string \<times> string \<times> string \<times> string" where
  "locator s = (s_project_name s, s_client s, s_session_id s, s_source_uri s)"

definition upsert_source :: "tsource \<Rightarrow> ledger \<Rightarrow> py_error + ledger" where
  "upsert_source s l =
     (if list_ex (\<lambda>x. s_id x \<noteq> s_id s \<and> locator x = locator s) (l_sources l)
      then Inl (IntegrityError ''UNIQUE transcript_sources'')
      else Inr (l\<lparr>l_sources := put_row s_id s (l_sources l)\<rparr>))"

definition insert_chunk :: "tchunk \<Rightarrow> ledger \<Rightarrow> py_error + ledger" where
  "insert_chunk c l =
     (if list_ex (\<lambda>x. c_id x = c_id c) (l_chunks l)
      then Inl (IntegrityError ''PRIMARY KEY transcript_chunks'')
      else if list_ex (\<lambda>x. c_source_id x = c_source_id c \<and> c_source_revision x = c_source_revision c \<and>
                          c_chunk_index x = c_chunk_index c) (l_chunks l)
      then Inl (IntegrityError ''UNIQUE transcript_chunks'')
      else Inr (l\<lparr>l_chunks := l_chunks l @ [c]\<rparr>))"

fun insert_chunks :: "tchunk list \<Rightarrow> ledger \<Rightarrow> py_error + ledger" where
  "insert_chunks [] l = Inr l"
| "insert_chunks (c # cs) l = bind_res (insert_chunk c l) (insert_chunks cs)"

text \<open>
  Job and checkpoint upserts.  Every caller but \<open>enqueue\<close> writes back a row it has just read, with
  the key columns unchanged, so the constraints cannot fail here; \<open>enqueue\<close> checks them itself.
\<close>

definition upsert_job :: "job \<Rightarrow> ledger \<Rightarrow> ledger" where
  "upsert_job j l = l\<lparr>l_jobs := put_row j_id j (l_jobs l)\<rparr>"

definition upsert_checkpoint :: "checkpoint \<Rightarrow> ledger \<Rightarrow> ledger" where
  "upsert_checkpoint k l = l\<lparr>l_checkpoints := put_row k_key k (l_checkpoints l)\<rparr>"

definition get_job :: "string \<Rightarrow> ledger \<Rightarrow> job option" where
  "get_job i l = get_row j_id i (l_jobs l)"

definition get_checkpoint :: "string \<times> string \<Rightarrow> ledger \<Rightarrow> checkpoint option" where
  "get_checkpoint kk l = get_row k_key kk (l_checkpoints l)"

definition get_chunk :: "string \<Rightarrow> ledger \<Rightarrow> tchunk option" where
  "get_chunk i l = get_row c_id i (l_chunks l)"

definition get_source :: "string \<Rightarrow> ledger \<Rightarrow> tsource option" where
  "get_source i l = get_row s_id i (l_sources l)"

definition get_revision_row :: "string \<Rightarrow> string \<Rightarrow> ledger \<Rightarrow> revision_row option" where
  "get_revision_row i r l = get_row rr_key (i, r) (l_revisions l)"

definition get_revision :: "string \<Rightarrow> string \<Rightarrow> ledger \<Rightarrow> trevision option" where
  "get_revision i r l = map_option rr_data (get_revision_row i r l)"

definition list_checkpoints :: "string \<Rightarrow> ledger \<Rightarrow> checkpoint list" where
  "list_checkpoints i l = sort_key k_chunk_index (filter (\<lambda>k. k_job_id k = i) (l_checkpoints l))"

section \<open>Queries\<close>

definition newest_first :: "tsource list \<Rightarrow> tsource list" where
  "newest_first xs = sort_key (\<lambda>s. - s_updated_at s) xs"

definition find_source ::
  "string \<Rightarrow> string \<Rightarrow> string \<Rightarrow> string option \<Rightarrow> ledger \<Rightarrow> tsource option" where
  "find_source project_name client session_id source_uri l =
     (case newest_first (filter (\<lambda>s. s_project_name s = project_name \<and> s_client s = client \<and>
               s_session_id s = session_id \<and>
               (case source_uri of None \<Rightarrow> True | Some u \<Rightarrow> s_source_uri s = u)) (l_sources l)) of
        [] \<Rightarrow> None | s # _ \<Rightarrow> Some s)"

definition list_sources_for_session ::
  "string \<Rightarrow> string \<Rightarrow> string \<Rightarrow> ledger \<Rightarrow> tsource list" where
  "list_sources_for_session project_name client session_id l =
     newest_first (filter (\<lambda>s. s_project_name s = project_name \<and> s_client s = client \<and>
        s_session_id s = session_id) (l_sources l))"

definition list_revisions :: "string \<Rightarrow> ledger \<Rightarrow> trevision list" where
  "list_revisions i l =
     sort_key r_captured_at (map rr_data (filter (\<lambda>r. r_source_id (rr_data r) = i) (l_revisions l)))"

definition list_sources ::
  "string option \<Rightarrow> string option \<Rightarrow> source_status option \<Rightarrow> int option \<Rightarrow> ledger \<Rightarrow> tsource list" where
  "list_sources project_name client status limit l =
     (let rows = newest_first (filter (\<lambda>s.
            (case project_name of None \<Rightarrow> True | Some p \<Rightarrow> s_project_name s = p) \<and>
            (case client of None \<Rightarrow> True | Some c \<Rightarrow> s_client s = c) \<and>
            (case status of None \<Rightarrow> True | Some t \<Rightarrow> s_status s = t)) (l_sources l))
      in case limit of None \<Rightarrow> rows | Some n \<Rightarrow> take (nat (max 1 n)) rows)"

definition chunks_of :: "string \<Rightarrow> string \<Rightarrow> ledger \<Rightarrow> tchunk list" where
  "chunks_of i r l = sort_key c_chunk_index
     (filter (\<lambda>c. c_source_id c = i \<and> c_source_revision c = r) (l_chunks l))"

definition list_chunks :: "string \<Rightarrow> string option \<Rightarrow> ledger \<Rightarrow> tchunk list" where
  "list_chunks i source_revision l =
     (case source_revision of
        Some r \<Rightarrow> chunks_of i r l
      | None \<Rightarrow> (case get_source i l of None \<Rightarrow> []
                 | Some s \<Rightarrow> chunks_of i (s_source_revision s) l))"

definition current_revision_id :: "string \<Rightarrow> string option \<Rightarrow> ledger \<Rightarrow> py_error + string" where
  "current_revision_id i source_revision l =
     (case source_revision of
        Some r \<Rightarrow> Inr r
      | None \<Rightarrow> (case get_source i l of None \<Rightarrow> Inl (KeyError i)
                 | Some s \<Rightarrow> Inr (s_source_revision s)))"

definition reconstruct ::
  "digests \<Rightarrow> string \<Rightarrow> string option \<Rightarrow> ledger \<Rightarrow> py_error + string" where
  "reconstruct h i source_revision l =
     bind_res (current_revision_id i source_revision l) (\<lambda>revision_id.
       case get_revision i revision_id l of
         None \<Rightarrow> Inl (KeyError (i @ ''@'' @ revision_id))
       | Some revision \<Rightarrow>
           (let chunks = chunks_of i revision_id l in
            if chunks = [] \<and> r_normalized_size_bytes revision = 0 then Inr []
            else reconstruct_transcript h chunks (Some (r_normalized_sha256 revision))))"

definition reconstruct_raw ::
  "digests \<Rightarrow> string \<Rightarrow> string option \<Rightarrow> ledger \<Rightarrow> py_error + string" where
  "reconstruct_raw h i source_revision l =
     bind_res (current_revision_id i source_revision l) (\<lambda>revision_id.
       case get_revision_row i revision_id l of
         None \<Rightarrow> Inl (KeyError (i @ ''@'' @ revision_id))
       | Some row \<Rightarrow>
           if sha256_bytes h (rr_raw_bytes row) \<noteq> r_raw_sha256 (rr_data row)
           then Inl (ValueError ''stored transcript source bytes failed hash validation'')
           else Inr (rr_raw_bytes row))"

section \<open>Snapshots\<close>

definition save_source :: "time \<Rightarrow> tsource \<Rightarrow> ledger \<Rightarrow> py_error + ledger" where
  "save_source now s l = upsert_source (s\<lparr>s_updated_at := now\<rparr>) l"

definition validate_snapshot ::
  "digests \<Rightarrow> tsource \<Rightarrow> tchunk list \<Rightarrow> string \<Rightarrow> py_error + string" where
  "validate_snapshot h s chunks native_bytes =
     bind_res
       (if chunks = [] then Inr []
        else reconstruct_transcript h chunks (Some (s_normalized_sha256 s))) (\<lambda>normalized.
       if s_raw_sha256 s \<noteq> sha256_bytes h native_bytes
       then Inl (ValueError ''source raw hash does not match native bytes'')
       else if \<not> starts_with (''sha256:'' @ s_raw_sha256 s) (s_source_revision s)
       then Inl (ValueError ''source revision does not match native bytes'')
       else if s_normalized_sha256 s \<noteq> sha256_text h normalized
       then Inl (ValueError ''source normalized hash does not match transcript chunks'')
       else if s_raw_size_bytes s \<noteq> int (length native_bytes)
       then Inl (ValueError ''source raw size does not match native bytes'')
       else if s_normalized_size_bytes s \<noteq> int (length (utf8_encode normalized))
       then Inl (ValueError ''source normalized size does not match transcript chunks'')
       else (case check_all (\<lambda>c.
               if c_source_id c \<noteq> s_id s
               then Some (ValueError ''chunk source id does not match transcript source'')
               else if c_source_revision c \<noteq> s_source_revision s
               then Some (ValueError ''chunk revision does not match transcript source'')
               else None) chunks of
             Some e \<Rightarrow> Inl e
           | None \<Rightarrow> Inr normalized))"

definition assert_compatible_revision ::
  "digests \<Rightarrow> trevision \<Rightarrow> string \<Rightarrow> ledger \<Rightarrow> py_error + unit" where
  "assert_compatible_revision h revision normalized_text l =
     (case get_revision (r_source_id revision) (r_source_revision revision) l of
        None \<Rightarrow> Inr ()
      | Some row \<Rightarrow>
          if r_raw_sha256 row \<noteq> r_raw_sha256 revision
          then Inl (ValueError ''immutable transcript revision raw hash changed'')
          else if r_normalized_sha256 row \<noteq> sha256_text h normalized_text
          then Inl (ValueError ''immutable transcript revision normalized hash changed'')
          else Inr ())"

text \<open>Deleting chunk rows fails while a checkpoint of any job still references one of them.\<close>

definition delete_chunks :: "(tchunk \<Rightarrow> bool) \<Rightarrow> ledger \<Rightarrow> py_error + ledger" where
  "delete_chunks doomed l =
     (if list_ex (\<lambda>c. doomed c \<and> list_ex (\<lambda>k. k_chunk_id k = c_id c) (l_checkpoints l)) (l_chunks l)
      then Inl (IntegrityError ''FOREIGN KEY distill_job_chunks'')
      else Inr (l\<lparr>l_chunks := filter (\<lambda>c. \<not> doomed c) (l_chunks l)\<rparr>))"

definition snapshot_revision :: "time \<Rightarrow> tsource \<Rightarrow> nat \<Rightarrow> trevision" where
  "snapshot_revision now s n =
     \<lparr> r_source_id = s_id s, r_source_revision = s_source_revision s,
       r_project_name = s_project_name s, r_project_root = s_project_root s,
       r_client = s_client s, r_session_id = s_session_id s, r_source_kind = s_source_kind s,
       r_source_uri = s_source_uri s, r_raw_sha256 = s_raw_sha256 s,
       r_normalized_sha256 = s_normalized_sha256 s, r_raw_size_bytes = s_raw_size_bytes s,
       r_normalized_size_bytes = s_normalized_size_bytes s, r_mtime_ns = s_mtime_ns s,
       r_parser_version = s_parser_version s, r_coverage = CovComplete, r_chunk_count = int n,
       r_sequence_count = s_sequence_count s, r_metadata = s_metadata s, r_captured_at = now \<rparr>"

definition insert_revision_if_absent :: "revision_row \<Rightarrow> ledger \<Rightarrow> ledger" where
  "insert_revision_if_absent row l =
     (if rr_key row \<in> rr_key ` set (l_revisions l) then l
      else l\<lparr>l_revisions := l_revisions l @ [row]\<rparr>)"

definition save_snapshot ::
  "digests \<Rightarrow> time \<Rightarrow> tsource \<Rightarrow> tchunk list \<Rightarrow> string option \<Rightarrow> ledger \<Rightarrow> py_error + ledger" where
  "save_snapshot h now s chunks raw_bytes l =
     (let native_bytes = (case raw_bytes of Some b \<Rightarrow> b
                          | None \<Rightarrow> utf8_encode (concat (map c_raw_content chunks)))
      in bind_res (validate_snapshot h s chunks native_bytes) (\<lambda>normalized_text.
         let s' = s\<lparr>s_chunk_count := int (length chunks), s_status := Synced,
                    s_coverage := CovComplete, s_error := None, s_synced_at := Some now,
                    s_updated_at := now\<rparr>;
             revision = snapshot_revision now s' (length chunks)
         in bind_res (assert_compatible_revision h revision normalized_text l) (\<lambda>_.
            bind_res (upsert_source s' l) (\<lambda>l1.
            bind_res (delete_chunks (\<lambda>c. c_source_id c = s_id s' \<and>
                        c_source_revision c = s_source_revision s')
                      (insert_revision_if_absent
                         \<lparr> rr_data = revision, rr_raw_bytes = native_bytes \<rparr> l1))
              (insert_chunks chunks)))))"

definition mark_sources_missing_from_inventory ::
  "time \<Rightarrow> string \<Rightarrow> string \<Rightarrow> string set \<Rightarrow> ledger \<Rightarrow> py_error + tsource list \<times> ledger" where
  "mark_sources_missing_from_inventory now project_name client observed l =
     (let missing = map (\<lambda>s. s\<lparr>s_status := Missing, s_error := None, s_updated_at := now,
               s_metadata := AList.update ''missing_reason'' (JStr ''absent_from_complete_host_inventory'')
                 (AList.update ''missing_since'' (JStr (isoformat now)) (s_metadata s))\<rparr>)
            (filter (\<lambda>s. s_session_id s \<notin> observed \<and> s_status s \<noteq> Missing)
               (list_sources (Some project_name) (Some client) None (Some 100000) l))
      in bind_res (fold (\<lambda>s r. bind_res r (upsert_source s)) missing (Inr l)) (\<lambda>l'. Inr (missing, l')))"

section \<open>Tables as row stores\<close>

interpretation job_rows: row_store j_id get_job upsert_job
  by unfold_locales (auto simp: get_job_def upsert_job_def row_simps dest: get_row_key)

interpretation checkpoint_rows: row_store k_key get_checkpoint upsert_checkpoint
  by unfold_locales (auto simp: get_checkpoint_def upsert_checkpoint_def row_simps dest: get_row_key)

lemma upsert_job_frame [simp]:
  "l_sources (upsert_job j l) = l_sources l" "l_revisions (upsert_job j l) = l_revisions l"
  "l_chunks (upsert_job j l) = l_chunks l" "l_projections (upsert_job j l) = l_projections l"
  "l_checkpoints (upsert_job j l) = l_checkpoints l" "l_audit (upsert_job j l) = l_audit l"
  "l_jobs (upsert_job j l) = put_row j_id j (l_jobs l)"
  by (simp_all add: upsert_job_def)

lemma upsert_checkpoint_frame [simp]:
  "l_sources (upsert_checkpoint k l) = l_sources l" "l_revisions (upsert_checkpoint k l) = l_revisions l"
  "l_chunks (upsert_checkpoint k l) = l_chunks l" "l_projections (upsert_checkpoint k l) = l_projections l"
  "l_jobs (upsert_checkpoint k l) = l_jobs l" "l_audit (upsert_checkpoint k l) = l_audit l"
  "l_checkpoints (upsert_checkpoint k l) = put_row k_key k (l_checkpoints l)"
  by (simp_all add: upsert_checkpoint_def)

lemma upsert_source_Inr:
  "upsert_source s l = Inr l' \<Longrightarrow> l' = l\<lparr>l_sources := put_row s_id s (l_sources l)\<rparr>"
  by (auto simp: upsert_source_def split: if_splits)

lemma insert_chunks_Inr:
  "insert_chunks cs l = Inr l' \<Longrightarrow> l' = l\<lparr>l_chunks := l_chunks l @ cs\<rparr>"
proof (induction cs arbitrary: l)
  case (Cons c cs)
  then have "insert_chunks cs (l\<lparr>l_chunks := l_chunks l @ [c]\<rparr>) = Inr l'"
    by (auto simp: bind_res_Inr insert_chunk_def split: if_splits)
  from Cons.IH[OF this] show ?case by simp
qed simp

section \<open>Lemmas: snapshots\<close>

lemma get_row_append:
  "get_row key k (xs @ ys) = (case get_row key k xs of Some r \<Rightarrow> Some r | None \<Rightarrow> get_row key k ys)"
  by (induction xs) auto

lemma get_revision_row_insert:
  "get_revision_row i r (insert_revision_if_absent row l) =
     (case get_revision_row i r l of
        Some old \<Rightarrow> Some old
      | None \<Rightarrow> if rr_key row = (i, r) then Some row else None)"
  by (auto simp: get_revision_row_def insert_revision_if_absent_def get_row_append
      dest: get_row_key_in get_row_None[THEN iffD1] split: option.splits)

lemma save_snapshot_elim:
  assumes "save_snapshot h now s chunks raw l = Inr l'"
  obtains native normalized where
    "validate_snapshot h s chunks native = Inr normalized"
    "assert_compatible_revision h (snapshot_revision now s (length chunks)) normalized l = Inr ()"
    "\<not> list_ex (\<lambda>c. (c_source_id c = s_id s \<and> c_source_revision c = s_source_revision s) \<and>
        list_ex (\<lambda>k. k_chunk_id k = c_id c) (l_checkpoints l)) (l_chunks l)"
    "l_chunks l' = filter (\<lambda>c. \<not> (c_source_id c = s_id s \<and> c_source_revision c = s_source_revision s))
        (l_chunks l) @ chunks"
    "l_revisions l' = l_revisions (insert_revision_if_absent
        \<lparr> rr_data = snapshot_revision now s (length chunks), rr_raw_bytes = native \<rparr> l)"
    "\<exists>s'. l_sources l' = put_row s_id s' (l_sources l) \<and> s_id s' = s_id s \<and>
        s_source_revision s' = s_source_revision s \<and> s_status s' = Synced \<and> s_coverage s' = CovComplete \<and>
        s_chunk_count s' = int (length chunks)"
    "l_jobs l' = l_jobs l" "l_checkpoints l' = l_checkpoints l"
proof -
  let ?native = "case raw of Some b \<Rightarrow> b | None \<Rightarrow> utf8_encode (concat (map c_raw_content chunks))"
  let ?s = "s\<lparr>s_chunk_count := int (length chunks), s_status := Synced, s_coverage := CovComplete,
     s_error := None, s_synced_at := Some now, s_updated_at := now\<rparr>"
  have same: "snapshot_revision now ?s n = snapshot_revision now s n" for n
    by (simp add: snapshot_revision_def)
  obtain normalized l1 l2 where
    v: "validate_snapshot h s chunks ?native = Inr normalized" and
    a: "assert_compatible_revision h (snapshot_revision now s (length chunks)) normalized l = Inr ()" and
    u: "upsert_source ?s l = Inr l1" and
    d: "delete_chunks (\<lambda>c. c_source_id c = s_id s \<and> c_source_revision c = s_source_revision s)
          (insert_revision_if_absent
             \<lparr> rr_data = snapshot_revision now s (length chunks), rr_raw_bytes = ?native \<rparr> l1) = Inr l2" and
    i: "insert_chunks chunks l2 = Inr l'"
    using assms same by (auto simp: save_snapshot_def Let_def bind_res_Inr)
  note l1 = upsert_source_Inr[OF u] and l' = insert_chunks_Inr[OF i]
  have "insert_revision_if_absent row (l\<lparr>l_sources := x\<rparr>) = (insert_revision_if_absent row l)\<lparr>l_sources := x\<rparr>"
    for row x by (simp add: insert_revision_if_absent_def)
  moreover have
    "l_chunks (insert_revision_if_absent row l) = l_chunks l" "l_jobs (insert_revision_if_absent row l) = l_jobs l"
    "l_checkpoints (insert_revision_if_absent row l) = l_checkpoints l"
    "l_sources (insert_revision_if_absent row l) = l_sources l" for row
    by (simp_all add: insert_revision_if_absent_def)
  moreover have "\<exists>s'. l_sources l' = put_row s_id s' (l_sources l) \<and> s_id s' = s_id s \<and>
        s_source_revision s' = s_source_revision s \<and> s_status s' = Synced \<and> s_coverage s' = CovComplete \<and>
        s_chunk_count s' = int (length chunks)"
    by (rule exI[of _ ?s])
      (use d l1 l' in \<open>auto simp: delete_chunks_def insert_revision_if_absent_def split: if_splits\<close>)
  ultimately show ?thesis using that[OF v a] d l1 l'
    by (auto simp: delete_chunks_def split: if_splits)
qed

lemma validate_snapshot_elim:
  assumes "validate_snapshot h s chunks native = Inr normalized"
  shows "(chunks = [] \<longrightarrow> normalized = []) \<and> s_normalized_sha256 s = sha256_text h normalized \<and>
    (chunks \<noteq> [] \<longrightarrow> reconstruct_transcript h chunks (Some (s_normalized_sha256 s)) = Inr normalized) \<and>
    (\<forall>c\<in>set chunks. c_source_id c = s_id s \<and> c_source_revision c = s_source_revision s)"
proof -
  have "check_all (\<lambda>c. if c_source_id c \<noteq> s_id s
               then Some (ValueError ''chunk source id does not match transcript source'')
               else if c_source_revision c \<noteq> s_source_revision s
               then Some (ValueError ''chunk revision does not match transcript source'')
               else None) chunks = None"
    using assms by (auto simp: validate_snapshot_def bind_res_Inr split: if_splits option.splits)
  then have "\<forall>c\<in>set chunks. c_source_id c = s_id s \<and> c_source_revision c = s_source_revision s"
    by (auto simp: check_all_None split: if_splits)
  then show ?thesis using assms
    by (auto simp: validate_snapshot_def bind_res_Inr split: if_splits option.splits)
qed

lemma reconstruct_transcript_sorted:
  "reconstruct_transcript h (sort_key c_chunk_index cs) d = reconstruct_transcript h cs d"
  by (simp add: reconstruct_transcript_def sort_key_id_if_sorted)

lemma save_snapshot_reads_back:
  assumes save: "save_snapshot h now s chunks raw l = Inr l'"
  shows "get_source (s_id s) l' \<noteq> None \<and> s_source_revision (the (get_source (s_id s) l')) = s_source_revision s \<and>
    (\<exists>normalized. reconstruct h (s_id s) None l' = Inr normalized \<and> (chunks = [] \<longrightarrow> normalized = []) \<and>
       (chunks \<noteq> [] \<longrightarrow> reconstruct_transcript h chunks (Some (s_normalized_sha256 s)) = Inr normalized) \<and>
       s_normalized_sha256 s = sha256_text h normalized)"
proof -
  obtain native normalized s' where
    v: "validate_snapshot h s chunks native = Inr normalized" and
    a: "assert_compatible_revision h (snapshot_revision now s (length chunks)) normalized l = Inr ()" and
    c: "l_chunks l' = filter (\<lambda>c. \<not> (c_source_id c = s_id s \<and> c_source_revision c = s_source_revision s))
        (l_chunks l) @ chunks" and
    r: "l_revisions l' = l_revisions (insert_revision_if_absent
        \<lparr> rr_data = snapshot_revision now s (length chunks), rr_raw_bytes = native \<rparr> l)" and
    s': "l_sources l' = put_row s_id s' (l_sources l)" "s_id s' = s_id s" "s_source_revision s' = s_source_revision s"
    using save by (elim save_snapshot_elim) blast
  note ve = validate_snapshot_elim[OF v]
  have src: "get_source (s_id s) l' = Some s'" using s' by (simp add: get_source_def row_simps)
  have cs: "chunks_of (s_id s) (s_source_revision s) l' = sort_key c_chunk_index chunks"
  proof -
    have "filter (\<lambda>c. c_source_id c = s_id s \<and> c_source_revision c = s_source_revision s) chunks = chunks"
      using ve by (auto simp: filter_id_conv)
    then show ?thesis unfolding chunks_of_def c by (simp add: filter_empty_conv[THEN iffD2] conj_commute)
  qed
  have "get_revision_row i rv l' = get_revision_row i rv (insert_revision_if_absent
        \<lparr> rr_data = snapshot_revision now s (length chunks), rr_raw_bytes = native \<rparr> l)" for i rv
    using r by (simp add: get_revision_row_def)
  then obtain row where row: "get_revision (s_id s) (s_source_revision s) l' = Some row"
    "r_normalized_sha256 row = sha256_text h normalized"
    using a ve by (auto simp: get_revision_def get_revision_row_insert rr_key_def snapshot_revision_def
        assert_compatible_revision_def split: option.splits if_splits)
  have "reconstruct h (s_id s) None l' = Inr normalized"
    using src s'(3) row cs ve
    by (cases "chunks = []") (auto simp: reconstruct_def current_revision_id_def Let_def
        reconstruct_transcript_sorted reconstruct_transcript_def[of h "[]"] dest: arg_cong[where f = set])
  then show ?thesis using src s'(3) ve by auto
qed

lemma reconstruct_transcript_unique:
  "reconstruct_transcript h cs (Some d) = Inr v \<Longrightarrow> reconstruct_transcript h cs (Some d') = Inr w \<Longrightarrow> v = w"
  by (auto simp: reconstruct_transcript_def Let_def simp del: reconstruct_loop.simps
      split: list.splits sum.splits if_splits)

lemma save_snapshot_chunks_other:
  assumes "save_snapshot h now s chunks raw l = Inr l'" "(i, rv) \<noteq> (s_id s, s_source_revision s)"
  shows "chunks_of i rv l' = chunks_of i rv l"
proof -
  obtain native normalized where
    v: "validate_snapshot h s chunks native = Inr normalized" and
    c: "l_chunks l' = filter (\<lambda>c. \<not> (c_source_id c = s_id s \<and> c_source_revision c = s_source_revision s))
        (l_chunks l) @ chunks"
    using assms(1) by (elim save_snapshot_elim) blast
  have "filter (\<lambda>c. c_source_id c = i \<and> c_source_revision c = rv) chunks = []"
    using validate_snapshot_elim[OF v] assms(2) by (auto simp: filter_empty_conv)
  moreover have "filter (\<lambda>x. (c_source_id x = i \<and> c_source_revision x = rv) \<and>
      \<not> (c_source_id x = s_id s \<and> c_source_revision x = s_source_revision s)) (l_chunks l) =
    filter (\<lambda>x. c_source_id x = i \<and> c_source_revision x = rv) (l_chunks l)"
    using assms(2) by (intro filter_cong) auto
  ultimately show ?thesis by (simp add: chunks_of_def c conj_commute)
qed

lemma save_snapshot_revisions:
  assumes "save_snapshot h now s chunks raw l = Inr l'"
  shows "get_revision_row i rv l = Some row \<Longrightarrow> get_revision_row i rv l' = Some row"
    and "(i, rv) \<noteq> (s_id s, s_source_revision s) \<Longrightarrow> get_revision_row i rv l' = get_revision_row i rv l"
proof -
  obtain native where
    r: "l_revisions l' = l_revisions (insert_revision_if_absent
        \<lparr> rr_data = snapshot_revision now s (length chunks), rr_raw_bytes = native \<rparr> l)"
    using assms by (elim save_snapshot_elim) blast
  have g: "get_revision_row i rv l' = get_revision_row i rv (insert_revision_if_absent
        \<lparr> rr_data = snapshot_revision now s (length chunks), rr_raw_bytes = native \<rparr> l)"
    using r by (simp add: get_revision_row_def)
  show "get_revision_row i rv l = Some row \<Longrightarrow> get_revision_row i rv l' = Some row"
    using g by (simp add: get_revision_row_insert)
  show "(i, rv) \<noteq> (s_id s, s_source_revision s) \<Longrightarrow> get_revision_row i rv l' = get_revision_row i rv l"
    using g by (auto simp: get_revision_row_insert rr_key_def snapshot_revision_def split: option.splits)
qed

section \<open>Properties\<close>

text \<open>C3: Capture is lossless end to end.  When a text is chunked for a source revision and the snapshot
  is saved, the ledger's current revision of that source reconstructs to exactly the text.\<close>

theorem captured_text_reads_back:
  assumes "chunk_transcript_text h t v sid pn cl ses rv mx units = Inr chunks"
    and "save_snapshot h now s chunks raw l = Inr l'"
  shows "reconstruct h (s_id s) None l' = Inr v \<and> s_normalized_sha256 s = sha256_text h v"
proof -
  obtain n where n: "reconstruct h (s_id s) None l' = Inr n" "chunks = [] \<longrightarrow> n = []"
    "chunks \<noteq> [] \<longrightarrow> reconstruct_transcript h chunks (Some (s_normalized_sha256 s)) = Inr n"
    "s_normalized_sha256 s = sha256_text h n"
    using save_snapshot_reads_back[OF assms(2)] by blast
  have r: "reconstruct_transcript h chunks (Some (sha256_text h v)) = Inr v"
    by (rule reconstruct_chunks[OF assms(1)])
  have "n = v"
  proof (cases "chunks = []")
    case True
    then show ?thesis using r n(2) by (simp add: reconstruct_transcript_def)
  next
    case False
    then show ?thesis using r n(3) reconstruct_transcript_unique by blast
  qed
  then show ?thesis using n by blast
qed

definition demo_source :: "string \<Rightarrow> tsource" where
  "demo_source v = \<lparr> s_id = ''s'', s_project_name = ''p'', s_project_root = ''/r'', s_client = ''c'',
     s_session_id = ''x'', s_source_kind = ''jsonl'', s_source_uri = ''u'',
     s_source_revision = ''sha256:'' @ v, s_raw_sha256 = v, s_normalized_sha256 = v,
     s_raw_size_bytes = int (length v), s_normalized_size_bytes = int (length v), s_mtime_ns = None,
     s_parser_version = ''transcript-v1'', s_status = Discovered, s_coverage = CovUnknown,
     s_chunk_count = 0, s_sequence_count = 0, s_metadata = [], s_error = None,
     s_created_at = 0, s_updated_at = 0, s_synced_at = None \<rparr>"

definition demo_chunks :: "string \<Rightarrow> tchunk list" where
  "demo_chunks v = (case chunk_transcript_text demo_digests 0 v ''s'' ''p'' ''c'' ''x''
      (Some (''sha256:'' @ v)) 4 None of Inl _ \<Rightarrow> [] | Inr cs \<Rightarrow> cs)"

definition demo_ledger :: ledger where
  "demo_ledger = (case save_snapshot demo_digests 5 (demo_source ''abcdef'') (demo_chunks ''abcdef'')
      None empty_ledger of Inl _ \<Rightarrow> empty_ledger | Inr l \<Rightarrow> l)"

lemma demo_saves:
  "chunk_transcript_text demo_digests 0 ''abcdef'' ''s'' ''p'' ''c'' ''x'' (Some (''sha256:abcdef'')) 4 None
     = Inr (demo_chunks ''abcdef'')"
  "save_snapshot demo_digests 5 (demo_source ''abcdef'') (demo_chunks ''abcdef'') None empty_ledger
     = Inr demo_ledger"
  by code_simp+

theorem captured_text_reads_back_witness:
  "reconstruct demo_digests ''s'' None demo_ledger = Inr ''abcdef''"
  using captured_text_reads_back[OF demo_saves] by (simp add: demo_source_def)

text \<open>Captured revisions are immutable.  Saving a snapshot leaves every revision row that was already
  there exactly as it was, and the text of every other revision reconstructs as before.\<close>

theorem saved_revisions_are_immutable:
  assumes "save_snapshot h now s chunks raw l = Inr l'"
  shows "(get_revision_row i rv l = Some row \<longrightarrow> get_revision_row i rv l' = Some row) \<and>
    ((i, rv) \<noteq> (s_id s, s_source_revision s) \<longrightarrow>
       reconstruct h i (Some rv) l' = reconstruct h i (Some rv) l)"
proof (intro conjI impI)
  show "get_revision_row i rv l = Some row \<Longrightarrow> get_revision_row i rv l' = Some row"
    by (rule save_snapshot_revisions(1)[OF assms])
  assume other: "(i, rv) \<noteq> (s_id s, s_source_revision s)"
  show "reconstruct h i (Some rv) l' = reconstruct h i (Some rv) l"
    by (simp add: reconstruct_def current_revision_id_def get_revision_def
        save_snapshot_revisions(2)[OF assms other] save_snapshot_chunks_other[OF assms other]
        split: option.splits)
qed

theorem saved_revisions_are_immutable_witness:
  "reconstruct demo_digests ''t'' (Some ''r'') demo_ledger = reconstruct demo_digests ''t'' (Some ''r'') empty_ledger"
  using saved_revisions_are_immutable[OF demo_saves(2), of "''t''" "''r''"] by (simp add: demo_source_def)

text \<open>C27: A revision whose chunks a distillation job already references cannot be saved again: the
  delete-and-reinsert of its chunk rows violates the checkpoints' foreign key, so a session that
  returns to earlier content can no longer be captured.\<close>

theorem resave_of_queued_revision_fails:
  assumes "c \<in> set (l_chunks l)" and "c_source_id c = s_id s" and "c_source_revision c = s_source_revision s"
    and "k \<in> set (l_checkpoints l)" and "k_chunk_id k = c_id c"
  shows "\<not> is_ok (save_snapshot h now s chunks raw l)"
proof
  assume "is_ok (save_snapshot h now s chunks raw l)"
  then obtain l' where "save_snapshot h now s chunks raw l = Inr l'" by (auto simp: is_ok_iff)
  then show False using assms by (elim save_snapshot_elim) (auto simp: list_ex_iff)
qed

definition demo_queued :: ledger where
  "demo_queued = demo_ledger\<lparr>l_checkpoints :=
     [new_checkpoint ''j'' (c_id (hd (l_chunks demo_ledger))) 0 6]\<rparr>"

theorem resave_of_queued_revision_fails_witness:
  "\<not> is_ok (save_snapshot demo_digests 9 (demo_source ''abcdef'') (demo_chunks ''abcdef'') None demo_queued)"
proof (rule resave_of_queued_revision_fails)
  have "l_chunks demo_ledger \<noteq> [] \<and> c_source_id (hd (l_chunks demo_ledger)) = ''s'' \<and>
      c_source_revision (hd (l_chunks demo_ledger)) = ''sha256:abcdef''" by code_simp
  then show "hd (l_chunks demo_ledger) \<in> set (l_chunks demo_queued)"
    "c_source_id (hd (l_chunks demo_ledger)) = s_id (demo_source ''abcdef'')"
    "c_source_revision (hd (l_chunks demo_ledger)) = s_source_revision (demo_source ''abcdef'')"
    by (auto simp: demo_queued_def demo_source_def)
  show "new_checkpoint ''j'' (c_id (hd (l_chunks demo_ledger))) 0 6 \<in> set (l_checkpoints demo_queued)"
    by (simp add: demo_queued_def)
qed (simp add: new_checkpoint_def)

end
