(* ===== verification/DistillQueue.thy ===== *)
theory DistillQueue
  imports Ledger
begin

text \<open>
  The distillation queue: \<^verbatim>\<open>harness_mem/storage/session_distill_store.py\<close>, operation by operation.

  Every method of \<^verbatim>\<open>SessionDistillStore\<close> is a function of the clock reading \<open>now\<close> (read once per
  operation), its arguments and the ledger; \<open>Inl\<close> is a raised exception, after which the transaction
  is rolled back.  The callbacks the store receives are parameters: \<open>manual_check\<close> decides whether
  a job belongs to an explicit Agent batch, \<open>publish\<close> is the outcome of publishing a manifest.  The
  source lookup and the reconstruction callbacks are the ledger's own.  A query without
  \<^verbatim>\<open>ORDER BY\<close> delivers rows in rowid order.
\<close>

section \<open>Leases, backoff and recovery\<close>

definition interactive_agent :: string where "interactive_agent = ''interactive_agent''"

definition lease_live :: "time \<Rightarrow> time option \<Rightarrow> bool" where
  "lease_live now until = (case until of None \<Rightarrow> False | Some t \<Rightarrow> now < t)"

definition background_review_active :: "time \<Rightarrow> job \<Rightarrow> bool" where
  "background_review_active now j \<longleftrightarrow>
     truthy (j_review_lease_owner j) \<and> lease_live now (j_review_lease_until j) \<and>
     j_review_execution_source j \<noteq> Some interactive_agent"

definition chunk_lease_active :: "time \<Rightarrow> checkpoint \<Rightarrow> bool" where
  "chunk_lease_active now k \<longleftrightarrow> k_status k = CkProcessing \<and> lease_live now (k_lease_until k)"

definition chunk_lease_expired :: "time \<Rightarrow> checkpoint \<Rightarrow> bool" where
  "chunk_lease_expired now k \<longleftrightarrow>
     k_status k = CkProcessing \<and> (case k_lease_until k of None \<Rightarrow> False | Some t \<Rightarrow> t \<le> now)"

definition backoff_seconds :: "int \<Rightarrow> int" where
  "backoff_seconds n = min (6 * 3600) (300 * 2 ^ nat (min (n - 1) 7))"

definition release_expired :: "time \<Rightarrow> checkpoint \<Rightarrow> checkpoint" where
  "release_expired now k =
     k\<lparr>k_status := CkRetryable, k_lease_owner := None, k_lease_until := None,
       k_error := Some ''chunk lease expired during recovery'', k_updated_at := now\<rparr>"

definition fail_checkpoint :: "time \<Rightarrow> checkpoint \<Rightarrow> checkpoint" where
  "fail_checkpoint now k =
     k\<lparr>k_status := CkFailed, k_lease_owner := None, k_lease_until := None,
       k_error := Some ''recovery budget exhausted'', k_updated_at := now\<rparr>"

definition upsert_checkpoints :: "checkpoint list \<Rightarrow> ledger \<Rightarrow> ledger" where
  "upsert_checkpoints ks l = fold upsert_checkpoint ks l"

text \<open>The counters a recovery event advances, before the budget is compared.\<close>

definition note_recovery :: "time \<Rightarrow> int option \<Rightarrow> string \<Rightarrow> job \<Rightarrow> job" where
  "note_recovery now recovery_budget reason j =
     j\<lparr>j_recovery_count := j_recovery_count j + 1,
       j_recovery_budget := (case recovery_budget of None \<Rightarrow> j_recovery_budget j | Some b \<Rightarrow> max 1 b),
       j_recovery_reason_codes := dedup (j_recovery_reason_codes j @ [reason]),
       j_last_recovery_at := Some now, j_last_progress_at := Some now, j_updated_at := now\<rparr>"

definition budget_exhausted :: "job \<Rightarrow> bool" where
  "budget_exhausted j \<longleftrightarrow> max 1 (j_recovery_budget j) \<le> j_recovery_count j"

definition recover_expired_checkpoints ::
  "time \<Rightarrow> int option \<Rightarrow> job \<Rightarrow> checkpoint list \<Rightarrow> ledger \<Rightarrow>
   bool \<times> job \<times> checkpoint list \<times> ledger" where
  "recover_expired_checkpoints now recovery_budget j checkpoints l =
     (if \<not> list_ex (chunk_lease_expired now) checkpoints then (False, j, checkpoints, l)
      else
        let cps1 = map (\<lambda>k. if chunk_lease_expired now k then release_expired now k else k) checkpoints;
            l1 = upsert_checkpoints
                   (map (release_expired now) (filter (chunk_lease_expired now) checkpoints)) l;
            j1 = note_recovery now recovery_budget ''expired_chunk_lease'' j
        in if budget_exhausted j1
           then
             let j2 = j1\<lparr>j_status := Failed, j_error := Some ''distill recovery budget exhausted'',
                         j_retry_after := None, j_recovery_exhausted_at := Some now\<rparr>;
                 cps2 = map (\<lambda>k. if k_status k = CkCompleted then k else fail_checkpoint now k) cps1;
                 l2 = upsert_checkpoints (filter (\<lambda>k. k_status k \<noteq> CkCompleted) cps2) l1
             in (True, j2, cps2, upsert_job j2 l2)
           else
             let j2 = j1\<lparr>j_status := Retryable,
                         j_retry_after := Some (now + seconds (backoff_seconds (j_recovery_count j1)))\<rparr>
             in (True, j2, cps1, upsert_job j2 l1))"

definition is_terminal :: "job_status \<Rightarrow> bool" where
  "is_terminal s \<longleftrightarrow> s \<in> {Completed, Failed, Stale}"

definition completed_count :: "checkpoint list \<Rightarrow> int" where
  "completed_count ks = int (length (filter (\<lambda>k. k_status k = CkCompleted) ks))"

section \<open>Manual ownership\<close>

definition freeze_manual_selection ::
  "time \<Rightarrow> (job \<Rightarrow> bool) \<Rightarrow> py_error + 'm \<Rightarrow> ledger \<Rightarrow> py_error + 'm \<times> ledger" where
  "freeze_manual_selection now matches publish l =
     (let selected = filter matches (l_jobs l) in
      case check_all (\<lambda>j.
             if background_review_active now j
             then Some (ValueError ''background review already owns this session'')
             else if list_ex (chunk_lease_active now) (list_checkpoints (j_id j) l)
             then Some (ValueError ''chunk processing already owns this session'')
             else None) selected of
        Some e \<Rightarrow> Inl e
      | None \<Rightarrow> bind_res publish (\<lambda>manifest.
          Inr (manifest,
               fold (\<lambda>j l. if j_manual_only j then l
                           else upsert_job (j\<lparr>j_manual_only := True, j_updated_at := now\<rparr>) l)
                 selected l)))"

definition reserve_manual :: "time \<Rightarrow> string \<Rightarrow> ledger \<Rightarrow> py_error + job \<times> ledger" where
  "reserve_manual now job_id l =
     (case get_job job_id l of
        None \<Rightarrow> Inl (KeyError job_id)
      | Some j \<Rightarrow>
          if background_review_active now j
          then Inl (ValueError ''background review already owns this session'')
          else if j_manual_only j then Inr (j, l)
          else let j' = j\<lparr>j_manual_only := True, j_updated_at := now\<rparr> in Inr (j', upsert_job j' l))"

definition retain_source :: "time \<Rightarrow> string \<Rightarrow> ledger \<Rightarrow> py_error + job \<times> ledger" where
  "retain_source now job_id l =
     (case get_job job_id l of
        None \<Rightarrow> Inl (KeyError job_id)
      | Some j \<Rightarrow>
          if j_retain_source j then Inr (j, l)
          else let j' = j\<lparr>j_retain_source := True, j_updated_at := now\<rparr> in Inr (j', upsert_job j' l))"

definition enable_zero_candidate_challenge ::
  "time \<Rightarrow> string \<Rightarrow> ledger \<Rightarrow> py_error + job \<times> ledger" where
  "enable_zero_candidate_challenge now job_id l =
     (case get_job job_id l of
        None \<Rightarrow> Inl (KeyError job_id)
      | Some j \<Rightarrow>
          if j_status j \<noteq> Completed \<and> j_zero_candidate_challenge_version j = None
          then let j' = j\<lparr>j_zero_candidate_challenge_version := Some ChallengeV1, j_updated_at := now\<rparr>
               in Inr (j', upsert_job j' l)
          else Inr (j, l))"

section \<open>Listing\<close>

definition list_jobs ::
  "string option \<Rightarrow> job_status option \<Rightarrow> int option \<Rightarrow> ledger \<Rightarrow> job list" where
  "list_jobs project_name status limit l =
     (let rows = sort_key j_created_at (filter (\<lambda>j.
            (case project_name of None \<Rightarrow> True | Some p \<Rightarrow> j_project_name j = p) \<and>
            (case status of None \<Rightarrow> True | Some s \<Rightarrow> j_status j = s)) (l_jobs l))
      in case limit of None \<Rightarrow> rows | Some n \<Rightarrow> take (nat (max 1 n)) rows)"

definition is_pending :: "job_status \<Rightarrow> bool" where
  "is_pending s \<longleftrightarrow> s \<in> {Queued, Processing, Reviewing, Retryable, Parked}"

definition count_pending :: "string \<Rightarrow> ledger \<Rightarrow> int" where
  "count_pending project_name l =
     int (length (filter (\<lambda>j. j_project_name j = project_name \<and> is_pending (j_status j)) (l_jobs l)))"

section \<open>The active lane\<close>

text \<open>Python's \<^verbatim>\<open>max\<close> and \<^verbatim>\<open>min\<close> with a key keep the first of several extreme elements.\<close>

fun max_by :: "('a \<Rightarrow> 'k::linorder) \<Rightarrow> 'a \<Rightarrow> 'a list \<Rightarrow> 'a" where
  "max_by f best [] = best"
| "max_by f best (x # xs) = (if f best < f x then max_by f x xs else max_by f best xs)"

fun min_by :: "('a \<Rightarrow> 'k::linorder) \<Rightarrow> 'a \<Rightarrow> 'a list \<Rightarrow> 'a" where
  "min_by f best [] = best"
| "min_by f best (x # xs) = (if f x < f best then min_by f x xs else min_by f best xs)"

text \<open>A job of the queue with its rowid order.\<close>

type_synonym queued = "nat \<times> job"

definition age_key :: "queued \<Rightarrow> time \<times> nat" where
  "age_key q = (j_created_at (snd q), fst q)"

record drain =
  d_selected :: "queued list"
  d_pool :: "queued list"
  d_streak :: int
  d_recent :: int
  d_oldest :: int

definition drain_recent :: "bool \<Rightarrow> drain \<Rightarrow> bool" where
  "drain_recent recent_first d \<longleftrightarrow> recent_first \<and> d_streak d < 3"

definition drain_choice :: "bool \<Rightarrow> drain \<Rightarrow> queued" where
  "drain_choice recent_first d =
     (let healthy = filter (\<lambda>q. j_error (snd q) = None) (d_pool d);
          lane_pool = (if healthy = [] then d_pool d else healthy)
      in if drain_recent recent_first d then max_by age_key (hd lane_pool) (tl lane_pool)
         else min_by age_key (hd lane_pool) (tl lane_pool))"

definition mark_drained :: "time \<Rightarrow> drainer_lane \<Rightarrow> job \<Rightarrow> job" where
  "mark_drained now lane j = j\<lparr>j_drainer_lane := Some lane, j_drainer_selected_at := Some now\<rparr>"

definition drain_pick :: "time \<Rightarrow> bool \<Rightarrow> drain \<Rightarrow> drain" where
  "drain_pick now recent_first d =
     (let chosen = drain_choice recent_first d;
          choose_recent = drain_recent recent_first d;
          lane = (if choose_recent then LaneRecent else LaneOldest)
      in d\<lparr>d_selected := d_selected d @ [(fst chosen, mark_drained now lane (snd chosen))],
           d_pool := filter (\<lambda>q. j_id (snd q) \<noteq> j_id (snd chosen)) (d_pool d),
           d_streak := (if choose_recent then d_streak d + 1 else 0),
           d_recent := d_recent d + (if choose_recent then 1 else 0),
           d_oldest := d_oldest d + (if choose_recent then 0 else 1)\<rparr>)"

lemma max_by_in: "max_by f b xs = b \<or> max_by f b xs \<in> set xs"
  by (induction xs arbitrary: b) auto

lemma min_by_in: "min_by f b xs = b \<or> min_by f b xs \<in> set xs"
  by (induction xs arbitrary: b) auto

lemma drain_choice_in:
  assumes "d_pool d \<noteq> []"
  shows "drain_choice r d \<in> set (d_pool d)"
proof -
  let ?healthy = "filter (\<lambda>q. j_error (snd q) = None) (d_pool d)"
  let ?lp = "if ?healthy = [] then d_pool d else ?healthy"
  obtain x xs where lp: "?lp = x # xs" using assms by (cases ?lp) (auto split: if_splits)
  have "drain_choice r d = (if drain_recent r d then max_by age_key x xs else min_by age_key x xs)"
    unfolding drain_choice_def Let_def lp by simp
  then have "drain_choice r d \<in> set ?lp"
    using max_by_in[of age_key x xs] min_by_in[of age_key x xs] lp by auto
  then show ?thesis by (auto split: if_splits)
qed

lemma drain_pick_simps [simp]:
  "d_pool (drain_pick now r d) = filter (\<lambda>q. j_id (snd q) \<noteq> j_id (snd (drain_choice r d))) (d_pool d)"
  "d_selected (drain_pick now r d) = d_selected d @
     [(fst (drain_choice r d),
       mark_drained now (if drain_recent r d then LaneRecent else LaneOldest) (snd (drain_choice r d)))]"
  by (simp_all add: drain_pick_def Let_def)

lemma drain_pick_shrinks:
  assumes "d_pool d \<noteq> []"
  shows "length (d_pool (drain_pick now r d)) < length (d_pool d)"
  unfolding drain_pick_simps by (rule length_filter_less[OF drain_choice_in[OF assms, of r]]) simp

function drain_loop :: "time \<Rightarrow> bool \<Rightarrow> int \<Rightarrow> drain \<Rightarrow> drain" where
  "drain_loop now recent_first available_slots d =
     (if int (length (d_selected d)) < available_slots \<and> d_pool d \<noteq> []
      then drain_loop now recent_first available_slots (drain_pick now recent_first d)
      else d)"
  by pat_completeness auto
termination
  by (relation "measure (\<lambda>(now, r, n, d). length (d_pool d))") (auto intro: drain_pick_shrinks simp del: drain_pick_simps)

declare drain_loop.simps [simp del]

definition recent_streak :: "job list \<Rightarrow> int" where
  "recent_streak jobs =
     (let history = sort_key (\<lambda>j. the (j_drainer_selected_at j))
                      (filter (\<lambda>j. j_drainer_selected_at j \<noteq> None) jobs)
      in int (length (takeWhile (\<lambda>j. j_drainer_lane j = Some LaneRecent) (rev history))))"

definition is_waiting :: "job \<Rightarrow> bool" where
  "is_waiting j \<longleftrightarrow> j_status j \<in> {Queued, Retryable, Parked}"

definition retry_due :: "time \<Rightarrow> job \<Rightarrow> bool" where
  "retry_due now j = (case j_retry_after j of None \<Rightarrow> True | Some t \<Rightarrow> t \<le> now)"

record rebalance_summary =
  rb_active :: int
  rb_parked :: int
  rb_retry_backoff :: int
  rb_selected_recent :: int
  rb_selected_oldest :: int

definition apply_selection :: "time \<Rightarrow> job list \<Rightarrow> job \<Rightarrow> ledger \<Rightarrow> ledger" where
  "apply_selection now selected cand l =
     (let chosen = get_row j_id (j_id cand) selected;
          j = (case chosen of Some s \<Rightarrow> s | None \<Rightarrow> cand);
          desired = (if chosen \<noteq> None then Queued else Parked)
      in if j_status j = desired
         then (if chosen \<noteq> None \<and> j_drainer_selected_at j = Some now then upsert_job j l else l)
         else upsert_job (j\<lparr>j_status := desired, j_updated_at := now\<rparr>) l)"

definition project_jobs :: "string \<Rightarrow> ledger \<Rightarrow> queued list" where
  "project_jobs project_name l =
     filter (\<lambda>q. j_project_name (snd q) = project_name) (enumerate 0 (l_jobs l))"

definition protected_jobs :: "string \<Rightarrow> ledger \<Rightarrow> queued list" where
  "protected_jobs project_name l =
     filter (\<lambda>q. j_status (snd q) \<in> {Processing, Reviewing}) (project_jobs project_name l)"

definition candidate_jobs :: "time \<Rightarrow> string \<Rightarrow> ledger \<Rightarrow> queued list" where
  "candidate_jobs now project_name l =
     filter (\<lambda>q. is_waiting (snd q) \<and> retry_due now (snd q)) (project_jobs project_name l)"

definition free_slots :: "string \<Rightarrow> int \<Rightarrow> ledger \<Rightarrow> int" where
  "free_slots project_name target_active l =
     max 0 (target_active - int (length (protected_jobs project_name l)))"

text \<open>The already active jobs keep their slots when they all fit; otherwise everyone competes.\<close>

definition drain_start :: "time \<Rightarrow> string \<Rightarrow> int \<Rightarrow> ledger \<Rightarrow> drain" where
  "drain_start now project_name available_slots l =
     (let candidates = candidate_jobs now project_name l;
          currently_active = filter (\<lambda>q. j_status (snd q) = Queued) candidates;
          selected0 = (if int (length currently_active) \<le> available_slots then currently_active else [])
      in \<lparr> d_selected = selected0,
           d_pool = filter (\<lambda>q. j_id (snd q) \<notin> (\<lambda>p. j_id (snd p)) ` set selected0) candidates,
           d_streak = recent_streak (map snd (project_jobs project_name l)),
           d_recent = 0, d_oldest = 0 \<rparr>)"

definition drained :: "time \<Rightarrow> string \<Rightarrow> int \<Rightarrow> bool \<Rightarrow> ledger \<Rightarrow> drain" where
  "drained now project_name target_active recent_first l =
     (let slots = free_slots project_name target_active l
      in drain_loop now recent_first slots (drain_start now project_name slots l))"

definition rebalance_locked ::
  "time \<Rightarrow> string \<Rightarrow> int \<Rightarrow> bool \<Rightarrow> ledger \<Rightarrow> rebalance_summary \<times> ledger" where
  "rebalance_locked now project_name target_active recent_first l =
     (let waiting_retry = filter (\<lambda>q. is_waiting (snd q) \<and> \<not> retry_due now (snd q))
                            (project_jobs project_name l);
          d = drained now project_name target_active recent_first l;
          selected = map snd (d_selected d)
      in (\<lparr> rb_active = int (length (protected_jobs project_name l)) +
                        int (length (dedup (map j_id selected))),
            rb_parked = int (length (d_pool d)),
            rb_retry_backoff = int (length waiting_retry),
            rb_selected_recent = d_recent d, rb_selected_oldest = d_oldest d \<rparr>,
          fold (apply_selection now selected) (map snd (candidate_jobs now project_name l)) l))"

definition rebalance ::
  "time \<Rightarrow> string \<Rightarrow> int \<Rightarrow> bool \<Rightarrow> ledger \<Rightarrow> rebalance_summary \<times> ledger" where
  "rebalance now project_name target_active recent_first l =
     rebalance_locked now project_name (max 0 target_active) recent_first l"

section \<open>Enqueue\<close>

definition mark_older_jobs_stale :: "time \<Rightarrow> tsource \<Rightarrow> ledger \<Rightarrow> ledger" where
  "mark_older_jobs_stale now s l =
     fold (\<lambda>j. upsert_job (j\<lparr>j_status := Stale,
                 j_error := Some ''superseded by a newer transcript source revision'',
                 j_updated_at := now\<rparr>))
       (filter (\<lambda>j. j_source_id j = s_id s \<and> j_source_revision j \<noteq> s_source_revision s \<and>
                    is_pending (j_status j)) (l_jobs l)) l"

definition rebalance_to_limit ::
  "time \<Rightarrow> string \<Rightarrow> int option \<Rightarrow> bool \<Rightarrow> ledger \<Rightarrow> ledger" where
  "rebalance_to_limit now project_name active_limit recent_first l =
     (case active_limit of
        None \<Rightarrow> l
      | Some n \<Rightarrow> snd (rebalance_locked now project_name (max 0 n) recent_first l))"

definition distill_job_id :: "digests \<Rightarrow> string \<Rightarrow> string" where
  "distill_job_id h idempotency_key = uuid5_url h (''harness-mem://distill/'' @ idempotency_key)"

definition idempotency_key :: "tsource \<Rightarrow> string \<Rightarrow> string" where
  "idempotency_key s pipeline_version =
     s_id s @ '':'' @ s_source_revision s @ '':'' @ pipeline_version"

text \<open>The checks on the source that precede any write, and the chunk rows of its revision.\<close>

definition queueable_source ::
  "digests \<Rightarrow> string \<Rightarrow> bool \<Rightarrow> ledger \<Rightarrow> py_error + tsource \<times> tchunk list" where
  "queueable_source h source_id manual_recheck l =
     (case get_source source_id l of
        None \<Rightarrow> Inl (KeyError source_id)
      | Some s \<Rightarrow>
          if s_coverage s \<noteq> CovComplete \<or>
             s_status s \<notin> (if manual_recheck then {Synced, Missing} else {Synced})
          then Inl (ValueError ''only complete synced transcript sources can be queued'')
          else
            bind_res
              (if \<not> manual_recheck then Inr []
               else if map_of (s_metadata s) ''evidence_state'' = Some (JStr ''source_pruned'')
               then Inl (ValueError ''the retained complete source is unavailable'')
               else reconstruct h (s_id s) (Some (s_source_revision s)) l) (\<lambda>_.
            let chunk_rows = chunks_of (s_id s) (s_source_revision s) l in
            if int (length chunk_rows) \<noteq> s_chunk_count s
            then Inl (ValueError ''transcript source chunk count is incomplete'')
            else Inr (s, chunk_rows)))"

definition enqueued_job :: "digests \<Rightarrow> time \<Rightarrow> tsource \<Rightarrow> string \<Rightarrow> bool \<Rightarrow> nat \<Rightarrow> job" where
  "enqueued_job h now s pipeline_version manual_recheck n =
     (let key = idempotency_key s pipeline_version in
      (new_job (distill_job_id h key) key (s_project_name s) (s_project_root s) (s_client s)
         (s_session_id s) (s_id s) (s_source_revision s) now)
      \<lparr>j_pipeline_version := pipeline_version, j_manual_only := manual_recheck,
       j_retain_source := manual_recheck, j_expected_chunk_count := int n,
       j_zero_candidate_challenge_version := Some ChallengeV1, j_last_progress_at := Some now\<rparr>)"

definition enqueue ::
  "digests \<Rightarrow> time \<Rightarrow> string \<Rightarrow> string \<Rightarrow> int option \<Rightarrow> bool \<Rightarrow> bool \<Rightarrow> ledger \<Rightarrow>
   py_error + job \<times> ledger" where
  "enqueue h now source_id pipeline_version active_limit recent_first manual_recheck l =
     bind_res (queueable_source h source_id manual_recheck l) (\<lambda>(s, chunk_rows).
       let key = idempotency_key s pipeline_version in
       case get_row j_idempotency_key key (l_jobs l) of
         Some existing \<Rightarrow>
           (let existing' = (if manual_recheck \<and> \<not> (j_manual_only existing \<and> j_retain_source existing)
                             then existing\<lparr>j_manual_only := True, j_retain_source := True\<rparr>
                             else existing);
                l1 = (if manual_recheck \<and> \<not> (j_manual_only existing \<and> j_retain_source existing)
                      then upsert_job existing' l else l);
                l2 = rebalance_to_limit now (s_project_name s) active_limit recent_first
                       (mark_older_jobs_stale now s l1)
            in Inr (case get_job (j_id existing) l2 of Some j \<Rightarrow> j | None \<Rightarrow> existing', l2))
       | None \<Rightarrow>
           (let l1 = mark_older_jobs_stale now s l;
                j = enqueued_job h now s pipeline_version manual_recheck (length chunk_rows)
            in if get_revision_row (s_id s) (s_source_revision s) l1 = None
               then Inl (IntegrityError ''FOREIGN KEY distill_jobs'')
               else
                 let l2 = upsert_checkpoints
                            (map (\<lambda>c. new_checkpoint (j_id j) (c_id c) (c_chunk_index c) now) chunk_rows)
                            (upsert_job j l1)
                 in Inr (j, rebalance_to_limit now (s_project_name s) active_limit recent_first l2)))"

section \<open>The review lease\<close>

definition review_lease_until_for :: "time \<Rightarrow> int \<Rightarrow> time" where
  "review_lease_until_for now lease_seconds = now + seconds (max 30 lease_seconds)"

definition claim_review ::
  "(job \<Rightarrow> bool) \<Rightarrow> time \<Rightarrow> string \<Rightarrow> string \<Rightarrow> string \<Rightarrow> int \<Rightarrow> ledger \<Rightarrow>
   py_error + job option \<times> ledger" where
  "claim_review manual_check now job_id lease_owner execution_source lease_seconds l =
     (case get_job job_id l of
        None \<Rightarrow> Inl (KeyError job_id)
      | Some j \<Rightarrow>
          if execution_source \<noteq> interactive_agent \<and> manual_check j then Inr (None, l)
          else if j_status j \<noteq> Reviewing then Inr (None, l)
          else
            let other = (truthy (j_review_lease_owner j) \<and> j_review_lease_owner j \<noteq> Some lease_owner);
                live = lease_live now (j_review_lease_until j)
            in if other \<and> live then Inr (None, l)
               else
                 let j1 = (if other
                           then j\<lparr>j_recovery_count := j_recovery_count j + 1,
                                  j_recovery_reason_codes :=
                                    dedup (j_recovery_reason_codes j @ [''expired_review_lease'']),
                                  j_last_recovery_at := Some now\<rparr>
                           else j)
                 in if other \<and> budget_exhausted j1
                    then Inr (None, upsert_job (j1\<lparr>j_status := Failed,
                           j_error := Some ''distill review recovery budget exhausted'',
                           j_recovery_exhausted_at := Some now, j_review_lease_owner := None,
                           j_review_lease_until := None, j_updated_at := now\<rparr>) l)
                    else
                      let j2 = j1\<lparr>j_review_lease_owner := Some lease_owner,
                                  j_review_lease_until := Some (review_lease_until_for now lease_seconds),
                                  j_review_attempt_count := j_review_attempt_count j1 + 1,
                                  j_review_execution_source := Some (take 80 execution_source),
                                  j_last_review_heartbeat_at := Some now, j_last_progress_at := Some now,
                                  j_updated_at := now\<rparr>
                      in Inr (Some j2, upsert_job j2 l))"

definition renew_review_lease ::
  "time \<Rightarrow> string \<Rightarrow> string \<Rightarrow> int \<Rightarrow> ledger \<Rightarrow> bool \<times> ledger" where
  "renew_review_lease now job_id lease_owner lease_seconds l =
     (case get_job job_id l of
        None \<Rightarrow> (False, l)
      | Some j \<Rightarrow>
          if j_status j \<noteq> Reviewing \<or> j_review_lease_owner j \<noteq> Some lease_owner \<or>
             \<not> lease_live now (j_review_lease_until j)
          then (False, l)
          else (True, upsert_job (j\<lparr>j_review_lease_until := Some (review_lease_until_for now lease_seconds),
                  j_last_review_heartbeat_at := Some now, j_last_progress_at := Some now,
                  j_updated_at := now\<rparr>) l))"

definition release_review_lease :: "time \<Rightarrow> string \<Rightarrow> string \<Rightarrow> ledger \<Rightarrow> bool \<times> ledger" where
  "release_review_lease now job_id lease_owner l =
     (case get_job job_id l of
        None \<Rightarrow> (False, l)
      | Some j \<Rightarrow>
          if j_review_lease_owner j \<noteq> Some lease_owner then (False, l)
          else (True, upsert_job (j\<lparr>j_review_lease_owner := None, j_review_lease_until := None,
                  j_last_review_heartbeat_at := Some now, j_updated_at := now\<rparr>) l))"

section \<open>Reconciliation after a restart\<close>

record reconcile_summary =
  rs_inspected :: int
  rs_recovered :: int
  rs_advanced_to_review :: int
  rs_failed_recovery_budget :: int

definition retry_backoff_active :: "time \<Rightarrow> job \<Rightarrow> bool" where
  "retry_backoff_active now j \<longleftrightarrow> j_status j = Retryable \<and> lease_live now (j_retry_after j)"

text \<open>A fully checkpointed job moves (or stays) in review.\<close>

definition advance_to_review :: "time \<Rightarrow> int \<Rightarrow> job \<Rightarrow> job" where
  "advance_to_review current n j =
     (if j_status j \<noteq> Reviewing then j\<lparr>j_status := Reviewing, j_phase := PhaseReview\<rparr> else j)
     \<lparr>j_completed_chunk_count := n, j_last_progress_at := Some current,
      j_updated_at := current, j_retry_after := None\<rparr>"

text \<open>A processing job no one holds a lease on: back to \<open>Retryable\<close>, or failed on its budget.\<close>

definition recover_orphaned ::
  "time \<Rightarrow> int option \<Rightarrow> job \<Rightarrow> checkpoint list \<Rightarrow> ledger \<Rightarrow> bool \<times> ledger" where
  "recover_orphaned current recovery_budget j checkpoints l =
     (let j1 = note_recovery current recovery_budget ''processing_without_active_lease'' j
      in if budget_exhausted j1
         then (True,
               upsert_job (j1\<lparr>j_status := Failed, j_error := Some ''distill recovery budget exhausted'',
                             j_recovery_exhausted_at := Some current\<rparr>)
                 (upsert_checkpoints (map (fail_checkpoint current)
                    (filter (\<lambda>k. k_status k \<noteq> CkCompleted) checkpoints)) l))
         else (False,
               upsert_job (j1\<lparr>j_status := Retryable,
                             j_retry_after := Some (current + seconds (backoff_seconds (j_recovery_count j1)))\<rparr>) l))"

definition reconcile_job ::
  "time \<Rightarrow> int option \<Rightarrow> job \<Rightarrow> reconcile_summary \<times> ledger \<Rightarrow> reconcile_summary \<times> ledger" where
  "reconcile_job current recovery_budget j st =
     (case st of (sm0, l) \<Rightarrow>
      let sm = sm0\<lparr>rs_inspected := rs_inspected sm0 + 1\<rparr> in
      if is_terminal (j_status j) then (sm, l)
      else
        let checkpoints = list_checkpoints (j_id j) l;
            n_completed = completed_count checkpoints;
            n_expired = int (length (filter (chunk_lease_expired current) checkpoints))
        in case recover_expired_checkpoints current recovery_budget j checkpoints l of
             (recovered, j1, cps1, l1) \<Rightarrow>
               let sm1 = (if recovered
                          then sm\<lparr>rs_recovered := rs_recovered sm + n_expired,
                                  rs_failed_recovery_budget := rs_failed_recovery_budget sm +
                                    (if j_status j1 = Failed then 1 else 0)\<rparr>
                          else sm)
               in if is_terminal (j_status j1) then (sm1, l1)
                  else if n_completed = j_expected_chunk_count j1 \<and> 0 < j_expected_chunk_count j1
                  then (if retry_backoff_active current j1 then (sm1, l1)
                        else (sm1\<lparr>rs_advanced_to_review := rs_advanced_to_review sm1 +
                                    (if j_status j1 \<noteq> Reviewing then 1 else 0)\<rparr>,
                              upsert_job (advance_to_review current n_completed j1) l1))
                  else if j_status j1 = Processing \<and> \<not> list_ex (chunk_lease_active current) cps1 \<and>
                          list_ex (\<lambda>k. k_status k \<in> {CkPending, CkRetryable}) cps1 \<and> \<not> recovered
                  then (case recover_orphaned current recovery_budget j1 cps1 l1 of
                          (failed, l2) \<Rightarrow>
                            (sm1\<lparr>rs_recovered := rs_recovered sm1 + 1,
                                 rs_failed_recovery_budget := rs_failed_recovery_budget sm1 +
                                   (if failed then 1 else 0)\<rparr>, l2))
                  else (sm1, l1))"

definition reconcile ::
  "time \<Rightarrow> string option \<Rightarrow> int option \<Rightarrow> string set option \<Rightarrow> string set option \<Rightarrow> ledger \<Rightarrow>
   reconcile_summary \<times> ledger" where
  "reconcile current project_name recovery_budget manual_job_ids job_ids l =
     fold (reconcile_job current recovery_budget)
       (filter (\<lambda>j.
            (case project_name of None \<Rightarrow> True | Some p \<Rightarrow> j_project_name j = p) \<and>
            (case job_ids of None \<Rightarrow> True | Some ids \<Rightarrow> j_id j \<in> ids) \<and>
            (case manual_job_ids of None \<Rightarrow> True | Some ids \<Rightarrow> \<not> (j_manual_only j \<or> j_id j \<in> ids)))
          (l_jobs l))
       (\<lparr> rs_inspected = 0, rs_recovered = 0, rs_advanced_to_review = 0,
          rs_failed_recovery_budget = 0 \<rparr>, l)"

section \<open>Agent offers\<close>

definition offer_job :: "time \<Rightarrow> job \<Rightarrow> job" where
  "offer_job now j =
     j\<lparr>j_agent_offer_day := Some (iso_date now), j_agent_offer_count := j_agent_offer_count j + 1,
       j_last_agent_offered_at := Some now, j_updated_at := now\<rparr>"

definition mark_agent_offered ::
  "time \<Rightarrow> string \<Rightarrow> string list \<Rightarrow> ledger \<Rightarrow> int \<times> ledger" where
  "mark_agent_offered now project_name job_ids l =
     (let selected = filter (\<lambda>j. j_project_name j = project_name \<and> j_id j \<in> set job_ids) (l_jobs l)
      in (int (length (filter (\<lambda>j. j_agent_offer_day j \<noteq> Some (iso_date now)) selected)),
          fold (\<lambda>j. upsert_job (offer_job now j)) selected l))"

definition activate_parked_for_agent ::
  "time \<Rightarrow> string \<Rightarrow> ledger \<Rightarrow> py_error + job \<times> ledger" where
  "activate_parked_for_agent now job_id l =
     (case get_job job_id l of
        None \<Rightarrow> Inl (KeyError job_id)
      | Some j \<Rightarrow>
          if j_status j \<noteq> Parked then Inr (j, l)
          else if lease_live now (j_retry_after j) then Inr (j, l)
          else let j' = (offer_job now j)\<lparr>j_status := Queued\<rparr> in Inr (j', upsert_job j' l))"

section \<open>Chunk leases\<close>

definition claim_checkpoint :: "time \<Rightarrow> string \<Rightarrow> int \<Rightarrow> checkpoint \<Rightarrow> checkpoint" where
  "claim_checkpoint now lease_owner lease_seconds k =
     k\<lparr>k_status := CkProcessing, k_attempt_count := k_attempt_count k + 1,
       k_lease_owner := Some lease_owner,
       k_lease_until := Some (now + seconds (max 1 lease_seconds)),
       k_error := None, k_updated_at := now\<rparr>"

definition claim_chunks ::
  "(job \<Rightarrow> bool) \<Rightarrow> time \<Rightarrow> string \<Rightarrow> string \<Rightarrow> int option \<Rightarrow> int \<Rightarrow> string \<Rightarrow> ledger \<Rightarrow>
   py_error + (tchunk \<times> checkpoint) list \<times> ledger" where
  "claim_chunks manual_check now job_id lease_owner limit lease_seconds execution_source l =
     (if strip lease_owner = [] then Inl (ValueError ''lease_owner is required'')
      else case get_job job_id l of
        None \<Rightarrow> Inl (KeyError job_id)
      | Some j \<Rightarrow>
          if execution_source \<noteq> interactive_agent \<and> manual_check j then Inr ([], l)
          else if j_status j \<in> {Completed, Failed, Stale, Parked} then Inr ([], l)
          else
            let checkpoints = list_checkpoints job_id l in
            case recover_expired_checkpoints now None j checkpoints l of
              (True, _, _, l1) \<Rightarrow> Inr ([], l1)
            | (False, _, _, _) \<Rightarrow>
                if lease_live now (j_retry_after j) then Inr ([], l)
                else
                  let eligible = filter (\<lambda>k. k_status k \<in> {CkPending, CkRetryable}) checkpoints;
                      selected = (case limit of None \<Rightarrow> eligible
                                  | Some n \<Rightarrow> take (nat (max 1 n)) eligible)
                  in bind_res
                       (map_res (\<lambda>k. case get_chunk (k_chunk_id k) l of
                           None \<Rightarrow> Inl (ValueError (''distill input chunk is missing: '' @ k_chunk_id k))
                         | Some c \<Rightarrow> Inr (c, claim_checkpoint now lease_owner lease_seconds k)) selected)
                       (\<lambda>claimed.
                          let l1 = upsert_checkpoints (map snd claimed) l
                          in Inr (claimed,
                               if claimed = [] then l1
                               else upsert_job (j\<lparr>j_status := Processing, j_phase := PhaseChunks,
                                      j_attempt_count := j_attempt_count j + 1, j_retry_after := None,
                                      j_last_progress_at := Some now, j_updated_at := now\<rparr>) l1)))"

definition complete_checkpoint :: "time \<Rightarrow> jdict \<Rightarrow> checkpoint \<Rightarrow> checkpoint" where
  "complete_checkpoint now result k =
     k\<lparr>k_status := CkCompleted, k_result := result, k_error := None, k_lease_owner := None,
       k_lease_until := None, k_completed_at := Some now, k_updated_at := now\<rparr>"

definition checkpoint_chunk ::
  "time \<Rightarrow> string \<Rightarrow> string \<Rightarrow> string \<Rightarrow> jdict \<Rightarrow> ledger \<Rightarrow> py_error + job \<times> ledger" where
  "checkpoint_chunk now job_id chunk_id lease_owner result l =
     (case get_job job_id l of
        None \<Rightarrow> Inl (KeyError job_id)
      | Some j \<Rightarrow>
          (case get_checkpoint (job_id, chunk_id) l of
             None \<Rightarrow> Inl (KeyError (job_id @ '':'' @ chunk_id))
           | Some k \<Rightarrow>
               if k_status k = CkCompleted then Inr (j, l)
               else if k_status k \<noteq> CkProcessing \<or> k_lease_owner k \<noteq> Some lease_owner
               then Inl (PermissionError ''distill chunk lease is not owned by this caller'')
               else if (case k_lease_until k of None \<Rightarrow> True | Some t \<Rightarrow> t < now)
               then Inl (TimeoutError ''distill chunk lease has expired'')
               else
                 let l1 = upsert_checkpoint (complete_checkpoint now result k) l;
                     n = completed_count (filter (\<lambda>k. k_job_id k = job_id) (l_checkpoints l1));
                     j1 = j\<lparr>j_completed_chunk_count := n, j_last_progress_at := Some now,
                            j_updated_at := now\<rparr>;
                     j2 = (if n = j_expected_chunk_count j
                           then j1\<lparr>j_status := Reviewing, j_phase := PhaseReview\<rparr> else j1)
                 in Inr (j2, upsert_job j2 l1)))"

section \<open>Completion\<close>

definition structural_audit :: "digests \<Rightarrow> int \<Rightarrow> int \<Rightarrow> string \<Rightarrow> jdict" where
  "structural_audit h expected n reconstructed =
     [(''coverage'', JStr ''complete''), (''expected_chunks'', JInt expected),
      (''completed_chunks'', JInt n), (''normalized_sha256'', JStr (sha256_text h reconstructed)),
      (''source_revision_current'', JBool True)]"

definition complete_job ::
  "digests \<Rightarrow> time \<Rightarrow> semantic_review \<Rightarrow> string list option \<Rightarrow> int \<Rightarrow> string \<Rightarrow> job \<Rightarrow> job" where
  "complete_job h now review output_candidate_ids n reconstructed j =
     j\<lparr>j_structural_audit := structural_audit h (j_expected_chunk_count j) n reconstructed,
       j_semantic_review := review_to_dict review,
       j_output_candidate_ids := dedup (case output_candidate_ids of None \<Rightarrow> [] | Some ids \<Rightarrow> ids),
       j_completed_chunk_count := n, j_status := Completed, j_phase := PhaseDone, j_error := None,
       j_review_lease_owner := None, j_review_lease_until := None, j_completed_at := Some now,
       j_last_progress_at := Some now, j_updated_at := now\<rparr>"

text \<open>The lease test: the caller's own live lease, or no live lease at all.\<close>

definition review_guard :: "time \<Rightarrow> string option \<Rightarrow> job \<Rightarrow> py_error option" where
  "review_guard now review_lease_owner j =
     (let active = (truthy (j_review_lease_owner j) \<and> lease_live now (j_review_lease_until j)) in
      if review_lease_owner \<noteq> None \<and> j_review_lease_owner j \<noteq> review_lease_owner
      then Some (PermissionError ''distill review lease is not owned by this caller'')
      else if review_lease_owner \<noteq> None \<and> \<not> lease_live now (j_review_lease_until j)
      then Some (TimeoutError ''distill review lease has expired'')
      else if active \<and> j_review_lease_owner j \<noteq> review_lease_owner
      then Some (PermissionError ''distill review lease is not owned by this caller'')
      else None)"

definition finalize_owned ::
  "digests \<Rightarrow> time \<Rightarrow> semantic_review \<Rightarrow> string list option \<Rightarrow> job \<Rightarrow> ledger \<Rightarrow>
   py_error + job \<times> ledger" where
  "finalize_owned h now review output_candidate_ids j l =
     (case get_source (j_source_id j) l of
        None \<Rightarrow> Inl (ValueError ''distill source no longer exists'')
      | Some s \<Rightarrow>
          if s_source_revision s \<noteq> j_source_revision j
          then let j' = j\<lparr>j_status := Stale,
                          j_error := Some ''source revision changed before finalization'',
                          j_updated_at := now\<rparr>
               in Inr (j', upsert_job j' l)
          else
            let n = completed_count (list_checkpoints (j_id j) l) in
            if n \<noteq> j_expected_chunk_count j
            then Inl (ValueError ''not all distill chunks are complete'')
            else bind_res (reconstruct h (j_source_id j) (Some (j_source_revision j)) l) (\<lambda>reconstructed.
              let j' = complete_job h now review output_candidate_ids n reconstructed j
              in Inr (j', upsert_job j' l)))"

definition finalize ::
  "digests \<Rightarrow> time \<Rightarrow> string \<Rightarrow> semantic_review \<Rightarrow> string list option \<Rightarrow> string option \<Rightarrow> ledger \<Rightarrow>
   py_error + job \<times> ledger" where
  "finalize h now job_id semantic_review output_candidate_ids review_lease_owner l =
     bind_res (validate_review semantic_review) (\<lambda>review.
     case get_job job_id l of
       None \<Rightarrow> Inl (KeyError job_id)
     | Some j \<Rightarrow>
         if j_status j = Completed then Inr (j, l)
         else (case review_guard now review_lease_owner j of
                 Some e \<Rightarrow> Inl e
               | None \<Rightarrow> finalize_owned h now review output_candidate_ids j l))"

definition defer_checkpoint :: "time \<Rightarrow> string \<Rightarrow> checkpoint \<Rightarrow> checkpoint" where
  "defer_checkpoint now err k =
     k\<lparr>k_status := CkRetryable, k_lease_owner := None, k_lease_until := None,
       k_error := Some (take 512 err), k_updated_at := now\<rparr>"

definition defer_job :: "time \<Rightarrow> string \<Rightarrow> job \<Rightarrow> job" where
  "defer_job now err j =
     j\<lparr>j_status := Retryable, j_error := Some (take 512 err), j_review_lease_owner := None,
       j_review_lease_until := None,
       j_retry_after := Some (now + seconds (backoff_seconds (max 1 (j_attempt_count j)))),
       j_last_progress_at := Some now, j_updated_at := now\<rparr>"

definition defer_distill :: "time \<Rightarrow> string \<Rightarrow> string \<Rightarrow> ledger \<Rightarrow> py_error + job \<times> ledger" where
  "defer_distill now job_id err l =
     (case get_job job_id l of
        None \<Rightarrow> Inl (KeyError job_id)
      | Some j \<Rightarrow>
          if j_status j \<in> {Completed, Stale, Failed} then Inr (j, l)
          else
            let held = filter (\<lambda>k. k_job_id k = job_id \<and> k_status k = CkProcessing) (l_checkpoints l);
                l1 = upsert_checkpoints (map (defer_checkpoint now err) held) l;
                j' = defer_job now err j
            in Inr (j', upsert_job j' l1))"

definition record_completion_outcome ::
  "time \<Rightarrow> string \<Rightarrow> completion_disposition option \<Rightarrow> string list \<Rightarrow> jdict \<Rightarrow>
   source_cleanup_status \<Rightarrow> string option \<Rightarrow> ledger \<Rightarrow> py_error + job \<times> ledger" where
  "record_completion_outcome now job_id disposition reason_codes promotion_summary cleanup_status
     receipt_id l =
     (case get_job job_id l of
        None \<Rightarrow> Inl (KeyError job_id)
      | Some j \<Rightarrow>
          if j_status j \<noteq> Completed
          then Inl (ValueError ''completion outcome requires a completed distill job'')
          else let j' = j\<lparr>j_completion_disposition := disposition,
                          j_completion_reason_codes := dedup reason_codes,
                          j_promotion_summary := promotion_summary,
                          j_source_cleanup_status := Some cleanup_status,
                          j_source_cleanup_receipt_id := receipt_id,
                          j_last_progress_at := Some now, j_updated_at := now\<rparr>
               in Inr (j', upsert_job j' l))"

definition backfill_session_summary ::
  "time \<Rightarrow> string \<Rightarrow> string \<Rightarrow> ledger \<Rightarrow> py_error + job \<times> ledger" where
  "backfill_session_summary now job_id session_summary l =
     (let summary = take 2000 (strip session_summary) in
      if length summary < 12
      then Inl (ValueError ''session_summary must contain at least 12 characters'')
      else case get_job job_id l of
        None \<Rightarrow> Inl (KeyError job_id)
      | Some j \<Rightarrow>
          if j_status j \<noteq> Completed
          then Inl (ValueError ''session summary backfill requires a completed job'')
          else if is_meaningful_session_summary (strip (summary_of (j_semantic_review j)))
          then Inr (j, l)
          else let review = AList.update ''session_summary'' (JStr summary)
                     (AList.delete ''historical_summary_reason''
                       (AList.delete ''historical_summary_status'' (j_semantic_review j)));
                   j' = j\<lparr>j_semantic_review := review, j_updated_at := now\<rparr>
               in Inr (j', upsert_job j' l))"

definition mark_historical_summary_unavailable ::
  "time \<Rightarrow> string \<Rightarrow> string \<Rightarrow> ledger \<Rightarrow> py_error + job \<times> ledger" where
  "mark_historical_summary_unavailable now job_id reason l =
     (let bounded_reason = take 160 (strip reason) in
      if bounded_reason = []
      then Inl (ValueError ''historical summary unavailable reason is required'')
      else case get_job job_id l of
        None \<Rightarrow> Inl (KeyError job_id)
      | Some j \<Rightarrow>
          if j_status j \<noteq> Completed
          then Inl (ValueError ''historical summary status requires a completed job'')
          else if is_meaningful_session_summary (summary_of (j_semantic_review j)) then Inr (j, l)
          else let j' = j\<lparr>j_semantic_review :=
                            AList.update ''historical_summary_reason'' (JStr bounded_reason)
                              (AList.update ''historical_summary_status'' (JStr ''unavailable'')
                                (j_semantic_review j)),
                          j_updated_at := now\<rparr>
               in Inr (j', upsert_job j' l))"

end
