(* ===== verification/QueueInvariant.thy ===== *)
theory QueueInvariant
  imports DistillQueue
begin

text \<open>
  What every operation of the distillation queue keeps.

  \<open>job_le\<close> and \<open>ck_le\<close> say how a row may change: identities are fixed, flags and counters only grow,
  a completed job keeps its result and a completed checkpoint is never touched again.  \<open>legal\<close> is the
  step relation \<^emph>\<open>rewrite one existing row, moving it up\<close>; each operation but \<open>enqueue\<close> is shown to be
  a sequence of such steps, so the invariant \<open>queue_inv\<close> and the order \<open>ledger_le\<close> are proved once,
  by rule induction on \<open>legal\<close>.
\<close>

section \<open>Rows\<close>

definition job_le :: "job \<Rightarrow> job \<Rightarrow> bool" where
  "job_le j j' \<longleftrightarrow>
     j_id j' = j_id j \<and> j_idempotency_key j' = j_idempotency_key j \<and>
     j_project_name j' = j_project_name j \<and> j_source_id j' = j_source_id j \<and>
     j_source_revision j' = j_source_revision j \<and>
     j_expected_chunk_count j' = j_expected_chunk_count j \<and> j_created_at j' = j_created_at j \<and>
     (j_manual_only j \<longrightarrow> j_manual_only j') \<and> (j_retain_source j \<longrightarrow> j_retain_source j') \<and>
     j_recovery_count j \<le> j_recovery_count j' \<and> j_attempt_count j \<le> j_attempt_count j' \<and>
     j_review_attempt_count j \<le> j_review_attempt_count j' \<and>
     j_agent_offer_count j \<le> j_agent_offer_count j' \<and>
     (j_status j = Completed \<longrightarrow>
        j_status j' = Completed \<and> j_phase j' = j_phase j \<and> j_completed_at j' = j_completed_at j \<and>
        j_structural_audit j' = j_structural_audit j \<and>
        j_output_candidate_ids j' = j_output_candidate_ids j \<and>
        j_completed_chunk_count j' = j_completed_chunk_count j \<and>
        j_review_lease_owner j' = j_review_lease_owner j \<and>
        j_review_lease_until j' = j_review_lease_until j)"

definition ck_le :: "checkpoint \<Rightarrow> checkpoint \<Rightarrow> bool" where
  "ck_le k k' \<longleftrightarrow>
     k_key k' = k_key k \<and> k_chunk_index k' = k_chunk_index k \<and>
     k_attempt_count k \<le> k_attempt_count k' \<and> (k_status k = CkCompleted \<longrightarrow> k' = k)"

definition job_wf :: "job \<Rightarrow> bool" where
  "job_wf j \<longleftrightarrow>
     (j_status j = Completed \<longrightarrow>
        j_phase j = PhaseDone \<and> j_completed_at j \<noteq> None \<and> j_review_lease_owner j = None \<and>
        j_review_lease_until j = None \<and> j_completed_chunk_count j = j_expected_chunk_count j)"

text \<open>A chunk lease is held exactly while the chunk is being processed, by a named owner.\<close>

definition ck_wf :: "checkpoint \<Rightarrow> bool" where
  "ck_wf k \<longleftrightarrow>
     (if k_status k = CkProcessing
      then k_lease_until k \<noteq> None \<and> (case k_lease_owner k of None \<Rightarrow> False | Some w \<Rightarrow> strip w \<noteq> [])
      else k_lease_owner k = None \<and> k_lease_until k = None)"

lemma job_le_refl [simp]: "job_le j j"
  by (simp add: job_le_def)

lemma job_le_trans: "job_le a b \<Longrightarrow> job_le b c \<Longrightarrow> job_le a c"
  unfolding job_le_def by (auto intro: order_trans)

lemma job_le_id: "job_le j j' \<Longrightarrow> j_id j' = j_id j"
  by (simp add: job_le_def)

lemma job_le_wf:
  "job_le j j' \<Longrightarrow> job_wf j \<Longrightarrow> (j_status j' = Completed \<Longrightarrow> j_status j = Completed) \<Longrightarrow> job_wf j'"
  by (auto simp: job_le_def job_wf_def)

lemma ck_le_refl [simp]: "ck_le k k"
  by (simp add: ck_le_def)

lemma ck_le_trans: "ck_le a b \<Longrightarrow> ck_le b c \<Longrightarrow> ck_le a c"
  unfolding ck_le_def by (auto intro: order_trans)

section \<open>The ledger\<close>

definition ledger_le :: "ledger \<Rightarrow> ledger \<Rightarrow> bool" where
  "ledger_le l l' \<longleftrightarrow>
     (\<forall>i j. get_job i l = Some j \<longrightarrow> (\<exists>j'. get_job i l' = Some j' \<and> job_le j j')) \<and>
     (\<forall>i k. get_checkpoint i l = Some k \<longrightarrow> (\<exists>k'. get_checkpoint i l' = Some k' \<and> ck_le k k'))"

definition checkpoint_count :: "string \<Rightarrow> ledger \<Rightarrow> int" where
  "checkpoint_count i l = int (length (filter (\<lambda>k. k_job_id k = i) (l_checkpoints l)))"

definition all_done :: "string \<Rightarrow> ledger \<Rightarrow> bool" where
  "all_done i l \<longleftrightarrow> (\<forall>k\<in>set (l_checkpoints l). k_job_id k = i \<longrightarrow> k_status k = CkCompleted)"

definition queue_inv :: "digests \<Rightarrow> ledger \<Rightarrow> bool" where
  "queue_inv h l \<longleftrightarrow>
     inj (uuid5_url h) \<and> distinct (map j_id (l_jobs l)) \<and> distinct (map k_key (l_checkpoints l)) \<and>
     (\<forall>j\<in>set (l_jobs l). j_id j = distill_job_id h (j_idempotency_key j) \<and> job_wf j \<and>
        checkpoint_count (j_id j) l \<le> j_expected_chunk_count j \<and>
        (j_status j = Completed \<longrightarrow> all_done (j_id j) l)) \<and>
     (\<forall>k\<in>set (l_checkpoints l). ck_wf k \<and> get_job (k_job_id k) l \<noteq> None)"

lemma ledger_le_refl [simp]: "ledger_le l l"
  by (simp add: ledger_le_def)

lemma ledger_le_trans: "ledger_le a b \<Longrightarrow> ledger_le b c \<Longrightarrow> ledger_le a c"
  unfolding ledger_le_def by (meson ck_le_trans job_le_trans)

lemma queue_inv_cong:
  "l_jobs l' = l_jobs l \<Longrightarrow> l_checkpoints l' = l_checkpoints l \<Longrightarrow> queue_inv h l' = queue_inv h l"
  by (simp add: queue_inv_def get_job_def checkpoint_count_def all_done_def)

lemma ledger_le_cong:
  "l_jobs l' = l_jobs l \<Longrightarrow> l_checkpoints l' = l_checkpoints l \<Longrightarrow> ledger_le l l'"
  by (simp add: ledger_le_def get_job_def get_checkpoint_def)

lemma queue_inv_empty: "inj (uuid5_url h) \<Longrightarrow> queue_inv h empty_ledger"
  by (simp add: queue_inv_def empty_ledger_def)

lemma queue_inv_distinct:
  "queue_inv h l \<Longrightarrow> distinct (map j_id (l_jobs l)) \<and> distinct (map k_key (l_checkpoints l))"
  by (simp add: queue_inv_def)

lemma get_job_set: "queue_inv h l \<Longrightarrow> j \<in> set (l_jobs l) \<Longrightarrow> get_job (j_id j) l = Some j"
  unfolding get_job_def by (rule in_get_row) (simp_all add: queue_inv_distinct)

lemma get_checkpoint_set:
  "queue_inv h l \<Longrightarrow> k \<in> set (l_checkpoints l) \<Longrightarrow> get_checkpoint (k_key k) l = Some k"
  unfolding get_checkpoint_def by (rule in_get_row) (simp_all add: queue_inv_distinct)

lemma get_job_in: "get_job i l = Some j \<Longrightarrow> j \<in> set (l_jobs l) \<and> j_id j = i"
  by (auto simp: get_job_def dest: get_row_in get_row_key)

lemma get_checkpoint_in:
  "get_checkpoint kk l = Some k \<Longrightarrow> k \<in> set (l_checkpoints l) \<and> k_key k = kk"
  by (auto simp: get_checkpoint_def dest: get_row_in get_row_key)

lemma queue_inv_job:
  assumes "queue_inv h l" and "get_job i l = Some j"
  shows "j_id j = i" "job_wf j" "checkpoint_count i l \<le> j_expected_chunk_count j"
    "j_status j = Completed \<Longrightarrow> all_done i l" "j_id j = distill_job_id h (j_idempotency_key j)"
  using assms get_job_in[OF assms(2)] by (auto simp: queue_inv_def)

lemma queue_inv_ck: "queue_inv h l \<Longrightarrow> k \<in> set (l_checkpoints l) \<Longrightarrow> ck_wf k"
  by (simp add: queue_inv_def)

lemma checkpoint_count_keys:
  "checkpoint_count i l = int (length (filter (\<lambda>kk. fst kk = i) (map k_key (l_checkpoints l))))"
  by (simp add: checkpoint_count_def filter_map o_def k_key_def)

lemma list_checkpoints_simps [simp]:
  "set (list_checkpoints i l) = {k \<in> set (l_checkpoints l). k_job_id k = i}"
  "length (list_checkpoints i l) = length (filter (\<lambda>k. k_job_id k = i) (l_checkpoints l))"
  by (auto simp: list_checkpoints_def)

section \<open>Row updates\<close>

inductive legal :: "ledger \<Rightarrow> ledger \<Rightarrow> bool" where
  legal_refl: "legal l l"
| legal_job: "legal l l1 \<Longrightarrow> get_job (j_id j') l1 = Some j \<Longrightarrow> job_le j j' \<Longrightarrow> job_wf j' \<Longrightarrow>
    (j_status j' = Completed \<Longrightarrow> all_done (j_id j') l1) \<Longrightarrow> legal l (upsert_job j' l1)"
| legal_ck: "legal l l1 \<Longrightarrow> get_checkpoint (k_key k') l1 = Some k \<Longrightarrow> ck_le k k' \<Longrightarrow> ck_wf k' \<Longrightarrow>
    legal l (upsert_checkpoint k' l1)"

declare legal_refl [simp, intro]

lemma legal_trans: "legal b c \<Longrightarrow> legal a b \<Longrightarrow> legal a c"
  by (induction rule: legal.induct) (auto intro: legal.intros)

lemma upsert_job_le:
  "get_job (j_id j') l = Some j \<Longrightarrow> job_le j j' \<Longrightarrow> ledger_le l (upsert_job j' l)"
  by (auto simp: ledger_le_def job_rows.get_put get_checkpoint_def)

lemma upsert_checkpoint_le:
  "get_checkpoint (k_key k') l = Some k \<Longrightarrow> ck_le k k' \<Longrightarrow> ledger_le l (upsert_checkpoint k' l)"
  by (auto simp: ledger_le_def checkpoint_rows.get_put get_job_def)

lemma legal_le: "legal l l' \<Longrightarrow> ledger_le l l'"
  by (induction rule: legal.induct)
    (auto intro: ledger_le_trans upsert_job_le upsert_checkpoint_le)

lemma upsert_job_inv:
  assumes inv: "queue_inv h l" and g: "get_job (j_id j') l = Some j" and le: "job_le j j'"
    and wf: "job_wf j'" and ad: "j_status j' = Completed \<Longrightarrow> all_done (j_id j') l"
  shows "queue_inv h (upsert_job j' l)"
proof -
  have d: "distinct (map j_id (l_jobs l))" using inv by (simp add: queue_inv_def)
  have jobs: "set (l_jobs (upsert_job j' l)) \<subseteq> insert j' (set (l_jobs l))"
    by (simp add: set_put_row_subset)
  have same: "checkpoint_count i (upsert_job j' l) = checkpoint_count i l"
    "all_done i (upsert_job j' l) = all_done i l" for i
    by (simp_all add: checkpoint_count_def all_done_def)
  have j': "j_id j' = distill_job_id h (j_idempotency_key j') \<and> job_wf j' \<and>
      checkpoint_count (j_id j') l \<le> j_expected_chunk_count j'"
    using queue_inv_job[OF inv g] le wf by (auto simp: job_le_def)
  show ?thesis
    unfolding queue_inv_def same
    using inv jobs j' ad d
    by (auto simp: queue_inv_def row_simps job_rows.get_put)
qed

lemma upsert_checkpoint_inv:
  assumes inv: "queue_inv h l" and g: "get_checkpoint (k_key k') l = Some k" and le: "ck_le k k'"
    and wf: "ck_wf k'"
  shows "queue_inv h (upsert_checkpoint k' l)"
proof -
  have kin: "k \<in> set (l_checkpoints l)" and kk: "k_key k = k_key k'" using get_checkpoint_in[OF g] by auto
  have keys: "map k_key (l_checkpoints (upsert_checkpoint k' l)) = map k_key (l_checkpoints l)"
    using kin kk by (simp add: map_key_put_row rev_image_eqI)
  have cks: "set (l_checkpoints (upsert_checkpoint k' l)) \<subseteq> insert k' (set (l_checkpoints l))"
    by (simp add: set_put_row_subset)
  have ad: "all_done i (upsert_checkpoint k' l)" if "all_done i l" for i
    using that cks kin le kk by (auto simp: all_done_def ck_le_def k_key_def)
  have job: "get_job i (upsert_checkpoint k' l) = get_job i l" for i by (simp add: get_job_def)
  have cnt: "checkpoint_count i (upsert_checkpoint k' l) = checkpoint_count i l" for i
    unfolding checkpoint_count_keys keys by (rule refl)
  have jid: "k_job_id k' = k_job_id k" using kk by (simp add: k_key_def)
  show ?thesis
    unfolding queue_inv_def keys cnt job
    using inv cks wf ad kin jid
    by (auto simp: queue_inv_def)
qed

lemma legal_inv: "legal l l' \<Longrightarrow> queue_inv h l \<Longrightarrow> queue_inv h l'"
  by (induction rule: legal.induct) (auto intro: upsert_job_inv upsert_checkpoint_inv)

lemma legal_frame:
  "legal l l' \<Longrightarrow> l_sources l' = l_sources l \<and> l_revisions l' = l_revisions l \<and> l_chunks l' = l_chunks l \<and>
     l_projections l' = l_projections l \<and> l_audit l' = l_audit l"
  by (induction rule: legal.induct) auto

lemma get_checkpoint_key_in: "get_checkpoint kk l = Some k \<Longrightarrow> kk \<in> k_key ` set (l_checkpoints l)"
  by (simp add: get_checkpoint_def get_row_key_in)

lemma legal_keys: "legal l l' \<Longrightarrow> k_key ` set (l_checkpoints l') = k_key ` set (l_checkpoints l)"
  by (induction rule: legal.induct) (auto simp: row_simps insert_absorb get_checkpoint_key_in)

end
