(* ===== verification/QueueSteps.thy ===== *)
theory QueueSteps
  imports QueueInvariant
begin

text \<open>
  Every operation of the queue but \<open>enqueue\<close> is a sequence of \<open>legal\<close> row updates; \<open>enqueue\<close> also adds
  a job with its checkpoints, and keeps the invariant and the order as well.
\<close>

section \<open>Updating rows that were just read\<close>

lemma legal_open:
  assumes "get_job i l = Some j" and "job_le j j'" and "j_status j' \<noteq> Completed"
  shows "legal l (upsert_job j' l)"
proof -
  have "j_id j' = i" using assms job_rows.get_key job_le_id by fastforce
  then show ?thesis using assms
    by (intro legal_job[OF legal_refl, of j' l j]) (auto simp: job_wf_def)
qed

lemma legal_same_status:
  assumes "queue_inv h l" and "get_job i l = Some j" and "job_le j j'" and "j_status j' = j_status j"
  shows "legal l (upsert_job j' l)"
proof -
  have "j_id j' = i" using assms job_rows.get_key job_le_id by fastforce
  then show ?thesis using assms queue_inv_job[OF assms(1,2)] job_le_wf[OF assms(3)]
    by (intro legal_job[OF legal_refl, of j' l j]) auto
qed

definition current :: "checkpoint list \<Rightarrow> ledger \<Rightarrow> bool" where
  "current ks l \<longleftrightarrow> distinct (map k_key ks) \<and> (\<forall>k\<in>set ks. get_checkpoint (k_key k) l = Some k)"

lemma current_filter: "current ks l \<Longrightarrow> current (filter P ks) l"
  by (auto simp: current_def distinct_map_filter)

lemma distinct_sorted_keys:
  "distinct (map k_key ks) \<Longrightarrow> distinct (map k_key (sort_key f ks))"
  by (auto simp: distinct_map distinct_sort)

lemma current_list: "queue_inv h l \<Longrightarrow> current (list_checkpoints i l) l"
  using queue_inv_distinct[of h l]
  by (auto simp: current_def get_checkpoint_set list_checkpoints_def
      intro!: distinct_sorted_keys distinct_map_filter)

lemma current_rows: "queue_inv h l \<Longrightarrow> current (l_checkpoints l) l"
  using queue_inv_distinct[of h l] by (auto simp: current_def get_checkpoint_set)

lemma upsert_checkpoints_frame [simp]:
  "l_sources (upsert_checkpoints ks l) = l_sources l" "l_revisions (upsert_checkpoints ks l) = l_revisions l"
  "l_chunks (upsert_checkpoints ks l) = l_chunks l" "l_jobs (upsert_checkpoints ks l) = l_jobs l"
  "l_projections (upsert_checkpoints ks l) = l_projections l" "l_audit (upsert_checkpoints ks l) = l_audit l"
  "get_job i (upsert_checkpoints ks l) = get_job i l"
  "upsert_checkpoints [] l = l"
  by (induction ks arbitrary: l) (auto simp: upsert_checkpoints_def get_job_def)

lemma upsert_checkpoints_Cons [simp]:
  "upsert_checkpoints (k # ks) l = upsert_checkpoints ks (upsert_checkpoint k l)"
  by (simp add: upsert_checkpoints_def)

lemma get_checkpoint_upsert_job [simp]: "get_checkpoint kk (upsert_job j l) = get_checkpoint kk l"
  by (simp add: get_checkpoint_def)

lemma current_upsert_job [simp]: "current ks (upsert_job j l) = current ks l"
  by (simp add: current_def)

lemma get_checkpoint_upserts:
  "get_checkpoint kk (upsert_checkpoints ks l) =
     (if kk \<in> k_key ` set ks then get_checkpoint kk (upsert_checkpoints ks l) else get_checkpoint kk l)"
  using checkpoint_rows.get_put_all_other[of kk ks l]
  by (simp add: checkpoint_rows.put_all_def upsert_checkpoints_def)

lemma get_checkpoint_upserts_in:
  "distinct (map k_key ks) \<Longrightarrow> k \<in> set ks \<Longrightarrow> get_checkpoint (k_key k) (upsert_checkpoints ks l) = Some k"
  using checkpoint_rows.get_put_all_in[of ks k l]
  by (simp add: checkpoint_rows.put_all_def upsert_checkpoints_def)

lemma legal_upserts:
  assumes "distinct (map k_key ks)"
    and "\<And>k'. k' \<in> set ks \<Longrightarrow> ck_wf k' \<and> (\<exists>k. get_checkpoint (k_key k') l = Some k \<and> ck_le k k')"
  shows "legal l (upsert_checkpoints ks l)"
  using assms
proof (induction ks arbitrary: l)
  case (Cons q ks)
  obtain k where k: "ck_wf q" "get_checkpoint (k_key q) l = Some k" "ck_le k q" using Cons.prems(2)[of q] by auto
  have "legal l (upsert_checkpoint q l)" by (rule legal_ck[OF legal_refl k(2,3,1)])
  moreover have "legal (upsert_checkpoint q l) (upsert_checkpoints ks (upsert_checkpoint q l))"
  proof (rule Cons.IH)
    fix k' assume k': "k' \<in> set ks"
    have "k_key k' \<noteq> k_key q" using Cons.prems(1) imageI[OF k', of k_key] by auto
    then show "ck_wf k' \<and> (\<exists>k. get_checkpoint (k_key k') (upsert_checkpoint q l) = Some k \<and> ck_le k k')"
      using Cons.prems(2)[of k'] k' by (simp add: checkpoint_rows.get_put)
  qed (use Cons.prems(1) in simp)
  ultimately show ?case by (auto intro: legal_trans)
qed simp

text \<open>Rewriting, in place, those of a list of current rows that satisfy a test.\<close>

lemma rewrite_current:
  assumes cur: "current ks l" and key: "\<And>k. k_key (g k) = k_key k"
    and ok: "\<And>k. k \<in> set ks \<Longrightarrow> P k \<Longrightarrow> ck_le k (g k) \<and> ck_wf (g k)"
  shows "legal l (upsert_checkpoints (map g (filter P ks)) l)"
    and "current (map (\<lambda>k. if P k then g k else k) ks) (upsert_checkpoints (map g (filter P ks)) l)"
    and "k \<in> set ks \<Longrightarrow> get_checkpoint (k_key k) (upsert_checkpoints (map g (filter P ks)) l) =
      Some (if P k then g k else k)"
proof -
  have d: "distinct (map k_key (map g (filter P ks)))"
    using cur by (simp add: current_def key o_def distinct_map_filter)
  show "legal l (upsert_checkpoints (map g (filter P ks)) l)"
    using cur ok d by (intro legal_upserts) (auto simp: current_def key)
  have "get_checkpoint (k_key k) (upsert_checkpoints (map g (filter P ks)) l) = Some (if P k then g k else k)"
    if k: "k \<in> set ks" for k
  proof (cases "P k")
    case True
    then show ?thesis using get_checkpoint_upserts_in[OF d, of "g k"] k by (auto simp: key)
  next
    case False
    have "k_key k \<notin> k_key ` set (map g (filter P ks))"
      using cur k False by (auto simp: key current_def distinct_map dest: inj_onD)
    then show ?thesis using cur k False by (simp add: get_checkpoint_upserts current_def)
  qed
  then show "k \<in> set ks \<Longrightarrow> get_checkpoint (k_key k) (upsert_checkpoints (map g (filter P ks)) l) =
      Some (if P k then g k else k)" for k by simp
  moreover have "map k_key (map (\<lambda>k. if P k then g k else k) ks) = map k_key ks" by (simp add: key)
  ultimately show "current (map (\<lambda>k. if P k then g k else k) ks) (upsert_checkpoints (map g (filter P ks)) l)"
    using cur by (auto simp: current_def key simp del: map_map)
qed

lemma ck_rewrites [simp]:
  "k_key (release_expired now k) = k_key k" "k_key (fail_checkpoint now k) = k_key k"
  "k_key (claim_checkpoint now w s k) = k_key k" "k_key (complete_checkpoint now r k) = k_key k"
  "k_key (defer_checkpoint now e k) = k_key k"
  "ck_wf (release_expired now k)" "ck_wf (fail_checkpoint now k)" "ck_wf (complete_checkpoint now r k)"
  "ck_wf (defer_checkpoint now e k)" "strip w \<noteq> [] \<Longrightarrow> ck_wf (claim_checkpoint now w s k)"
  by (simp_all add: k_key_def release_expired_def fail_checkpoint_def claim_checkpoint_def
      complete_checkpoint_def defer_checkpoint_def ck_wf_def)

lemma ck_rewrites_le [simp]:
  assumes "k_status k \<noteq> CkCompleted"
  shows "ck_le k (release_expired now k)" "ck_le k (fail_checkpoint now k)"
    "ck_le k (claim_checkpoint now w s k)" "ck_le k (complete_checkpoint now r k)"
    "ck_le k (defer_checkpoint now e k)"
  using assms
  by (simp_all add: ck_le_def k_key_def release_expired_def fail_checkpoint_def claim_checkpoint_def
      complete_checkpoint_def defer_checkpoint_def)

lemma ck_rewrites_status [simp]:
  "k_status (release_expired now k) = CkRetryable" "k_status (fail_checkpoint now k) = CkFailed"
  "k_status (claim_checkpoint now w s k) = CkProcessing" "k_status (complete_checkpoint now r k) = CkCompleted"
  "k_status (defer_checkpoint now e k) = CkRetryable"
  by (simp_all add: release_expired_def fail_checkpoint_def claim_checkpoint_def
      complete_checkpoint_def defer_checkpoint_def)

section \<open>Recovery of expired chunk leases\<close>

lemma note_recovery_le: "j_status j \<noteq> Completed \<Longrightarrow> job_le j (note_recovery now b reason j)"
  by (simp add: note_recovery_def job_le_def)

lemma note_recovery_id [simp]: "j_id (note_recovery now b reason j) = j_id j"
  "j_status (note_recovery now b reason j) = j_status j"
  "j_expected_chunk_count (note_recovery now b reason j) = j_expected_chunk_count j"
  by (simp_all add: note_recovery_def)

lemma recover_not: "\<not> list_ex (chunk_lease_expired now) cps \<Longrightarrow>
  recover_expired_checkpoints now b j cps l = (False, j, cps, l)"
  by (simp add: recover_expired_checkpoints_def)

lemma expired_open: "chunk_lease_expired now k \<Longrightarrow> k_status k \<noteq> CkCompleted"
  by (simp add: chunk_lease_expired_def)

lemma recover_legal:
  assumes g: "get_job i l = Some j" and op: "j_status j \<noteq> Completed" and cur: "current cps l"
    and r: "recover_expired_checkpoints now b j cps l = (done, j', cps', l')"
  shows "legal l l'" "current cps' l'" "get_job i l' = Some j'" "j_status j' \<noteq> Completed" "job_le j j'"
    "done \<Longrightarrow> j_status j' \<in> {Failed, Retryable}"
    "\<not> done \<Longrightarrow> j' = j \<and> cps' = cps \<and> l' = l"
    "done = list_ex (chunk_lease_expired now) cps"
    "m \<noteq> i \<Longrightarrow> get_job m l' = get_job m l"
proof -
  have jid: "j_id j = i" using g by (rule job_rows.get_key)
  let ?x = "chunk_lease_expired now"
  let ?l1 = "upsert_checkpoints (map (release_expired now) (filter ?x cps)) l"
  let ?cps1 = "map (\<lambda>k. if ?x k then release_expired now k else k) cps"
  let ?n = "\<lambda>k. k_status k \<noteq> CkCompleted"
  let ?l2 = "upsert_checkpoints (map (fail_checkpoint now) (filter ?n ?cps1)) ?l1"
  let ?cps2 = "map (\<lambda>k. if ?n k then fail_checkpoint now k else k) ?cps1"
  let ?j1 = "note_recovery now b ''expired_chunk_lease'' j"
  have l1: "legal l ?l1" "current ?cps1 ?l1"
    using rewrite_current[OF cur, of "release_expired now" ?x] expired_open by auto
  have l2: "legal ?l1 ?l2" "current ?cps2 ?l2"
    using rewrite_current[OF l1(2), of "fail_checkpoint now" ?n] by auto
  have c2: "map (\<lambda>k. if k_status k = CkCompleted then k else fail_checkpoint now k) ?cps1 = ?cps2"
    by (rule map_cong) auto
  have f2: "filter ?n ?cps2 = map (fail_checkpoint now) (filter ?n ?cps1)"
    by (induction cps) auto
  have le: "job_le j ?j1" using op by (rule note_recovery_le)
  let ?jf = "?j1\<lparr>j_status := Failed, j_error := Some ''distill recovery budget exhausted'',
               j_retry_after := None, j_recovery_exhausted_at := Some now\<rparr>"
  let ?jr = "?j1\<lparr>j_status := Retryable,
               j_retry_after := Some (now + seconds (backoff_seconds (j_recovery_count ?j1)))\<rparr>"
  have "recover_expired_checkpoints now b j cps l =
     (if \<not> list_ex ?x cps then (False, j, cps, l)
      else if budget_exhausted ?j1 then (True, ?jf, ?cps2, upsert_job ?jf ?l2)
      else (True, ?jr, ?cps1, upsert_job ?jr ?l1))"
    unfolding recover_expired_checkpoints_def Let_def c2 f2 by (rule refl)
  then have r': "(done, j', cps', l') =
     (if \<not> list_ex ?x cps then (False, j, cps, l)
      else if budget_exhausted ?j1 then (True, ?jf, ?cps2, upsert_job ?jf ?l2)
      else (True, ?jr, ?cps1, upsert_job ?jr ?l1))" using r by (simp only:)
  have moves: "job_le ?j1 ?jf" "job_le ?j1 ?jr" "j_status ?jf = Failed" "j_status ?jr = Retryable"
    using op by (simp_all add: job_le_def)
  have cases: "(done = False \<and> j' = j \<and> cps' = cps \<and> l' = l \<and> \<not> list_ex ?x cps) \<or>
     (done = True \<and> list_ex ?x cps \<and> cps' = ?cps2 \<and> l' = upsert_job j' ?l2 \<and> job_le ?j1 j' \<and> j_status j' = Failed) \<or>
     (done = True \<and> list_ex ?x cps \<and> cps' = ?cps1 \<and> l' = upsert_job j' ?l1 \<and> job_le ?j1 j' \<and> j_status j' = Retryable)"
  proof (cases "list_ex ?x cps")
    case False
    then show ?thesis using r' by (simp only: if_True prod.inject simp_thms)
  next
    case True
    then show ?thesis
      by (cases "budget_exhausted ?j1")
        (use r' moves in \<open>simp_all only: if_True if_False prod.inject simp_thms\<close>)
  qed
  have g2: "get_job i ?l2 = Some j" "get_job i ?l1 = Some j" using g by simp_all
  have up: "legal ?l2 (upsert_job j' ?l2)" "legal ?l1 (upsert_job j' ?l1)"
    if "job_le ?j1 j'" "j_status j' \<noteq> Completed"
    using legal_open[OF g2(1) job_le_trans[OF le that(1)] that(2)]
      legal_open[OF g2(2) job_le_trans[OF le that(1)] that(2)] by auto
  show "legal l l'" using cases
  proof (elim disjE conjE)
    assume "l' = upsert_job j' ?l2" "job_le ?j1 j'" "j_status j' = Failed"
    then show ?thesis using legal_trans[OF up(1) legal_trans[OF l2(1) l1(1)]] by simp
  next
    assume "l' = upsert_job j' ?l1" "job_le ?j1 j'" "j_status j' = Retryable"
    then show ?thesis using legal_trans[OF up(2) l1(1)] by simp
  qed simp
  have jid': "j_id j' = i" using cases jid le by (auto dest!: job_le_id)
  show "current cps' l'" "get_job i l' = Some j'"
    using cases l1 l2 cur g jid' by (auto simp: job_rows.get_put)
  show "j_status j' \<noteq> Completed" "done \<Longrightarrow> j_status j' \<in> {Failed, Retryable}"
    "\<not> done \<Longrightarrow> j' = j \<and> cps' = cps \<and> l' = l" "done = list_ex ?x cps"
    using cases op by auto
  show "job_le j j'" using cases le by (auto intro: job_le_trans)
  show "m \<noteq> i \<Longrightarrow> get_job m l' = get_job m l" using cases jid' by (auto simp: job_rows.get_put)
qed

section \<open>Single-job operations\<close>

lemma release_wf: "job_wf j \<Longrightarrow> job_wf (j\<lparr>j_review_lease_owner := None, j_review_lease_until := None,
                  j_last_review_heartbeat_at := t, j_updated_at := u\<rparr>)"
  by (simp add: job_wf_def)

lemma legal_reserve_manual:
  "queue_inv h l \<Longrightarrow> reserve_manual now i l = Inr (r, l') \<Longrightarrow> legal l l'"
  by (auto simp: reserve_manual_def Let_def job_le_def intro!: legal_same_status split: option.splits if_splits)

lemma legal_retain_source:
  "queue_inv h l \<Longrightarrow> retain_source now i l = Inr (r, l') \<Longrightarrow> legal l l'"
  by (auto simp: retain_source_def Let_def job_le_def intro!: legal_same_status split: option.splits if_splits)

lemma legal_enable_challenge:
  "queue_inv h l \<Longrightarrow> enable_zero_candidate_challenge now i l = Inr (r, l') \<Longrightarrow> legal l l'"
  by (auto simp: enable_zero_candidate_challenge_def Let_def job_le_def intro!: legal_same_status
      split: option.splits if_splits)

lemma legal_claim_review:
  "claim_review mc now i w src secs l = Inr (r, l') \<Longrightarrow> legal l l'"
  by (auto simp: claim_review_def Let_def job_le_def intro!: legal_open split: option.splits if_splits)

lemma legal_renew_review:
  "renew_review_lease now i w secs l = (r, l') \<Longrightarrow> legal l l'"
  by (auto simp: renew_review_lease_def Let_def job_le_def intro!: legal_open split: option.splits if_splits)

lemma legal_release_review:
  assumes "queue_inv h l" and "release_review_lease now i w l = (r, l')"
  shows "legal l l'"
proof (cases "get_job i l")
  case (Some j)
  then have "j_review_lease_owner j = Some w \<Longrightarrow> j_status j \<noteq> Completed"
    using queue_inv_job[OF assms(1) Some] by (auto simp: job_wf_def)
  then show ?thesis using assms(2) Some
    by (auto simp: release_review_lease_def Let_def job_le_def intro!: legal_open split: if_splits)
qed (use assms(2) in \<open>simp add: release_review_lease_def\<close>)

lemma legal_activate:
  "activate_parked_for_agent now i l = Inr (r, l') \<Longrightarrow> legal l l'"
  by (auto simp: activate_parked_for_agent_def offer_job_def Let_def job_le_def intro!: legal_open
      split: option.splits if_splits)

lemma legal_outcome:
  "queue_inv h l \<Longrightarrow> record_completion_outcome now i d rc ps cs rid l = Inr (r, l') \<Longrightarrow> legal l l'"
  by (auto simp: record_completion_outcome_def Let_def job_le_def intro!: legal_same_status
      split: option.splits if_splits)

lemma legal_backfill:
  "queue_inv h l \<Longrightarrow> backfill_session_summary now i s l = Inr (r, l') \<Longrightarrow> legal l l'"
  by (auto simp: backfill_session_summary_def Let_def job_le_def intro!: legal_same_status
      split: option.splits if_splits)

lemma legal_historical:
  "queue_inv h l \<Longrightarrow> mark_historical_summary_unavailable now i s l = Inr (r, l') \<Longrightarrow> legal l l'"
  by (auto simp: mark_historical_summary_unavailable_def Let_def job_le_def intro!: legal_same_status
      split: option.splits if_splits)

section \<open>Loops over the jobs\<close>

lemma legal_fold_jobs:
  assumes "distinct (map j_id js)" and "queue_inv h (p s)"
    and "\<And>j. j \<in> set js \<Longrightarrow> get_job (j_id j) (p s) = Some j"
    and step: "\<And>j s. j \<in> set js \<Longrightarrow> queue_inv h (p s) \<Longrightarrow> get_job (j_id j) (p s) = Some j \<Longrightarrow>
      legal (p s) (p (f j s)) \<and> (\<forall>i. i \<noteq> j_id j \<longrightarrow> get_job i (p (f j s)) = get_job i (p s))"
  shows "legal (p s) (p (fold f js s))"
  using assms
proof (induction js arbitrary: s)
  case (Cons q js)
  have 1: "legal (p s) (p (f q s))" "\<And>i. i \<noteq> j_id q \<Longrightarrow> get_job i (p (f q s)) = get_job i (p s)"
    using Cons.prems by auto
  have "legal (p (f q s)) (p (fold f js (f q s)))"
  proof (rule Cons.IH)
    show "queue_inv h (p (f q s))" using legal_inv[OF 1(1)] Cons.prems by simp
    fix j assume j: "j \<in> set js"
    have "j_id j \<noteq> j_id q" using Cons.prems(1) imageI[OF j, of j_id] by auto
    then show "get_job (j_id j) (p (f q s)) = Some j" using 1(2) Cons.prems(3)[of j] j by simp
  qed (use Cons.prems in auto)
  then show ?case using 1 by (auto intro: legal_trans)
qed simp

text \<open>The jobs a query selects are current rows with distinct ids.\<close>

lemma selected_jobs:
  assumes "queue_inv h l"
  shows "distinct (map j_id (filter P (l_jobs l)))"
    and "j \<in> set (filter P (l_jobs l)) \<Longrightarrow> get_job (j_id j) l = Some j"
  using assms queue_inv_distinct[of h l] by (auto simp: get_job_set distinct_map_filter)

lemma legal_freeze:
  assumes inv: "queue_inv h l" and r: "freeze_manual_selection now m publish l = Inr (x, l')"
  shows "legal l l'"
proof -
  let ?f = "\<lambda>j l. if j_manual_only j then l
              else upsert_job (j\<lparr>j_manual_only := True, j_updated_at := now\<rparr>) l"
  have l': "l' = fold ?f (filter m (l_jobs l)) l"
    using r by (auto simp: freeze_manual_selection_def Let_def bind_res_Inr split: option.splits)
  have "legal (id l) (id (fold ?f (filter m (l_jobs l)) l))"
    by (rule legal_fold_jobs[OF selected_jobs(1)[OF inv]])
      (use inv selected_jobs(2)[OF inv] in \<open>auto simp: job_le_def job_rows.get_put intro: legal_same_status\<close>)
  then show ?thesis by (simp add: l')
qed

lemma legal_mark_offered:
  assumes inv: "queue_inv h l"
  shows "legal l (snd (mark_agent_offered now pn ids l))"
proof -
  let ?P = "\<lambda>j. j_project_name j = pn \<and> j_id j \<in> set ids"
  have "legal (id l) (id (fold (\<lambda>j. upsert_job (offer_job now j)) (filter ?P (l_jobs l)) l))"
    by (rule legal_fold_jobs[OF selected_jobs(1)[OF inv]])
      (use inv selected_jobs(2)[OF inv] in
        \<open>auto simp: job_le_def job_rows.get_put offer_job_def intro: legal_same_status\<close>)
  then show ?thesis by (simp add: mark_agent_offered_def Let_def)
qed

lemma pending_open: "is_pending s \<Longrightarrow> s \<noteq> Completed"
  by (auto simp: is_pending_def)

lemma legal_mark_stale:
  assumes inv: "queue_inv h l"
  shows "legal l (mark_older_jobs_stale now s l)"
proof -
  let ?P = "\<lambda>j. j_source_id j = s_id s \<and> j_source_revision j \<noteq> s_source_revision s \<and> is_pending (j_status j)"
  let ?f = "\<lambda>j. upsert_job (j\<lparr>j_status := Stale,
                 j_error := Some ''superseded by a newer transcript source revision'',
                 j_updated_at := now\<rparr>)"
  have "legal (id l) (id (fold ?f (filter ?P (l_jobs l)) l))"
    by (rule legal_fold_jobs[OF selected_jobs(1)[OF inv]])
      (use inv selected_jobs(2)[OF inv] in
        \<open>auto simp: job_le_def job_rows.get_put dest: pending_open intro!: legal_open\<close>)
  then show ?thesis by (simp add: mark_older_jobs_stale_def)
qed

section \<open>Rebalancing\<close>

text \<open>What the drain loop hands out: candidates, marked or not, each once.\<close>

definition drain_ok :: "time \<Rightarrow> queued list \<Rightarrow> drain \<Rightarrow> bool" where
  "drain_ok now cands d \<longleftrightarrow>
     set (d_pool d) \<subseteq> set cands \<and> distinct (map (\<lambda>q. j_id (snd q)) (d_selected d @ d_pool d)) \<and>
     (\<forall>q\<in>set (d_selected d). \<exists>c\<in>set cands. fst q = fst c \<and>
        (snd q = snd c \<or> (\<exists>lane. snd q = mark_drained now lane (snd c))))"

lemma mark_drained_simps [simp]:
  "j_id (mark_drained now lane j) = j_id j" "j_status (mark_drained now lane j) = j_status j"
  "job_le j (mark_drained now lane j)"
  by (simp_all add: mark_drained_def job_le_def)

lemma drain_pick_ok:
  assumes "drain_ok now cands d" and "d_pool d \<noteq> []"
  shows "drain_ok now cands (drain_pick now r d)"
proof -
  have c: "drain_choice r d \<in> set (d_pool d)" by (rule drain_choice_in[OF assms(2)])
  have "\<exists>c\<in>set cands. fst (drain_choice r d) = fst c \<and> snd (drain_choice r d) = snd c"
    using c assms(1) by (auto simp: drain_ok_def)
  moreover have "j_id (snd (drain_choice r d)) \<in> (\<lambda>q. j_id (snd q)) ` set (d_pool d)" using c by simp
  ultimately show ?thesis using assms(1)
    by (auto simp: drain_ok_def distinct_map_filter) blast+
qed

lemma drain_loop_ok: "drain_ok now cands d \<Longrightarrow> drain_ok now cands (drain_loop now r n d)"
proof (induction now r n d rule: drain_loop.induct)
  case (1 now r n d)
  then show ?case by (subst drain_loop.simps) (auto intro: drain_pick_ok)
qed

lemma apply_selection_legal:
  assumes sel: "\<And>s. get_row j_id (j_id cand) selected = Some s \<Longrightarrow>
      s = cand \<or> (\<exists>lane. s = mark_drained now lane cand)"
    and w: "is_waiting cand" and g: "get_job (j_id cand) l = Some cand"
  shows "legal l (apply_selection now selected cand l)"
    "i \<noteq> j_id cand \<Longrightarrow> get_job i (apply_selection now selected cand l) = get_job i l"
proof -
  let ?j = "case get_row j_id (j_id cand) selected of Some s \<Rightarrow> s | None \<Rightarrow> cand"
  have j: "?j = cand \<or> (\<exists>lane. ?j = mark_drained now lane cand)" using sel by (auto split: option.splits)
  have st: "j_status ?j = j_status cand" "j_id ?j = j_id cand" using j by auto
  have le: "job_le cand ?j" using j by auto
  have op: "j_status cand \<noteq> Completed" using w by (auto simp: is_waiting_def)
  have le2: "job_le cand (?j\<lparr>j_status := s, j_updated_at := now\<rparr>)" if "s \<noteq> Completed" for s
    using le op by (simp add: job_le_def)
  show "legal l (apply_selection now selected cand l)"
    using legal_open[OF g le] legal_open[OF g le2[of Queued]] legal_open[OF g le2[of Parked]] op st
    by (cases "get_row j_id (j_id cand) selected") (auto simp: apply_selection_def Let_def)
  show "i \<noteq> j_id cand \<Longrightarrow> get_job i (apply_selection now selected cand l) = get_job i l"
    using st by (simp add: apply_selection_def Let_def job_rows.get_put)
qed

end
