(* ===== verification/QueueMachine.thy ===== *)
theory QueueMachine
  imports QueueSteps
begin

text \<open>
  The remaining operations of the queue, the queue as a machine over its operations (\<open>event\<close>,
  \<open>queue_step\<close>), and what holds along every run of it.
\<close>

section \<open>Rebalancing\<close>

lemma map_snd_filter_enumerate:
  "map snd (filter (\<lambda>q. P (snd q)) (enumerate n xs)) = filter P xs"
  by (induction xs arbitrary: n) auto

lemma map_snd_candidates:
  "map snd (candidate_jobs now pn l) =
     filter (\<lambda>j. j_project_name j = pn \<and> is_waiting j \<and> retry_due now j) (l_jobs l)"
  using map_snd_filter_enumerate[of "\<lambda>j. j_project_name j = pn \<and> is_waiting j \<and> retry_due now j" 0 "l_jobs l"]
  by (simp add: candidate_jobs_def project_jobs_def conj_ac)

lemma distinct_complement:
  "distinct (map f s) \<Longrightarrow> distinct (map f c) \<Longrightarrow> distinct (map f (s @ filter (\<lambda>q. f q \<notin> f ` set s) c))"
proof -
  assume d: "distinct (map f s)" "distinct (map f c)"
  have "z \<notin> set (map f s)" if "z \<in> set (map f (filter (\<lambda>q. f q \<notin> f ` set s) c))" for z
    using that by auto
  then have "set (map f s) \<inter> set (map f (filter (\<lambda>q. f q \<notin> f ` set s) c)) = {}"
    by blast
  then show ?thesis using d by (simp only: map_append distinct_append distinct_map_filter simp_thms)
qed

lemma distinct_candidates:
  assumes "queue_inv h l"
  shows "distinct (map (\<lambda>q. j_id (snd q)) (candidate_jobs now pn l))"
proof -
  have "map (\<lambda>q. j_id (snd q)) (candidate_jobs now pn l) = map j_id (map snd (candidate_jobs now pn l))" by simp
  then show ?thesis using selected_jobs(1)[OF assms] by (simp only: map_snd_candidates)
qed

lemma drain_start_ok:
  assumes "queue_inv h l"
  shows "drain_ok now (candidate_jobs now pn l) (drain_start now pn n l)"
proof -
  let ?c = "candidate_jobs now pn l"
  let ?a = "filter (\<lambda>q. j_status (snd q) = Queued) ?c"
  have d: "distinct (map (\<lambda>q. j_id (snd q)) ?c)" by (rule distinct_candidates[OF assms])
  have c: "distinct (map (\<lambda>q. j_id (snd q))
      (s @ filter (\<lambda>q. j_id (snd q) \<notin> (\<lambda>p. j_id (snd p)) ` set s) ?c))"
    if "s = ?a \<or> s = []" for s
    using that by (intro distinct_complement d) (auto intro: distinct_map_filter d)
  have m: "\<exists>c\<in>set ?c. fst q = fst c \<and> (snd q = snd c \<or> (\<exists>lane. snd q = mark_drained now lane (snd c)))"
    if "q \<in> set ?a" for q using that by (intro bexI[of _ q]) auto
  show ?thesis
    by (cases "int (length ?a) \<le> n")
      (use m c[of ?a] c[of "[]"] in \<open>auto simp: drain_ok_def drain_start_def Let_def simp del: distinct_append map_append\<close>)
qed

lemma drained_ok:
  "queue_inv h l \<Longrightarrow> drain_ok now (candidate_jobs now pn l) (drained now pn n rf l)"
  unfolding drained_def Let_def by (rule drain_loop_ok, rule drain_start_ok)

lemma selected_is_candidate:
  assumes inv: "queue_inv h l" and cand: "cand \<in> set (map snd (candidate_jobs now pn l))"
    and g: "get_row j_id (j_id cand) (map snd (d_selected (drained now pn n rf l))) = Some s"
  shows "s = cand \<or> (\<exists>lane. s = mark_drained now lane cand)"
proof -
  have "s \<in> set (map snd (d_selected (drained now pn n rf l)))" using g by (rule get_row_in)
  then obtain q where q: "q \<in> set (d_selected (drained now pn n rf l))" "s = snd q" by auto
  then obtain c where c: "c \<in> set (candidate_jobs now pn l)"
      "s = snd c \<or> (\<exists>lane. s = mark_drained now lane (snd c))"
    using drained_ok[OF inv, of now pn n rf] unfolding drain_ok_def by fast
  obtain c' where c': "c' \<in> set (candidate_jobs now pn l)" "cand = snd c'" using cand by auto
  have "j_id s = j_id cand" using g by (rule get_row_key)
  then have "j_id (snd c) = j_id (snd c')" using c(2) c'(2) by auto
  then have "c = c'" using distinct_candidates[OF inv, of now pn] c(1) c'(1)
    by (auto simp: distinct_map dest: inj_onD)
  then show ?thesis using c(2) c'(2) by simp
qed

lemma legal_rebalance_locked:
  assumes inv: "queue_inv h l"
  shows "legal l (snd (rebalance_locked now pn n rf l))"
proof -
  let ?c = "map snd (candidate_jobs now pn l)"
  let ?s = "map snd (d_selected (drained now pn n rf l))"
  have c: "?c = filter (\<lambda>j. j_project_name j = pn \<and> is_waiting j \<and> retry_due now j) (l_jobs l)"
    by (rule map_snd_candidates)
  have "legal (id l) (id (fold (apply_selection now ?s) ?c l))"
  proof (rule legal_fold_jobs)
    fix j l' assume j: "j \<in> set ?c" and g: "get_job (j_id j) (id l') = Some j"
    have w: "is_waiting j" using j unfolding c by simp
    note step = apply_selection_legal[OF selected_is_candidate[OF inv j] w, where l = l']
    show "legal (id l') (id (apply_selection now ?s j l')) \<and>
        (\<forall>i. i \<noteq> j_id j \<longrightarrow> get_job i (id (apply_selection now ?s j l')) = get_job i (id l'))"
      using step g by simp
  qed (use inv selected_jobs[OF inv] c in auto)
  then show ?thesis by (simp add: rebalance_locked_def Let_def)
qed

section \<open>Chunks\<close>

lemma claimed_chunks:
  assumes "map_res (\<lambda>k. case get_chunk (k_chunk_id k) l of None \<Rightarrow> Inl (e k)
      | Some c \<Rightarrow> Inr (c, g k)) ks = Inr r"
  shows "map snd r = map g ks" "list_all2 (\<lambda>k p. get_chunk (k_chunk_id k) l = Some (fst p)) ks r"
proof -
  have "list_all2 (\<lambda>k p. get_chunk (k_chunk_id k) l = Some (fst p) \<and> snd p = g k) ks r"
    using assms unfolding map_res_Inr
    by (rule list_all2_mono) (auto split: option.splits)
  then show "map snd r = map g ks" "list_all2 (\<lambda>k p. get_chunk (k_chunk_id k) l = Some (fst p)) ks r"
    by (induction rule: list_all2_induct) auto
qed

lemma recover_done: "fst (recover_expired_checkpoints now b j cps l) = list_ex (chunk_lease_expired now) cps"
  unfolding recover_expired_checkpoints_def Let_def by (simp only: if_distrib[of fst] fst_conv if_True if_False split: if_split) simp

text \<open>What a successful claim is: nothing, a recovery, or leases on eligible chunks.\<close>

lemma claim_chunks_cases:
  assumes "claim_chunks mc now i w lim secs src l = Inr (r, l')"
  obtains (nothing) "r = []" "l' = l"
  | (recovered) j j' ks' where "get_job i l = Some j" "j_status j \<notin> {Completed, Failed, Stale, Parked}" "r = []"
      "recover_expired_checkpoints now None j (list_checkpoints i l) l = (True, j', ks', l')"
  | (leased) j ks where "strip w \<noteq> []" "get_job i l = Some j" "j_status j \<notin> {Completed, Failed, Stale, Parked}"
      "src = interactive_agent \<or> \<not> mc j"
      "\<not> list_ex (chunk_lease_expired now) (list_checkpoints i l)" "\<not> lease_live now (j_retry_after j)"
      "ks = (let el = filter (\<lambda>k. k_status k \<in> {CkPending, CkRetryable}) (list_checkpoints i l)
             in case lim of None \<Rightarrow> el | Some n \<Rightarrow> take (nat (max 1 n)) el)"
      "map snd r = map (claim_checkpoint now w secs) ks"
      "list_all2 (\<lambda>k p. get_chunk (k_chunk_id k) l = Some (fst p)) ks r"
      "l' = (let l1 = upsert_checkpoints (map (claim_checkpoint now w secs) ks) l
             in if r = [] then l1 else upsert_job (j\<lparr>j_status := Processing, j_phase := PhaseChunks,
                  j_attempt_count := j_attempt_count j + 1, j_retry_after := None,
                  j_last_progress_at := Some now, j_updated_at := now\<rparr>) l1)"
proof -
  consider "r = [] \<and> l' = l"
    | j where "strip w \<noteq> []" "get_job i l = Some j" "j_status j \<notin> {Completed, Failed, Stale, Parked}"
      "src = interactive_agent \<or> \<not> mc j"
    using assms by (auto simp: claim_chunks_def split: if_splits option.splits)
  then show ?thesis
  proof cases
    case 1
    then have "r = []" "l' = l" by simp_all
    then show ?thesis by (rule nothing)
  next
    case (2 j)
    have mc: "\<not> (src \<noteq> interactive_agent \<and> mc j)" using 2 by simp
    show ?thesis
    proof (cases "list_ex (chunk_lease_expired now) (list_checkpoints i l)")
      case True
      then obtain j' ks' l1 where
        r: "recover_expired_checkpoints now None j (list_checkpoints i l) l = (True, j', ks', l1)"
        using recover_done[of now None j "list_checkpoints i l" l]
        by (cases "recover_expired_checkpoints now None j (list_checkpoints i l) l") auto
      then have "r = [] \<and> l' = l1" using assms 2 mc by (simp add: claim_chunks_def)
      then show ?thesis using recovered 2 r by simp
    next
      case False
      note rec = recover_not[OF False]
      show ?thesis
      proof (cases "lease_live now (j_retry_after j)")
        case True
        then have "r = []" "l' = l" using assms 2 mc rec by (auto simp: claim_chunks_def)
        then show ?thesis by (rule nothing)
      next
        case nb: False
        let ?ks = "let el = filter (\<lambda>k. k_status k \<in> {CkPending, CkRetryable}) (list_checkpoints i l)
             in case lim of None \<Rightarrow> el | Some n \<Rightarrow> take (nat (max 1 n)) el"
        have m: "map_res (\<lambda>k. case get_chunk (k_chunk_id k) l of
                           None \<Rightarrow> Inl (ValueError (''distill input chunk is missing: '' @ k_chunk_id k))
                         | Some c \<Rightarrow> Inr (c, claim_checkpoint now w secs k)) ?ks = Inr r"
          and l': "l' = (let l1 = upsert_checkpoints (map snd r) l
             in if r = [] then l1 else upsert_job (j\<lparr>j_status := Processing, j_phase := PhaseChunks,
                  j_attempt_count := j_attempt_count j + 1, j_retry_after := None,
                  j_last_progress_at := Some now, j_updated_at := now\<rparr>) l1)"
          using assms 2 mc rec nb by (auto simp: claim_chunks_def Let_def bind_res_Inr)
        show ?thesis by (rule leased[OF 2 False nb refl claimed_chunks[OF m] l'[unfolded claimed_chunks(1)[OF m]]])
      qed
    qed
  qed
qed

text \<open>The rows a claim leases: current ones of the job, waiting or released.\<close>

lemma claimable:
  assumes inv: "queue_inv h l"
    and ks: "ks = (let el = filter (\<lambda>k. k_status k \<in> {CkPending, CkRetryable}) (list_checkpoints i l)
             in case lim of None \<Rightarrow> el | Some n \<Rightarrow> take (nat (max 1 n)) el)"
  shows "current ks l" "k \<in> set ks \<Longrightarrow> k_status k \<in> {CkPending, CkRetryable} \<and> k_job_id k = i"
    "lim = Some n \<Longrightarrow> int (length ks) \<le> max 1 n"
proof -
  have "set ks \<subseteq> set (filter (\<lambda>k. k_status k \<in> {CkPending, CkRetryable}) (list_checkpoints i l))"
    using ks by (auto simp: Let_def split: option.splits dest: in_set_takeD)
  then have sub: "k_status k \<in> {CkPending, CkRetryable}" "k \<in> set (list_checkpoints i l)" if "k \<in> set ks" for k
    using that by auto
  have "distinct (map k_key ks)"
    using current_filter[OF current_list[OF inv, of i], of "\<lambda>k. k_status k \<in> {CkPending, CkRetryable}"] ks
    by (auto simp: current_def Let_def take_map[symmetric] simp del: list_checkpoints_simps split: option.splits)
  then show "current ks l" using sub current_list[OF inv, of i] by (auto simp: current_def)
  show "k \<in> set ks \<Longrightarrow> k_status k \<in> {CkPending, CkRetryable} \<and> k_job_id k = i" using sub[of k] by auto
  show "lim = Some n \<Longrightarrow> int (length ks) \<le> max 1 n" using ks by (simp add: Let_def)
qed

lemma legal_claim_chunks:
  assumes inv: "queue_inv h l" and r: "claim_chunks mc now i w lim secs src l = Inr (r, l')"
  shows "legal l l'"
  using r
proof (cases rule: claim_chunks_cases)
  case (recovered j j' ks')
  then show ?thesis using recover_legal(1)[OF recovered(1) _ current_list[OF inv] recovered(4)] by simp
next
  case (leased j ks)
  note cl = claimable[OF inv leased(7)]
  have "legal l (upsert_checkpoints (map (claim_checkpoint now w secs) (filter (\<lambda>_. True) ks)) l)"
    by (rule rewrite_current(1)[OF cl(1)]) (use cl(2) leased(1) in force)+
  then have l1: "legal l (upsert_checkpoints (map (claim_checkpoint now w secs) ks) l)" by simp
  moreover have "legal (upsert_checkpoints (map (claim_checkpoint now w secs) ks) l)
     (upsert_job (j\<lparr>j_status := Processing, j_phase := PhaseChunks,
                  j_attempt_count := j_attempt_count j + 1, j_retry_after := None,
                  j_last_progress_at := Some now, j_updated_at := now\<rparr>)
       (upsert_checkpoints (map (claim_checkpoint now w secs) ks) l))"
    by (rule legal_open[of i _ j]) (use leased(2,3) in \<open>auto simp: job_le_def\<close>)
  ultimately show ?thesis unfolding leased(10) Let_def by (auto intro: legal_trans)
qed simp

lemma all_done_checkpoint:
  "all_done i l \<Longrightarrow> get_checkpoint (i, c) l = Some k \<Longrightarrow> k_status k = CkCompleted"
  using get_checkpoint_in[of "(i, c)" l k] by (auto simp: all_done_def k_key_def)

lemma legal_checkpoint_chunk:
  assumes inv: "queue_inv h l" and r: "checkpoint_chunk now i c w res l = Inr (j', l')"
  shows "legal l l'"
proof -
  obtain j k where g: "get_job i l = Some j" "get_checkpoint (i, c) l = Some k"
    using r by (auto simp: checkpoint_chunk_def split: option.splits)
  show ?thesis
  proof (cases "k_status k = CkCompleted")
    case True
    then show ?thesis using r g by (simp add: checkpoint_chunk_def)
  next
    case False
    let ?k = "complete_checkpoint now res k"
    have op: "j_status j \<noteq> Completed"
      using False all_done_checkpoint[OF queue_inv_job(4)[OF inv g(1)] g(2)] by blast
    have key: "k_key k = (i, c)" using g(2) by (rule checkpoint_rows.get_key)
    have 1: "legal l (upsert_checkpoint ?k l)"
      using legal_ck[OF legal_refl, of ?k l k] key g(2) False by simp
    have "get_job i (upsert_checkpoint ?k l) = Some j" using g(1) by (simp add: get_job_def)
    moreover have "\<exists>j2. l' = upsert_job j2 (upsert_checkpoint ?k l) \<and> job_le j j2 \<and> j_status j2 \<noteq> Completed"
      using r g False op by (auto simp: checkpoint_chunk_def Let_def job_le_def split: if_splits option.splits)
    ultimately show ?thesis using legal_open 1 legal_trans by blast
  qed
qed

lemma completed_count_le: "completed_count ks \<le> int (length ks)"
  by (simp add: completed_count_def)

lemma completed_count_all:
  "int (length ks) \<le> completed_count ks \<Longrightarrow> \<forall>k\<in>set ks. k_status k = CkCompleted"
proof (induction ks)
  case (Cons k ks)
  have c: "completed_count (k # ks) = (if k_status k = CkCompleted then 1 else 0) + completed_count ks"
    by (simp add: completed_count_def)
  have "k_status k = CkCompleted" "int (length ks) \<le> completed_count ks"
    using Cons.prems completed_count_le[of ks] unfolding c by (simp_all split: if_splits)
  then show ?case using Cons.IH by simp
qed simp

lemma all_done_by_count:
  assumes "queue_inv h l" and "get_job i l = Some j"
    and "completed_count (list_checkpoints i l) = j_expected_chunk_count j"
  shows "all_done i l"
  using queue_inv_job(3)[OF assms(1,2)] completed_count_all[of "list_checkpoints i l"] assms(3)
  by (auto simp: all_done_def checkpoint_count_def)

text \<open>What a successful finalization is: nothing, a stale job, or a completion.\<close>

lemma review_guard_None:
  "review_guard now w j = None \<longleftrightarrow>
     (w \<noteq> None \<longrightarrow> j_review_lease_owner j = w \<and> lease_live now (j_review_lease_until j)) \<and>
     (truthy (j_review_lease_owner j) \<and> lease_live now (j_review_lease_until j) \<longrightarrow>
        j_review_lease_owner j = w)"
  by (auto simp: review_guard_def Let_def)

lemma finalize_cases:
  assumes "finalize h now i rv0 outs w l = Inr (j', l')"
  obtains (already) "get_job i l = Some j'" "j_status j' = Completed" "l' = l"
  | (stale) j s where "get_job i l = Some j" "j_status j \<noteq> Completed"
      "get_source (j_source_id j) l = Some s" "s_source_revision s \<noteq> j_source_revision j"
      "j' = j\<lparr>j_status := Stale, j_error := Some ''source revision changed before finalization'',
              j_updated_at := now\<rparr>" "l' = upsert_job j' l"
  | (completed) j s rv v where "get_job i l = Some j" "j_status j \<noteq> Completed"
      "validate_review rv0 = Inr rv" "review_guard now w j = None"
      "get_source (j_source_id j) l = Some s" "s_source_revision s = j_source_revision j"
      "completed_count (list_checkpoints i l) = j_expected_chunk_count j"
      "reconstruct h (j_source_id j) (Some (j_source_revision j)) l = Inr v"
      "j' = complete_job h now rv outs (j_expected_chunk_count j) v j" "l' = upsert_job j' l"
proof -
  obtain rv j where rv: "validate_review rv0 = Inr rv" and g: "get_job i l = Some j"
    using assms by (auto simp: finalize_def bind_res_Inr split: option.splits)
  have jid: "j_id j = i" using g by (rule job_rows.get_key)
  show ?thesis
  proof (cases "j_status j = Completed")
    case True
    then have "j' = j" "l' = l" using assms rv g by (simp_all add: finalize_def)
    then show ?thesis using already g True by simp
  next
    case op: False
    then have w: "review_guard now w j = None" and F: "finalize_owned h now rv outs j l = Inr (j', l')"
      using assms rv g by (auto simp: finalize_def split: option.splits)
    then obtain s where s: "get_source (j_source_id j) l = Some s"
      by (auto simp: finalize_owned_def split: option.splits)
    show ?thesis
    proof (cases "s_source_revision s = j_source_revision j")
      case False
      then show ?thesis using F s by (intro stale[OF g op s]) (auto simp: finalize_owned_def Let_def)
    next
      case True
      then have n: "completed_count (list_checkpoints i l) = j_expected_chunk_count j"
        using F s jid by (auto simp: finalize_owned_def Let_def split: if_splits)
      obtain v where "reconstruct h (j_source_id j) (Some (j_source_revision j)) l = Inr v"
        "complete_job h now rv outs (j_expected_chunk_count j) v j = j'" "upsert_job j' l = l'"
        using F s True n jid by (auto simp: finalize_owned_def Let_def bind_res_Inr)
      then show ?thesis using completed[OF g op rv w s True n] by simp
    qed
  qed
qed

lemma legal_finalize:
  assumes inv: "queue_inv h l" and r: "finalize h now i rv0 outs w l = Inr (j', l')"
  shows "legal l l'"
  using r
proof (cases rule: finalize_cases)
  case (stale j s)
  then show ?thesis by (auto intro!: legal_open[of i l j] simp: job_le_def)
next
  case (completed j s rv v)
  have "job_le j j'" using completed(2,9) by (simp add: complete_job_def job_le_def)
  moreover have "j_id j' = i" using queue_inv_job(1)[OF inv completed(1)] completed(9) by (simp add: complete_job_def)
  moreover have "job_wf j'" using completed(9) by (simp add: complete_job_def job_wf_def)
  ultimately show ?thesis
    using legal_job[OF legal_refl, of j' l j] completed(1,10) all_done_by_count[OF inv completed(1,7)] by simp
qed simp

lemma legal_defer:
  assumes inv: "queue_inv h l" and r: "defer_distill now i e l = Inr (j', l')"
  shows "legal l l'"
proof -
  obtain j where g: "get_job i l = Some j" using r by (auto simp: defer_distill_def split: option.splits)
  let ?P = "\<lambda>k. k_job_id k = i \<and> k_status k = CkProcessing"
  let ?l1 = "upsert_checkpoints (map (defer_checkpoint now e) (filter ?P (l_checkpoints l))) l"
  have "legal l ?l1"
    by (rule rewrite_current(1)[OF current_rows[OF inv]]) auto
  moreover have "legal ?l1 (upsert_job (defer_job now e j) ?l1)" if "j_status j \<noteq> Completed"
    by (rule legal_open[of i _ j]) (use g that in \<open>auto simp: defer_job_def job_le_def\<close>)
  ultimately show ?thesis using r g
    by (auto simp: defer_distill_def Let_def intro: legal_trans split: if_splits)
qed

end
