(* ===== verification/QueueRuns.thy ===== *)
theory QueueRuns
  imports QueueMachine
begin

text \<open>
  Reconciliation and enqueueing, then the queue as a machine: an \<open>event\<close> is one call of the store with
  its clock reading and arguments, \<open>queue_step\<close> its effect (none when it raises, as the transaction is
  rolled back).  Interpreting \<open>monotone_machine\<close> on it gives what holds along every run.
\<close>

section \<open>Reconciliation\<close>

lemma recover_orphaned_legal:
  assumes g: "get_job i l = Some j" and st: "j_status j = Processing" and cur: "current cps l"
  shows "legal l (snd (recover_orphaned now b j cps l))"
    and "m \<noteq> i \<Longrightarrow> get_job m (snd (recover_orphaned now b j cps l)) = get_job m l"
proof -
  let ?P = "\<lambda>k. k_status k \<noteq> CkCompleted"
  let ?j = "note_recovery now b ''processing_without_active_lease'' j"
  let ?l1 = "upsert_checkpoints (map (fail_checkpoint now) (filter ?P cps)) l"
  let ?jf = "?j\<lparr>j_status := Failed, j_error := Some ''distill recovery budget exhausted'',
               j_recovery_exhausted_at := Some now\<rparr>"
  let ?jr = "?j\<lparr>j_status := Retryable,
               j_retry_after := Some (now + seconds (backoff_seconds (j_recovery_count ?j)))\<rparr>"
  have op: "j_status j \<noteq> Completed" using st by simp
  have l1: "legal l ?l1" by (rule rewrite_current(1)[OF cur]) auto
  have jid: "j_id j = i" using g by (rule job_rows.get_key)
  have le: "job_le j ?jf" "job_le j ?jr"
    using note_recovery_le[OF op] op by (simp_all add: job_le_def)
  have up: "legal ?l1 (upsert_job ?jf ?l1)" "legal l (upsert_job ?jr l)"
    using g by (auto intro!: legal_open[OF _ le(1)] legal_open[OF _ le(2)])
  have r: "snd (recover_orphaned now b j cps l) =
      (if budget_exhausted ?j then upsert_job ?jf ?l1 else upsert_job ?jr l)"
    unfolding recover_orphaned_def Let_def by (simp only: if_distrib[of snd] snd_conv)
  show "legal l (snd (recover_orphaned now b j cps l))"
    unfolding r using up legal_trans[OF up(1) l1] by (simp only: if_split simp_thms)
  show "m \<noteq> i \<Longrightarrow> get_job m (snd (recover_orphaned now b j cps l)) = get_job m l"
    unfolding r using jid by (simp add: job_rows.get_put)
qed

lemma advance_to_review_le:
  assumes "j_status j \<noteq> Completed"
  shows "job_le j (advance_to_review now n j)" "j_status (advance_to_review now n j) = Reviewing"
    "j_id (advance_to_review now n j) = j_id j"
  using assms by (simp_all add: advance_to_review_def job_le_def)

lemma reconcile_job_legal:
  assumes inv: "queue_inv h l" and g: "get_job i l = Some j"
  shows "legal l (snd (reconcile_job now b j (sm, l)))"
    and "m \<noteq> i \<Longrightarrow> get_job m (snd (reconcile_job now b j (sm, l))) = get_job m l"
proof -
  have jid: "j_id j = i" using g by (rule job_rows.get_key)
  let ?r = "snd (reconcile_job now b j (sm, l))"
  have "legal l ?r \<and> (\<forall>m. m \<noteq> i \<longrightarrow> get_job m ?r = get_job m l)"
  proof (cases "is_terminal (j_status j)")
    case True
    then show ?thesis by (simp add: reconcile_job_def Let_def)
  next
    case False
    then have op: "j_status j \<noteq> Completed" by (auto simp: is_terminal_def)
    obtain d j1 cps1 l1 where
      rec: "recover_expired_checkpoints now b j (list_checkpoints (j_id j) l) l = (d, j1, cps1, l1)"
      by (cases "recover_expired_checkpoints now b j (list_checkpoints (j_id j) l) l") auto
    note R = recover_legal[OF g op current_list[OF inv] rec]
    have j1: "j_id j1 = i" using R(3) by (rule job_rows.get_key)
    let ?a = "upsert_job (advance_to_review now (completed_count (list_checkpoints (j_id j) l)) j1) l1"
    let ?o = "snd (recover_orphaned now b j1 cps1 l1)"
    have "?r \<in> {l1, ?a} \<or> (?r = ?o \<and> j_status j1 = Processing)"
      using False rec by (auto simp: reconcile_job_def Let_def split: if_splits prod.splits)
    moreover have "legal l ?a \<and> (\<forall>m. m \<noteq> i \<longrightarrow> get_job m ?a = get_job m l)"
      using advance_to_review_le[OF R(4)] j1 R(1,3,9)
      by (auto simp: job_rows.get_put intro!: legal_trans[OF legal_open])
    moreover have "legal l ?o \<and> (\<forall>m. m \<noteq> i \<longrightarrow> get_job m ?o = get_job m l)" if "j_status j1 = Processing"
      using recover_orphaned_legal[OF R(3) that R(2)] legal_trans[OF _ R(1)] R(9) by auto
    ultimately show ?thesis using R(1,9) by auto
  qed
  then show "legal l ?r" "m \<noteq> i \<Longrightarrow> get_job m ?r = get_job m l" by auto
qed

lemma legal_reconcile:
  assumes inv: "queue_inv h l"
  shows "legal l (snd (reconcile now pn b mids ids l))"
proof -
  let ?P = "\<lambda>j. (case pn of None \<Rightarrow> True | Some p \<Rightarrow> j_project_name j = p) \<and>
            (case ids of None \<Rightarrow> True | Some ids \<Rightarrow> j_id j \<in> ids) \<and>
            (case mids of None \<Rightarrow> True | Some ids \<Rightarrow> \<not> (j_manual_only j \<or> j_id j \<in> ids))"
  let ?s = "(\<lparr> rs_inspected = 0, rs_recovered = 0, rs_advanced_to_review = 0,
          rs_failed_recovery_budget = 0 \<rparr>, l)"
  have "legal (snd ?s) (snd (fold (reconcile_job now b) (filter ?P (l_jobs l)) ?s))"
  proof (rule legal_fold_jobs[OF selected_jobs(1)[OF inv]])
    fix j and s :: "reconcile_summary \<times> ledger"
    assume "queue_inv h (snd s)" "get_job (j_id j) (snd s) = Some j"
    then show "legal (snd s) (snd (reconcile_job now b j s)) \<and>
        (\<forall>i. i \<noteq> j_id j \<longrightarrow> get_job i (snd (reconcile_job now b j s)) = get_job i (snd s))"
      using reconcile_job_legal[of h "snd s" "j_id j" j, where sm = "fst s"] by auto
  qed (use inv selected_jobs(2)[OF inv] in auto)
  then show ?thesis by (simp add: reconcile_def)
qed

section \<open>Enqueueing\<close>

lemma legal_dom: "legal l l' \<Longrightarrow> get_job i l' = None \<longleftrightarrow> get_job i l = None"
  by (induction rule: legal.induct) (auto simp: get_job_def row_simps split: if_splits)

lemma checkpoint_count_upsert:
  "checkpoint_count i (upsert_checkpoint k l) \<le> checkpoint_count i l + (if k_job_id k = i then 1 else 0)"
  unfolding checkpoint_count_keys upsert_checkpoint_frame map_key_put_row by (simp add: k_key_def)

lemma checkpoint_count_upserts:
  "checkpoint_count i (upsert_checkpoints ks l) \<le>
     checkpoint_count i l + int (length (filter (\<lambda>k. k_job_id k = i) ks))"
proof (induction ks arbitrary: l)
  case (Cons k ks)
  have "checkpoint_count i (upsert_checkpoints ks (upsert_checkpoint k l)) \<le>
      checkpoint_count i (upsert_checkpoint k l) + int (length (filter (\<lambda>k. k_job_id k = i) ks))"
    by (rule Cons.IH)
  then show ?case using checkpoint_count_upsert[of i k l] by auto
qed simp

lemma upsert_checkpoints_rows:
  "set (l_checkpoints (upsert_checkpoints ks l)) \<subseteq> set ks \<union> set (l_checkpoints l)"
  "distinct (map k_key (l_checkpoints (upsert_checkpoints ks l))) = distinct (map k_key (l_checkpoints l))"
proof (induction ks arbitrary: l)
  case (Cons k ks)
  {
    case 1
    then show ?case using Cons(1)[of "upsert_checkpoint k l"] set_put_row_subset[of k_key k "l_checkpoints l"]
      by auto
  next
    case 2
    then show ?case using Cons(2)[of "upsert_checkpoint k l"] by (simp add: row_simps)
  }
qed simp_all

lemma add_job_inv:
  assumes inv: "queue_inv h l" and new: "get_job (j_id j) l = None"
    and jid: "j_id j = distill_job_id h (j_idempotency_key j)" and st: "j_status j \<noteq> Completed"
    and ks: "\<And>k. k \<in> set ks \<Longrightarrow> k_job_id k = j_id j \<and> ck_wf k"
    and n: "int (length ks) \<le> j_expected_chunk_count j"
  shows "queue_inv h (upsert_checkpoints ks (upsert_job j l))"
    "ledger_le l (upsert_checkpoints ks (upsert_job j l))"
proof -
  let ?l = "upsert_checkpoints ks (upsert_job j l)"
  have old: "k_job_id k \<noteq> j_id j" if "k \<in> set (l_checkpoints l)" for k
    using inv that new by (auto simp: queue_inv_def)
  have rows: "set (l_checkpoints ?l) \<subseteq> set ks \<union> set (l_checkpoints l)"
    using upsert_checkpoints_rows(1)[of ks "upsert_job j l"] by simp
  have dist: "distinct (map k_key (l_checkpoints ?l))" "distinct (map j_id (l_jobs ?l))"
    using upsert_checkpoints_rows(2)[of ks "upsert_job j l"] queue_inv_distinct[OF inv] by (simp_all add: row_simps)
  have "checkpoint_count (j_id j) (upsert_job j l) = 0"
    using old by (auto simp: checkpoint_count_def filter_empty_conv)
  then have cnt: "checkpoint_count (j_id j) ?l \<le> j_expected_chunk_count j"
    using checkpoint_count_upserts[of "j_id j" ks "upsert_job j l"] n
      length_filter_le[of "\<lambda>k. k_job_id k = j_id j" ks] by linarith
  have cnt': "checkpoint_count i ?l \<le> checkpoint_count i l" if "i \<noteq> j_id j" for i
  proof -
    have "filter (\<lambda>k. k_job_id k = i) ks = []" using ks that by (auto simp: filter_empty_conv)
    moreover have "checkpoint_count i (upsert_job j l) = checkpoint_count i l" by (simp add: checkpoint_count_def)
    ultimately show ?thesis using checkpoint_count_upserts[of i ks "upsert_job j l"] by simp
  qed
  have done': "all_done i ?l" if "i \<noteq> j_id j" "all_done i l" for i
    using that rows ks by (fastforce simp: all_done_def)
  have jobs: "set (l_jobs ?l) \<subseteq> insert j (set (l_jobs l))" by (simp add: set_put_row_subset)
  have fresh: "q \<noteq> j \<and> j_id q \<noteq> j_id j" if "q \<in> set (l_jobs l)" for q
    using get_job_set[OF inv that] new by auto
  have "j_id q = distill_job_id h (j_idempotency_key q) \<and> job_wf q \<and>
      checkpoint_count (j_id q) ?l \<le> j_expected_chunk_count q \<and> (j_status q = Completed \<longrightarrow> all_done (j_id q) ?l)"
    if q: "q \<in> set (l_jobs ?l)" for q
  proof (cases "q = j")
    case True
    then show ?thesis using jid st cnt by (simp add: job_wf_def)
  next
    case False
    then have "q \<in> set (l_jobs l)" using q jobs by blast
    then show ?thesis using inv fresh[of q] cnt'[of "j_id q"] done'[of "j_id q"]
      by (auto simp: queue_inv_def)
  qed
  moreover have "ck_wf k \<and> get_job (k_job_id k) ?l \<noteq> None" if k: "k \<in> set (l_checkpoints ?l)" for k
  proof (cases "k \<in> set ks")
    case True
    then show ?thesis using ks[of k] by (simp add: job_rows.get_put)
  next
    case False
    then have "k \<in> set (l_checkpoints l)" using k rows by blast
    then show ?thesis using inv by (simp add: queue_inv_def job_rows.get_put)
  qed
  moreover have "inj (uuid5_url h)" using inv by (simp add: queue_inv_def)
  ultimately show "queue_inv h ?l" unfolding queue_inv_def using dist by blast
  have "get_checkpoint kk ?l = Some k" if g: "get_checkpoint kk l = Some k" for kk k
  proof -
    have "kk \<notin> k_key ` set ks" using old get_checkpoint_in[OF g] ks by (fastforce simp: k_key_def)
    then show ?thesis using g get_checkpoint_upserts[of kk ks "upsert_job j l"] by simp
  qed
  then show "ledger_le l ?l" using new by (auto simp: ledger_le_def job_rows.get_put)
qed

lemma legal_rebalance_to_limit:
  "queue_inv h l \<Longrightarrow> legal l (rebalance_to_limit now pn lim rf l)"
  by (auto simp: rebalance_to_limit_def intro: legal_rebalance_locked split: option.splits)

lemma get_key_row:
  assumes "get_row j_idempotency_key k (l_jobs l) = Some j" and "queue_inv h l"
  shows "get_job (j_id j) l = Some j" "j_idempotency_key j = k"
  using get_row_in[OF assms(1)] get_row_key[OF assms(1)] get_job_set[OF assms(2)] by auto

lemma fresh_job_id:
  assumes inv: "queue_inv h l" and none: "get_row j_idempotency_key key (l_jobs l) = None"
  shows "get_job (distill_job_id h key) l = None"
proof (rule ccontr)
  assume "get_job (distill_job_id h key) l \<noteq> None"
  then obtain q where q: "get_job (distill_job_id h key) l = Some q" by auto
  have "distill_job_id h (j_idempotency_key q) = distill_job_id h key"
    using queue_inv_job(1,5)[OF inv q] by simp
  then have "j_idempotency_key q = key" using inv by (auto simp: queue_inv_def distill_job_id_def dest: injD)
  then show False using none get_job_in[OF q] by (auto simp: get_row_None)
qed

lemma enqueued_job_simps [simp]:
  "j_id (enqueued_job h now s v m n) = distill_job_id h (idempotency_key s v)"
  "j_idempotency_key (enqueued_job h now s v m n) = idempotency_key s v"
  "j_status (enqueued_job h now s v m n) = Queued"
  "j_expected_chunk_count (enqueued_job h now s v m n) = int n"
  "j_source_id (enqueued_job h now s v m n) = s_id s"
  "j_source_revision (enqueued_job h now s v m n) = s_source_revision s"
  by (simp_all add: enqueued_job_def new_job_def Let_def)

lemma enqueue_inv:
  assumes inv: "queue_inv h l" and r: "enqueue h now sid v lim rf m l = Inr (j, l')"
  shows "queue_inv h l' \<and> ledger_le l l'"
proof -
  obtain s cs where q: "queueable_source h sid m l = Inr (s, cs)"
    using r by (auto simp: enqueue_def bind_res_Inr)
  show ?thesis
  proof (cases "get_row j_idempotency_key (idempotency_key s v) (l_jobs l)")
    case (Some e)
    let ?e = "e\<lparr>j_manual_only := True, j_retain_source := True\<rparr>"
    let ?l1 = "if m \<and> \<not> (j_manual_only e \<and> j_retain_source e) then upsert_job ?e l else l"
    have "legal l (upsert_job ?e l)"
      by (rule legal_same_status[OF inv get_key_row(1)[OF Some inv]]) (simp_all add: job_le_def)
    then have 1: "legal l ?l1" by simp
    note i1 = legal_inv[OF 1 inv]
    note 2 = legal_mark_stale[OF i1, of now s]
    note 3 = legal_rebalance_to_limit[OF legal_inv[OF 2 i1], of now "s_project_name s" lim rf]
    have "l' = rebalance_to_limit now (s_project_name s) lim rf (mark_older_jobs_stale now s ?l1)"
      using r q Some by (auto simp: enqueue_def Let_def)
    then have "legal l l'" using legal_trans[OF 3 legal_trans[OF 2 1]] by simp
    then show ?thesis using legal_inv[OF _ inv] legal_le by blast
  next
    case None
    let ?l1 = "mark_older_jobs_stale now s l"
    let ?j = "enqueued_job h now s v m (length cs)"
    let ?ks = "map (\<lambda>c. new_checkpoint (j_id ?j) (c_id c) (c_chunk_index c) now) cs"
    let ?l2 = "upsert_checkpoints ?ks (upsert_job ?j ?l1)"
    note 1 = legal_mark_stale[OF inv, of now s]
    have new: "get_job (j_id ?j) ?l1 = None" using fresh_job_id[OF inv None] legal_dom[OF 1] by simp
    have 2: "queue_inv h ?l2" "ledger_le ?l1 ?l2"
      by (rule add_job_inv[OF legal_inv[OF 1 inv] new]; auto simp: new_checkpoint_def ck_wf_def)+
    note 3 = legal_rebalance_to_limit[OF 2(1), of now "s_project_name s" lim rf]
    have "l' = rebalance_to_limit now (s_project_name s) lim rf ?l2"
      using r q None by (auto simp: enqueue_def Let_def split: if_splits)
    then show ?thesis
      using legal_inv[OF 3 2(1)] ledger_le_trans[OF ledger_le_trans[OF legal_le[OF 1] 2(2)] legal_le[OF 3]] by simp
  qed
qed

section \<open>The queue as a machine\<close>

datatype event =
    EvSaveSource time tsource
  | EvSaveSnapshot time tsource "tchunk list" "string option"
  | EvMarkMissing time string string "string set"
  | EvEnqueue time string string "int option" bool bool
  | EvFreeze time "job \<Rightarrow> bool" "py_error + unit"
  | EvReserveManual time string
  | EvRetainSource time string
  | EvEnableChallenge time string
  | EvRebalance time string int bool
  | EvReconcile time "string option" "int option" "string set option" "string set option"
  | EvClaimReview time string string string int
  | EvRenewReview time string string int
  | EvReleaseReview time string string
  | EvMarkOffered time string "string list"
  | EvActivate time string
  | EvClaimChunks time string string "int option" int string
  | EvCheckpointChunk time string string string jdict
  | EvFinalize time string semantic_review "string list option" "string option"
  | EvDefer time string string
  | EvOutcome time string "completion_disposition option" "string list" jdict source_cleanup_status
      "string option"
  | EvBackfill time string string
  | EvHistorical time string string

text \<open>A raised exception rolls the transaction back.\<close>

definition commit :: "ledger \<Rightarrow> py_error + 'a \<times> ledger \<Rightarrow> ledger" where
  "commit l r = (case r of Inl _ \<Rightarrow> l | Inr (_, l') \<Rightarrow> l')"

definition commit_unit :: "ledger \<Rightarrow> py_error + ledger \<Rightarrow> ledger" where
  "commit_unit l r = (case r of Inl _ \<Rightarrow> l | Inr l' \<Rightarrow> l')"

fun queue_step :: "digests \<Rightarrow> (job \<Rightarrow> bool) \<Rightarrow> event \<Rightarrow> ledger \<Rightarrow> ledger" where
  "queue_step h mc (EvSaveSource now s) l = commit_unit l (save_source now s l)"
| "queue_step h mc (EvSaveSnapshot now s cs raw) l = commit_unit l (save_snapshot h now s cs raw l)"
| "queue_step h mc (EvMarkMissing now pn cl obs) l =
     commit l (mark_sources_missing_from_inventory now pn cl obs l)"
| "queue_step h mc (EvEnqueue now sid v lim rf m) l = commit l (enqueue h now sid v lim rf m l)"
| "queue_step h mc (EvFreeze now m p) l = commit l (freeze_manual_selection now m p l)"
| "queue_step h mc (EvReserveManual now i) l = commit l (reserve_manual now i l)"
| "queue_step h mc (EvRetainSource now i) l = commit l (retain_source now i l)"
| "queue_step h mc (EvEnableChallenge now i) l = commit l (enable_zero_candidate_challenge now i l)"
| "queue_step h mc (EvRebalance now pn n rf) l = snd (rebalance now pn n rf l)"
| "queue_step h mc (EvReconcile now pn b mids ids) l = snd (reconcile now pn b mids ids l)"
| "queue_step h mc (EvClaimReview now i w src secs) l = commit l (claim_review mc now i w src secs l)"
| "queue_step h mc (EvRenewReview now i w secs) l = snd (renew_review_lease now i w secs l)"
| "queue_step h mc (EvReleaseReview now i w) l = snd (release_review_lease now i w l)"
| "queue_step h mc (EvMarkOffered now pn ids) l = snd (mark_agent_offered now pn ids l)"
| "queue_step h mc (EvActivate now i) l = commit l (activate_parked_for_agent now i l)"
| "queue_step h mc (EvClaimChunks now i w lim secs src) l =
     commit l (claim_chunks mc now i w lim secs src l)"
| "queue_step h mc (EvCheckpointChunk now i c w res) l = commit l (checkpoint_chunk now i c w res l)"
| "queue_step h mc (EvFinalize now i rv outs w) l = commit l (finalize h now i rv outs w l)"
| "queue_step h mc (EvDefer now i e) l = commit l (defer_distill now i e l)"
| "queue_step h mc (EvOutcome now i d rc ps cs rid) l =
     commit l (record_completion_outcome now i d rc ps cs rid l)"
| "queue_step h mc (EvBackfill now i s) l = commit l (backfill_session_summary now i s l)"
| "queue_step h mc (EvHistorical now i r) l = commit l (mark_historical_summary_unavailable now i r l)"

definition keeps :: "digests \<Rightarrow> ledger \<Rightarrow> ledger \<Rightarrow> bool" where
  "keeps h l l' \<longleftrightarrow> queue_inv h l' \<and> ledger_le l l'"

lemma keeps_commit:
  "queue_inv h l \<Longrightarrow> (\<And>x l'. r = Inr (x, l') \<Longrightarrow> keeps h l l') \<Longrightarrow> keeps h l (commit l r)"
  by (cases r) (auto simp: commit_def keeps_def)

lemma keeps_commit_unit:
  "queue_inv h l \<Longrightarrow> (\<And>l'. r = Inr l' \<Longrightarrow> keeps h l l') \<Longrightarrow> keeps h l (commit_unit l r)"
  by (cases r) (auto simp: commit_unit_def keeps_def)

text \<open>The capture operations leave the queue's tables alone.\<close>

definition same_queue :: "ledger \<Rightarrow> ledger \<Rightarrow> bool" where
  "same_queue l l' \<longleftrightarrow> l_jobs l' = l_jobs l \<and> l_checkpoints l' = l_checkpoints l"

lemma same_queue_upserts:
  "fold (\<lambda>s r. bind_res r (upsert_source s)) ss (Inr l) = Inr l' \<Longrightarrow> same_queue l l'"
proof (induction ss arbitrary: l)
  case (Cons s ss)
  show ?case
  proof (cases "upsert_source s l")
    case (Inl e)
    have "fold (\<lambda>s r. bind_res r (upsert_source s)) ss (Inl e) = Inl e" by (induction ss) auto
    then show ?thesis using Cons.prems Inl by simp
  next
    case (Inr l1)
    then have "same_queue l1 l'" using Cons by simp
    then show ?thesis using upsert_source_Inr[OF Inr] by (simp add: same_queue_def)
  qed
qed (simp add: same_queue_def)

lemma same_queue_source: "save_source now s l = Inr l' \<Longrightarrow> same_queue l l'"
  by (auto simp: same_queue_def save_source_def dest!: upsert_source_Inr)

lemma same_queue_snapshot: "save_snapshot h now s cs raw l = Inr l' \<Longrightarrow> same_queue l l'"
  unfolding same_queue_def by (erule save_snapshot_elim) (rule conjI)

lemma same_queue_missing:
  "mark_sources_missing_from_inventory now pn cl obs l = Inr (x, l') \<Longrightarrow> same_queue l l'"
  unfolding mark_sources_missing_from_inventory_def Let_def bind_res_Inr
  by (auto intro: same_queue_upserts)

lemmas same_queue_capture = same_queue_source same_queue_snapshot same_queue_missing

lemma same_queue_keeps: "queue_inv h l \<Longrightarrow> same_queue l l' \<Longrightarrow> keeps h l l'"
  using queue_inv_cong[of l' l h] ledger_le_cong[of l' l] by (simp add: same_queue_def keeps_def)

lemma legal_keeps: "queue_inv h l \<Longrightarrow> legal l l' \<Longrightarrow> keeps h l l'"
  by (auto simp: keeps_def intro: legal_inv legal_le)

text \<open>Operations that return a result with a ledger, and operations that cannot raise.\<close>

lemma keeps_legal_commit:
  "queue_inv h l \<Longrightarrow> (\<And>x l'. r = Inr (x, l') \<Longrightarrow> legal l l') \<Longrightarrow> keeps h l (commit l r)"
  by (blast intro: keeps_commit legal_keeps)

lemma keeps_capture_commit:
  "queue_inv h l \<Longrightarrow> (\<And>l'. r = Inr l' \<Longrightarrow> same_queue l l') \<Longrightarrow> keeps h l (commit_unit l r)"
  by (blast intro: keeps_commit_unit same_queue_keeps)

lemma queue_step_keeps:
  assumes inv: "queue_inv h l"
  shows "keeps h l (queue_step h mc e l)"
proof (cases e)
  case (EvSaveSource now s)
  show ?thesis unfolding EvSaveSource queue_step.simps
    by (rule keeps_capture_commit[OF inv], erule same_queue_source)
next
  case (EvSaveSnapshot now s cs raw)
  show ?thesis unfolding EvSaveSnapshot queue_step.simps
    by (rule keeps_capture_commit[OF inv], erule same_queue_snapshot)
next
  case (EvMarkMissing now pn cl obs)
  show ?thesis unfolding EvMarkMissing queue_step.simps
    by (rule keeps_commit[OF inv], rule same_queue_keeps[OF inv], erule same_queue_missing)
next
  case (EvEnqueue now sid v lim rf m)
  show ?thesis unfolding EvEnqueue queue_step.simps keeps_def[symmetric]
    by (rule keeps_commit[OF inv], unfold keeps_def, erule enqueue_inv[OF inv])
next
  case (EvFreeze now m q)
  show ?thesis unfolding EvFreeze queue_step.simps by (rule keeps_legal_commit[OF inv], erule legal_freeze[OF inv])
next
  case (EvReserveManual now i)
  show ?thesis unfolding EvReserveManual queue_step.simps by (rule keeps_legal_commit[OF inv], erule legal_reserve_manual[OF inv])
next
  case (EvRetainSource now i)
  show ?thesis unfolding EvRetainSource queue_step.simps by (rule keeps_legal_commit[OF inv], erule legal_retain_source[OF inv])
next
  case (EvEnableChallenge now i)
  show ?thesis unfolding EvEnableChallenge queue_step.simps by (rule keeps_legal_commit[OF inv], erule legal_enable_challenge[OF inv])
next
  case (EvClaimReview now i w src secs)
  show ?thesis unfolding EvClaimReview queue_step.simps by (rule keeps_legal_commit[OF inv], erule legal_claim_review)
next
  case (EvActivate now i)
  show ?thesis unfolding EvActivate queue_step.simps by (rule keeps_legal_commit[OF inv], erule legal_activate)
next
  case (EvClaimChunks now i w lim secs src)
  show ?thesis unfolding EvClaimChunks queue_step.simps by (rule keeps_legal_commit[OF inv], erule legal_claim_chunks[OF inv])
next
  case (EvCheckpointChunk now i c w res)
  show ?thesis unfolding EvCheckpointChunk queue_step.simps by (rule keeps_legal_commit[OF inv], erule legal_checkpoint_chunk[OF inv])
next
  case (EvFinalize now i rv outs w)
  show ?thesis unfolding EvFinalize queue_step.simps by (rule keeps_legal_commit[OF inv], erule legal_finalize[OF inv])
next
  case (EvDefer now i err)
  show ?thesis unfolding EvDefer queue_step.simps by (rule keeps_legal_commit[OF inv], erule legal_defer[OF inv])
next
  case (EvOutcome now i d rc ps cs rid)
  show ?thesis unfolding EvOutcome queue_step.simps by (rule keeps_legal_commit[OF inv], erule legal_outcome[OF inv])
next
  case (EvBackfill now i s)
  show ?thesis unfolding EvBackfill queue_step.simps by (rule keeps_legal_commit[OF inv], erule legal_backfill[OF inv])
next
  case (EvHistorical now i r)
  show ?thesis unfolding EvHistorical queue_step.simps by (rule keeps_legal_commit[OF inv], erule legal_historical[OF inv])
next
  case (EvRebalance now pn n rf)
  show ?thesis unfolding EvRebalance queue_step.simps rebalance_def by (rule legal_keeps[OF inv], rule legal_rebalance_locked[OF inv])
next
  case (EvReconcile now pn b mids ids)
  show ?thesis unfolding EvReconcile queue_step.simps rebalance_def by (rule legal_keeps[OF inv], rule legal_reconcile[OF inv])
next
  case (EvMarkOffered now pn ids)
  show ?thesis unfolding EvMarkOffered queue_step.simps rebalance_def by (rule legal_keeps[OF inv], rule legal_mark_offered[OF inv])
next
  case (EvRenewReview now i w secs)
  show ?thesis unfolding EvRenewReview queue_step.simps rebalance_def by (rule legal_keeps[OF inv], rule legal_renew_review[OF surjective_pairing])
next
  case (EvReleaseReview now i w)
  show ?thesis unfolding EvReleaseReview queue_step.simps rebalance_def by (rule legal_keeps[OF inv], rule legal_release_review[OF inv surjective_pairing])
qed

interpretation queue: monotone_machine "queue_step h mc" "queue_inv h" ledger_le for h mc
  by unfold_locales (auto simp: queue_step_keeps[unfolded keeps_def] intro: ledger_le_trans)

end
