(* ===== verification/QueueProps.thy ===== *)
theory QueueProps
  imports QueueRuns
begin

text \<open>
  The properties of the distillation queue.  The first group holds along every run of the machine and
  rests on its interpretation; the others describe single operations from any state that satisfies the
  invariant.
\<close>

section \<open>Facts about runs\<close>

lemma run_keeps:
  assumes "queue_inv h l"
  shows "queue_inv h (fold (queue_step h mc) es l)" "ledger_le l (fold (queue_step h mc) es l)"
  using queue.run_inv[OF assms, of mc es] queue.run_below[OF assms, of mc es]
  by (simp_all add: queue.run_def)

lemma reachable_inv: "inj (uuid5_url h) \<Longrightarrow> queue_inv h (fold (queue_step h mc) es empty_ledger)"
  by (rule run_keeps(1)[OF queue_inv_empty])

lemma ledger_le_job:
  "ledger_le l l' \<Longrightarrow> get_job i l = Some j \<Longrightarrow> \<exists>j'. get_job i l' = Some j' \<and> job_le j j'"
  by (simp add: ledger_le_def)

lemma demo_digests_inj: "inj (uuid5_url demo_digests)"
  by (simp add: demo_digests_def inj_def)

text \<open>A small queue to instantiate the properties on: one job with one chunk.\<close>

definition demo_job :: job where
  "demo_job = (new_job (distill_job_id demo_digests ''k'') ''k'' ''p'' ''/r'' ''c'' ''x'' ''s'' ''r'' 0)
     \<lparr>j_expected_chunk_count := 1\<rparr>"

definition demo_ck :: checkpoint where
  "demo_ck = new_checkpoint (j_id demo_job) ''c1'' 0 0"

definition demo_chunk :: tchunk where
  "demo_chunk = (hd (demo_chunks ''abcdef''))\<lparr>c_id := ''c1''\<rparr>"

definition demo_board :: "job \<Rightarrow> checkpoint \<Rightarrow> ledger" where
  "demo_board j k = empty_ledger\<lparr>l_chunks := [demo_chunk], l_jobs := [j], l_checkpoints := [k]\<rparr>"

definition demo_done :: job where
  "demo_done = demo_job\<lparr>j_status := Completed, j_phase := PhaseDone, j_completed_chunk_count := 1,
     j_completed_at := Some 50\<rparr>"

lemma demo_board_inv:
  assumes "job_wf j" "ck_wf k" "j_id j = j_id demo_job" "j_idempotency_key j = ''k''"
    "j_expected_chunk_count j = 1" "k_key k = k_key demo_ck"
    "j_status j = Completed \<longrightarrow> k_status k = CkCompleted"
  shows "queue_inv demo_digests (demo_board j k)"
  using assms demo_digests_inj
  by (auto simp: queue_inv_def demo_board_def empty_ledger_def checkpoint_count_def all_done_def get_job_def
      demo_ck_def demo_job_def new_job_def new_checkpoint_def k_key_def)

lemma demo_start_inv: "queue_inv demo_digests (demo_board demo_job demo_ck)"
  by (rule demo_board_inv) (simp_all add: demo_job_def demo_ck_def new_job_def new_checkpoint_def job_wf_def ck_wf_def)

lemma demo_done_inv: "queue_inv demo_digests (demo_board demo_done (complete_checkpoint 9 [] demo_ck))"
  by (rule demo_board_inv) (simp_all add: demo_done_def demo_job_def new_job_def job_wf_def)

lemma demo_get_job: "j_id j = j_id demo_job \<Longrightarrow> get_job (j_id demo_job) (demo_board j k) = Some j"
  by (simp add: demo_board_def get_job_def)

section \<open>Properties of every run\<close>

text \<open>C2: Whatever sequence of captures and queue calls has run, from the empty database, with whatever
  clock readings: job ids and checkpoint keys are unique, a completed job has all its chunks checkpointed,
  as many as it expects, and holds no review lease, and a chunk carries a lease, with an owner and an
  expiry, exactly while it is processing.\<close>

theorem reachable_states_are_sound:
  assumes "inj (uuid5_url h)" and "l = fold (queue_step h mc) es empty_ledger"
  shows "distinct (map j_id (l_jobs l)) \<and> distinct (map k_key (l_checkpoints l)) \<and>
    (\<forall>j\<in>set (l_jobs l). j_status j = Completed \<longrightarrow>
       (\<forall>k\<in>set (l_checkpoints l). k_job_id k = j_id j \<longrightarrow> k_status k = CkCompleted) \<and>
       j_completed_chunk_count j = j_expected_chunk_count j \<and> j_completed_at j \<noteq> None \<and>
       j_review_lease_owner j = None \<and> j_review_lease_until j = None) \<and>
    (\<forall>k\<in>set (l_checkpoints l). get_job (k_job_id k) l \<noteq> None \<and>
       (k_status k = CkProcessing \<longleftrightarrow> k_lease_owner k \<noteq> None) \<and>
       (k_status k = CkProcessing \<longleftrightarrow> k_lease_until k \<noteq> None))"
proof -
  have inv: "queue_inv h l" using reachable_inv assms by simp
  then have "\<forall>k\<in>set (l_checkpoints l). (k_status k = CkProcessing \<longleftrightarrow> k_lease_owner k \<noteq> None) \<and>
       (k_status k = CkProcessing \<longleftrightarrow> k_lease_until k \<noteq> None)"
    by (auto simp: queue_inv_def ck_wf_def split: if_splits option.splits)
  then show ?thesis using inv unfolding queue_inv_def all_done_def job_wf_def by blast
qed

theorem reachable_states_are_sound_witness:
  "list_all (\<lambda>k. k_status k = CkProcessing \<longleftrightarrow> k_lease_owner k \<noteq> None)
    (l_checkpoints (fold (queue_step demo_digests (\<lambda>_. False))
      [EvSaveSnapshot 5 (demo_source ''abcdef'') (demo_chunks ''abcdef'') None,
       EvEnqueue 10 ''s'' ''v1'' None True False, EvClaimChunks 20 ''j'' ''w'' None 60 ''agent'']
      empty_ledger))"
  using reachable_states_are_sound[OF demo_digests_inj refl] unfolding list_all_iff by blast

text \<open>C1: A completed job is final.  No run of the queue, in any order, removes it, reopens it, changes
  its structural audit, its outputs or its completion time, or leases it for review again.\<close>

theorem completed_job_is_final:
  assumes "queue_inv h l" and "get_job i l = Some j" and "j_status j = Completed"
  shows "\<exists>j'. get_job i (fold (queue_step h mc) es l) = Some j' \<and> j_status j' = Completed \<and>
    j_structural_audit j' = j_structural_audit j \<and>
    j_output_candidate_ids j' = j_output_candidate_ids j \<and> j_completed_at j' = j_completed_at j \<and>
    j_review_lease_owner j' = None"
  using ledger_le_job[OF run_keeps(2)[OF assms(1)] assms(2), of mc es] queue_inv_job(2)[OF assms(1,2)] assms(3)
  by (auto simp: job_le_def job_wf_def)

theorem completed_job_is_final_witness:
  "\<exists>j'. get_job (j_id demo_job) (fold (queue_step demo_digests (\<lambda>_. False))
      [EvDefer 60 (j_id demo_job) ''late failure'', EvReconcile 70 None None None None,
       EvCheckpointChunk 80 (j_id demo_job) ''c1'' ''w'' []]
      (demo_board demo_done (complete_checkpoint 9 [] demo_ck))) = Some j' \<and> j_status j' = Completed"
proof -
  have d: "j_id demo_done = j_id demo_job" "j_status demo_done = Completed" by (simp_all add: demo_done_def)
  show ?thesis using completed_job_is_final[OF demo_done_inv demo_get_job[OF d(1)] d(2)] by blast
qed

text \<open>Finished work is never redone or lost: a completed checkpoint, its result included, is the same
  row after every run.\<close>

theorem completed_chunk_is_never_redone:
  assumes "queue_inv h l" and "get_checkpoint kk l = Some k" and "k_status k = CkCompleted"
  shows "get_checkpoint kk (fold (queue_step h mc) es l) = Some k"
proof -
  obtain k' where "get_checkpoint kk (fold (queue_step h mc) es l) = Some k'" "ck_le k k'"
    using run_keeps(2)[OF assms(1), of mc es] assms(2) unfolding ledger_le_def by blast
  then show ?thesis using assms(3) by (simp add: ck_le_def)
qed

theorem completed_chunk_is_never_redone_witness:
  "get_checkpoint (k_key demo_ck) (fold (queue_step demo_digests (\<lambda>_. False))
      [EvClaimChunks 20 (j_id demo_job) ''w'' None 60 interactive_agent, EvDefer 60 (j_id demo_job) ''e'']
      (demo_board demo_done (complete_checkpoint 9 [] demo_ck)))
   = Some (complete_checkpoint 9 [] demo_ck)"
  by (rule completed_chunk_is_never_redone[OF demo_done_inv])
    (simp_all add: demo_board_def get_checkpoint_def)

text \<open>C26: A reservation is for good.  Once a job is reserved for an explicit batch, and the manual test
  recognises reserved jobs, no run ever lets a background worker claim its chunks or its review.\<close>

theorem reserved_jobs_stay_out_of_the_background:
  assumes "queue_inv h l" and "get_job i l = Some j" and "j_manual_only j"
    and "\<And>q. j_manual_only q \<Longrightarrow> mc q" and "src \<noteq> interactive_agent" and "strip w \<noteq> []"
    and "l' = fold (queue_step h mc) es l"
  shows "claim_chunks mc now i w lim secs src l' = Inr ([], l') \<and>
    claim_review mc now i w src secs l' = Inr (None, l')"
proof -
  obtain j' where "get_job i l' = Some j'" "j_manual_only j'"
    using ledger_le_job[OF run_keeps(2)[OF assms(1)] assms(2), of mc es] assms(3,7) by (auto simp: job_le_def)
  then show ?thesis using assms(4-6) by (simp add: claim_chunks_def claim_review_def)
qed

theorem reserved_jobs_stay_out_of_the_background_witness:
  "claim_chunks j_manual_only 90 (j_id demo_job) ''w'' None 60 ''daemon''
     (fold (queue_step demo_digests j_manual_only) [EvActivate 5 (j_id demo_job)]
        (demo_board (demo_job\<lparr>j_manual_only := True\<rparr>) demo_ck))
   = Inr ([], fold (queue_step demo_digests j_manual_only) [EvActivate 5 (j_id demo_job)]
        (demo_board (demo_job\<lparr>j_manual_only := True\<rparr>) demo_ck))"
proof -
  have inv: "queue_inv demo_digests (demo_board (demo_job\<lparr>j_manual_only := True\<rparr>) demo_ck)"
    by (rule demo_board_inv)
      (simp_all add: demo_job_def demo_ck_def new_job_def new_checkpoint_def job_wf_def ck_wf_def)
  show ?thesis
    by (rule reserved_jobs_stay_out_of_the_background[OF inv demo_get_job _ _ _ _ refl, THEN conjunct1])
      (simp_all add: interactive_agent_def strip_def lstrip_def py_space_def)
qed

section \<open>Leases\<close>

lemma claimed_row:
  assumes inv: "queue_inv h l" and cl: "current ks l" and "map snd r = map (claim_checkpoint now w secs) ks"
    and "list_all2 (\<lambda>k p. get_chunk (k_chunk_id k) l = Some (fst p)) ks r" and p: "p \<in> set r"
  obtains k0 where "k0 \<in> set ks" "snd p = claim_checkpoint now w secs k0"
    "get_chunk (k_chunk_id k0) l = Some (fst p)"
proof -
  obtain n where n: "n < length r" "p = r ! n" using p by (auto simp: in_set_conv_nth)
  have len: "length ks = length r" using assms(4) by (rule list_all2_lengthD)
  have "snd p = claim_checkpoint now w secs (ks ! n)"
    using assms(3) n len by (metis nth_map)
  moreover have "get_chunk (k_chunk_id (ks ! n)) l = Some (fst p)"
    using assms(4) n len by (simp add: list_all2_conv_all_nth)
  ultimately show ?thesis using that[of "ks ! n"] n len by simp
qed

lemma claim_checkpoint_simps [simp]:
  "k_job_id (claim_checkpoint now w s k) = k_job_id k" "k_chunk_id (claim_checkpoint now w s k) = k_chunk_id k"
  "k_lease_owner (claim_checkpoint now w s k) = Some w"
  "k_lease_until (claim_checkpoint now w s k) = Some (now + seconds (max 1 s))"
  by (simp_all add: claim_checkpoint_def)



text \<open>Only the owner of a running lease can record a chunk's result.  A checkpoint call that returns
  either found the chunk completed and changed nothing, or was made by the owner before the lease ran
  out, and then it completes exactly this checkpoint and touches no other checkpoint and no other job.\<close>

theorem chunk_result_needs_the_lease:
  assumes inv: "queue_inv h l" and r: "checkpoint_chunk now i c w res l = Inr (j', l')"
  shows "\<exists>k. get_checkpoint (i, c) l = Some k \<and>
    (k_status k = CkCompleted \<and> l' = l \<or>
     k_status k = CkProcessing \<and> k_lease_owner k = Some w \<and>
     (\<exists>t. k_lease_until k = Some t \<and> now \<le> t) \<and>
     get_checkpoint (i, c) l' = Some (complete_checkpoint now res k) \<and>
     (\<forall>kk. kk \<noteq> (i, c) \<longrightarrow> get_checkpoint kk l' = get_checkpoint kk l) \<and>
     (\<forall>m. m \<noteq> i \<longrightarrow> get_job m l' = get_job m l) \<and> get_job i l' = Some j' \<and>
     (j_completed_chunk_count j' = j_expected_chunk_count j' \<longrightarrow> j_status j' = Reviewing))"
proof -
  obtain j k where g: "get_job i l = Some j" "get_checkpoint (i, c) l = Some k"
    using r by (auto simp: checkpoint_chunk_def split: option.splits)
  show ?thesis
  proof (cases "k_status k = CkCompleted")
    case True
    then show ?thesis using r g by (auto simp: checkpoint_chunk_def)
  next
    case False
    have key: "k_key (complete_checkpoint now res k) = (i, c)" using checkpoint_rows.get_key[OF g(2)] by simp
    let ?l1 = "upsert_checkpoint (complete_checkpoint now res k) l"
    have jid: "j_id j = i" using g(1) by (rule job_rows.get_key)
    have "\<exists>j2. l' = upsert_job j2 ?l1 \<and> j' = j2 \<and> j_id j2 = i \<and>
        (j_completed_chunk_count j2 = j_expected_chunk_count j2 \<longrightarrow> j_status j2 = Reviewing)"
      using r g False jid by (auto simp: checkpoint_chunk_def Let_def split: if_splits option.splits)
    moreover have "k_status k = CkProcessing \<and> k_lease_owner k = Some w \<and> (\<exists>t. k_lease_until k = Some t \<and> now \<le> t)"
      using r g False by (auto simp: checkpoint_chunk_def split: if_splits option.splits)
    moreover have "get_job m ?l1 = get_job m l" for m by (simp add: get_job_def)
    ultimately show ?thesis using g(2) key
      by (auto simp: job_rows.get_put checkpoint_rows.get_put)
  qed
qed

definition demo_leased :: checkpoint where
  "demo_leased = claim_checkpoint 20 ''w'' 60 demo_ck"

lemma demo_leased_inv: "queue_inv demo_digests (demo_board demo_job demo_leased)"
  by (rule demo_board_inv)
    (simp_all add: demo_job_def new_job_def job_wf_def demo_leased_def strip_def lstrip_def py_space_def)

theorem chunk_result_needs_the_lease_witness:
  "\<exists>j' l'. checkpoint_chunk 30 (j_id demo_job) ''c1'' ''w'' [] (demo_board demo_job demo_leased) = Inr (j', l') \<and>
     get_job (j_id demo_job) l' = Some j' \<and> l' \<noteq> demo_board demo_job demo_leased"
proof -
  let ?r = "checkpoint_chunk 30 (j_id demo_job) ''c1'' ''w'' [] (demo_board demo_job demo_leased)"
  have "case ?r of Inl _ \<Rightarrow> False | Inr (j', l') \<Rightarrow> map k_status (l_checkpoints l') = [CkCompleted]" by code_simp
  then obtain j' l' where r: "?r = Inr (j', l')" "map k_status (l_checkpoints l') = [CkCompleted]"
    by (auto split: sum.splits)
  have "map k_status (l_checkpoints (demo_board demo_job demo_leased)) = [CkProcessing]"
    by (simp add: demo_board_def demo_leased_def)
  then have "l' \<noteq> demo_board demo_job demo_leased" using r(2) by auto
  moreover have "get_job (j_id demo_job) l' = Some j'"
    using chunk_result_needs_the_lease[OF demo_leased_inv r(1)] calculation by auto
  ultimately show ?thesis using r(1) by blast
qed

text \<open>What a granted review claim leaves behind.\<close>

lemma claim_review_granted:
  assumes "claim_review mc t i a src secs l = Inr (Some j, l1)"
  shows "get_job i l1 = Some j \<and> j_id j = i \<and> j_status j = Reviewing \<and> j_review_lease_owner j = Some a \<and>
    j_review_lease_until j = Some (t + seconds (max 30 secs))"
proof -
  obtain q where q: "get_job i l = Some q" using assms by (auto simp: claim_review_def split: option.splits)
  have "j_id q = i" using q by (rule job_rows.get_key)
  then show ?thesis using assms q
    by (auto simp: claim_review_def Let_def review_lease_until_for_def job_rows.get_put split: if_splits)
qed

text \<open>The review lease excludes other workers.  While the lease granted to a named worker runs,
  every other worker's claim is refused and changes nothing, and nobody else can finalize the job, with or
  without naming a lease.\<close>

theorem review_lease_excludes_others:
  assumes claim: "claim_review mc t i a src secs l = Inr (Some j, l1)"
    and "a \<noteq> []" and "b \<noteq> a" and "t' < t + seconds (max 30 secs)" and "w \<noteq> Some a"
  shows "claim_review mc t' i b src' secs' l1 = Inr (None, l1) \<and>
    \<not> is_ok (finalize h t' i rv outs w l1)"
proof -
  have g: "get_job i l1 = Some j" "j_status j = Reviewing" "j_review_lease_owner j = Some a"
    "j_review_lease_until j = Some (t + seconds (max 30 secs))"
    using claim_review_granted[OF claim] by simp_all
  have "\<exists>e. review_guard t' w j = Some e" using g assms(2,4,5)
    by (auto simp: review_guard_def Let_def lease_live_def)
  then have "\<not> is_ok (finalize h t' i rv outs w l1)"
    using g by (cases "validate_review rv") (auto simp: finalize_def)
  moreover have "lease_live t' (j_review_lease_until j)" using g(4) assms(4) by (simp add: lease_live_def)
  ultimately show ?thesis using g(2,3) assms(2,3) by (simp add: claim_review_def g(1) Let_def)
qed

definition demo_reviewing :: job where
  "demo_reviewing = demo_job\<lparr>j_status := Reviewing, j_phase := PhaseReview, j_completed_chunk_count := 1\<rparr>"

theorem review_lease_excludes_others_witness:
  "\<exists>j l1. claim_review (\<lambda>_. False) 10 (j_id demo_job) ''a'' interactive_agent 60 (demo_board demo_reviewing demo_ck)
       = Inr (Some j, l1) \<and>
     claim_review (\<lambda>_. False) 40 (j_id demo_job) ''b'' interactive_agent 60 l1 = Inr (None, l1)"
proof -
  let ?r = "claim_review (\<lambda>_. False) 10 (j_id demo_job) ''a'' interactive_agent 60 (demo_board demo_reviewing demo_ck)"
  have "get_job (j_id demo_job) (demo_board demo_reviewing demo_ck) = Some demo_reviewing"
    by (rule demo_get_job) (simp add: demo_reviewing_def)
  then obtain j l1 where r: "?r = Inr (Some j, l1)"
    by (auto simp: claim_review_def Let_def demo_reviewing_def demo_job_def new_job_def)
  show ?thesis using review_lease_excludes_others[OF r, of "''b''" 40 None] r by (auto simp: seconds_def)
qed

text \<open>Without a name there is no exclusion.  Unlike the chunk claim, the review claim accepts an empty
  owner; a job leased that way is handed to the next worker at once, its lease still running.\<close>

theorem unnamed_review_lease_is_void:
  assumes claim: "claim_review mc t i [] src secs l = Inr (Some j, l1)"
  shows "\<exists>j' l2. claim_review mc t' i b interactive_agent secs' l1 = Inr (Some j', l2) \<and>
    j_review_lease_owner j' = Some b"
proof -
  have g: "get_job i l1 = Some j" "j_status j = Reviewing" "j_review_lease_owner j = Some []"
    using claim_review_granted[OF claim] by simp_all
  show ?thesis unfolding claim_review_def g(1) using g(2,3) by (simp add: Let_def)
qed

theorem unnamed_review_lease_is_void_witness:
  "\<exists>j l1 j' l2. claim_review (\<lambda>_. False) 10 (j_id demo_job) [] interactive_agent 60 (demo_board demo_reviewing demo_ck)
       = Inr (Some j, l1) \<and>
     claim_review (\<lambda>_. False) 11 (j_id demo_job) ''b'' interactive_agent 60 l1 = Inr (Some j', l2)"
proof -
  let ?r = "claim_review (\<lambda>_. False) 10 (j_id demo_job) [] interactive_agent 60 (demo_board demo_reviewing demo_ck)"
  have "get_job (j_id demo_job) (demo_board demo_reviewing demo_ck) = Some demo_reviewing"
    by (rule demo_get_job) (simp add: demo_reviewing_def)
  then obtain j l1 where r: "?r = Inr (Some j, l1)"
    by (auto simp: claim_review_def Let_def demo_reviewing_def demo_job_def new_job_def)
  then show ?thesis using unnamed_review_lease_is_void[OF r, of 11 "''b''" 60] by blast
qed

section \<open>Completion\<close>

text \<open>C4: A job is completed only when it may be.  When a finalization turns an open job into a completed
  one, the review validated, the caller held the running review lease or there was none, the source is
  still at the job's revision, every checkpoint of the job is completed, as many as expected, the text
  reconstructs and its hash is in the audit, and no other row of the queue has changed.\<close>

theorem finalize_only_when_complete:
  assumes inv: "queue_inv h l" and r: "finalize h now i rv0 outs w l = Inr (j', l')"
    and old: "get_job i l = Some j" "j_status j \<noteq> Completed" and "j_status j' = Completed"
  shows "is_ok (validate_review rv0) \<and> review_guard now w j = None \<and>
    (\<exists>s v. get_source (j_source_id j) l = Some s \<and> s_source_revision s = j_source_revision j \<and>
       reconstruct h (j_source_id j) (Some (j_source_revision j)) l = Inr v \<and>
       map_of (j_structural_audit j') ''normalized_sha256'' = Some (JStr (sha256_text h v))) \<and>
    (\<forall>k\<in>set (list_checkpoints i l). k_status k = CkCompleted) \<and>
    int (length (list_checkpoints i l)) = j_expected_chunk_count j \<and>
    l_checkpoints l' = l_checkpoints l \<and> (\<forall>m. m \<noteq> i \<longrightarrow> get_job m l' = get_job m l) \<and>
    get_job i l' = Some j'"
  using r
proof (cases rule: finalize_cases)
  case (completed q s rv v)
  have q: "q = j" using completed(1) old(1) by simp
  have ad: "all_done i l" using all_done_by_count[OF inv old(1)] completed(7) q by simp
  have "completed_count (list_checkpoints i l) = int (length (list_checkpoints i l))"
    using ad by (auto simp: completed_count_def all_done_def simp del: list_checkpoints_simps(2)
        intro!: arg_cong[where f = length] filter_True)
  moreover have "j_id j' = i" using queue_inv_job(1)[OF inv old(1)] completed(9) q by (simp add: complete_job_def)
  moreover have "map_of (j_structural_audit j') ''normalized_sha256'' = Some (JStr (sha256_text h v))"
    using completed(9) by (simp add: complete_job_def structural_audit_def)
  ultimately show ?thesis using completed ad q
    by (auto simp: all_done_def job_rows.get_put simp del: list_checkpoints_simps(2))
qed (use assms in auto)

text \<open>A captured revision whose chunks are all checkpointed, and a job on it in a given status.\<close>

definition demo_task :: "job_status \<Rightarrow> job" where
  "demo_task st = demo_job\<lparr>j_source_revision := ''sha256:abcdef'', j_status := st,
     j_expected_chunk_count := 2\<rparr>"

definition demo_checked :: "job_status \<Rightarrow> ledger" where
  "demo_checked st = demo_ledger\<lparr>l_jobs := [demo_task st],
     l_checkpoints := map (\<lambda>c. complete_checkpoint 30 []
       (new_checkpoint (j_id demo_job) (c_id c) (c_chunk_index c) 20)) (demo_chunks ''abcdef'')\<rparr>"

lemma demo_chunk_ids: "length (demo_chunks ''abcdef'') = 2 \<and> distinct (map c_id (demo_chunks ''abcdef''))"
  by code_simp

lemma demo_checked_inv: "st \<noteq> Completed \<Longrightarrow> queue_inv demo_digests (demo_checked st)"
proof -
  assume "st \<noteq> Completed"
  moreover have "demo_ledger\<lparr>l_jobs := js, l_checkpoints := ks\<rparr> = demo_ledger\<lparr>l_jobs := js, l_checkpoints := ks\<rparr>" for js ks
    by simp
  ultimately show ?thesis using demo_chunk_ids demo_digests_inj
    by (auto simp: queue_inv_def demo_checked_def checkpoint_count_def get_job_def job_wf_def demo_task_def
        demo_job_def new_job_def o_def k_key_def complete_checkpoint_def new_checkpoint_def ck_wf_def
        distinct_map inj_on_def filter_map)
qed

theorem finalize_only_when_complete_witness:
  "\<exists>j' l'. finalize demo_digests 90 (j_id demo_job) demo_review (Some [''a'', ''b'', ''a'']) None
       (demo_checked Reviewing) = Inr (j', l') \<and>
     map_of (j_structural_audit j') ''normalized_sha256'' = Some (JStr ''abcdef'')"
proof -
  let ?r = "finalize demo_digests 90 (j_id demo_job) demo_review (Some [''a'', ''b'', ''a'']) None (demo_checked Reviewing)"
  have "case ?r of Inl _ \<Rightarrow> False | Inr (j', _) \<Rightarrow> j_status j' = Completed" by code_simp
  then obtain j' l' where r: "?r = Inr (j', l')" "j_status j' = Completed" by (auto split: sum.splits)
  have old: "get_job (j_id demo_job) (demo_checked Reviewing) = Some (demo_task Reviewing)"
    by (simp add: demo_checked_def get_job_def demo_task_def)
  have "reconstruct demo_digests ''s'' (Some ''sha256:abcdef'') (demo_checked Reviewing) = Inr ''abcdef''" by code_simp
  then show ?thesis
    using finalize_only_when_complete[OF demo_checked_inv r(1) old _ r(2)] r(1)
    by (auto simp: demo_task_def demo_job_def new_job_def sha256_text_def sha256_bytes_def demo_digests_def
        utf8_encode_def utf8_char_def)
qed

end
