(* ===== verification/QueueCompletion.thy ===== *)
theory QueueCompletion
  imports QueueProps
begin

text \<open>
  Completion and deferral of a job: finalizing is idempotent and looks only at the checkpoints, the revision
  and the lease; a deferred job waits out its backoff; recovery of lost leases is bounded by the budget.
\<close>

section \<open>Finalizing\<close>

text \<open>Finalizing again is harmless.  Once a job is completed every further finalization with a valid
  review returns the stored job and leaves the ledger as it is, whoever calls and with whatever outputs.\<close>

theorem finalize_is_idempotent:
  assumes "queue_inv h l" and "finalize h now i rv0 outs w l = Inr (j', l')" and "j_status j' = Completed"
    and "is_ok (validate_review rv1)"
  shows "finalize h' now' i rv1 outs' w' l' = Inr (j', l')"
proof -
  have "get_job i l' = Some j'" using assms(2)
  proof (cases rule: finalize_cases)
    case (completed j s rv v)
    then show ?thesis using queue_inv_job(1)[OF assms(1) completed(1)]
      by (simp add: job_rows.get_put complete_job_def)
  qed (use assms(3) in auto)
  then show ?thesis using assms(3,4) by (auto simp: finalize_def is_ok_iff)
qed

theorem finalize_is_idempotent_witness:
  "\<exists>j' l'. finalize demo_digests 90 (j_id demo_job) demo_review None None (demo_checked Reviewing) = Inr (j', l') \<and>
     finalize demo_digests 95 (j_id demo_job) demo_review (Some [''z'']) (Some ''b'') l' = Inr (j', l')"
proof -
  let ?r = "finalize demo_digests 90 (j_id demo_job) demo_review None None (demo_checked Reviewing)"
  have "case ?r of Inl _ \<Rightarrow> False | Inr (j', _) \<Rightarrow> j_status j' = Completed" by code_simp
  then obtain j' l' where r: "?r = Inr (j', l')" "j_status j' = Completed" by (auto split: sum.splits)
  then show ?thesis
    using finalize_is_idempotent[OF demo_checked_inv r, of demo_review] demo_review_valid by auto
qed



section \<open>Backing off\<close>

lemma backoff_bounds: "300 \<le> backoff_seconds n \<and> backoff_seconds n \<le> 21600"
  by (simp add: backoff_seconds_def)

lemma defer_keeps_open: "defer_distill now i e l = Inr (j', l') \<Longrightarrow> j_status j' \<notin> {Completed, Stale, Failed} \<Longrightarrow>
   \<exists>j. get_job i l = Some j \<and> j' = defer_job now e j \<and>
     l' = upsert_job j' (upsert_checkpoints (map (defer_checkpoint now e)
       (filter (\<lambda>k. k_job_id k = i \<and> k_status k = CkProcessing) (l_checkpoints l))) l)"
  by (auto simp: defer_distill_def Let_def split: option.splits if_splits)

text \<open>Deferring a job releases everything and keeps it off the queue.  No chunk of it stays leased, its
  review lease is gone, the wait is between five minutes and six hours, and until it is over no chunk
  claim gets anything and nothing changes.\<close>

theorem deferred_jobs_wait:
  assumes inv: "queue_inv h l" and r: "defer_distill now i e l = Inr (j', l')"
    and st: "j_status j' \<notin> {Completed, Stale, Failed}"
  shows "j_status j' = Retryable \<and> j_review_lease_owner j' = None \<and>
    (\<forall>k\<in>set (list_checkpoints i l'). k_status k \<noteq> CkProcessing) \<and>
    (\<exists>u. j_retry_after j' = Some u \<and> now + seconds 300 \<le> u \<and> u \<le> now + seconds 21600 \<and>
      (\<forall>t<u. strip w \<noteq> [] \<longrightarrow> claim_chunks mc t i w lim secs src l' = Inr ([], l')))"
proof -
  obtain j where j: "get_job i l = Some j" "j' = defer_job now e j"
      "l' = upsert_job j' (upsert_checkpoints (map (defer_checkpoint now e)
         (filter (\<lambda>k. k_job_id k = i \<and> k_status k = CkProcessing) (l_checkpoints l))) l)"
    using defer_keeps_open[OF r st] by auto
  let ?P = "\<lambda>k. k_job_id k = i \<and> k_status k = CkProcessing"
  let ?l1 = "upsert_checkpoints (map (defer_checkpoint now e) (filter ?P (l_checkpoints l))) l"
  have inv': "queue_inv h l'" by (rule legal_inv[OF legal_defer[OF inv r] inv])
  have row: "get_checkpoint (k_key k0) ?l1 = Some (if ?P k0 then defer_checkpoint now e k0 else k0)"
    if "k0 \<in> set (l_checkpoints l)" for k0
    by (rule rewrite_current(3)[OF current_rows[OF inv] _ _ that]) auto
  have free: "k_status k \<noteq> CkProcessing" if k: "k \<in> set (list_checkpoints i l')" for k
  proof
    assume p: "k_status k = CkProcessing"
    have g: "get_checkpoint (k_key k) l' = Some k" "k_job_id k = i" using k get_checkpoint_set[OF inv'] by auto
    then have "k_key k \<in> k_key ` set (l_checkpoints ?l1)"
      using j(3) by (auto simp: get_checkpoint_def dest: get_row_key_in)
    moreover have "k_key ` set (l_checkpoints ?l1) = k_key ` set (l_checkpoints l)"
    proof -
      have "legal l ?l1" by (rule rewrite_current(1)[OF current_rows[OF inv]]) auto
      then show ?thesis by (rule legal_keys)
    qed
    ultimately obtain k0 where k0: "k0 \<in> set (l_checkpoints l)" "k_key k0 = k_key k" by auto
    have "get_checkpoint (k_key k0) l' = get_checkpoint (k_key k0) ?l1" using j(3) by simp
    then have "k = (if ?P k0 then defer_checkpoint now e k0 else k0)" using g(1) k0(2) row[OF k0(1)] by simp
    then show False using p g(2) k0(2) by (auto simp: k_key_def split: if_splits)
  qed
  have gj: "get_job i l' = Some j'"
    using j job_rows.get_key[OF j(1)] by (simp add: job_rows.get_put defer_job_def)
  have nx: "\<not> list_ex (chunk_lease_expired t) (list_checkpoints i l')" for t
    using free by (auto simp: list_ex_iff chunk_lease_expired_def)
  have "claim_chunks mc t i w lim secs src l' = Inr ([], l')" if "t < now + seconds (backoff_seconds (max 1 (j_attempt_count j)))" "strip w \<noteq> []" for t
    using that gj j(2) recover_not[OF nx, of t None j' l'] by (simp add: claim_chunks_def defer_job_def lease_live_def)
  then show ?thesis using free j(2) backoff_bounds[of "max 1 (j_attempt_count j)"]
    by (simp add: defer_job_def seconds_def)
qed

theorem deferred_jobs_wait_witness:
  "\<exists>j' l'. defer_distill 30 (j_id demo_job) ''boom'' (demo_board demo_job demo_leased) = Inr (j', l') \<and>
     claim_chunks (\<lambda>_. False) 31 (j_id demo_job) ''w'' None 60 interactive_agent l' = Inr ([], l')"
proof -
  have g: "get_job (j_id demo_job) (demo_board demo_job demo_leased) = Some demo_job" by (rule demo_get_job) simp
  obtain j' l' where r: "defer_distill 30 (j_id demo_job) ''boom'' (demo_board demo_job demo_leased) = Inr (j', l')"
    and st: "j_status j' = Retryable"
  proof -
    have "j_status demo_job = Queued" by (simp add: demo_job_def new_job_def)
    then show ?thesis using that g by (simp add: defer_distill_def Let_def defer_job_def)
  qed
  obtain u where "j_retry_after j' = Some u" "30 + seconds 300 \<le> u"
    "\<forall>t<u. claim_chunks (\<lambda>_. False) t (j_id demo_job) ''w'' None 60 interactive_agent l' = Inr ([], l')"
    using deferred_jobs_wait[OF demo_leased_inv r, of "''w''" "\<lambda>_. False" None 60 interactive_agent] st
    by (auto simp: strip_def lstrip_def py_space_def)
  then show ?thesis using r by (auto simp: seconds_def)
qed

section \<open>Recovery\<close>

lemma recover_result:
  assumes "list_ex (chunk_lease_expired now) cps"
    and "recover_expired_checkpoints now b j cps l = (d, j', cps', l')"
  shows "j_recovery_count j' = j_recovery_count j + 1 \<and>
    (if budget_exhausted (note_recovery now b ''expired_chunk_lease'' j)
     then j_status j' = Failed \<and> (\<forall>k\<in>set cps'. k_status k \<in> {CkCompleted, CkFailed})
     else j_status j' = Retryable \<and> j_retry_after j' = Some (now + seconds (backoff_seconds (j_recovery_count j + 1))) \<and>
       (\<forall>k\<in>set cps'. \<not> chunk_lease_expired now k)) \<and>
    map k_key cps' = map k_key cps"
proof (cases "budget_exhausted (note_recovery now b ''expired_chunk_lease'' j)")
  case True
  have "j_recovery_count j' = j_recovery_count j + 1 \<and> j_status j' = Failed \<and>
    cps' = map (\<lambda>k. if k_status k = CkCompleted then k else fail_checkpoint now k)
      (map (\<lambda>k. if chunk_lease_expired now k then release_expired now k else k) cps)"
    using assms True by (auto simp: recover_expired_checkpoints_def Let_def note_recovery_def)
  then show ?thesis using True by auto
next
  case False
  have "j_recovery_count j' = j_recovery_count j + 1 \<and> j_status j' = Retryable \<and>
    j_retry_after j' = Some (now + seconds (backoff_seconds (j_recovery_count j + 1))) \<and>
    cps' = map (\<lambda>k. if chunk_lease_expired now k then release_expired now k else k) cps"
    using assms False by (auto simp: recover_expired_checkpoints_def Let_def note_recovery_def)
  moreover have "\<not> chunk_lease_expired now (release_expired now k)" for k by (simp add: chunk_lease_expired_def)
  ultimately show ?thesis using False by auto
qed

lemma current_covers:
  assumes inv: "queue_inv h l" and leg: "legal l l'" and cur: "current cps' l'"
    and keys: "map k_key cps' = map k_key (list_checkpoints i l)" and k: "k \<in> set (list_checkpoints i l')"
  shows "k \<in> set cps'"
proof -
  have inv': "queue_inv h l'" by (rule legal_inv[OF leg inv])
  have "k_key k \<in> k_key ` set (l_checkpoints l)" using k legal_keys[OF leg] by auto
  then obtain k0 where k0: "k0 \<in> set (l_checkpoints l)" "k_key k0 = k_key k" by auto
  then have "k0 \<in> set (list_checkpoints i l)" using k by (simp add: k_key_def)
  then have "k_key k \<in> set (map k_key (list_checkpoints i l))" using k0(2) by (metis imageI set_map)
  then have "k_key k \<in> k_key ` set cps'" unfolding keys[symmetric] by simp
  then obtain q where q: "q \<in> set cps'" "k_key k = k_key q" by (rule imageE) simp
  have kin: "k \<in> set (l_checkpoints l')" using k by simp
  have "get_checkpoint (k_key q) l' = Some q" using cur q(1) by (simp add: current_def)
  then have "q = k" using get_checkpoint_set[OF inv' kin] q(2) by simp
  then show ?thesis using q(1) by simp
qed

text \<open>C25: Recovery is bounded.  A chunk claim that meets an expired lease hands out nothing but repairs the
  job: it counts one more recovery and either, the budget being used up, fails the job with all its
  unfinished chunks, or makes it retryable after a backoff of at least five minutes with no expired lease
  left.  So a job is recovered at most as often as its budget before it is over.\<close>

theorem recovery_is_bounded:
  assumes inv: "queue_inv h l" and g: "get_job i l = Some j" and w: "strip w \<noteq> []"
    and op: "j_status j \<notin> {Completed, Failed, Stale, Parked}" and mc: "src = interactive_agent \<or> \<not> mc j"
    and ex: "list_ex (chunk_lease_expired now) (list_checkpoints i l)"
  shows "\<exists>j' l'. claim_chunks mc now i w lim secs src l = Inr ([], l') \<and> get_job i l' = Some j' \<and>
    j_recovery_count j' = j_recovery_count j + 1 \<and>
    (if max 1 (j_recovery_budget j) \<le> j_recovery_count j + 1
     then j_status j' = Failed \<and> (\<forall>k\<in>set (list_checkpoints i l'). k_status k \<in> {CkCompleted, CkFailed})
     else j_status j' = Retryable \<and> (\<exists>u. j_retry_after j' = Some u \<and> now + seconds 300 \<le> u) \<and>
       (\<forall>k\<in>set (list_checkpoints i l'). \<not> chunk_lease_expired now k))"
proof -
  obtain d j' cps' l' where
    rec: "recover_expired_checkpoints now None j (list_checkpoints i l) l = (d, j', cps', l')"
    by (cases "recover_expired_checkpoints now None j (list_checkpoints i l) l") auto
  have opc: "j_status j \<noteq> Completed" using op by simp
  note R = recover_legal[OF g opc current_list[OF inv] rec]
  have d: d using R(8) ex by simp
  have c: "claim_chunks mc now i w lim secs src l = Inr ([], l')"
    using g w op mc rec d by (auto simp: claim_chunks_def)
  note X = recover_result[OF ex rec]
  have cov: "k \<in> set cps'" if "k \<in> set (list_checkpoints i l')" for k
    using current_covers[OF inv R(1,2) _ that] X by blast
  have b: "budget_exhausted (note_recovery now None ''expired_chunk_lease'' j) \<longleftrightarrow>
      max 1 (j_recovery_budget j) \<le> j_recovery_count j + 1"
    by (simp add: budget_exhausted_def note_recovery_def)
  have "300 \<le> backoff_seconds (j_recovery_count j + 1)" using backoff_bounds by blast
  then have "now + seconds 300 \<le> now + seconds (backoff_seconds (j_recovery_count j + 1))" by (simp add: seconds_def)
  then show ?thesis using c R(3) X cov unfolding b by (auto simp del: list_checkpoints_simps split: if_splits)
qed

theorem recovery_is_bounded_witness:
  "\<exists>j' l'. claim_chunks (\<lambda>_. False) 100000000 (j_id demo_job) ''v'' None 60 interactive_agent
       (demo_board demo_job demo_leased) = Inr ([], l') \<and> get_job (j_id demo_job) l' = Some j' \<and>
     j_recovery_count j' = 1"
proof -
  have g: "get_job (j_id demo_job) (demo_board demo_job demo_leased) = Some demo_job" by (rule demo_get_job) simp
  have ex: "list_ex (chunk_lease_expired 100000000) (list_checkpoints (j_id demo_job) (demo_board demo_job demo_leased))"
    by (simp add: list_checkpoints_def demo_board_def demo_leased_def demo_ck_def new_checkpoint_def
        claim_checkpoint_def chunk_lease_expired_def seconds_def)
  from recovery_is_bounded[OF demo_leased_inv g _ _ _ ex, of "''v''" interactive_agent "\<lambda>_. False" None 60]
  show ?thesis by (auto simp: demo_job_def new_job_def strip_def lstrip_def py_space_def)
qed

end
