(* ===== verification/QueueScheduling.thy ===== *)
theory QueueScheduling
  imports QueueProps
begin

text \<open>
  What decides which job runs: rebalancing fills the active lane exactly, enqueueing is complete and
  idempotent, stale jobs stay stale, and reservations are all or nothing.
\<close>

section \<open>Rebalancing\<close>

text \<open>A loop in which every job only rewrites its own row.\<close>

lemma fold_jobs_get:
  assumes "distinct (map j_id js)" and "\<And>j. j \<in> set js \<Longrightarrow> get_job (j_id j) l = Some j"
    and step: "\<And>j l. j \<in> set js \<Longrightarrow> get_job (j_id j) l = Some j \<Longrightarrow>
      get_job (j_id j) (f j l) = Some (r j) \<and> (\<forall>i. i \<noteq> j_id j \<longrightarrow> get_job i (f j l) = get_job i l)"
  shows "i \<notin> j_id ` set js \<Longrightarrow> get_job i (fold f js l) = get_job i l"
    and "j \<in> set js \<Longrightarrow> get_job (j_id j) (fold f js l) = Some (r j)"
proof -
  have "(\<forall>i. i \<notin> j_id ` set js \<longrightarrow> get_job i (fold f js l) = get_job i l) \<and>
      (\<forall>j\<in>set js. get_job (j_id j) (fold f js l) = Some (r j))"
    using assms
  proof (induction js arbitrary: l)
    case (Cons q js)
    have s: "get_job (j_id q) (f q l) = Some (r q)" "\<And>i. i \<noteq> j_id q \<Longrightarrow> get_job i (f q l) = get_job i l"
      using Cons.prems by auto
    have ne: "j_id j \<noteq> j_id q" if "j \<in> set js" for j
      using Cons.prems(1) imageI[OF that, of j_id] by auto
    have "get_job (j_id j) (f q l) = Some j" if "j \<in> set js" for j
      using s(2)[OF ne[OF that]] Cons.prems(2)[of j] that by simp
    then have IH: "(\<forall>i. i \<notin> j_id ` set js \<longrightarrow> get_job i (fold f js (f q l)) = get_job i (f q l)) \<and>
      (\<forall>j\<in>set js. get_job (j_id j) (fold f js (f q l)) = Some (r j))"
      using Cons.prems by (intro Cons.IH) auto
    have "j_id q \<notin> j_id ` set js" using Cons.prems(1) by simp
    then show ?case using IH s by simp
  qed simp
  then show "i \<notin> j_id ` set js \<Longrightarrow> get_job i (fold f js l) = get_job i l"
    "j \<in> set js \<Longrightarrow> get_job (j_id j) (fold f js l) = Some (r j)" by blast+
qed

definition selection_row :: "time \<Rightarrow> job list \<Rightarrow> job \<Rightarrow> job" where
  "selection_row now selected cand =
     (let chosen = get_row j_id (j_id cand) selected;
          j = (case chosen of Some s \<Rightarrow> s | None \<Rightarrow> cand);
          desired = (if chosen \<noteq> None then Queued else Parked)
      in if j_status j = desired
         then (if chosen \<noteq> None \<and> j_drainer_selected_at j = Some now then j else cand)
         else j\<lparr>j_status := desired, j_updated_at := now\<rparr>)"

lemma apply_selection_get:
  assumes sel: "\<And>s. get_row j_id (j_id cand) selected = Some s \<Longrightarrow>
      s = cand \<or> (\<exists>lane. s = mark_drained now lane cand)"
    and g: "get_job (j_id cand) l = Some cand"
  shows "get_job (j_id cand) (apply_selection now selected cand l) = Some (selection_row now selected cand)"
    "i \<noteq> j_id cand \<Longrightarrow> get_job i (apply_selection now selected cand l) = get_job i l"
    "j_status (selection_row now selected cand) =
       (if j_id cand \<in> j_id ` set selected then Queued else Parked)"
proof -
  let ?j = "case get_row j_id (j_id cand) selected of Some s \<Rightarrow> s | None \<Rightarrow> cand"
  have j: "?j = cand \<or> (\<exists>lane. ?j = mark_drained now lane cand)" using sel by (auto split: option.splits)
  have st: "j_status ?j = j_status cand" "j_id ?j = j_id cand" using j by auto
  have c: "(\<exists>y. get_row j_id (j_id cand) selected = Some y) \<longleftrightarrow> j_id cand \<in> j_id ` set selected"
    using get_row_None[of j_id "j_id cand" selected] by auto
  show "get_job (j_id cand) (apply_selection now selected cand l) = Some (selection_row now selected cand)"
    using st g by (simp add: apply_selection_def selection_row_def Let_def job_rows.get_put)
  show "i \<noteq> j_id cand \<Longrightarrow> get_job i (apply_selection now selected cand l) = get_job i l"
    using st by (simp add: apply_selection_def Let_def job_rows.get_put)
  show "j_status (selection_row now selected cand) = (if j_id cand \<in> j_id ` set selected then Queued else Parked)"
    using st by (simp add: selection_row_def Let_def c)
qed

lemma rebalance_locked_get:
  fixes now pn n rf
  assumes inv: "queue_inv h l"
  defines "sel \<equiv> map snd (d_selected (drained now pn n rf l))"
  shows "i \<notin> j_id ` set (map snd (candidate_jobs now pn l)) \<Longrightarrow>
      get_job i (snd (rebalance_locked now pn n rf l)) = get_job i l"
    "c \<in> set (map snd (candidate_jobs now pn l)) \<Longrightarrow>
      \<exists>j'. get_job (j_id c) (snd (rebalance_locked now pn n rf l)) = Some j' \<and>
        j_status j' = (if j_id c \<in> j_id ` set sel then Queued else Parked)"
proof -
  let ?c = "map snd (candidate_jobs now pn l)"
  have c: "?c = filter (\<lambda>j. j_project_name j = pn \<and> is_waiting j \<and> retry_due now j) (l_jobs l)"
    by (rule map_snd_candidates)
  have r: "snd (rebalance_locked now pn n rf l) = fold (apply_selection now sel) ?c l"
    by (simp add: rebalance_locked_def Let_def sel_def)
  have d: "distinct (map j_id ?c)" unfolding c by (rule selected_jobs(1)[OF inv])
  have g: "\<And>j. j \<in> set ?c \<Longrightarrow> get_job (j_id j) l = Some j" unfolding c by (rule selected_jobs(2)[OF inv])
  have step: "get_job (j_id j) (apply_selection now sel j l') = Some (selection_row now sel j) \<and>
      (\<forall>i. i \<noteq> j_id j \<longrightarrow> get_job i (apply_selection now sel j l') = get_job i l') \<and>
      j_status (selection_row now sel j) = (if j_id j \<in> j_id ` set sel then Queued else Parked)"
    if j: "j \<in> set ?c" and gj: "get_job (j_id j) l' = Some j" for j l'
    using apply_selection_get[where selected = sel and cand = j and now = now and l = l']
      selected_is_candidate[OF inv j, of n rf] gj unfolding sel_def by blast
  note F = fold_jobs_get[of ?c l "apply_selection now sel" "selection_row now sel"]
  show "i \<notin> j_id ` set ?c \<Longrightarrow> get_job i (snd (rebalance_locked now pn n rf l)) = get_job i l"
    unfolding r by (rule F(1)[OF d g]) (use step in blast)+
  show "c \<in> set ?c \<Longrightarrow> \<exists>j'. get_job (j_id c) (snd (rebalance_locked now pn n rf l)) = Some j' \<and>
        j_status j' = (if j_id c \<in> j_id ` set sel then Queued else Parked)"
  proof -
    assume cin: "c \<in> set ?c"
    have "get_job (j_id c) (fold (apply_selection now sel) ?c l) = Some (selection_row now sel c)"
      by (rule F(2)[OF d g _ cin]) (use step in blast)+
    then show ?thesis unfolding r using step[OF cin g[OF cin]] by simp
  qed
qed

lemma length_filter_key:
  "distinct (map f xs) \<Longrightarrow> x \<in> set xs \<Longrightarrow> Suc (length (filter (\<lambda>q. f q \<noteq> f x) xs)) = length xs"
proof (induction xs)
  case (Cons y ys)
  show ?case
  proof (cases "f y = f x")
    case True
    then have "f x \<notin> f ` set ys" using Cons.prems(1) by auto
    then have "filter (\<lambda>q. f q \<noteq> f x) ys = ys" by (intro filter_True ballI image_ne)
    then show ?thesis using True by simp
  next
    case False
    then have "x \<in> set ys" using Cons.prems(2) by auto
    then show ?thesis using Cons False by auto
  qed
qed simp

lemma drain_pick_length:
  assumes ok: "drain_ok now cands d" and ne: "d_pool d \<noteq> []"
  shows "Suc (length (d_pool (drain_pick now r d))) = length (d_pool d)"
proof -
  have "distinct (map (\<lambda>q. j_id (snd q)) (d_pool d))" using ok by (simp add: drain_ok_def)
  from length_filter_key[OF this drain_choice_in[OF ne, of r]] show ?thesis by simp
qed

lemma drain_loop_length:
  "drain_ok now cands d \<Longrightarrow> int (length (d_selected d)) \<le> n \<Longrightarrow>
   int (length (d_selected (drain_loop now r n d))) =
     min n (int (length (d_selected d)) + int (length (d_pool d))) \<and>
   length (d_selected (drain_loop now r n d)) + length (d_pool (drain_loop now r n d)) =
     length (d_selected d) + length (d_pool d)"
proof (induction now r n d rule: drain_loop.induct)
  case (1 now r n d)
  show ?case
  proof (cases "int (length (d_selected d)) < n \<and> d_pool d \<noteq> []")
    case True
    let ?d = "drain_pick now r d"
    have ok: "drain_ok now cands ?d" using drain_pick_ok 1(2) True by blast
    have len: "length (d_selected ?d) = Suc (length (d_selected d))"
      "Suc (length (d_pool ?d)) = length (d_pool d)"
      using drain_pick_length[OF 1(2)] True by simp_all
    have "int (length (d_selected ?d)) \<le> n" using len True by simp
    from 1(1)[OF True ok this] show ?thesis
      unfolding drain_loop.simps[of now r n d] if_P[OF True] using len by simp
  next
    case False
    then show ?thesis unfolding drain_loop.simps[of now r n d] if_not_P[OF False] using 1(3) by auto
  qed
qed

lemma drain_start_length:
  assumes inv: "queue_inv h l" and "0 \<le> n"
  shows "int (length (d_selected (drain_start now pn n l))) \<le> n"
    "length (d_selected (drain_start now pn n l)) + length (d_pool (drain_start now pn n l)) =
       length (candidate_jobs now pn l)"
proof -
  let ?c = "candidate_jobs now pn l"
  let ?f = "\<lambda>q :: queued. j_id (snd q)"
  let ?P = "\<lambda>q :: queued. j_status (snd q) = Queued"
  have d: "distinct (map ?f ?c)" by (rule distinct_candidates[OF inv])
  have "filter (\<lambda>q. ?f q \<notin> ?f ` set (filter ?P ?c)) ?c = filter (\<lambda>q. \<not> ?P q) ?c"
    using d by (intro filter_cong refl) (auto simp: distinct_map dest: inj_onD)
  then have "length (filter ?P ?c) + length (filter (\<lambda>q. ?f q \<notin> ?f ` set (filter ?P ?c)) ?c) = length ?c"
    using sum_length_filter_compl[of ?P ?c] by simp
  then show "length (d_selected (drain_start now pn n l)) + length (d_pool (drain_start now pn n l)) =
       length (candidate_jobs now pn l)"
    by (simp add: drain_start_def Let_def del: set_filter)
  show "int (length (d_selected (drain_start now pn n l))) \<le> n"
    using assms(2) by (simp add: drain_start_def Let_def)
qed

lemma drained_length:
  assumes inv: "queue_inv h l"
  shows "int (length (d_selected (drained now pn n rf l))) =
      min (free_slots pn n l) (int (length (candidate_jobs now pn l)))"
    "length (d_selected (drained now pn n rf l)) + length (d_pool (drained now pn n rf l)) =
       length (candidate_jobs now pn l)"
proof -
  have n: "0 \<le> free_slots pn n l" by (simp add: free_slots_def)
  note s = drain_start_length[OF inv n, of now pn]
  have "int (length (d_selected (drain_start now pn (free_slots pn n l) l))) +
      int (length (d_pool (drain_start now pn (free_slots pn n l) l))) = int (length (candidate_jobs now pn l))"
    using s(2) by linarith
  then show "int (length (d_selected (drained now pn n rf l))) =
      min (free_slots pn n l) (int (length (candidate_jobs now pn l)))"
    "length (d_selected (drained now pn n rf l)) + length (d_pool (drained now pn n rf l)) =
       length (candidate_jobs now pn l)"
    using drain_loop_length[OF drain_start_ok[OF inv] s(1), of rf] s(2)
    by (simp_all add: drained_def Let_def)
qed

text \<open>The rows after a rebalance: a job that is not a candidate is untouched, a candidate is queued when
  the drain selected it and parked otherwise.\<close>

definition is_candidate :: "time \<Rightarrow> string \<Rightarrow> job \<Rightarrow> bool" where
  "is_candidate now pn j \<longleftrightarrow> j_project_name j = pn \<and> is_waiting j \<and> retry_due now j"

definition selected_ids :: "time \<Rightarrow> string \<Rightarrow> int \<Rightarrow> bool \<Rightarrow> ledger \<Rightarrow> string set" where
  "selected_ids now pn n rf l = j_id ` snd ` set (d_selected (drained now pn n rf l))"

lemma candidate_ids:
  assumes inv: "queue_inv h l" and g: "get_job (j_id j) l = Some j"
  shows "j \<in> set (map snd (candidate_jobs now pn l)) \<longleftrightarrow> is_candidate now pn j"
    "j_id j \<in> j_id ` set (map snd (candidate_jobs now pn l)) \<longleftrightarrow> is_candidate now pn j"
proof -
  show 1: "j \<in> set (map snd (candidate_jobs now pn l)) \<longleftrightarrow> is_candidate now pn j"
    using get_job_in[OF g] unfolding map_snd_candidates by (auto simp: is_candidate_def)
  have "q = j" if "q \<in> set (map snd (candidate_jobs now pn l))" "j_id q = j_id j" for q
    using that g get_job_set[OF inv, of q] unfolding map_snd_candidates by auto
  then have "j_id j \<in> j_id ` set (map snd (candidate_jobs now pn l)) \<longleftrightarrow>
      j \<in> set (map snd (candidate_jobs now pn l))" by (auto simp del: set_map)
  then show "j_id j \<in> j_id ` set (map snd (candidate_jobs now pn l)) \<longleftrightarrow> is_candidate now pn j"
    using 1 by simp
qed

lemma rebalance_rows:
  assumes inv: "queue_inv h l" and g: "get_job (j_id j) l = Some j"
  shows "\<not> is_candidate now pn j \<Longrightarrow> get_job (j_id j) (snd (rebalance_locked now pn n rf l)) = Some j"
    "is_candidate now pn j \<Longrightarrow> \<exists>j'. get_job (j_id j) (snd (rebalance_locked now pn n rf l)) = Some j' \<and>
       j_status j' = (if j_id j \<in> selected_ids now pn n rf l then Queued else Parked)"
  using rebalance_locked_get(1)[OF inv, of "j_id j" now pn n rf]
    rebalance_locked_get(2)[OF inv, of j now pn n rf] candidate_ids[OF inv g, of now pn] g
  by (auto simp: selected_ids_def)

lemma selected_ids_candidates:
  assumes inv: "queue_inv h l" and "i \<in> selected_ids now pn n rf l"
  shows "\<exists>j. get_job i l = Some j \<and> is_candidate now pn j \<and> j_id j = i"
proof -
  obtain q where q: "q \<in> set (d_selected (drained now pn n rf l))" "i = j_id (snd q)"
    using assms(2) by (auto simp: selected_ids_def)
  then obtain c where c: "c \<in> set (candidate_jobs now pn l)"
      "snd q = snd c \<or> (\<exists>lane. snd q = mark_drained now lane (snd c))"
    using drained_ok[OF inv, of now pn n rf] unfolding drain_ok_def by fast
  then have "snd c \<in> set (map snd (candidate_jobs now pn l))" "i = j_id (snd c)" using q(2) by auto
  moreover from this have "get_job i l = Some (snd c)"
    using get_job_set[OF inv] unfolding map_snd_candidates by auto
  ultimately show ?thesis using candidate_ids(1)[OF inv, of "snd c" now pn] by auto
qed

lemma card_selected_ids:
  assumes "queue_inv h l"
  shows "card (selected_ids now pn n rf l) = length (d_selected (drained now pn n rf l))"
    "dedup (map j_id (map snd (d_selected (drained now pn n rf l)))) =
       map j_id (map snd (d_selected (drained now pn n rf l)))"
proof -
  have d: "distinct (map j_id (map snd (d_selected (drained now pn n rf l))))"
    using drained_ok[OF assms, of now pn n rf] by (simp add: drain_ok_def o_def)
  show "card (selected_ids now pn n rf l) = length (d_selected (drained now pn n rf l))"
    using distinct_card[OF d] by (simp add: selected_ids_def image_image)
  show "dedup (map j_id (map snd (d_selected (drained now pn n rf l)))) =
       map j_id (map snd (d_selected (drained now pn n rf l)))" by (rule dedup_id[OF d])
qed

text \<open>C23: Rebalancing fills the active lane exactly.  Every waiting job of the project whose backoff is
  over ends up queued or parked, the queued ones are as many as there are candidates or, if fewer, slots
  left by the jobs in progress, the summary counts them, and no other job is touched: not one in progress,
  terminal, backing off or of another project.\<close>

theorem rebalance_fills_the_lane:
  assumes inv: "queue_inv h l" and r: "rebalance now pn n rf l = (sm, l')"
    and "cands = int (length (candidate_jobs now pn l))" and "slots = max 0 (max 0 n - int (length (protected_jobs pn l)))"
  shows "(\<forall>j. get_job (j_id j) l = Some j \<longrightarrow>
       (if j_project_name j = pn \<and> is_waiting j \<and> retry_due now j
        then \<exists>j'. get_job (j_id j) l' = Some j' \<and> j_status j' \<in> {Queued, Parked}
        else get_job (j_id j) l' = Some j)) \<and>
    int (card {i. \<exists>j j'. get_job i l = Some j \<and> j_project_name j = pn \<and> is_waiting j \<and> retry_due now j \<and>
       get_job i l' = Some j' \<and> j_status j' = Queued}) = min slots cands \<and>
    rb_active sm = int (length (protected_jobs pn l)) + min slots cands \<and>
    rb_active sm + rb_parked sm = int (length (protected_jobs pn l)) + cands"
proof -
  have l': "l' = snd (rebalance_locked now pn (max 0 n) rf l)" and sm: "sm = fst (rebalance_locked now pn (max 0 n) rf l)"
    using r by (auto simp: rebalance_def)
  note R = rebalance_rows[OF inv, of _ now pn "max 0 n" rf, folded l']
  have "{i. \<exists>j j'. get_job i l = Some j \<and> is_candidate now pn j \<and> get_job i l' = Some j' \<and> j_status j' = Queued} =
      selected_ids now pn (max 0 n) rf l" (is "?A = ?B")
  proof (intro set_eqI iffI)
    fix i assume "i \<in> ?A"
    then obtain j j' where j: "get_job i l = Some j" "is_candidate now pn j" "get_job i l' = Some j'" "j_status j' = Queued"
      by blast
    then have "j_id j = i" by (intro job_rows.get_key)
    then show "i \<in> ?B" using R(2)[of j] j by (auto split: if_splits)
  next
    fix i assume i: "i \<in> ?B"
    then obtain j where "get_job i l = Some j" "is_candidate now pn j" "j_id j = i"
      using selected_ids_candidates[OF inv] by blast
    then show "i \<in> ?A" using R(2)[of j] i by auto
  qed
  moreover note drained_length[OF inv, of now pn "max 0 n" rf] card_selected_ids[OF inv, of now pn "max 0 n" rf]
  moreover have "rb_active sm = int (length (protected_jobs pn l)) +
      int (length (dedup (map j_id (map snd (d_selected (drained now pn (max 0 n) rf l))))))"
    "rb_parked sm = int (length (d_pool (drained now pn (max 0 n) rf l)))"
    unfolding sm by (simp_all add: rebalance_locked_def Let_def)
  moreover have "\<forall>j. get_job (j_id j) l = Some j \<longrightarrow> (if is_candidate now pn j
        then \<exists>j'. get_job (j_id j) l' = Some j' \<and> j_status j' \<in> {Queued, Parked}
        else get_job (j_id j) l' = Some j)"
  proof (intro allI impI)
    fix j assume g: "get_job (j_id j) l = Some j"
    show "if is_candidate now pn j
        then \<exists>j'. get_job (j_id j) l' = Some j' \<and> j_status j' \<in> {Queued, Parked}
        else get_job (j_id j) l' = Some j"
      using R[OF g] by (cases "is_candidate now pn j") (auto split: if_splits)
  qed
  moreover have "slots = free_slots pn (max 0 n) l" by (simp add: assms(4) free_slots_def)
  ultimately show ?thesis unfolding is_candidate_def assms(3) by simp
qed

theorem rebalance_fills_the_lane_witness:
  "rb_active (fst (rebalance 10 ''p'' 1 True (demo_board demo_job demo_ck))) = 1"
proof -
  have "protected_jobs ''p'' (demo_board demo_job demo_ck) = []"
    "length (candidate_jobs 10 ''p'' (demo_board demo_job demo_ck)) = 1"
    by (simp_all add: protected_jobs_def project_jobs_def candidate_jobs_def demo_board_def empty_ledger_def
        demo_job_def new_job_def is_waiting_def retry_due_def)
  then show ?thesis
    using rebalance_fills_the_lane[OF demo_start_inv surjective_pairing refl refl, where now = 10 and pn = "''p''" and n = 1 and rf = True]
    by simp
qed

section \<open>Enqueueing\<close>

lemma mark_stale_get:
  assumes inv: "queue_inv h l" and g: "get_job i l = Some j"
  shows "get_job i (mark_older_jobs_stale now s l) = Some
    (if j_source_id j = s_id s \<and> j_source_revision j \<noteq> s_source_revision s \<and> is_pending (j_status j)
     then j\<lparr>j_status := Stale, j_error := Some ''superseded by a newer transcript source revision'',
            j_updated_at := now\<rparr> else j)"
proof -
  let ?P = "\<lambda>j. j_source_id j = s_id s \<and> j_source_revision j \<noteq> s_source_revision s \<and> is_pending (j_status j)"
  let ?r = "\<lambda>j. j\<lparr>j_status := Stale, j_error := Some ''superseded by a newer transcript source revision'',
            j_updated_at := now\<rparr>"
  have m: "mark_older_jobs_stale now s l = fold (\<lambda>j. upsert_job (?r j)) (filter ?P (l_jobs l)) l"
    by (simp add: mark_older_jobs_stale_def)
  note F = fold_jobs_get[where js = "filter ?P (l_jobs l)" and l = l and f = "\<lambda>j. upsert_job (?r j)" and r = ?r,
    OF selected_jobs(1)[OF inv] selected_jobs(2)[OF inv]]
  have jid: "j_id j = i" "j \<in> set (l_jobs l)" using get_job_in[OF g] by auto
  show ?thesis
  proof (cases "?P j")
    case True
    then have "get_job (j_id j) (fold (\<lambda>j. upsert_job (?r j)) (filter ?P (l_jobs l)) l) = Some (?r j)"
      using jid by (intro F(2)) (auto simp: job_rows.get_put)
    then show ?thesis using True jid m by simp
  next
    case False
    have "i \<notin> j_id ` set (filter ?P (l_jobs l))"
    proof
      assume "i \<in> j_id ` set (filter ?P (l_jobs l))"
      then obtain q where q: "q \<in> set (filter ?P (l_jobs l))" "j_id q = i" by auto
      then have "q = j" using selected_jobs(2)[OF inv q(1)] g by simp
      then show False using q(1) False by simp
    qed
    then have "get_job i (fold (\<lambda>j. upsert_job (?r j)) (filter ?P (l_jobs l)) l) = get_job i l"
      by (intro F(1)) (auto simp: job_rows.get_put)
    then show ?thesis unfolding m if_not_P[OF False] using g by simp
  qed
qed

lemma rebalance_to_limit_get:
  assumes "queue_inv h l" and "get_job i l = Some j" and "\<not> is_waiting j"
  shows "get_job i (rebalance_to_limit now pn lim rf l) = Some j"
proof (cases lim)
  case (Some n)
  have "j_id j = i" using assms(2) by (rule job_rows.get_key)
  then show ?thesis using rebalance_rows(1)[OF assms(1), of j now pn "max 0 n" rf] assms(2,3) Some
    by (simp add: rebalance_to_limit_def is_candidate_def)
qed (use assms in \<open>simp add: rebalance_to_limit_def\<close>)

lemma upsert_checkpoints_keys:
  "k_key ` set (l_checkpoints (upsert_checkpoints ks l)) = k_key ` set ks \<union> k_key ` set (l_checkpoints l)"
  by (induction ks arbitrary: l) (auto simp: row_simps)

lemma queueable_sound:
  assumes "queueable_source h sid m l = Inr (s, cs)"
  shows "get_source sid l = Some s \<and> s_id s = sid \<and> s_coverage s = CovComplete \<and>
    (s_status s = Synced \<or> m \<and> s_status s = Missing) \<and> cs = chunks_of sid (s_source_revision s) l \<and>
    int (length cs) = s_chunk_count s"
proof -
  obtain q where q: "get_source sid l = Some q" using assms by (auto simp: queueable_source_def split: option.splits)
  then have "s_id q = sid" by (auto simp: get_source_def dest: get_row_key)
  then show ?thesis using assms q
    by (auto simp: queueable_source_def Let_def bind_res_Inr split: if_splits)
qed

lemma enqueue_new:
  assumes "enqueue h now sid v lim rf m l = Inr (j, l')" and "queueable_source h sid m l = Inr (s, cs)"
    and "get_row j_idempotency_key (idempotency_key s v) (l_jobs l) = None"
  shows "j = enqueued_job h now s v m (length cs)"
    "l' = rebalance_to_limit now (s_project_name s) lim rf
      (upsert_checkpoints (map (\<lambda>c. new_checkpoint (j_id j) (c_id c) (c_chunk_index c) now) cs)
        (upsert_job j (mark_older_jobs_stale now s l)))"
  using assms by (auto simp: enqueue_def Let_def split: if_splits)

text \<open>Queueing a new revision is complete.  The job that comes back is queued and stored, expects exactly
  the chunks of the source's current complete revision, has one pending checkpoint for each of them and
  none else, and every older pending job of the same source has become stale.\<close>

theorem enqueue_queues_every_chunk:
  assumes inv: "queue_inv h l" and r: "enqueue h now sid v None rf m l = Inr (j, l')"
    and src: "get_source sid l = Some s"
    and fresh: "\<forall>q\<in>set (l_jobs l). j_idempotency_key q \<noteq> idempotency_key s v"
    and cs: "cs = chunks_of sid (s_source_revision s) l"
  shows "s_coverage s = CovComplete \<and> j_status j = Queued \<and> get_job (j_id j) l' = Some j \<and>
    j_source_revision j = s_source_revision s \<and>
    j_expected_chunk_count j = int (length cs) \<and>
    (\<forall>c\<in>set cs. \<exists>k. get_checkpoint (j_id j, c_id c) l' = Some k \<and> k_status k = CkPending) \<and>
    (\<forall>k\<in>set (list_checkpoints (j_id j) l'). k_status k = CkPending \<and> k_chunk_id k \<in> c_id ` set cs) \<and>
    (\<forall>q\<in>set (l_jobs l). j_source_id q = sid \<and> j_source_revision q \<noteq> s_source_revision s \<and>
       is_pending (j_status q) \<longrightarrow>
       (\<exists>q'. get_job (j_id q) l' = Some q' \<and> j_status q' = Stale))"
proof -
  obtain s' cs' where q: "queueable_source h sid m l = Inr (s', cs')"
    using r by (auto simp: enqueue_def bind_res_Inr)
  note Q = queueable_sound[OF q]
  have s: "s' = s" "cs' = cs" "s_id s = sid" using Q src cs by auto
  have none: "get_row j_idempotency_key (idempotency_key s v) (l_jobs l) = None"
    using fresh by (auto simp: get_row_None)
  note E = enqueue_new[OF r q[unfolded s(1)] none, unfolded s(2)]
  let ?l1 = "mark_older_jobs_stale now s l"
  let ?ks = "map (\<lambda>c. new_checkpoint (j_id j) (c_id c) (c_chunk_index c) now) cs"
  have l': "l' = upsert_checkpoints ?ks (upsert_job j ?l1)" using E(2) by (simp add: rebalance_to_limit_def)
  note leg = legal_mark_stale[OF inv, of now s]
  have inv1: "queue_inv h ?l1" by (rule legal_inv[OF leg inv])
  have new: "get_job (j_id j) ?l1 = None"
    using fresh_job_id[OF inv none] legal_dom[OF leg] E(1) by simp
  have old: "k_job_id k \<noteq> j_id j" if "k \<in> set (l_checkpoints ?l1)" for k
    using inv1 that new by (auto simp: queue_inv_def)
  have rows: "set (l_checkpoints l') \<subseteq> set ?ks \<union> set (l_checkpoints ?l1)"
    using upsert_checkpoints_rows(1)[of ?ks "upsert_job j ?l1"] by (simp add: l')
  have pend: "k_status k = CkPending \<and> k_chunk_id k \<in> c_id ` set cs"
    if "k \<in> set (list_checkpoints (j_id j) l')" for k
    using that rows old by (auto simp: new_checkpoint_def)
  have "\<exists>k. get_checkpoint (j_id j, c_id c) l' = Some k \<and> k_status k = CkPending" if c: "c \<in> set cs" for c
  proof -
    have "(j_id j, c_id c) \<in> k_key ` set ?ks" using c by (force simp: k_key_def new_checkpoint_def)
    then have "(j_id j, c_id c) \<in> k_key ` set (l_checkpoints l')" by (simp add: l' upsert_checkpoints_keys del: set_map)
    then obtain k where k: "get_checkpoint (j_id j, c_id c) l' = Some k"
      using get_row_None[of k_key "(j_id j, c_id c)" "l_checkpoints l'"] by (auto simp: get_checkpoint_def)
    then show ?thesis using get_checkpoint_in[OF k] pend[of k] by (auto simp: k_key_def)
  qed
  moreover have "\<exists>q'. get_job (j_id q) l' = Some q' \<and> j_status q' = Stale"
    if "q \<in> set (l_jobs l)" "j_source_id q = sid" "j_source_revision q \<noteq> s_source_revision s"
      "is_pending (j_status q)" for q
    using mark_stale_get[OF inv get_job_set[OF inv that(1)], of now s] that s(3) new
    by (auto simp: l' job_rows.get_put)
  moreover have "get_job (j_id j) l' = Some j" by (simp add: l' job_rows.get_put)
  moreover have "j_status j = Queued \<and> j_source_revision j = s_source_revision s \<and>
      j_expected_chunk_count j = int (length cs)" using E(1) by simp
  ultimately show ?thesis using Q s pend by blast
qed



definition demo_saved :: ledger where
  "demo_saved = demo_ledger\<lparr>l_jobs := [], l_checkpoints := []\<rparr>"

lemma demo_saved_inv: "queue_inv demo_digests demo_saved"
  using demo_digests_inj by (simp add: demo_saved_def queue_inv_def)

theorem enqueue_queues_every_chunk_witness:
  "\<exists>j l'. enqueue demo_digests 10 ''s'' ''v1'' None True False demo_saved = Inr (j, l') \<and>
     j_status j = Queued \<and> j_expected_chunk_count j = 2"
proof -
  have "case enqueue demo_digests 10 ''s'' ''v1'' None True False demo_saved of Inl _ \<Rightarrow> False | Inr _ \<Rightarrow> True"
    by code_simp
  then obtain j l' where r: "enqueue demo_digests 10 ''s'' ''v1'' None True False demo_saved = Inr (j, l')"
    by (auto split: sum.splits)
  have "case get_source ''s'' demo_saved of None \<Rightarrow> False
      | Some s \<Rightarrow> length (chunks_of ''s'' (s_source_revision s) demo_saved) = 2" by code_simp
  then obtain s where s: "get_source ''s'' demo_saved = Some s"
    "length (chunks_of ''s'' (s_source_revision s) demo_saved) = 2" by (auto split: option.splits)
  show ?thesis
    using enqueue_queues_every_chunk[OF demo_saved_inv r s(1) _ refl] r s(2) by (simp add: demo_saved_def)
qed

lemma legal_ids: "legal l l' \<Longrightarrow> map j_id (l_jobs l') = map j_id (l_jobs l)"
  by (induction rule: legal.induct) (auto simp: map_key_put_row get_job_def dest!: get_row_key_in)

lemma enqueue_existing:
  assumes "enqueue h now sid v lim rf m l = Inr (j, l')" and "queueable_source h sid m l = Inr (s, cs)"
    and "get_row j_idempotency_key (idempotency_key s v) (l_jobs l) = Some e" and inv: "queue_inv h l"
  shows "legal l l'" "get_job (j_id e) l' = Some j"
    "\<not> is_waiting e \<Longrightarrow> j_source_revision e = s_source_revision s \<Longrightarrow> j_status j = j_status e"
proof -
  let ?e = "e\<lparr>j_manual_only := True, j_retain_source := True\<rparr>"
  let ?e1 = "if m \<and> \<not> (j_manual_only e \<and> j_retain_source e) then ?e else e"
  let ?l1 = "if m \<and> \<not> (j_manual_only e \<and> j_retain_source e) then upsert_job ?e l else l"
  let ?l2 = "mark_older_jobs_stale now s ?l1"
  let ?l3 = "rebalance_to_limit now (s_project_name s) lim rf ?l2"
  note g = get_key_row(1)[OF assms(3) inv]
  have "legal l (upsert_job ?e l)" by (rule legal_same_status[OF inv g]) (simp_all add: job_le_def)
  then have 1: "legal l ?l1" by simp
  note i1 = legal_inv[OF 1 inv]
  note 2 = legal_mark_stale[OF i1, of now s]
  note i2 = legal_inv[OF 2 i1]
  note 3 = legal_rebalance_to_limit[OF i2, of now "s_project_name s" lim rf]
  have E: "j = (case get_job (j_id e) ?l3 of Some j \<Rightarrow> j | None \<Rightarrow> ?e1)" "l' = ?l3"
    using assms(1-3) by (auto simp: enqueue_def Let_def)
  show leg: "legal l l'" unfolding E(2) by (rule legal_trans[OF 3 legal_trans[OF 2 1]])
  have "get_job (j_id e) l' \<noteq> None" using legal_dom[OF leg] g by simp
  then show g': "get_job (j_id e) l' = Some j" using E by auto
  assume e: "\<not> is_waiting e" "j_source_revision e = s_source_revision s"
  have "get_job (j_id e) ?l1 = Some ?e1" using g by (simp add: job_rows.get_put)
  then have "get_job (j_id e) ?l2 = Some ?e1" using mark_stale_get[OF i1, of "j_id e" ?e1 now s] e by simp
  then have "get_job (j_id e) ?l3 = Some ?e1"
    using rebalance_to_limit_get[OF i2, of "j_id e" ?e1] e by (auto simp: is_waiting_def)
  then have "j = ?e1" using g' E(2) by simp
  then show "j_status j = j_status e" by (simp split: if_splits)
qed

lemma enqueue_frame:
  assumes "queue_inv h l" and "enqueue h now sid v lim rf m l = Inr (j, l')"
  shows "l_sources l' = l_sources l \<and> l_revisions l' = l_revisions l \<and> l_chunks l' = l_chunks l"
proof -
  obtain s cs where q: "queueable_source h sid m l = Inr (s, cs)"
    using assms(2) by (auto simp: enqueue_def bind_res_Inr)
  show ?thesis
  proof (cases "get_row j_idempotency_key (idempotency_key s v) (l_jobs l)")
    case (Some e)
    show ?thesis using legal_frame[OF enqueue_existing(1)[OF assms(2) q Some assms(1)]] by simp
  next
    case None
    note E = enqueue_new[OF assms(2) q None]
    note leg = legal_mark_stale[OF assms(1), of now s]
    have new: "get_job (j_id j) (mark_older_jobs_stale now s l) = None"
      using fresh_job_id[OF assms(1) None] legal_dom[OF leg] E(1) by simp
    have "queue_inv h (upsert_checkpoints (map (\<lambda>c. new_checkpoint (j_id j) (c_id c) (c_chunk_index c) now) cs)
        (upsert_job j (mark_older_jobs_stale now s l)))"
      using new E(1) by (intro add_job_inv(1)[OF legal_inv[OF leg assms(1)]])
        (auto simp: new_checkpoint_def ck_wf_def)
    from legal_frame[OF legal_rebalance_to_limit[OF this]] legal_frame[OF leg] show ?thesis
      unfolding E(2) by simp
  qed
qed

lemma frame_reads:
  assumes "l_sources l' = l_sources l \<and> l_revisions l' = l_revisions l \<and> l_chunks l' = l_chunks l"
  shows "get_source i l' = get_source i l" "chunks_of i rv l' = chunks_of i rv l"
    "reconstruct h i (Some rv) l' = reconstruct h i (Some rv) l"
  using assms
  by (simp_all add: get_source_def chunks_of_def reconstruct_def current_revision_id_def get_revision_def
      get_revision_row_def split: option.splits)

lemma enqueued_key:
  assumes "queue_inv h l" and "enqueue h now sid v lim rf m l = Inr (j, l')"
    and "queueable_source h sid m l = Inr (s, cs)"
  shows "\<exists>e. get_row j_idempotency_key (idempotency_key s v) (l_jobs l') = Some e \<and> j_id e = j_id j"
proof -
  have inv': "queue_inv h l'" using enqueue_inv[OF assms(1,2)] by blast
  have "\<exists>q. get_job (j_id j) l' = Some q \<and> j_idempotency_key q = idempotency_key s v"
  proof (cases "get_row j_idempotency_key (idempotency_key s v) (l_jobs l)")
    case (Some e)
    note X = enqueue_existing[OF assms(2,3) Some assms(1)]
    have "job_le e j" using ledger_le_job[OF legal_le[OF X(1)] get_key_row(1)[OF Some assms(1)]] X(2) by auto
    then show ?thesis using X(2) get_row_key[OF Some] job_le_id[of e j] by (auto simp: job_le_def)
  next
    case None
    note E = enqueue_new[OF assms(2,3) None]
    note leg = legal_mark_stale[OF assms(1), of now s]
    let ?l2 = "upsert_checkpoints (map (\<lambda>c. new_checkpoint (j_id j) (c_id c) (c_chunk_index c) now) cs)
        (upsert_job j (mark_older_jobs_stale now s l))"
    have new: "get_job (j_id j) (mark_older_jobs_stale now s l) = None"
      using fresh_job_id[OF assms(1) None] legal_dom[OF leg] E(1) by simp
    have i2: "queue_inv h ?l2"
      using new E(1) by (intro add_job_inv(1)[OF legal_inv[OF leg assms(1)]])
        (auto simp: new_checkpoint_def ck_wf_def)
    have "get_job (j_id j) ?l2 = Some j" by (simp add: job_rows.get_put)
    from ledger_le_job[OF legal_le[OF legal_rebalance_to_limit[OF i2]] this]
    show ?thesis unfolding E(2) using E(1) by (fastforce simp: job_le_def)
  qed
  then obtain q where q: "get_job (j_id j) l' = Some q" "j_idempotency_key q = idempotency_key s v" by blast
  then obtain e where e: "get_row j_idempotency_key (idempotency_key s v) (l_jobs l') = Some e"
    using get_job_in[OF q(1)] get_row_None[of j_idempotency_key "idempotency_key s v" "l_jobs l'"] by force
  have "j_id e = j_id q"
    using queue_inv_job(5)[OF inv' get_key_row(1)[OF e inv']] queue_inv_job(5)[OF inv' q(1)] get_row_key[OF e] q(2) by simp
  then show ?thesis using e get_job_in[OF q(1)] by auto
qed

text \<open>Queueing is idempotent.  Queueing the same source and pipeline again, at any later time and with
  any active limit, succeeds, answers with the same job, and adds neither a job nor a checkpoint.\<close>

theorem enqueue_is_idempotent:
  assumes "queue_inv h l" and "enqueue h now sid v lim rf m l = Inr (j, l1)"
  shows "\<exists>j' l2. enqueue h now' sid v lim' rf' m l1 = Inr (j', l2) \<and> j_id j' = j_id j \<and>
    map j_id (l_jobs l2) = map j_id (l_jobs l1) \<and>
    k_key ` set (l_checkpoints l2) = k_key ` set (l_checkpoints l1)"
proof -
  have inv1: "queue_inv h l1" using enqueue_inv[OF assms] by blast
  obtain s cs where q: "queueable_source h sid m l = Inr (s, cs)"
    using assms(2) by (auto simp: enqueue_def bind_res_Inr)
  have q1: "queueable_source h sid m l1 = Inr (s, cs)"
    using q unfolding queueable_source_def frame_reads[OF enqueue_frame[OF assms]] .
  obtain e where e: "get_row j_idempotency_key (idempotency_key s v) (l_jobs l1) = Some e" "j_id e = j_id j"
    using enqueued_key[OF assms q] by blast
  obtain j' l2 where r: "enqueue h now' sid v lim' rf' m l1 = Inr (j', l2)"
    using q1 e(1) by (simp add: enqueue_def Let_def)
  note X = enqueue_existing[OF r q1 e(1) inv1]
  show ?thesis using r job_rows.get_key[OF X(2)] e(2) legal_ids[OF X(1)] legal_keys[OF X(1)] by auto
qed


theorem enqueue_is_idempotent_witness:
  "\<exists>j l1 j' l2. enqueue demo_digests 10 ''s'' ''v1'' None True False demo_saved = Inr (j, l1) \<and>
     enqueue demo_digests 99 ''s'' ''v1'' (Some 0) True False l1 = Inr (j', l2) \<and> j_id j' = j_id j"
proof -
  have "case enqueue demo_digests 10 ''s'' ''v1'' None True False demo_saved of Inl _ \<Rightarrow> False | Inr _ \<Rightarrow> True"
    by code_simp
  then obtain j l1 where r: "enqueue demo_digests 10 ''s'' ''v1'' None True False demo_saved = Inr (j, l1)"
    by (auto split: sum.splits)
  then show ?thesis using enqueue_is_idempotent[OF demo_saved_inv r, of 99 "Some 0" True] by blast
qed

text \<open>A stale job is a dead end.  A job that became stale when its session moved on stays stale when
  the session returns to that very revision: queueing it answers with the stale job, so the source's
  current content is never distilled by that pipeline again.\<close>

theorem requeueing_a_stale_job_changes_nothing:
  assumes "queue_inv h l" and "enqueue h now sid v lim rf m l = Inr (j, l')"
    and "get_source sid l = Some s"
    and "get_row j_idempotency_key (idempotency_key s v) (l_jobs l) = Some e"
    and "j_source_revision e = s_source_revision s" and "j_status e = Stale"
  shows "j_status j = Stale \<and> j_id j = j_id e \<and> get_job (j_id e) l' = Some j \<and>
    claim_chunks mc t (j_id e) ''w'' None 60 interactive_agent l' = Inr ([], l')"
proof -
  obtain s' cs where q: "queueable_source h sid m l = Inr (s', cs)"
    using assms(2) by (auto simp: enqueue_def bind_res_Inr)
  then have "s' = s" using queueable_sound[OF q] assms(3) by simp
  note X = enqueue_existing[OF assms(2) q[unfolded this] assms(4,1)]
  have st: "j_status j = Stale" using X(3) assms(5,6) by (simp add: is_waiting_def)
  have "strip ''w'' \<noteq> []" by (simp add: strip_def lstrip_def py_space_def)
  then show ?thesis using X(2) st job_rows.get_key[OF X(2)] by (simp add: claim_chunks_def)
qed

definition demo_returned :: ledger where
  "demo_returned = demo_ledger\<lparr>l_jobs := [(new_job (distill_job_id demo_digests ''s:sha256:abcdef:v1'')
     ''s:sha256:abcdef:v1'' ''p'' ''/r'' ''c'' ''x'' ''s'' ''sha256:abcdef'' 0)
     \<lparr>j_status := Stale, j_expected_chunk_count := 2\<rparr>], l_checkpoints := []\<rparr>"

theorem requeueing_a_stale_job_changes_nothing_witness:
  "\<exists>j l'. enqueue demo_digests 10 ''s'' ''v1'' (Some 3) True False demo_returned = Inr (j, l') \<and> j_status j = Stale"
proof -
  have inv: "queue_inv demo_digests demo_returned"
    using demo_digests_inj
    by (simp add: queue_inv_def demo_returned_def new_job_def job_wf_def checkpoint_count_def)
  have "case enqueue demo_digests 10 ''s'' ''v1'' (Some 3) True False demo_returned of Inl _ \<Rightarrow> False | Inr _ \<Rightarrow> True"
    by code_simp
  then obtain j l' where r: "enqueue demo_digests 10 ''s'' ''v1'' (Some 3) True False demo_returned = Inr (j, l')"
    by (auto split: sum.splits)
  have "case get_source ''s'' demo_returned of None \<Rightarrow> False
      | Some s \<Rightarrow> s_id s = ''s'' \<and> s_source_revision s = ''sha256:abcdef''" by code_simp
  then obtain s where s: "get_source ''s'' demo_returned = Some s" "s_id s = ''s''" "s_source_revision s = ''sha256:abcdef''"
    by (auto split: option.splits)
  have "get_row j_idempotency_key (idempotency_key s ''v1'') (l_jobs demo_returned) = Some (hd (l_jobs demo_returned))"
    using s by (simp add: demo_returned_def idempotency_key_def new_job_def)
  from requeueing_a_stale_job_changes_nothing[OF inv r s(1) this] show ?thesis
    using r s by (simp add: demo_returned_def new_job_def)
qed

section \<open>Reservations\<close>

text \<open>Freezing a manual selection is all or nothing, and only takes what is free.  When it succeeds, no
  selected job was under a background review or had a chunk in process under a running lease, all of them
  are reserved afterwards, and the other jobs are unchanged; when it fails the caller's ledger stands.\<close>

theorem freezing_takes_only_free_jobs:
  assumes inv: "queue_inv h l" and r: "freeze_manual_selection now sel publish l = Inr (x, l')"
  shows "(\<forall>j\<in>set (l_jobs l). sel j \<longrightarrow>
      \<not> background_review_active now j \<and>
      (\<forall>k\<in>set (list_checkpoints (j_id j) l). \<not> chunk_lease_active now k) \<and>
      (\<exists>j'. get_job (j_id j) l' = Some j' \<and> j_manual_only j')) \<and>
    (\<forall>j\<in>set (l_jobs l). \<not> sel j \<longrightarrow> get_job (j_id j) l' = Some j) \<and> publish = Inr x"
proof -
  let ?f = "\<lambda>j l. if j_manual_only j then l
              else upsert_job (j\<lparr>j_manual_only := True, j_updated_at := now\<rparr>) l"
  let ?r = "\<lambda>j. if j_manual_only j then j else j\<lparr>j_manual_only := True, j_updated_at := now\<rparr>"
  have ca: "check_all (\<lambda>j.
             if background_review_active now j
             then Some (ValueError ''background review already owns this session'')
             else if list_ex (chunk_lease_active now) (list_checkpoints (j_id j) l)
             then Some (ValueError ''chunk processing already owns this session'')
             else None) (filter sel (l_jobs l)) = None"
    and l': "l' = fold ?f (filter sel (l_jobs l)) l" and p: "publish = Inr x"
    using r by (auto simp: freeze_manual_selection_def Let_def bind_res_Inr split: option.splits)
  note F = fold_jobs_get[where js = "filter sel (l_jobs l)" and l = l and f = ?f and r = ?r,
    OF selected_jobs(1)[OF inv] selected_jobs(2)[OF inv]]
  have "get_job (j_id j) l' = Some (?r j)" if "j \<in> set (l_jobs l)" "sel j" for j
    unfolding l' by (rule F(2)) (use that in \<open>auto simp: job_rows.get_put\<close>)
  moreover have "get_job (j_id j) l' = Some j" if j: "j \<in> set (l_jobs l)" "\<not> sel j" for j
  proof -
    have "j_id j \<notin> j_id ` set (filter sel (l_jobs l))"
      using j get_job_set[OF inv] by (auto dest!: get_job_set[OF inv])
    then have "get_job (j_id j) l' = get_job (j_id j) l"
      unfolding l' by (intro F(1)) (auto simp: job_rows.get_put)
    then show ?thesis using get_job_set[OF inv j(1)] by simp
  qed
  ultimately show ?thesis using ca p
    by (auto simp: check_all_None list_ex_iff split: if_splits)
qed

theorem freezing_takes_only_free_jobs_witness:
  "\<exists>l' j'. freeze_manual_selection 10 (\<lambda>_. True) (Inr ()) (demo_board demo_job demo_ck) = Inr ((), l') \<and>
     get_job (j_id demo_job) l' = Some j' \<and> j_manual_only j'"
proof -
  have "is_ok (freeze_manual_selection 10 (\<lambda>_. True) (Inr () :: py_error + unit) (demo_board demo_job demo_ck))"
    by (simp add: freeze_manual_selection_def demo_board_def empty_ledger_def background_review_active_def
        demo_job_def new_job_def list_checkpoints_def demo_ck_def new_checkpoint_def chunk_lease_active_def)
  then obtain l' where r: "freeze_manual_selection 10 (\<lambda>_. True) (Inr ()) (demo_board demo_job demo_ck) = Inr ((), l')"
    by (auto simp: is_ok_iff)
  have "demo_job \<in> set (l_jobs (demo_board demo_job demo_ck))" by (simp add: demo_board_def)
  then show ?thesis using freezing_takes_only_free_jobs[OF demo_start_inv r] r by blast
qed

end
