(* ===== verification/Erasure.thy ===== *)
theory Erasure
  imports QueueProps
begin

text \<open>
  Erasing evidence: the second half of \<^verbatim>\<open>harness_mem/storage/transcript_store.py\<close>.

  The semantic projection cache, the cleanup of a processed source (\<^verbatim>\<open>prune_completed_distill_evidence\<close> and
  its verification), explicit hard deletion with its plan, receipt and verification, and the tombstones that
  keep erased sessions from being captured again.  Foreign keys are as in the schema: deleting a job deletes
  its checkpoints, deleting a revision its chunks and projections, and a chunk some checkpoint still
  references cannot be deleted.  Receipts and projection records are JSON dictionaries; their identity fields
  are strings, as their writers make them.  The fresh \<^verbatim>\<open>uuid4\<close> of a deletion without receipt is an argument.
\<close>

section \<open>JSON access\<close>

definition dict_text :: "jdict \<Rightarrow> string \<Rightarrow> string" where \<comment> \<open>\<^verbatim>\<open>str(d.get(k) or "")\<close>\<close>
  "dict_text d k = (case map_of d k of Some (JStr s) \<Rightarrow> s | _ \<Rightarrow> [])"

definition dict_get :: "jdict \<Rightarrow> string \<Rightarrow> json \<Rightarrow> json" where \<comment> \<open>\<^verbatim>\<open>d.get(k, default)\<close>\<close>
  "dict_get d k v = (case map_of d k of None \<Rightarrow> v | Some x \<Rightarrow> x)"

definition dict_update :: "jdict \<Rightarrow> jdict \<Rightarrow> jdict" where \<comment> \<open>\<^verbatim>\<open>{**d, **e}\<close>\<close>
  "dict_update d e = fold (\<lambda>(k, v). AList.update k v) e d"

definition json_list_length :: "json option \<Rightarrow> int" where \<comment> \<open>\<^verbatim>\<open>len(d.get(k) or [])\<close> of a list field\<close>
  "json_list_length j = (case j of Some (JList xs) \<Rightarrow> int (length xs) | _ \<Rightarrow> 0)"

section \<open>The projection cache\<close>

definition revision_ordinal :: "string \<Rightarrow> string \<Rightarrow> ledger \<Rightarrow> nat" where
  "revision_ordinal i rv l = length (takeWhile (\<lambda>r. rr_key r \<noteq> (i, rv)) (l_revisions l))"

definition has_revision :: "string \<Rightarrow> string \<Rightarrow> ledger \<Rightarrow> bool" where
  "has_revision i rv l \<longleftrightarrow> get_revision_row i rv l \<noteq> None"

text \<open>The positions of the revisions of a source that have a cached projection of a version.\<close>

definition cached_ordinals :: "string \<Rightarrow> string \<Rightarrow> ledger \<Rightarrow> nat list" where
  "cached_ordinals i version l =
     map (\<lambda>p. revision_ordinal i (pr_source_revision p) l)
       (filter (\<lambda>p. pr_source_id p = i \<and> pr_record_version p = version \<and>
                   has_revision i (pr_source_revision p) l) (l_projections l))"

definition get_distill_projection ::
  "string \<Rightarrow> string \<Rightarrow> string \<Rightarrow> ledger \<Rightarrow> jdict option" where
  "get_distill_projection i rv version l =
     map_option pr_data (get_row pr_key (i, rv, version) (l_projections l))"

definition save_distill_projection :: "time \<Rightarrow> jdict \<Rightarrow> ledger \<Rightarrow> py_error + ledger" where
  "save_distill_projection now rec l =
     (let i = dict_text rec ''source_id''; rv = dict_text rec ''source_revision'';
          version = dict_text rec ''record_version''; sha = dict_text rec ''projection_sha256'' in
      if i = [] \<or> rv = [] \<or> version = [] \<or> sha = []
      then Inl (ValueError ''distill projection record is missing identity fields'')
      else if get_revision i rv l = None then Inl (KeyError (i @ ''@'' @ rv))
      else if list_ex (\<lambda>n. revision_ordinal i rv l < n) (cached_ordinals i version l) then Inr l
      else Inr (l\<lparr>l_projections := put_row pr_key
             \<lparr> pr_source_id = i, pr_source_revision = rv, pr_record_version = version,
               pr_projection_sha256 = sha, pr_updated_at = now, pr_data = rec \<rparr>
             (filter (\<lambda>p. \<not> (pr_source_id p = i \<and> pr_record_version p = version \<and>
                             pr_source_revision p \<noteq> rv)) (l_projections l))\<rparr>))"

definition get_latest_prior_distill_projection ::
  "string \<Rightarrow> string \<Rightarrow> string \<Rightarrow> ledger \<Rightarrow> jdict option" where
  "get_latest_prior_distill_projection i rv version l =
     (if \<not> has_revision i rv l then None
      else case rev (filter (\<lambda>r. r_source_id (rr_data r) = i \<and>
                 get_distill_projection i (r_source_revision (rr_data r)) version l \<noteq> None)
               (take (revision_ordinal i rv l) (l_revisions l))) of
        [] \<Rightarrow> None
      | r # _ \<Rightarrow> get_distill_projection i (r_source_revision (rr_data r)) version l)"

section \<open>Deleting rows\<close>

definition delete_job_checkpoints :: "(string \<Rightarrow> bool) \<Rightarrow> ledger \<Rightarrow> ledger" where
  "delete_job_checkpoints doomed l =
     l\<lparr>l_checkpoints := filter (\<lambda>k. \<not> doomed (k_job_id k)) (l_checkpoints l)\<rparr>"

text \<open>Deleting jobs takes their checkpoints along.\<close>

definition delete_jobs :: "(job \<Rightarrow> bool) \<Rightarrow> ledger \<Rightarrow> ledger" where
  "delete_jobs doomed l =
     delete_job_checkpoints (\<lambda>i. list_ex (\<lambda>j. doomed j \<and> j_id j = i) (l_jobs l)) l
     \<lparr>l_jobs := filter (\<lambda>j. \<not> doomed j) (l_jobs l)\<rparr>"

text \<open>Deleting a revision takes its chunks and projections along; a job on it forbids the deletion.\<close>

definition delete_revision :: "string \<Rightarrow> string \<Rightarrow> ledger \<Rightarrow> py_error + nat \<times> ledger" where
  "delete_revision i rv l =
     (if \<not> has_revision i rv l then Inr (0, l)
      else if list_ex (\<lambda>j. j_source_id j = i \<and> j_source_revision j = rv) (l_jobs l)
      then Inl (IntegrityError ''FOREIGN KEY distill_jobs'')
      else bind_res (delete_chunks (\<lambda>c. c_source_id c = i \<and> c_source_revision c = rv) l) (\<lambda>l1.
        Inr (length (filter (\<lambda>r. rr_key r = (i, rv)) (l_revisions l)),
             l1\<lparr>l_revisions := filter (\<lambda>r. rr_key r \<noteq> (i, rv)) (l_revisions l1),
               l_projections := filter (\<lambda>p. \<not> (pr_source_id p = i \<and> pr_source_revision p = rv))
                                  (l_projections l1)\<rparr>)))"

section \<open>Cleaning up a processed source\<close>

record prune_counts =
  pc_revisions_pruned :: int
  pc_raw_bytes_pruned :: int
  pc_chunks_deleted :: int
  pc_checkpoints_deleted :: int
  pc_semantic_projections_deleted :: int
  pc_completed_jobs_retained :: int

definition pruned_metadata :: "string \<Rightarrow> jdict" where
  "pruned_metadata receipt_id =
     [(''evidence_state'', JStr ''source_pruned''), (''cleanup_receipt_id'', JStr receipt_id)]"

definition prune_revision :: "digests \<Rightarrow> string \<Rightarrow> revision_row \<Rightarrow> revision_row" where
  "prune_revision h receipt_id r =
     \<lparr> rr_data = (rr_data r)\<lparr>r_project_root := [], r_session_id := [], r_source_uri := [],
         r_raw_sha256 := sha256_bytes h [], r_normalized_sha256 := sha256_bytes h [],
         r_raw_size_bytes := 0, r_normalized_size_bytes := 0, r_mtime_ns := None,
         r_chunk_count := 0, r_sequence_count := 0, r_metadata := pruned_metadata receipt_id\<rparr>,
       rr_raw_bytes = [] \<rparr>"

definition prune_source :: "digests \<Rightarrow> string \<Rightarrow> tsource \<Rightarrow> tsource" where
  "prune_source h receipt_id s =
     s\<lparr>s_project_root := [], s_session_id := [], s_source_uri := ''processed-source://'' @ s_id s,
       s_raw_sha256 := sha256_bytes h [], s_normalized_sha256 := sha256_bytes h [],
       s_raw_size_bytes := 0, s_normalized_size_bytes := 0, s_mtime_ns := None,
       s_status := Missing, s_coverage := CovComplete, s_chunk_count := 0, s_sequence_count := 0,
       s_error := None, s_metadata := pruned_metadata receipt_id\<rparr>"

definition sanitized_review :: "jdict \<Rightarrow> jdict" where
  "sanitized_review review =
     [(''last_turn_status'', dict_get review ''last_turn_status'' (JStr ''unknown'')),
      (''evidence_status'', dict_get review ''evidence_status'' (JStr ''not_applicable'')),
      (''promotion_decision'', dict_get review ''promotion_decision'' (JStr ''no_promotion'')),
      (''contradiction_count'', JInt (json_list_length (map_of review ''contradictions''))),
      (''unfinished_work_count'', JInt (json_list_length (map_of review ''unfinished_work''))),
      (''evidence_state'', JStr ''source_pruned'')] @
     (let summary = strip (summary_of review); reason = dict_text review ''historical_summary_reason'' in
      if 12 \<le> length summary then [(''session_summary'', JStr (take 2000 summary))]
      else if map_of review ''historical_summary_status'' = Some (JStr ''unavailable'') \<and> reason \<noteq> []
      then [(''historical_summary_status'', JStr ''unavailable''),
            (''historical_summary_reason'', JStr (take 160 reason))]
      else [])"

definition prune_job :: "time \<Rightarrow> string \<Rightarrow> job \<Rightarrow> job" where
  "prune_job now receipt_id j =
     j\<lparr>j_project_root := [], j_session_id := [],
       j_semantic_review := sanitized_review (j_semantic_review j),
       j_source_cleanup_status := Some Deleted, j_source_cleanup_receipt_id := Some receipt_id,
       j_updated_at := now\<rparr>"

definition source_jobs :: "string \<Rightarrow> ledger \<Rightarrow> job list" where
  "source_jobs i l = filter (\<lambda>j. j_source_id j = i) (l_jobs l)"

definition prune_completed_distill_evidence ::
  "digests \<Rightarrow> time \<Rightarrow> string \<Rightarrow> string \<Rightarrow> ledger \<Rightarrow> py_error + prune_counts \<times> ledger" where
  "prune_completed_distill_evidence h now job_id receipt_id l =
     (case get_job job_id l of
        None \<Rightarrow> Inl (KeyError job_id)
      | Some j \<Rightarrow>
          if j_status j \<noteq> Completed
          then Inl (ValueError ''processed-source cleanup requires a completed distill job'')
          else
            let i = j_source_id j;
                revisions = filter (\<lambda>r. r_source_id (rr_data r) = i) (l_revisions l);
                of_source = (\<lambda>jid. jid \<in> j_id ` set (source_jobs i l))
            in if revisions = [] then Inl (ValueError ''distill source revision no longer exists'')
               else case get_source i l of
                 None \<Rightarrow> Inl (ValueError ''distill source no longer exists'')
               | Some s \<Rightarrow>
                   bind_res (delete_chunks (\<lambda>c. c_source_id c = i) (delete_job_checkpoints of_source l)) (\<lambda>l1.
                   if s_source_revision s \<noteq> j_source_revision j
                   then Inl (ValueError ''transcript source changed before processed-source cleanup'')
                   else
                     let l2 = l1\<lparr>l_projections := filter (\<lambda>p. pr_source_id p \<noteq> i) (l_projections l1),
                                 l_revisions := map (\<lambda>r. if r_source_id (rr_data r) = i
                                                        then prune_revision h receipt_id r else r)
                                                  (l_revisions l1)\<rparr>
                     in bind_res (upsert_source (prune_source h receipt_id s) l2) (\<lambda>l3.
                        let jobs = source_jobs i l3 in
                        Inr (\<lparr> pc_revisions_pruned = int (length revisions),
                               pc_raw_bytes_pruned = int (sum_list (map (\<lambda>r. length (rr_raw_bytes r)) revisions)),
                               pc_chunks_deleted = int (length (filter (\<lambda>c. c_source_id c = i) (l_chunks l))),
                               pc_checkpoints_deleted =
                                 int (length (filter (\<lambda>k. of_source (k_job_id k)) (l_checkpoints l))),
                               pc_semantic_projections_deleted =
                                 int (length (filter (\<lambda>p. pr_source_id p = i) (l_projections l))),
                               pc_completed_jobs_retained =
                                 int (length (filter (\<lambda>q. j_status q = Completed) jobs)) \<rparr>,
                             fold (\<lambda>q. upsert_job (prune_job now receipt_id q)) jobs l3))))"

record residual_counts =
  rc_completed_job :: int
  rc_raw_bytes :: int
  rc_chunks :: int
  rc_checkpoints :: int
  rc_semantic_projections :: int

definition verify_completed_distill_evidence_pruned :: "string \<Rightarrow> ledger \<Rightarrow> residual_counts" where
  "verify_completed_distill_evidence_pruned job_id l =
     (case get_job job_id l of
        None \<Rightarrow> \<lparr> rc_completed_job = 0, rc_raw_bytes = 1, rc_chunks = 1, rc_checkpoints = 1,
                   rc_semantic_projections = 1 \<rparr>
      | Some j \<Rightarrow>
          let i = j_source_id j;
              revisions = filter (\<lambda>r. r_source_id (rr_data r) = i) (l_revisions l)
          in \<lparr> rc_completed_job = (if j_status j = Completed then 1 else 0),
               rc_raw_bytes =
                 (if revisions = [] \<or> sum_list (map (\<lambda>r. length (rr_raw_bytes r)) revisions) \<noteq> 0 \<or>
                     sum_list (map (\<lambda>r. r_raw_size_bytes (rr_data r)) revisions) \<noteq> 0 \<or>
                     sum_list (map (\<lambda>r. r_normalized_size_bytes (rr_data r)) revisions) \<noteq> 0
                  then 1 else 0),
               rc_chunks = int (length (filter (\<lambda>c. c_source_id c = i) (l_chunks l))),
               rc_checkpoints = int (length (filter (\<lambda>k. k_job_id k \<in> j_id ` set (source_jobs i l))
                                               (l_checkpoints l))),
               rc_semantic_projections = int (length (filter (\<lambda>p. pr_source_id p = i) (l_projections l))) \<rparr>)"

section \<open>Hard deletion\<close>

record planned_revision =
  pv_source_id :: string
  pv_source_revision :: string
  pv_raw_size_bytes :: int
  pv_normalized_size_bytes :: int
  pv_captured_at :: time
  pv_session_id :: string
  pv_client :: string
  pv_source_uri :: string

record delete_plan =
  dp_revisions :: "planned_revision list"
  dp_revision_keys :: "(string \<times> string) list"
  dp_source_ids :: "string list"
  dp_session_ids :: "string list"
  dp_jobs :: "job list"
  dp_job_ids :: "string list"
  dp_revision_count :: int
  dp_chunk_count :: int
  dp_semantic_projection_count :: int
  dp_raw_bytes :: int

definition revision_chunks :: "string \<times> string \<Rightarrow> ledger \<Rightarrow> tchunk list" where
  "revision_chunks k l = filter (\<lambda>c. (c_source_id c, c_source_revision c) = k) (l_chunks l)"

definition revision_projections :: "string \<times> string \<Rightarrow> ledger \<Rightarrow> projection_row list" where
  "revision_projections k l = filter (\<lambda>p. (pr_source_id p, pr_source_revision p) = k) (l_projections l)"

definition revision_jobs :: "string \<times> string \<Rightarrow> ledger \<Rightarrow> job list" where
  "revision_jobs k l = filter (\<lambda>j. (j_source_id j, j_source_revision j) = k) (l_jobs l)"

text \<open>The join of revisions with their sources, oldest capture first.\<close>

definition planned_revisions ::
  "string \<Rightarrow> string option \<Rightarrow> string option \<Rightarrow> time option \<Rightarrow> ledger \<Rightarrow> planned_revision list" where
  "planned_revisions project_name session_id source_id before l =
     sort_key pv_captured_at (concat (map (\<lambda>row.
       let r = rr_data row in
       case get_source (r_source_id r) l of
         None \<Rightarrow> []
       | Some s \<Rightarrow>
           if s_project_name s = project_name \<and>
              (case session_id of None \<Rightarrow> True | Some x \<Rightarrow> s_session_id s = x) \<and>
              (case source_id of None \<Rightarrow> True | Some x \<Rightarrow> r_source_id r = x) \<and>
              (case before of None \<Rightarrow> True | Some t \<Rightarrow> r_captured_at r < t)
           then [\<lparr> pv_source_id = r_source_id r, pv_source_revision = r_source_revision r,
                   pv_raw_size_bytes = r_raw_size_bytes r,
                   pv_normalized_size_bytes = r_normalized_size_bytes r,
                   pv_captured_at = r_captured_at r, pv_session_id = s_session_id s,
                   pv_client = s_client s, pv_source_uri = s_source_uri s \<rparr>]
           else []) (l_revisions l)))"

definition plan_hard_delete ::
  "string \<Rightarrow> string option \<Rightarrow> string option \<Rightarrow> time option \<Rightarrow> ledger \<Rightarrow> delete_plan" where
  "plan_hard_delete project_name session_id source_id before l =
     (let revisions = planned_revisions project_name session_id source_id before l;
          keys = map (\<lambda>p. (pv_source_id p, pv_source_revision p)) revisions;
          jobs = concat (map (\<lambda>k. revision_jobs k l) keys)
      in \<lparr> dp_revisions = revisions, dp_revision_keys = keys,
           dp_source_ids = sort (remdups (map pv_source_id revisions)),
           dp_session_ids = sort (remdups (map pv_session_id revisions)),
           dp_jobs = jobs, dp_job_ids = sort (remdups (map j_id jobs)),
           dp_revision_count = int (length revisions),
           dp_chunk_count = int (sum_list (map (\<lambda>k. length (revision_chunks k l)) keys)),
           dp_semantic_projection_count =
             int (sum_list (map (\<lambda>k. length (revision_projections k l)) keys)),
           dp_raw_bytes = sum_list (map pv_raw_size_bytes revisions) \<rparr>)"

record delete_counts =
  dc_revisions :: int
  dc_chunks :: int
  dc_distill_jobs :: int
  dc_semantic_projections :: int

definition zero_counts :: delete_counts where
  "zero_counts = \<lparr> dc_revisions = 0, dc_chunks = 0, dc_distill_jobs = 0, dc_semantic_projections = 0 \<rparr>"

text \<open>One revision: its jobs first, then the revision with its chunks and projections.\<close>

definition delete_key ::
  "string \<times> string \<Rightarrow> delete_counts \<times> ledger \<Rightarrow> py_error + delete_counts \<times> ledger" where
  "delete_key k st =
     (case st of (n, l) \<Rightarrow>
      let n1 = n\<lparr>dc_chunks := dc_chunks n + int (length (revision_chunks k l)),
                dc_distill_jobs := dc_distill_jobs n + int (length (revision_jobs k l)),
                dc_semantic_projections :=
                  dc_semantic_projections n + int (length (revision_projections k l))\<rparr>
      in bind_res (delete_revision (fst k) (snd k)
                     (delete_jobs (\<lambda>j. (j_source_id j, j_source_revision j) = k) l)) (\<lambda>(m, l').
           Inr (n1\<lparr>dc_revisions := dc_revisions n1 + int m\<rparr>, l')))"

fun delete_keys ::
  "(string \<times> string) list \<Rightarrow> delete_counts \<times> ledger \<Rightarrow> py_error + delete_counts \<times> ledger" where
  "delete_keys [] st = Inr st"
| "delete_keys (k # ks) st = bind_res (delete_key k st) (delete_keys ks)"

definition latest_revision :: "string \<Rightarrow> ledger \<Rightarrow> trevision option" where
  "latest_revision i l =
     (case map rr_data (filter (\<lambda>r. r_source_id (rr_data r) = i) (l_revisions l)) of
        [] \<Rightarrow> None | r # rs \<Rightarrow> Some (max_by r_captured_at r rs))"

definition restore_source :: "time \<Rightarrow> trevision \<Rightarrow> tsource \<Rightarrow> tsource" where
  "restore_source now r s =
     s\<lparr>s_source_revision := r_source_revision r, s_raw_sha256 := r_raw_sha256 r,
       s_normalized_sha256 := r_normalized_sha256 r, s_raw_size_bytes := r_raw_size_bytes r,
       s_normalized_size_bytes := r_normalized_size_bytes r, s_chunk_count := r_chunk_count r,
       s_sequence_count := r_sequence_count r, s_mtime_ns := r_mtime_ns r,
       s_parser_version := r_parser_version r, s_updated_at := now,
       s_metadata := AList.update ''restored_after_hard_delete'' (JStr (r_source_revision r)) (s_metadata s)\<rparr>"

text \<open>A source without a revision left goes; otherwise it falls back to its latest one.\<close>

definition settle_source :: "time \<Rightarrow> string \<Rightarrow> int \<times> ledger \<Rightarrow> py_error + int \<times> ledger" where
  "settle_source now i st =
     (case st of (n, l) \<Rightarrow>
      case latest_revision i l of
        None \<Rightarrow> Inr (n + int (length (filter (\<lambda>s. s_id s = i) (l_sources l))),
                    l\<lparr>l_sources := filter (\<lambda>s. s_id s \<noteq> i) (l_sources l)\<rparr>)
      | Some r \<Rightarrow>
          (case get_source i l of
             None \<Rightarrow> Inr (n, l)
           | Some s \<Rightarrow> bind_res (upsert_source (restore_source now r s) l) (\<lambda>l'. Inr (n, l'))))"

fun settle_sources :: "time \<Rightarrow> string list \<Rightarrow> int \<times> ledger \<Rightarrow> py_error + int \<times> ledger" where
  "settle_sources now [] st = Inr st"
| "settle_sources now (i # is) st = bind_res (settle_source now i st) (settle_sources now is)"

definition replace_audit :: "audit_row \<Rightarrow> ledger \<Rightarrow> ledger" where
  "replace_audit a l = l\<lparr>l_audit := filter (\<lambda>x. a_id x \<noteq> a_id a) (l_audit l) @ [a]\<rparr>"

definition count_items :: "delete_counts \<Rightarrow> int \<Rightarrow> jdict" where
  "count_items n sources =
     [(''revisions'', JInt (dc_revisions n)), (''chunks'', JInt (dc_chunks n)),
      (''distill_jobs'', JInt (dc_distill_jobs n)),
      (''semantic_projections'', JInt (dc_semantic_projections n)), (''sources'', JInt sources)]"

text \<open>A receipt without an \<^verbatim>\<open>id\<close> gets the id \<^verbatim>\<open>str(None)\<close>; an absent or empty receipt a fresh one.\<close>

definition receipt_id :: "string \<Rightarrow> jdict \<Rightarrow> string" where
  "receipt_id fresh receipt =
     (if receipt = [] then fresh
      else case map_of receipt ''id'' of Some (JStr s) \<Rightarrow> s | _ \<Rightarrow> ''None'')"

definition target_digest :: "digests \<Rightarrow> string \<times> string \<Rightarrow> json" where
  "target_digest h k = JStr (sha256_text h (fst k @ ''@'' @ snd k))"

definition hard_delete_revisions ::
  "digests \<Rightarrow> time \<Rightarrow> string \<Rightarrow> (string \<times> string) list \<Rightarrow> string \<Rightarrow> string \<Rightarrow> jdict \<Rightarrow> jdict \<Rightarrow> ledger \<Rightarrow>
   py_error + jdict \<times> ledger" where
  "hard_delete_revisions h now fresh revision_keys project_name reason audit_counts receipt l =
     (let unique_keys = dedup revision_keys in
      bind_res (delete_keys unique_keys (zero_counts, l)) (\<lambda>(n, l1).
      bind_res (settle_sources now (dedup (map fst unique_keys)) (0, l1)) (\<lambda>(deleted_sources, l2).
        let counts = dict_update (count_items n deleted_sources) audit_counts;
            audit_id = receipt_id fresh receipt;
            payload = dict_update receipt
              [(''id'', JStr audit_id), (''project_name'', JStr project_name), (''reason'', JStr reason),
               (''counts'', JObj counts), (''target_digests'', JList (map (target_digest h) unique_keys)),
               (''deleted_at'', JStr (isoformat now))]
        in Inr (payload, replace_audit \<lparr> a_id = audit_id, a_project_name = project_name,
             a_deleted_at = isoformat now, a_reason = reason, a_data = payload \<rparr> l2))))"

definition save_deletion_receipt :: "time \<Rightarrow> jdict \<Rightarrow> ledger \<Rightarrow> py_error + jdict \<times> ledger" where
  "save_deletion_receipt now receipt l =
     (let rid = dict_text receipt ''id''; project_name = dict_text receipt ''project_name'';
          reason = dict_text receipt ''reason'';
          timestamp = (if dict_text receipt ''completed_at'' \<noteq> [] then dict_text receipt ''completed_at''
                       else if dict_text receipt ''requested_at'' \<noteq> [] then dict_text receipt ''requested_at''
                       else isoformat now)
      in if rid = [] \<or> project_name = [] \<or> reason = []
         then Inl (ValueError ''deletion receipt requires id, project_name, and reason'')
         else let payload = dict_update receipt
                    [(''id'', JStr rid), (''project_name'', JStr project_name), (''reason'', JStr reason)]
              in Inr (payload, replace_audit \<lparr> a_id = rid, a_project_name = project_name,
                   a_deleted_at = timestamp, a_reason = reason, a_data = payload \<rparr> l))"

definition verify_hard_delete :: "(string \<times> string) list \<Rightarrow> string list \<Rightarrow> ledger \<Rightarrow> delete_counts" where
  "verify_hard_delete revision_keys job_ids l =
     (let keys = dedup revision_keys in
      \<lparr> dc_revisions = int (sum_list (map (\<lambda>k. length (filter (\<lambda>r. rr_key r = k) (l_revisions l))) keys)),
        dc_chunks = int (sum_list (map (\<lambda>k. length (revision_chunks k l)) keys)),
        dc_distill_jobs =
          int (sum_list (map (\<lambda>i. length (filter (\<lambda>j. j_id j = i) (l_jobs l))) (dedup job_ids))),
        dc_semantic_projections = int (sum_list (map (\<lambda>k. length (revision_projections k l)) keys)) \<rparr>)"

section \<open>Tombstones\<close>

definition list_deletion_audit :: "string option \<Rightarrow> ledger \<Rightarrow> jdict list" where
  "list_deletion_audit project_name l =
     map a_data (rev (sort_key a_deleted_at (rev (filter (\<lambda>a.
       case project_name of None \<Rightarrow> True | Some p \<Rightarrow> a_project_name a = p) (l_audit l)))))"

definition erasure_active :: "jdict \<Rightarrow> bool" where
  "erasure_active receipt \<longleftrightarrow>
     map_of receipt ''status'' \<in> {Some (JStr ''in_progress''), Some (JStr ''succeeded''),
                                 Some (JStr ''partial_failure'')}"

definition json_contains :: "string \<Rightarrow> json option \<Rightarrow> bool" where
  "json_contains d j = (case j of Some (JList xs) \<Rightarrow> JStr d \<in> set xs | _ \<Rightarrow> False)"

definition receipt_scope :: "jdict \<Rightarrow> jdict option" where
  "receipt_scope receipt = (case map_of receipt ''scope'' of Some (JObj scope) \<Rightarrow> Some scope | _ \<Rightarrow> None)"

definition unit_separator :: char where "unit_separator = CHR 0x1F"

definition hard_delete_blocks :: "string \<Rightarrow> string \<Rightarrow> string \<Rightarrow> jdict \<Rightarrow> jdict \<Rightarrow> bool" where
  "hard_delete_blocks session_digest source_digest identity_digest receipt scope \<longleftrightarrow>
     map_of receipt ''kind'' = Some (JStr ''hard_delete'') \<and> erasure_active receipt \<and>
     map_of scope ''before'' \<in> {None, Some JNull} \<and>
     (map_of scope ''session_id_sha256'' = Some (JStr session_digest) \<or>
      map_of scope ''source_id_sha256'' = Some (JStr source_digest) \<or>
      json_contains identity_digest (map_of scope ''source_identity_sha256''))"

definition receipt_blocks ::
  "digests \<Rightarrow> string \<Rightarrow> string \<Rightarrow> string \<Rightarrow> string option \<Rightarrow> jdict \<Rightarrow> bool" where
  "receipt_blocks h client session_id source_id source_revision receipt =
     (let session_digest = sha256_text h session_id; source_digest = sha256_text h source_id;
          identity_digest = sha256_text h (client @ [unit_separator] @ session_id) in
      case (receipt_scope receipt, source_revision) of
        (Some scope, Some revision) \<Rightarrow>
          if map_of receipt ''kind'' = Some (JStr ''processed_source_cleanup'') \<and> erasure_active receipt
          then (map_of scope ''source_id_sha256'' = Some (JStr source_digest) \<or>
                map_of scope ''session_id_sha256'' = Some (JStr session_digest)) \<and>
               (map_of scope ''source_revision_sha256'' = Some (JStr (sha256_text h revision)) \<or>
                json_contains (sha256_text h revision) (map_of scope ''source_revision_sha256s''))
          else hard_delete_blocks session_digest source_digest identity_digest receipt scope
      | (Some scope, None) \<Rightarrow> hard_delete_blocks session_digest source_digest identity_digest receipt scope
      | (None, _) \<Rightarrow> False)"

definition matches_hard_delete_tombstone ::
  "digests \<Rightarrow> string \<Rightarrow> string \<Rightarrow> string \<Rightarrow> string \<Rightarrow> string option \<Rightarrow> ledger \<Rightarrow> bool" where
  "matches_hard_delete_tombstone h project_name client session_id source_id source_revision l =
     list_ex (receipt_blocks h client session_id source_id source_revision)
       (list_deletion_audit (Some project_name) l)"

end
