(* ===== verification/ErasureProps.thy ===== *)
theory ErasureProps
  imports Erasure
begin

text \<open>
  What erasing evidence guarantees: the cleanup of a processed source leaves no residue and keeps the queue
  sound, a hard deletion removes the selected revisions with everything that hangs on them and nothing else,
  the receipts it leaves keep the erased session from being captured again, and the projection cache never
  goes back to an older revision.
\<close>

lemma fold_upsert_jobs:
  "fold (\<lambda>q. upsert_job (g q)) qs l = l\<lparr>l_jobs := fold (\<lambda>q. put_row j_id (g q)) qs (l_jobs l)\<rparr>"
  by (induction qs arbitrary: l) (auto simp: upsert_job_def)

text \<open>Dropping rows, and rewriting what the invariant does not look at, keeps the queue sound.\<close>

lemma queue_inv_shrink:
  assumes inv: "queue_inv h l" and d: "distinct (map j_id (l_jobs l'))"
    and jobs: "\<And>j'. j' \<in> set (l_jobs l') \<Longrightarrow> \<exists>j\<in>set (l_jobs l). j_id j' = j_id j \<and>
      j_idempotency_key j' = j_idempotency_key j \<and> (job_wf j \<longrightarrow> job_wf j') \<and>
      j_expected_chunk_count j' = j_expected_chunk_count j \<and> j_status j' = j_status j"
    and cks: "l_checkpoints l' = filter P (l_checkpoints l)"
    and alive: "\<And>k. k \<in> set (l_checkpoints l') \<Longrightarrow> get_job (k_job_id k) l' \<noteq> None"
  shows "queue_inv h l'"
proof -
  have cnt: "checkpoint_count i l' \<le> checkpoint_count i l" for i
    unfolding checkpoint_count_def cks of_nat_le_iff by (rule length_filter_filter)
  have done': "all_done i l \<Longrightarrow> all_done i l'" for i by (simp add: all_done_def cks)
  have "j_id j' = distill_job_id h (j_idempotency_key j') \<and> job_wf j' \<and>
      checkpoint_count (j_id j') l' \<le> j_expected_chunk_count j' \<and> (j_status j' = Completed \<longrightarrow> all_done (j_id j') l')"
    if m: "j' \<in> set (l_jobs l')" for j'
  proof -
    obtain j where j: "j \<in> set (l_jobs l)" "j_id j' = j_id j" "j_idempotency_key j' = j_idempotency_key j"
      "job_wf j \<longrightarrow> job_wf j'" "j_expected_chunk_count j' = j_expected_chunk_count j" "j_status j' = j_status j"
      using jobs[OF m] by blast
    have "j_id j = distill_job_id h (j_idempotency_key j) \<and> job_wf j \<and>
        checkpoint_count (j_id j) l \<le> j_expected_chunk_count j \<and> (j_status j = Completed \<longrightarrow> all_done (j_id j) l)"
      using inv j(1) unfolding queue_inv_def by blast
    then show ?thesis using j cnt[of "j_id j"] done'[of "j_id j"] by auto
  qed
  moreover have "distinct (map k_key (l_checkpoints l'))"
    using queue_inv_distinct[OF inv] by (simp add: cks distinct_map_filter)
  moreover have "ck_wf k" if "k \<in> set (l_checkpoints l')" for k
    using queue_inv_ck[OF inv] that by (simp add: cks)
  moreover have "inj (uuid5_url h)" using inv by (simp add: queue_inv_def)
  ultimately show ?thesis unfolding queue_inv_def using d alive by blast
qed

section \<open>The cleanup of a processed source\<close>

lemma prune_job_simps [simp]:
  "j_id (prune_job now r j) = j_id j" "j_status (prune_job now r j) = j_status j"
  "j_source_id (prune_job now r j) = j_source_id j" "job_wf (prune_job now r j) = job_wf j"
  "j_idempotency_key (prune_job now r j) = j_idempotency_key j"
  "j_expected_chunk_count (prune_job now r j) = j_expected_chunk_count j"
  "j_output_candidate_ids (prune_job now r j) = j_output_candidate_ids j"
  by (simp_all add: prune_job_def job_wf_def)

lemma prune_elim:
  assumes inv: "queue_inv h l"
    and "prune_completed_distill_evidence h now job_id rid l = Inr (n, l')"
  obtains j s where "get_job job_id l = Some j" "j_status j = Completed"
    "get_source (j_source_id j) l = Some s" "filter (\<lambda>r. r_source_id (rr_data r) = j_source_id j) (l_revisions l) \<noteq> []"
    "l_sources l' = put_row s_id (prune_source h rid s) (l_sources l)"
    "l_revisions l' = map (\<lambda>r. if r_source_id (rr_data r) = j_source_id j then prune_revision h rid r else r) (l_revisions l)"
    "l_chunks l' = filter (\<lambda>c. c_source_id c \<noteq> j_source_id j) (l_chunks l)"
    "l_projections l' = filter (\<lambda>p. pr_source_id p \<noteq> j_source_id j) (l_projections l)"
    "l_jobs l' = map (\<lambda>q. if j_source_id q = j_source_id j then prune_job now rid q else q) (l_jobs l)"
    "l_checkpoints l' = filter (\<lambda>k. k_job_id k \<notin> j_id ` set (source_jobs (j_source_id j) l)) (l_checkpoints l)"
proof -
  obtain j where j: "get_job job_id l = Some j" "j_status j = Completed"
    using assms(2) by (auto simp: prune_completed_distill_evidence_def split: option.splits if_splits)
  let ?i = "j_source_id j"
  let ?d = "\<lambda>i. i \<in> j_id ` set (source_jobs ?i l)"
  obtain s where s: "get_source ?i l = Some s"
    "filter (\<lambda>r. r_source_id (rr_data r) = ?i) (l_revisions l) \<noteq> []"
    using assms(2) j by (auto simp: prune_completed_distill_evidence_def Let_def split: option.splits if_splits)
  obtain l1 l3 where
    l1: "delete_chunks (\<lambda>c. c_source_id c = ?i) (delete_job_checkpoints ?d l) = Inr l1" and
    l3: "upsert_source (prune_source h rid s) (l1\<lparr>l_projections := filter (\<lambda>p. pr_source_id p \<noteq> ?i) (l_projections l1),
            l_revisions := map (\<lambda>r. if r_source_id (rr_data r) = ?i then prune_revision h rid r else r)
                             (l_revisions l1)\<rparr>) = Inr l3" and
    l': "l' = fold (\<lambda>q. upsert_job (prune_job now rid q)) (source_jobs ?i l3) l3"
    using assms(2) j s
    by (auto simp: prune_completed_distill_evidence_def Let_def bind_res_Inr split: if_splits)
  have l1': "l1 = (delete_job_checkpoints ?d l)\<lparr>l_chunks := filter (\<lambda>c. c_source_id c \<noteq> ?i) (l_chunks l)\<rparr>"
    using l1 by (auto simp: delete_chunks_def delete_job_checkpoints_def split: if_splits)
  note l3' = upsert_source_Inr[OF l3]
  have jobs: "l_jobs l3 = l_jobs l" by (simp add: l3' l1' delete_job_checkpoints_def)
  have "l_jobs l' = map (\<lambda>q. if j_source_id q = ?i then prune_job now rid q else q) (l_jobs l)"
    using fold_put_row_map[of j_id "prune_job now rid" "[]" "l_jobs l" "\<lambda>q. j_source_id q = ?i"]
      queue_inv_distinct[OF inv]
    by (simp add: l' fold_upsert_jobs source_jobs_def jobs)
  then show ?thesis using that[OF j s] by (simp add: l' fold_upsert_jobs l3' l1' delete_job_checkpoints_def)
qed


section \<open>Hard deletion\<close>

text \<open>The references the database enforces between captured rows and the revisions they belong to.\<close>

definition fk_ok :: "ledger \<Rightarrow> bool" where
  "fk_ok l \<longleftrightarrow>
     (\<forall>c\<in>set (l_chunks l). has_revision (c_source_id c) (c_source_revision c) l) \<and>
     (\<forall>p\<in>set (l_projections l). has_revision (pr_source_id p) (pr_source_revision p) l) \<and>
     (\<forall>j\<in>set (l_jobs l). has_revision (j_source_id j) (j_source_revision j) l)"

lemma has_revision_iff: "has_revision i rv l \<longleftrightarrow> (i, rv) \<in> rr_key ` set (l_revisions l)"
  by (simp add: has_revision_def get_revision_row_def get_row_None)

text \<open>What is left after the revisions of a set of keys are deleted.\<close>

definition without_keys :: "(string \<times> string) set \<Rightarrow> ledger \<Rightarrow> ledger \<Rightarrow> bool" where
  "without_keys K l l' \<longleftrightarrow>
     l_revisions l' = filter (\<lambda>r. rr_key r \<notin> K) (l_revisions l) \<and>
     l_chunks l' = filter (\<lambda>c. (c_source_id c, c_source_revision c) \<notin> K) (l_chunks l) \<and>
     l_projections l' = filter (\<lambda>p. (pr_source_id p, pr_source_revision p) \<notin> K) (l_projections l) \<and>
     l_jobs l' = filter (\<lambda>j. (j_source_id j, j_source_revision j) \<notin> K) (l_jobs l) \<and>
     l_audit l' = l_audit l"

lemma without_keys_refl: "without_keys {} l l"
  by (simp add: without_keys_def)

lemma without_keys_trans:
  "without_keys A l l1 \<Longrightarrow> without_keys B l1 l2 \<Longrightarrow> without_keys (A \<union> B) l l2"
  by (auto simp: without_keys_def intro!: filter_cong)

lemma without_keys_fk: "without_keys K l l' \<Longrightarrow> fk_ok l \<Longrightarrow> fk_ok l'"
  by (force simp: without_keys_def fk_ok_def has_revision_iff)

lemma delete_key_without:
  assumes fk: "fk_ok l" and r: "delete_key k (n, l) = Inr (n', l')"
  shows "without_keys {k} l l' \<and> l_sources l' = l_sources l"
proof -
  let ?d = "delete_jobs (\<lambda>j. (j_source_id j, j_source_revision j) = k) l"
  have d: "l_revisions ?d = l_revisions l" "l_chunks ?d = l_chunks l" "l_projections ?d = l_projections l"
    "l_sources ?d = l_sources l" "l_audit ?d = l_audit l"
    "l_jobs ?d = filter (\<lambda>j. (j_source_id j, j_source_revision j) \<noteq> k) (l_jobs l)"
    by (simp_all add: delete_jobs_def delete_job_checkpoints_def)
  obtain m where del: "delete_revision (fst k) (snd k) ?d = Inr (m, l')"
    using r by (auto simp: delete_key_def Let_def bind_res_Inr)
  show ?thesis
  proof (cases "has_revision (fst k) (snd k) l")
    case False
    then have "l' = ?d" using del by (simp add: delete_revision_def has_revision_iff d)
    moreover have "\<forall>c\<in>set (l_chunks l). (c_source_id c, c_source_revision c) \<noteq> k"
      "\<forall>p\<in>set (l_projections l). (pr_source_id p, pr_source_revision p) \<noteq> k"
      "\<forall>r\<in>set (l_revisions l). rr_key r \<noteq> k"
      using False fk by (auto simp: fk_ok_def has_revision_iff)
    ultimately show ?thesis by (auto simp: without_keys_def d intro!: filter_True[symmetric])
  next
    case True
    then have "has_revision (fst k) (snd k) ?d" by (simp add: has_revision_iff d)
    then obtain l1 where l1: "delete_chunks (\<lambda>c. c_source_id c = fst k \<and> c_source_revision c = snd k) ?d = Inr l1"
      and l': "l' = l1\<lparr>l_revisions := filter (\<lambda>r. rr_key r \<noteq> k) (l_revisions l1),
               l_projections := filter (\<lambda>p. \<not> (pr_source_id p = fst k \<and> pr_source_revision p = snd k))
                                  (l_projections l1)\<rparr>"
      using del by (auto simp: delete_revision_def bind_res_Inr split: if_splits)
    have "l1 = ?d\<lparr>l_chunks := filter (\<lambda>c. \<not> (c_source_id c = fst k \<and> c_source_revision c = snd k)) (l_chunks l)\<rparr>"
      using l1 d(2) by (auto simp: delete_chunks_def split: if_splits)
    then show ?thesis using l' d
      by (auto simp: without_keys_def intro!: filter_cong)
  qed
qed

lemma delete_keys_without:
  "fk_ok l \<Longrightarrow> delete_keys ks (n, l) = Inr (n', l') \<Longrightarrow> without_keys (set ks) l l' \<and> l_sources l' = l_sources l"
proof (induction ks arbitrary: n l)
  case Nil
  then show ?case by (simp add: without_keys_refl)
next
  case (Cons k ks)
  obtain n1 l1 where k: "delete_key k (n, l) = Inr (n1, l1)" and ks: "delete_keys ks (n1, l1) = Inr (n', l')"
    using Cons.prems(2) by (auto simp: bind_res_Inr)
  note w = delete_key_without[OF Cons.prems(1) k]
  have "without_keys (set ks) l1 l' \<and> l_sources l' = l_sources l1"
    using w by (intro Cons.IH[OF _ ks]) (blast intro: without_keys_fk Cons.prems(1))
  then show ?case using w without_keys_trans[of "{k}" l l1 "set ks" l'] by simp
qed

definition same_evidence :: "ledger \<Rightarrow> ledger \<Rightarrow> bool" where
  "same_evidence l l' \<longleftrightarrow>
     l_revisions l' = l_revisions l \<and> l_chunks l' = l_chunks l \<and> l_projections l' = l_projections l \<and>
     l_jobs l' = l_jobs l \<and> l_checkpoints l' = l_checkpoints l \<and> l_audit l' = l_audit l"

lemma settle_source_frame:
  assumes "settle_source now i (n, l) = Inr (n', l')"
  shows "same_evidence l l' \<and> (\<forall>s. s \<noteq> i \<longrightarrow> get_source s l' = get_source s l)"
proof -
  have f: "get_row s_id s (filter (\<lambda>s. s_id s \<noteq> i) xs) = get_row s_id s xs" if "s \<noteq> i" for s xs
    using that by (induction xs) auto
  show ?thesis
  proof (cases "latest_revision i l")
    case None
    then show ?thesis using assms f by (auto simp: settle_source_def same_evidence_def get_source_def)
  next
    case (Some r)
    show ?thesis
    proof (cases "get_source i l")
      case None
      then show ?thesis using assms Some by (simp add: settle_source_def same_evidence_def)
    next
      case (Some s)
      have sid: "s_id s = i" using Some by (auto simp: get_source_def dest: get_row_key)
      have "upsert_source (restore_source now r s) l = Inr l'"
        using assms Some \<open>latest_revision i l = Some r\<close> by (auto simp: settle_source_def bind_res_Inr)
      from upsert_source_Inr[OF this] show ?thesis
        using sid by (simp add: same_evidence_def get_source_def restore_source_def row_simps)
    qed
  qed
qed

lemma settle_sources_frame:
  "settle_sources now is (n, l) = Inr (n', l') \<Longrightarrow>
   same_evidence l l' \<and> (\<forall>s. s \<notin> set is \<longrightarrow> get_source s l' = get_source s l)"
proof (induction "is" arbitrary: n l)
  case (Cons i js)
  then obtain n1 l1 where "settle_source now i (n, l) = Inr (n1, l1)" "settle_sources now js (n1, l1) = Inr (n', l')"
    by (auto simp: bind_res_Inr)
  then show ?case using settle_source_frame Cons.IH by (fastforce simp: same_evidence_def)
qed (simp add: same_evidence_def)

lemma hard_delete_elim:
  assumes "fk_ok l" and "hard_delete_revisions h now fresh keys pn reason ac receipt l = Inr (payload, l')"
  obtains l1 l2 a where "without_keys (set keys) l l1" "l_sources l1 = l_sources l" "same_evidence l1 l2"
    "\<And>s. s \<notin> fst ` set keys \<Longrightarrow> get_source s l2 = get_source s l"
    "l' = replace_audit a l2" "a_id a = receipt_id fresh receipt" "a_project_name a = pn" "a_data a = payload"
    "\<And>k. k \<notin> {''id'', ''project_name'', ''reason'', ''counts'', ''target_digests'', ''deleted_at''} \<Longrightarrow>
       map_of payload k = map_of receipt k"
proof -
  obtain n l1 m l2 where
    d: "delete_keys (dedup keys) (zero_counts, l) = Inr (n, l1)" and
    s: "settle_sources now (dedup (map fst (dedup keys))) (0, l1) = Inr (m, l2)" and
    p: "payload = dict_update receipt
              [(''id'', JStr (receipt_id fresh receipt)), (''project_name'', JStr pn), (''reason'', JStr reason),
               (''counts'', JObj (dict_update (count_items n m) ac)),
               (''target_digests'', JList (map (target_digest h) (dedup keys))),
               (''deleted_at'', JStr (isoformat now))]" and
    l': "l' = replace_audit \<lparr> a_id = receipt_id fresh receipt, a_project_name = pn,
             a_deleted_at = isoformat now, a_reason = reason, a_data = payload \<rparr> l2"
    using assms(2) by (auto simp: hard_delete_revisions_def Let_def bind_res_Inr)
  have w: "without_keys (set keys) l l1" "l_sources l1 = l_sources l"
    using delete_keys_without[OF assms(1) d] by simp_all
  have e: "same_evidence l1 l2" "\<And>s. s \<notin> fst ` set keys \<Longrightarrow> get_source s l2 = get_source s l1"
    using settle_sources_frame[OF s] by simp_all
  have "get_source s l1 = get_source s l" for s by (simp add: get_source_def w(2))
  moreover have "map_of payload k = map_of receipt k"
    if "k \<notin> {''id'', ''project_name'', ''reason'', ''counts'', ''target_digests'', ''deleted_at''}" for k
    unfolding p dict_update_def using that by (simp add: AList.update_conv')
  ultimately show ?thesis using that[OF w e(1) _ l'] e(2) by simp
qed

text \<open>C29: Hard deletion erases exactly what it was asked to.  Afterwards the store's own verification finds
  none of the selected revisions, their chunks, projections or jobs; every other revision reconstructs to
  the same text as before, every other job is untouched, sources not named are untouched, and the
  references between captured rows still hold.\<close>

theorem hard_delete_erases_exactly:
  assumes fk: "fk_ok l" and r: "hard_delete_revisions h now fresh keys pn reason ac receipt l = Inr (payload, l')"
    and d: "distinct (map j_id (l_jobs l))"
    and jobs: "\<And>i. i \<in> set job_ids \<Longrightarrow> \<exists>j. get_job i l = Some j \<and> (j_source_id j, j_source_revision j) \<in> set keys"
  shows "verify_hard_delete keys job_ids l' = zero_counts \<and>
    (\<forall>i rv. (i, rv) \<notin> set keys \<longrightarrow> reconstruct h i (Some rv) l' = reconstruct h i (Some rv) l) \<and>
    (\<forall>j\<in>set (l_jobs l). (j_source_id j, j_source_revision j) \<notin> set keys \<longrightarrow> get_job (j_id j) l' = Some j) \<and>
    (\<forall>s. s \<notin> fst ` set keys \<longrightarrow> get_source s l' = get_source s l) \<and> fk_ok l'"
proof -
  obtain l1 l2 a where w: "without_keys (set keys) l l1" and e: "same_evidence l1 l2"
    and src: "\<And>s. s \<notin> fst ` set keys \<Longrightarrow> get_source s l2 = get_source s l" and l': "l' = replace_audit a l2"
    using hard_delete_elim[OF fk r] by metis
  have rows: "l_revisions l' = filter (\<lambda>r. rr_key r \<notin> set keys) (l_revisions l)"
    "l_chunks l' = filter (\<lambda>c. (c_source_id c, c_source_revision c) \<notin> set keys) (l_chunks l)"
    "l_projections l' = filter (\<lambda>p. (pr_source_id p, pr_source_revision p) \<notin> set keys) (l_projections l)"
    "l_jobs l' = filter (\<lambda>j. (j_source_id j, j_source_revision j) \<notin> set keys) (l_jobs l)"
    "get_source s l' = get_source s l2" for s
    using w e by (simp_all add: l' replace_audit_def without_keys_def same_evidence_def get_source_def)
  have "filter (\<lambda>j. j_id j = i) (l_jobs l') = []" if "i \<in> set job_ids" for i
  proof -
    obtain j where j: "get_job i l = Some j" "(j_source_id j, j_source_revision j) \<in> set keys" using jobs[OF \<open>i \<in> set job_ids\<close>] by blast
    have "q = j" if "q \<in> set (l_jobs l)" "j_id q = i" for q
      using in_get_row[OF d that(1)] that(2) j(1) by (simp add: get_job_def)
    then show ?thesis using j(2) by (auto simp: rows filter_empty_conv)
  qed
  moreover have "revision_chunks k l' = []" "revision_projections k l' = []" "filter (\<lambda>r. rr_key r = k) (l_revisions l') = []"
    if "k \<in> set keys" for k
    using that by (auto simp: revision_chunks_def revision_projections_def rows filter_empty_conv)
  ultimately have "verify_hard_delete keys job_ids l' = zero_counts"
    by (simp add: verify_hard_delete_def zero_counts_def Let_def)
  moreover have "reconstruct h i (Some rv) l' = reconstruct h i (Some rv) l" if k: "(i, rv) \<notin> set keys" for i rv
  proof -
    have "chunks_of i rv l' = chunks_of i rv l"
      unfolding chunks_of_def rows filter_filter using k by (intro arg_cong[where f = "sort_key c_chunk_index"] filter_cong) auto
    moreover have "get_revision_row i rv l' = get_revision_row i rv l"
      unfolding get_revision_row_def rows using k by (intro get_row_filter) auto
    ultimately show ?thesis by (simp add: reconstruct_def current_revision_id_def get_revision_def split: option.splits)
  qed
  moreover have "get_job (j_id j) l' = Some j" if "j \<in> set (l_jobs l)" "(j_source_id j, j_source_revision j) \<notin> set keys" for j
    unfolding get_job_def using that d by (intro in_get_row) (auto simp: rows distinct_map_filter)
  moreover have "fk_ok l'" using without_keys_fk[OF w fk] e
    by (simp add: l' replace_audit_def same_evidence_def fk_ok_def has_revision_iff)
  moreover have "get_source s l' = get_source s l" if "s \<notin> fst ` set keys" for s using src[OF that] rows(5)[of s] by simp
  ultimately show ?thesis by (intro conjI allI ballI impI) simp_all
qed

definition demo_finished :: ledger where
  "demo_finished = (demo_checked Completed)\<lparr>l_jobs := [(demo_task Completed)\<lparr>j_phase := PhaseDone,
     j_completed_chunk_count := 2, j_completed_at := Some 50\<rparr>]\<rparr>"

lemma demo_finished_inv: "queue_inv demo_digests demo_finished"
  using demo_chunk_ids demo_digests_inj
  by (auto simp: queue_inv_def demo_finished_def demo_checked_def checkpoint_count_def get_job_def job_wf_def demo_task_def
        demo_job_def new_job_def o_def k_key_def complete_checkpoint_def new_checkpoint_def ck_wf_def all_done_def
        distinct_map inj_on_def filter_map)

lemma demo_finished_job: "get_job (j_id demo_job) demo_finished = Some ((demo_task Completed)\<lparr>j_phase := PhaseDone,
     j_completed_chunk_count := 2, j_completed_at := Some 50\<rparr>)"
  by (simp add: demo_finished_def demo_checked_def get_job_def demo_task_def)


lemma demo_finished_fk: "fk_ok demo_finished"
proof -
  have "list_all (\<lambda>c. has_revision (c_source_id c) (c_source_revision c) demo_finished) (l_chunks demo_finished)"
    "list_all (\<lambda>p. has_revision (pr_source_id p) (pr_source_revision p) demo_finished) (l_projections demo_finished)"
    "list_all (\<lambda>j. has_revision (j_source_id j) (j_source_revision j) demo_finished) (l_jobs demo_finished)"
    by code_simp+
  then show ?thesis by (simp add: fk_ok_def list_all_iff)
qed

definition demo_receipt :: jdict where
  "demo_receipt = [(''id'', JStr ''rc''), (''kind'', JStr ''hard_delete''), (''status'', JStr ''in_progress''),
     (''scope'', JObj [(''session_id_sha256'', JStr ''x'')])]"

theorem hard_delete_erases_exactly_witness:
  "\<exists>p l'. hard_delete_revisions demo_digests 95 ''f'' [(''s'', ''sha256:abcdef'')] ''p'' ''why'' [] demo_receipt
       demo_finished = Inr (p, l') \<and>
     verify_hard_delete [(''s'', ''sha256:abcdef'')] [j_id demo_job] l' = zero_counts"
proof -
  let ?r = "hard_delete_revisions demo_digests 95 ''f'' [(''s'', ''sha256:abcdef'')] ''p'' ''why'' [] demo_receipt demo_finished"
  have "is_ok ?r" by code_simp
  then obtain p l' where r: "?r = Inr (p, l')" by (auto simp: is_ok_iff)
  have j: "\<exists>j. get_job i demo_finished = Some j \<and> (j_source_id j, j_source_revision j) \<in> set [(''s'', ''sha256:abcdef'')]"
    if "i \<in> set [j_id demo_job]" for i
    using that by (simp add: demo_finished_job) (simp add: demo_task_def demo_job_def new_job_def)
  have "distinct (map j_id (l_jobs demo_finished))" using queue_inv_distinct[OF demo_finished_inv] by simp
  from hard_delete_erases_exactly[OF demo_finished_fk r this j] r show ?thesis by blast
qed

section \<open>Tombstones\<close>

lemma tombstone_iff:
  "matches_hard_delete_tombstone h pn client session i rv l \<longleftrightarrow>
   (\<exists>a\<in>set (l_audit l). a_project_name a = pn \<and> receipt_blocks h client session i rv (a_data a))"
  by (auto simp: matches_hard_delete_tombstone_def list_deletion_audit_def list_ex_iff)

lemma hard_delete_receipt:
  assumes "hard_delete_revisions h now fresh keys pn reason ac receipt l = Inr (payload, l')"
  obtains l2 a where "l' = replace_audit a l2" "a_id a = receipt_id fresh receipt" "a_project_name a = pn" "a_data a = payload"
    "\<And>k. k \<notin> {''id'', ''project_name'', ''reason'', ''counts'', ''target_digests'', ''deleted_at''} \<Longrightarrow>
       map_of payload k = map_of receipt k"
  using assms by (auto simp: hard_delete_revisions_def Let_def bind_res_Inr dict_update_def AList.update_conv')




section \<open>The projection cache\<close>

text \<open>The projection cache holds the newest projection only.  Saving a projection either finds one of a
  later revision of the source and changes nothing, or stores it as the only projection of its source and
  record version; projections of other sources and versions are untouched.\<close>

theorem projection_cache_keeps_newest:
  assumes r: "save_distill_projection now p l = Inr l'"
    and d: "distinct (map pr_key (l_projections l))"
    and ids: "i = dict_text p ''source_id''" "rv = dict_text p ''source_revision''" "v = dict_text p ''record_version''"
  shows "((\<exists>n\<in>set (cached_ordinals i v l). revision_ordinal i rv l < n) \<and> l' = l \<or>
     get_distill_projection i rv v l' = Some p \<and>
     map pr_source_revision (filter (\<lambda>q. pr_source_id q = i \<and> pr_record_version q = v) (l_projections l')) = [rv]) \<and>
    ((i', v') \<noteq> (i, v) \<longrightarrow> get_distill_projection i' rv' v' l' = get_distill_projection i' rv' v' l)"
proof (cases "\<exists>n\<in>set (cached_ordinals i v l). revision_ordinal i rv l < n")
  case True
  then show ?thesis using r ids by (auto simp: save_distill_projection_def Let_def list_ex_iff split: if_splits)
next
  case False
  let ?keep = "\<lambda>q. \<not> (pr_source_id q = i \<and> pr_record_version q = v \<and> pr_source_revision q \<noteq> rv)"
  obtain x where x: "l_projections l' = put_row pr_key x (filter ?keep (l_projections l))"
    and k: "pr_source_id x = i" "pr_source_revision x = rv" "pr_record_version x = v" "pr_data x = p"
    using r ids False by (auto simp: save_distill_projection_def Let_def list_ex_iff split: if_splits)
  have key: "pr_key x = (i, rv, v)" using k by (simp add: pr_key_def)
  have "get_distill_projection i rv v l' = Some p"
    by (simp add: get_distill_projection_def x row_simps key k)
  moreover have "get_distill_projection i' rv' v' l' = get_distill_projection i' rv' v' l" if "(i', v') \<noteq> (i, v)"
  proof -
    have "get_row pr_key (i', rv', v') (filter ?keep (l_projections l)) = get_row pr_key (i', rv', v') (l_projections l)"
      using that by (intro get_row_filter) (auto simp: pr_key_def)
    then show ?thesis using that by (auto simp: get_distill_projection_def x row_simps key)
  qed
  moreover have "map pr_source_revision (filter (\<lambda>q. pr_source_id q = i \<and> pr_record_version q = v) (l_projections l')) = [rv]"
    unfolding x by (subst filter_put_row_single) (use d k in \<open>auto simp: pr_key_def distinct_map_filter\<close>)
  ultimately show ?thesis by blast
qed

definition demo_projection :: jdict where
  "demo_projection = [(''source_id'', JStr ''s''), (''source_revision'', JStr ''sha256:abcdef''),
     (''record_version'', JStr ''v1''), (''projection_sha256'', JStr ''d'')]"

theorem projection_cache_keeps_newest_witness:
  "\<exists>l'. save_distill_projection 60 demo_projection demo_finished = Inr l' \<and>
     get_distill_projection ''s'' ''sha256:abcdef'' ''v1'' l' = Some demo_projection"
proof -
  have "is_ok (save_distill_projection 60 demo_projection demo_finished)" by code_simp
  then obtain l' where r: "save_distill_projection 60 demo_projection demo_finished = Inr l'" by (auto simp: is_ok_iff)
  have "l_projections demo_finished = []" "cached_ordinals ''s'' ''v1'' demo_finished = []" by code_simp+
  then show ?thesis
    using projection_cache_keeps_newest[OF r _ refl refl refl, of "''t''" "''v1''"] r
    by (simp add: demo_projection_def dict_text_def)
qed

section \<open>The plan of a deletion\<close>

text \<open>What deleting a list of revisions counts, by what the ledger holds before.\<close>

definition delete_totals :: "(string \<times> string) list \<Rightarrow> ledger \<Rightarrow> delete_counts" where
  "delete_totals ks l =
     \<lparr> dc_revisions = int (sum_list (map (\<lambda>k. length (filter (\<lambda>r. rr_key r = k) (l_revisions l))) ks)),
       dc_chunks = int (sum_list (map (\<lambda>k. length (revision_chunks k l)) ks)),
       dc_distill_jobs = int (sum_list (map (\<lambda>k. length (revision_jobs k l)) ks)),
       dc_semantic_projections = int (sum_list (map (\<lambda>k. length (revision_projections k l)) ks)) \<rparr>"

definition add_counts :: "delete_counts \<Rightarrow> delete_counts \<Rightarrow> delete_counts" where
  "add_counts a b = \<lparr> dc_revisions = dc_revisions a + dc_revisions b, dc_chunks = dc_chunks a + dc_chunks b,
     dc_distill_jobs = dc_distill_jobs a + dc_distill_jobs b,
     dc_semantic_projections = dc_semantic_projections a + dc_semantic_projections b \<rparr>"

lemma delete_key_counts:
  assumes "delete_key k (n, l) = Inr (n', l')"
  shows "n' = add_counts n (delete_totals [k] l)"
proof -
  let ?d = "delete_jobs (\<lambda>j. (j_source_id j, j_source_revision j) = k) l"
  have rev: "l_revisions ?d = l_revisions l" by (simp add: delete_jobs_def delete_job_checkpoints_def)
  obtain m where m: "delete_revision (fst k) (snd k) ?d = Inr (m, l')"
    "n' = n\<lparr>dc_chunks := dc_chunks n + int (length (revision_chunks k l)),
                dc_distill_jobs := dc_distill_jobs n + int (length (revision_jobs k l)),
                dc_semantic_projections :=
                  dc_semantic_projections n + int (length (revision_projections k l)), dc_revisions := dc_revisions n + int m\<rparr>"
    using assms by (auto simp: delete_key_def Let_def bind_res_Inr)
  have "m = length (filter (\<lambda>r. rr_key r = k) (l_revisions l))"
    using m(1) by (cases "has_revision (fst k) (snd k) ?d")
      (auto simp: delete_revision_def bind_res_Inr rev has_revision_iff filter_empty_conv image_iff split: if_splits)
  then show ?thesis using m(2) by (simp add: add_counts_def delete_totals_def)
qed

lemma without_keys_counts:
  assumes "without_keys {k} l l'" "k \<notin> set ks"
  shows "delete_totals ks l' = delete_totals ks l"
proof -
  have "revision_chunks q l' = revision_chunks q l" "revision_jobs q l' = revision_jobs q l"
    "revision_projections q l' = revision_projections q l"
    "filter (\<lambda>r. rr_key r = q) (l_revisions l') = filter (\<lambda>r. rr_key r = q) (l_revisions l)" if "q \<noteq> k" for q
    using assms(1) that
    by (auto simp: without_keys_def revision_chunks_def revision_jobs_def revision_projections_def intro!: filter_cong)
  moreover have "q \<noteq> k" if "q \<in> set ks" for q using assms(2) that by auto
  ultimately have "map (\<lambda>q. length (revision_chunks q l')) ks = map (\<lambda>q. length (revision_chunks q l)) ks"
    "map (\<lambda>q. length (revision_jobs q l')) ks = map (\<lambda>q. length (revision_jobs q l)) ks"
    "map (\<lambda>q. length (revision_projections q l')) ks = map (\<lambda>q. length (revision_projections q l)) ks"
    "map (\<lambda>q. length (filter (\<lambda>r. rr_key r = q) (l_revisions l'))) ks = map (\<lambda>q. length (filter (\<lambda>r. rr_key r = q) (l_revisions l))) ks"
    by (intro map_cong refl arg_cong[where f = length]; blast)+
  then show ?thesis by (simp only: delete_totals_def)
qed

lemma delete_keys_counts:
  "fk_ok l \<Longrightarrow> distinct ks \<Longrightarrow> delete_keys ks (n, l) = Inr (n', l') \<Longrightarrow> n' = add_counts n (delete_totals ks l)"
proof (induction ks arbitrary: n l)
  case Nil
  then show ?case by (simp add: add_counts_def delete_totals_def)
next
  case (Cons k ks)
  obtain n1 l1 where k: "delete_key k (n, l) = Inr (n1, l1)" and ks: "delete_keys ks (n1, l1) = Inr (n', l')"
    using Cons.prems(3) by (auto simp: bind_res_Inr)
  note w = delete_key_without[OF Cons.prems(1) k]
  have "n' = add_counts n1 (delete_totals ks l1)"
    using w Cons.prems(1,2) by (intro Cons.IH[OF _ _ ks]) (auto intro: without_keys_fk)
  then show ?case using delete_key_counts[OF k] without_keys_counts[of k l l1 ks] w Cons.prems(2)
    by (simp add: add_counts_def delete_totals_def)
qed

lemma ones: "(\<forall>k\<in>set ks. f k = 1) \<Longrightarrow> sum_list (map f ks) = length ks"
  by (induction ks) auto

lemma planned_keys:
  fixes pn ses src before l
  defines "ks \<equiv> map (\<lambda>p. (pv_source_id p, pv_source_revision p)) (planned_revisions pn ses src before l)"
  assumes d: "distinct (map rr_key (l_revisions l))"
  shows "distinct ks" "set ks \<subseteq> rr_key ` set (l_revisions l)"
proof -
  define plan where "plan row = (let r = rr_data (row :: revision_row) in
       case get_source (r_source_id r) l of
         None \<Rightarrow> []
       | Some s \<Rightarrow>
           if s_project_name s = pn \<and>
              (case ses of None \<Rightarrow> True | Some x \<Rightarrow> s_session_id s = x) \<and>
              (case src of None \<Rightarrow> True | Some x \<Rightarrow> r_source_id r = x) \<and>
              (case before of None \<Rightarrow> True | Some t \<Rightarrow> r_captured_at r < t)
           then [\<lparr> pv_source_id = r_source_id r, pv_source_revision = r_source_revision r,
                   pv_raw_size_bytes = r_raw_size_bytes r,
                   pv_normalized_size_bytes = r_normalized_size_bytes r,
                   pv_captured_at = r_captured_at r, pv_session_id = s_session_id s,
                   pv_client = s_client s, pv_source_uri = s_source_uri s \<rparr>]
           else [])" for row
  have "map (\<lambda>p. (pv_source_id p, pv_source_revision p)) (plan row) = (if plan row \<noteq> [] then [rr_key row] else [])" for row
    by (simp add: plan_def rr_key_def Let_def split: option.split)
  then have c: "map (\<lambda>p. (pv_source_id p, pv_source_revision p)) (concat (map plan xs)) = map rr_key (filter (\<lambda>r. plan r \<noteq> []) xs)" for xs
    by (induction xs) simp_all
  have e: "planned_revisions pn ses src before l = sort_key pv_captured_at (concat (map plan (l_revisions l)))"
    unfolding planned_revisions_def plan_def[abs_def] ..
  have "distinct (map f (sort_key g xs)) = distinct (map f xs)" "set (map f (sort_key g xs)) = set (map f xs)"
    for f :: "planned_revision \<Rightarrow> string \<times> string" and g :: "planned_revision \<Rightarrow> time" and xs
    by (simp_all add: distinct_map)
  then have "distinct ks = distinct (map rr_key (filter (\<lambda>r. plan r \<noteq> []) (l_revisions l)))"
    "set ks = set (map rr_key (filter (\<lambda>r. plan r \<noteq> []) (l_revisions l)))"
    unfolding ks_def e by (simp_all only: c)
  then show "distinct ks" "set ks \<subseteq> rr_key ` set (l_revisions l)"
    using d by (auto simp: distinct_map_filter)
qed

text \<open>C37: A deletion does what its plan announced.  Executing the revision keys of a plan on the ledger it was made
  for records in the audit exactly the plan's numbers of revisions, chunks, jobs and projections.\<close>

theorem deletion_follows_its_plan:
  assumes fk: "fk_ok l" and d: "distinct (map rr_key (l_revisions l))"
    and p: "plan = plan_hard_delete pn ses src before l"
    and r: "hard_delete_revisions h now fresh (dp_revision_keys plan) pn reason [] receipt l = Inr (payload, l')"
  shows "\<exists>sources. map_of payload ''counts'' = Some (JObj (count_items
    \<lparr> dc_revisions = dp_revision_count plan, dc_chunks = dp_chunk_count plan,
      dc_distill_jobs = int (length (dp_jobs plan)),
      dc_semantic_projections = dp_semantic_projection_count plan \<rparr> sources))"
proof -
  let ?ks = "dp_revision_keys plan"
  have ks: "?ks = map (\<lambda>p. (pv_source_id p, pv_source_revision p)) (planned_revisions pn ses src before l)"
    by (simp add: p plan_hard_delete_def Let_def)
  have dk: "distinct ?ks" "set ?ks \<subseteq> rr_key ` set (l_revisions l)" unfolding ks by (rule planned_keys[OF d])+
  have one: "length (filter (\<lambda>r. rr_key r = k) (l_revisions l)) = 1" if "k \<in> set ?ks" for k
  proof -
    have "k \<in> rr_key ` set (l_revisions l)" using that dk(2) by blast
    then obtain x where x: "x \<in> set (l_revisions l)" "rr_key x = k" by auto
    have "filter (\<lambda>r. rr_key r = k) xs = [x]" if "distinct (map rr_key xs)" "x \<in> set xs" for xs
      using that x(2) by (induction xs) (auto simp: filter_empty_conv dest: image_ne)
    then show ?thesis using d x(1) by simp
  qed
  obtain n l1 m l2 where n: "delete_keys (dedup ?ks) (zero_counts, l) = Inr (n, l1)"
    and pay: "map_of payload ''counts'' = Some (JObj (dict_update (count_items n m) []))"
    using r by (auto simp: hard_delete_revisions_def Let_def bind_res_Inr dict_update_def AList.update_conv')
  have "n = delete_totals ?ks l"
    using delete_keys_counts[OF fk _ n] dk by (simp add: dedup_id add_counts_def zero_counts_def delete_totals_def)
  moreover have "sum_list (map (\<lambda>k. length (filter (\<lambda>r. rr_key r = k) (l_revisions l))) ?ks) = length ?ks"
    by (rule ones) (use one in blast)
  ultimately have "n = \<lparr> dc_revisions = dp_revision_count plan, dc_chunks = dp_chunk_count plan,
      dc_distill_jobs = int (length (dp_jobs plan)), dc_semantic_projections = dp_semantic_projection_count plan \<rparr>"
    unfolding delete_totals_def by (simp add: p plan_hard_delete_def Let_def length_concat o_def)
  moreover have "dict_update x [] = x" for x by (simp add: dict_update_def)
  ultimately show ?thesis using pay by (metis (no_types))
qed

theorem deletion_follows_its_plan_witness:
  "\<exists>payload l' sources. hard_delete_revisions demo_digests 95 ''f'' [(''s'', ''sha256:abcdef'')] ''p'' ''why'' [] demo_receipt
       demo_finished = Inr (payload, l') \<and>
     map_of payload ''counts'' = Some (JObj (count_items
       \<lparr> dc_revisions = 1, dc_chunks = 2, dc_distill_jobs = 1, dc_semantic_projections = 0 \<rparr> sources))"
proof -
  let ?r = "hard_delete_revisions demo_digests 95 ''f'' [(''s'', ''sha256:abcdef'')] ''p'' ''why'' [] demo_receipt demo_finished"
  let ?p = "plan_hard_delete ''p'' None None None demo_finished"
  have "is_ok ?r" by code_simp
  then obtain payload l' where r: "?r = Inr (payload, l')" by (auto simp: is_ok_iff)
  have p: "dp_revision_keys ?p = [(''s'', ''sha256:abcdef'')]" "dp_revision_count ?p = 1" "dp_chunk_count ?p = 2"
    "length (dp_jobs ?p) = 1" "dp_semantic_projection_count ?p = 0" by code_simp+
  have "distinct (map rr_key (l_revisions demo_finished))" by code_simp
  then show ?thesis
    using deletion_follows_its_plan[OF demo_finished_fk _ refl, where pn = "''p''" and ses = None and src = None
        and before = None and payload = payload and l' = l' and h = demo_digests and now = 95 and fresh = "''f''"
        and reason = "''why''" and receipt = demo_receipt] r
    by (auto simp: p)
qed

end
