(* ===== verification/ConfigMerge.thy ===== *)
theory ConfigMerge
  imports Prelude "HOL-Library.Sublist"
begin

text \<open>
  The merged configuration: \<^verbatim>\<open>harness_mem/config/merge.py\<close> and \<^verbatim>\<open>config/errors.py\<close>.

  A configuration table is a dictionary of the prelude; TOML values JSON does not have (dates) can only sit in
  keys nobody reads.  The parsed contents of the three files are arguments (\<open>config_env\<close>): reading and parsing
  is the library's.  \<^verbatim>\<open>_RECOGNIZED_KEYS\<close> is empty in the source, so its loops do nothing and are left out.
  Sub-tables the source shares between the merged dictionary and its inputs are copied here: the only write
  through such an alias (of \<^verbatim>\<open>distill.autonomous.enabled\<close>) touches a key whose value is then valid, so the
  attribution of a rejected key to its file does not see it.
\<close>

section \<open>Dotted key paths\<close>

fun split_on :: "char \<Rightarrow> string \<Rightarrow> string list" where \<comment> \<open>\<^verbatim>\<open>s.split(c)\<close>\<close>
  "split_on c [] = [[]]"
| "split_on c (x # xs) =
     (if x = c then [] # split_on c xs
      else case split_on c xs of [] \<Rightarrow> [[x]] | w # ws \<Rightarrow> (x # w) # ws)"

definition key_parts :: "string \<Rightarrow> string list" where
  "key_parts dotted = split_on (CHR ''.'') dotted"

fun get_path :: "json \<Rightarrow> string list \<Rightarrow> json option" where
  "get_path cur [] = Some cur"
| "get_path cur (part # parts) =
     (case cur of
        JObj d \<Rightarrow> (case map_of d part of None \<Rightarrow> None | Some v \<Rightarrow> get_path v parts)
      | _ \<Rightarrow> None)"

definition get_dotted :: "jdict \<Rightarrow> string \<Rightarrow> json option" where
  "get_dotted d dotted = get_path (JObj d) (key_parts dotted)"

fun set_path :: "jdict \<Rightarrow> string list \<Rightarrow> json \<Rightarrow> jdict" where
  "set_path d [] v = d"
| "set_path d [part] v = AList.update part v d"
| "set_path d (part # next # parts) v =
     AList.update part (JObj (set_path (case map_of d part of Some (JObj e) \<Rightarrow> e | _ \<Rightarrow> []) (next # parts) v)) d"

definition set_dotted :: "jdict \<Rightarrow> string \<Rightarrow> json \<Rightarrow> jdict" where
  "set_dotted d dotted v = set_path d (key_parts dotted) v"

text \<open>\<^const>\<open>None\<close>: the path does not exist as nested tables, nothing is removed and nothing is pruned.\<close>

fun remove_path :: "jdict \<Rightarrow> string list \<Rightarrow> jdict option" where
  "remove_path d [] = None"
| "remove_path d [part] = Some (AList.delete part d)"
| "remove_path d (part # next # parts) =
     (case map_of d part of
        Some (JObj e) \<Rightarrow>
          (case remove_path e (next # parts) of
             None \<Rightarrow> None
           | Some e' \<Rightarrow> Some (if e' = [] then AList.delete part d else AList.update part (JObj e') d))
      | _ \<Rightarrow> None)"

definition remove_dotted :: "jdict \<Rightarrow> string \<Rightarrow> jdict" where
  "remove_dotted d dotted = (case remove_path d (key_parts dotted) of None \<Rightarrow> d | Some d' \<Rightarrow> d')"

function deep_merge :: "jdict \<Rightarrow> jdict \<Rightarrow> jdict" where
  "deep_merge out [] = out"
| "deep_merge out ((k, v) # rest) =
     deep_merge
       (AList.update k (case (v, map_of out k) of
                          (JObj w, Some (JObj b)) \<Rightarrow> JObj (deep_merge b w)
                        | _ \<Rightarrow> v) out) rest"
  by pat_completeness auto
termination
  by (relation "measure (\<lambda>(b, w). size (JObj w))") auto

section \<open>Typed values\<close>

datatype config_error =
    ConfigPathError string
  | ConfigParseError string
  | ConfigValidationError string json string
  | KindError string \<comment> \<open>\<^verbatim>\<open>int()\<close> of a malformed bound\<close>

fun split_once :: "string \<Rightarrow> string \<Rightarrow> string \<times> string option" where \<comment> \<open>\<^verbatim>\<open>s.split(sep, maxsplit=1)\<close>\<close>
  "split_once sep [] = ([], None)"
| "split_once sep (c # cs) =
     (if starts_with sep (c # cs) then ([], Some (drop (length sep) (c # cs)))
      else case split_once sep cs of (a, b) \<Rightarrow> (c # a, b))"

definition parse_int :: "string \<Rightarrow> int option" where \<comment> \<open>\<^verbatim>\<open>int(s)\<close> of a plain decimal numeral\<close>
  "parse_int s =
     (if s \<noteq> [] \<and> list_all (\<lambda>c. c \<in> set ''0123456789'') s
      then Some (foldl (\<lambda>n c. 10 * n + (of_char c - 48)) 0 s) else None)"

definition parse_bounds :: "string \<Rightarrow> config_error + int \<times> int option" where
  "parse_bounds s =
     (case split_once '':max='' s of
        (lo, None) \<Rightarrow> (case parse_int lo of None \<Rightarrow> Inl (KindError s) | Some m \<Rightarrow> Inr (m, None))
      | (lo, Some hi) \<Rightarrow>
          (case (parse_int lo, parse_int hi) of
             (Some m, Some n) \<Rightarrow> Inr (m, Some n) | _ \<Rightarrow> Inl (KindError s)))"

definition within :: "int \<times> int option \<Rightarrow> int \<Rightarrow> bool" where
  "within b n = (case b of (lo, hi) \<Rightarrow> lo \<le> n \<and> (case hi of None \<Rightarrow> True | Some m \<Rightarrow> n \<le> m))"

definition json_texts :: "json list \<Rightarrow> string list option" where
  "json_texts xs =
     (if list_all (\<lambda>x. case x of JStr _ \<Rightarrow> True | _ \<Rightarrow> False) xs
      then Some (map (\<lambda>x. case x of JStr s \<Rightarrow> s | _ \<Rightarrow> []) xs) else None)"

definition coerce_bool :: "string \<Rightarrow> string \<Rightarrow> json \<Rightarrow> config_error + json" where
  "coerce_bool key_path source_path v =
     (case v of JBool b \<Rightarrow> Inr v | _ \<Rightarrow> Inl (ConfigValidationError key_path v source_path))"

definition coerce_int :: "string \<Rightarrow> string \<Rightarrow> int \<times> int option \<Rightarrow> json \<Rightarrow> config_error + json" where
  "coerce_int key_path source_path bounds v =
     (case v of
        JInt n \<Rightarrow> if within bounds n then Inr v else Inl (ConfigValidationError key_path v source_path)
      | _ \<Rightarrow> Inl (ConfigValidationError key_path v source_path))"

definition coerce_typed_value :: "string \<Rightarrow> string \<Rightarrow> string \<Rightarrow> json \<Rightarrow> config_error + json" where
  "coerce_typed_value key_path kind source_path v =
     (let bad = Inl (ConfigValidationError key_path v source_path) in
      if kind = ''bool'' then coerce_bool key_path source_path v
      else if kind = ''str_list'' then
        (case v of
           JList xs \<Rightarrow>
             (case json_texts xs of
                None \<Rightarrow> bad
              | Some ss \<Rightarrow> Inr (JList (map JStr (dedup (filter (\<lambda>s. s \<noteq> []) (map strip ss))))))
         | _ \<Rightarrow> bad)
      else if starts_with ''str:min='' kind then
        bind_res (parse_bounds (drop 8 kind)) (\<lambda>bounds.
        (case v of
           JStr s \<Rightarrow> if within bounds (int (length (strip s))) then Inr (JStr (strip s)) else bad
         | _ \<Rightarrow> bad))
      else if kind = ''const:true'' then
        bind_res (coerce_bool key_path source_path v) (\<lambda>c. if c = JBool True then Inr c else bad)
      else if kind = ''const:false'' then
        bind_res (coerce_bool key_path source_path v) (\<lambda>c. if c = JBool False then Inr c else bad)
      else if starts_with ''int:min='' kind then
        bind_res (parse_bounds (drop 8 kind)) (\<lambda>bounds. coerce_int key_path source_path bounds v)
      else if starts_with ''enum:'' kind then
        (case v of
           JStr s \<Rightarrow> if s \<in> set (split_on (CHR '','') (drop 5 kind)) then Inr v else bad
         | _ \<Rightarrow> bad)
      else bad)"

section \<open>The key tables\<close>

type_synonym typed_key = "string \<times> string \<times> string \<times> json"

definition capture_keys :: "typed_key list" where
  "capture_keys =
     [(''capture.enabled'', ''capture_enabled'', ''bool'', JBool True),
      (''capture.private_tags'', ''capture_private_tags'', ''bool'', JBool True),
      (''capture.ignore_clients'', ''capture_ignore_clients'', ''str_list'', JList []),
      (''capture.ignore_session_ids'', ''capture_ignore_session_ids'', ''str_list'', JList []),
      (''capture.ignore_source_globs'', ''capture_ignore_source_globs'', ''str_list'', JList []),
      (''transcript.retention_days'', ''transcript_retention_days'', ''int:min=0'', JInt 0)]"

definition distill_keys :: "typed_key list" where
  "distill_keys =
     [(''distill.auto.enabled'', ''distill_auto_enabled'', ''bool'', JBool True),
      (''distill.autonomous.enabled'', ''distill_autonomous_enabled'', ''bool'', JBool False),
      (''distill.autonomous.cli'', ''distill_autonomous_cli'',
       ''enum:current,codex,claude-code,hermes,opencode,antigravity'', JStr ''current''),
      (''distill.auto.recent_first'', ''distill_auto_recent_first'', ''bool'', JBool True)]"

definition archive_distill_keys :: "typed_key list" where
  "archive_distill_keys =
     [(''archive_distill.enabled'', ''archive_distill_enabled'', ''bool'', JBool False),
      (''archive_distill.order'', ''archive_distill_order'', ''enum:recent_first,oldest_first'',
       JStr ''recent_first''),
      (''archive_distill.project_scope'', ''archive_distill_project_scope'', ''enum:detected,current,all'',
       JStr ''current''),
      (''archive_distill.unresolved_project'', ''archive_distill_unresolved_project'',
       ''enum:defer,skip,error'', JStr ''defer''),
      (''archive_distill.warn_tokens'', ''archive_distill_warn_tokens'', ''int:min=1'', JInt 15000),
      (''archive_distill.warn_seconds'', ''archive_distill_warn_seconds'', ''int:min=1'', JInt 40),
      (''archive_distill.require_answer_packet'', ''archive_distill_require_answer_packet'', ''bool'',
       JBool True),
      (''archive_distill.report_promotions'', ''archive_distill_report_promotions'', ''bool'', JBool True)]"

definition dream_keys :: "typed_key list" where
  "dream_keys =
     [(''dream.auto.enabled'', ''dream_auto_enabled'', ''bool'', JBool True),
      (''dream.auto.trigger'', ''dream_auto_trigger'', ''enum:idle_or_interval,interval,idle'',
       JStr ''idle_or_interval''),
      (''dream.auto.min_interval_hours'', ''dream_auto_min_interval_hours'', ''int:min=1'', JInt 24),
      (''dream.auto.idle_seconds'', ''dream_auto_idle_seconds'', ''int:min=0'', JInt 900),
      (''dream.auto.max_runtime_seconds'', ''dream_auto_max_runtime_seconds'', ''int:min=1'', JInt 120)]"

definition cost_budget_keys :: "typed_key list" where
  "cost_budget_keys =
     [(''cost_budget.wake_tokens'', ''cost_budget_wake_tokens'', ''int:min=1'', JInt 2000),
      (''cost_budget.search_tokens'', ''cost_budget_search_tokens'', ''int:min=1'', JInt 1200),
      (''cost_budget.file_context_tokens'', ''cost_budget_file_context_tokens'', ''int:min=1'', JInt 900),
      (''cost_budget.dream_tokens'', ''cost_budget_dream_tokens'', ''int:min=1'', JInt 2000),
      (''cost_budget.distill_tokens'', ''cost_budget_distill_tokens'', ''int:min=1'', JInt 3000)]"

definition typed_config_keys :: "typed_key list" where
  "typed_config_keys =
     capture_keys @ distill_keys @ archive_distill_keys @ dream_keys @ cost_budget_keys"

definition removed_config_keys :: "string list" where
  "removed_config_keys =
     [''autopilot.enabled'', ''triggers.after_agent'', ''triggers.scheduler'', ''distill.mode'',
      ''worker.mode'', ''semantic.execution.mode'', ''semantic.execution.restricted'',
      ''dream.handle.allow_supersede'', ''dream.handle.allow_merge'', ''dream.handle.allow_mark_stale'']"

section \<open>Loading\<close>

text \<open>The typed fields of \<^verbatim>\<open>MergedConfig\<close> by attribute name, and its untyped rest.\<close>

record merged_config =
  mc_fields :: jdict
  mc_extras :: jdict

definition default_fields :: jdict where
  "default_fields =
     [(''capture_enabled'', JBool True), (''capture_private_tags'', JBool True),
      (''capture_ignore_clients'', JList []), (''capture_ignore_session_ids'', JList []),
      (''capture_ignore_source_globs'', JList []), (''transcript_retention_days'', JInt 0),
      (''distill_auto_enabled'', JBool True), (''distill_autonomous_enabled'', JBool False),
      (''distill_auto_recent_first'', JBool True), (''distill_autonomous_cli'', JStr ''current''),
      (''archive_distill_enabled'', JBool False), (''archive_distill_order'', JStr ''recent_first''),
      (''archive_distill_project_scope'', JStr ''current''),
      (''archive_distill_unresolved_project'', JStr ''defer''),
      (''archive_distill_warn_tokens'', JInt 15000), (''archive_distill_warn_seconds'', JInt 40),
      (''archive_distill_require_answer_packet'', JBool True),
      (''archive_distill_report_promotions'', JBool True), (''dream_auto_enabled'', JBool True),
      (''dream_auto_trigger'', JStr ''idle_or_interval''), (''dream_auto_min_interval_hours'', JInt 24),
      (''dream_auto_idle_seconds'', JInt 900), (''dream_auto_max_runtime_seconds'', JInt 120),
      (''cost_budget_wake_tokens'', JInt 2000), (''cost_budget_search_tokens'', JInt 1200),
      (''cost_budget_file_context_tokens'', JInt 900), (''cost_budget_dream_tokens'', JInt 2000),
      (''cost_budget_distill_tokens'', JInt 3000)]"

datatype config_file = NoFile | Malformed | Parsed json

record config_env =
  ce_home :: string
  ce_valid_root :: bool \<comment> \<open>the project root is absolute and an existing directory\<close>
  ce_legacy :: config_file
  ce_user :: config_file
  ce_project :: config_file

definition load_table :: "string \<Rightarrow> config_file \<Rightarrow> config_error + jdict" where
  "load_table path f =
     (case f of
        NoFile \<Rightarrow> Inr []
      | Parsed (JObj d) \<Rightarrow> Inr d
      | _ \<Rightarrow> Inl (ConfigParseError path))"

definition user_config_path :: "config_env \<Rightarrow> string" where
  "user_config_path e = ce_home e @ ''/.harness-mem/config.toml''"

definition legacy_user_config_path :: "config_env \<Rightarrow> string" where
  "legacy_user_config_path e = ce_home e @ ''/.harness-mem/config.json''"

definition load_user_config_files :: "config_env \<Rightarrow> config_error + string \<times> jdict" where
  "load_user_config_files e =
     bind_res (load_table (legacy_user_config_path e) (ce_legacy e)) (\<lambda>legacy.
     bind_res (load_table (user_config_path e) (ce_user e)) (\<lambda>current.
     Inr (if ce_user e = NoFile then legacy_user_config_path e else user_config_path e,
          deep_merge legacy current)))"

definition set_default :: "string \<Rightarrow> json \<Rightarrow> jdict \<Rightarrow> jdict" where \<comment> \<open>\<^verbatim>\<open>d.setdefault(k, v)\<close>\<close>
  "set_default k v d = (if map_of d k = None then AList.update k v d else d)"

definition disable_autonomous :: "jdict \<Rightarrow> jdict" where
  "disable_autonomous merged =
     (let m = set_default ''distill'' (JObj []) merged in
      case map_of m ''distill'' of
        Some (JObj distill) \<Rightarrow>
          let d = set_default ''autonomous'' (JObj []) distill in
          AList.update ''distill''
            (JObj (case map_of d ''autonomous'' of
                     Some (JObj autonomous) \<Rightarrow>
                       AList.update ''autonomous'' (JObj (AList.update ''enabled'' (JBool False) autonomous)) d
                   | _ \<Rightarrow> d)) m
      | _ \<Rightarrow> m)"

definition apply_legacy_autonomous_compat :: "jdict \<Rightarrow> jdict" where
  "apply_legacy_autonomous_compat merged =
     (case get_dotted merged ''semantic.execution.restricted'' of
        None \<Rightarrow> merged
      | Some restricted \<Rightarrow>
          remove_dotted (if restricted = JBool False then disable_autonomous merged else merged)
            ''semantic.execution.restricted'')"

definition source_for_key :: "string \<Rightarrow> string \<Rightarrow> jdict \<Rightarrow> string \<Rightarrow> string" where
  "source_for_key project_path user_path project_dict key_path =
     (if get_dotted project_dict key_path \<noteq> None then project_path else user_path)"

definition coerce_key :: "(string \<Rightarrow> string) \<Rightarrow> jdict \<Rightarrow> typed_key \<Rightarrow> config_error + string \<times> json" where
  "coerce_key source merged key =
     (case key of (key_path, attr, kind, dflt) \<Rightarrow>
        (case get_dotted merged key_path of
           None \<Rightarrow> Inr (attr, dflt)
         | Some v \<Rightarrow> bind_res (coerce_typed_value key_path kind (source key_path) v) (\<lambda>w. Inr (attr, w))))"

definition coerce_key_group ::
  "(string \<Rightarrow> string) \<Rightarrow> jdict \<Rightarrow> typed_key list \<Rightarrow> config_error + jdict" where
  "coerce_key_group source merged keys = map_res (coerce_key source merged) keys"

definition user_layer :: "jdict \<Rightarrow> jdict" where
  "user_layer d =
     remove_dotted (remove_dotted (remove_dotted d ''semantic.execution.profile'')
       ''semantic.execution.restricted'') ''semantic.providers''"

definition project_layer :: "jdict \<Rightarrow> jdict" where
  "project_layer d = remove_dotted (remove_dotted d ''semantic.execution.profile'') ''semantic.providers''"

definition collect_extras :: "jdict \<Rightarrow> jdict" where
  "collect_extras merged =
     fold (\<lambda>k d. remove_dotted d k) (map fst typed_config_keys @ removed_config_keys) merged"

definition load_merged_config :: "config_env \<Rightarrow> string option \<Rightarrow> config_error + merged_config" where
  "load_merged_config e project_root =
     (if project_root \<noteq> None \<and> \<not> ce_valid_root e then Inl (ConfigPathError (the project_root))
      else bind_res (load_user_config_files e) (\<lambda>(user_path, user_dict).
        let project_path = (case project_root of None \<Rightarrow> user_path | Some r \<Rightarrow> r @ ''/.harness-mem.toml'') in
        bind_res (if project_root = None then Inr [] else load_table project_path (ce_project e))
          (\<lambda>project_dict.
        let project = project_layer project_dict;
            merged = apply_legacy_autonomous_compat (deep_merge (user_layer user_dict) project)
        in bind_res (coerce_key_group (source_for_key project_path user_path project) merged typed_config_keys)
             (\<lambda>fields. Inr \<lparr> mc_fields = fields, mc_extras = collect_extras merged \<rparr>))))"

definition to_runtime_config :: "merged_config \<Rightarrow> jdict" where
  "to_runtime_config c =
     fold (\<lambda>(key_path, attr, kind, dflt) d.
             set_dotted d key_path (case map_of (mc_fields c) attr of Some v \<Rightarrow> v | None \<Rightarrow> JNull))
       typed_config_keys (mc_extras c)"

end
