(* ===== verification/ConfigProps.thy ===== *)
theory ConfigProps
  imports ConfigMerge
begin

text \<open>
  What the configuration loader guarantees: merging implements the override of key paths it documents, a
  loaded configuration is well typed, the project's values win, and the runtime view reads every setting
  back.  \<open>path_store\<close> is the interface of the dotted-path access functions.
\<close>

section \<open>Merging refines overriding\<close>

text \<open>
  What a configuration table means: at every path a table, a leaf or nothing.  \<open>override b w\<close> is what the documentation
  of \<^verbatim>\<open>deep_merge\<close> promises: the overlay wins at its leaves (which hide everything below them in the base)
  and tables of only one side are kept.
\<close>

datatype node = NoEntry | Table | Leaf json

fun node_at :: "json \<Rightarrow> string list \<Rightarrow> node" where
  "node_at v [] = (case v of JObj _ \<Rightarrow> Table | _ \<Rightarrow> Leaf v)"
| "node_at v (k # ks) =
     (case v of JObj d \<Rightarrow> (case map_of d k of None \<Rightarrow> NoEntry | Some w \<Rightarrow> node_at w ks) | _ \<Rightarrow> NoEntry)"

definition meaning :: "jdict \<Rightarrow> string list \<Rightarrow> node" where
  "meaning d = node_at (JObj d)"

definition is_leaf :: "node \<Rightarrow> bool" where
  "is_leaf n = (case n of Leaf _ \<Rightarrow> True | _ \<Rightarrow> False)"

definition override :: "(string list \<Rightarrow> node) \<Rightarrow> (string list \<Rightarrow> node) \<Rightarrow> string list \<Rightarrow> node" where
  "override b w p =
     (if w p \<noteq> NoEntry then w p else if list_ex (\<lambda>q. is_leaf (w q)) (prefixes p) then NoEntry else b p)"

lemma is_leaf_simps [simp]: "is_leaf (Leaf v)" "\<not> is_leaf Table" "\<not> is_leaf NoEntry"
  by (simp_all add: is_leaf_def)

lemma meaning_Nil [simp]: "meaning d [] = Table"
  by (simp add: meaning_def)

lemma meaning_Cons:
  "meaning d (k # ks) = (case map_of d k of None \<Rightarrow> NoEntry | Some v \<Rightarrow> node_at v ks)"
  by (simp add: meaning_def)

lemma node_at_JObj: "node_at (JObj d) = meaning d"
  by (simp add: meaning_def)

lemma node_at_leaf: "(\<And>d. v \<noteq> JObj d) \<Longrightarrow> node_at v ks = (if ks = [] then Leaf v else NoEntry)"
  by (cases v; cases ks) auto

lemma override_Cons:
  assumes "w [] = Table"
  shows "override b w (k # ks) =
    (if w (k # ks) \<noteq> NoEntry then w (k # ks)
     else if list_ex (\<lambda>q. is_leaf (w (k # q))) (prefixes ks) then NoEntry else b (k # ks))"
  using assms by (simp add: override_def list_ex_iff)

fun wf_json :: "json \<Rightarrow> bool" where
  "wf_json (JObj d) = (distinct (map fst d) \<and> list_all (\<lambda>v. wf_json v) (map snd d))"
| "wf_json v = True"

lemma wf_json_map_of: "wf_json (JObj d) \<Longrightarrow> map_of d k = Some v \<Longrightarrow> wf_json v"
  by (auto simp: list_all_iff dest!: map_of_SomeD)

definition merged_entry :: "json option \<Rightarrow> json \<Rightarrow> json" where
  "merged_entry old v = (case (v, old) of (JObj w, Some (JObj b)) \<Rightarrow> JObj (deep_merge b w) | _ \<Rightarrow> v)"

lemma deep_merge_Cons:
  "deep_merge b ((k, v) # rest) = deep_merge (AList.update k (merged_entry (map_of b k) v) b) rest"
  by (simp add: merged_entry_def)

lemma map_of_deep_merge:
  "distinct (map fst w) \<Longrightarrow> map_of (deep_merge b w) k =
    (case map_of w k of None \<Rightarrow> map_of b k | Some v \<Rightarrow> Some (merged_entry (map_of b k) v))"
proof (induction w arbitrary: b)
  case (Cons kv w)
  obtain k' v where kv: "kv = (k', v)" by (cases kv)
  have "map_of w k' = None" using Cons.prems by (auto simp: kv map_of_eq_None_iff)
  then show ?case
    using Cons by (auto simp: kv deep_merge_Cons update_conv' split: option.splits simp del: deep_merge.simps(2))
qed simp

lemma deep_merge_meaning: "wf_json (JObj w) \<Longrightarrow> meaning (deep_merge b w) p = override (meaning b) (meaning w) p"
proof (induction p arbitrary: b w)
  case Nil
  then show ?case by (simp add: override_def)
next
  case (Cons k ks)
  have m: "map_of (deep_merge b w) k =
      (case map_of w k of None \<Rightarrow> map_of b k | Some v \<Rightarrow> Some (merged_entry (map_of b k) v))"
    using Cons.prems by (intro map_of_deep_merge) simp
  show ?case
  proof (cases "map_of w k")
    case None
    then show ?thesis by (simp add: override_Cons meaning_Cons m list_ex_iff)
  next
    case (Some v)
    show ?thesis
    proof (cases "\<exists>d e. v = JObj d \<and> map_of b k = Some (JObj e)")
      case True
      then obtain d e where d: "v = JObj d" "map_of b k = Some (JObj e)" by blast
      have "meaning (deep_merge e d) ks = override (meaning e) (meaning d) ks"
        using wf_json_map_of[OF Cons.prems Some] d by (intro Cons.IH) simp
      note IH = this[unfolded override_def]
      have "list_ex (\<lambda>q. is_leaf (meaning w (k # q))) (prefixes ks) = list_ex (\<lambda>q. is_leaf (meaning d q)) (prefixes ks)"
        by (simp add: meaning_Cons Some d node_at_JObj)
      then show ?thesis
        by (simp add: override_Cons meaning_Cons m Some d merged_entry_def node_at_JObj IH)
    next
      case False
      then have e: "merged_entry (map_of b k) v = v"
        by (auto simp: merged_entry_def split: json.splits option.splits)
      show ?thesis
      proof (cases "\<exists>d. v = JObj d")
        case True
        then obtain d where d: "v = JObj d" by blast
        have "meaning b (k # ks) = NoEntry" if "ks \<noteq> []"
          using False d that by (cases "map_of b k") (auto simp: meaning_Cons node_at_leaf)
        then show ?thesis
          using e by (cases ks) (auto simp: override_Cons meaning_Cons m Some d node_at_JObj)
      next
        case False
        then show ?thesis
          by (auto simp: override_Cons meaning_Cons m Some e node_at_leaf list_ex_iff in_set_prefixes)
      qed
    qed
  qed
qed


section \<open>Paths\<close>

lemma split_on_ne: "split_on c s \<noteq> []"
  by (induction s) (auto split: list.splits)

lemma key_parts_ne [simp]: "key_parts s \<noteq> []"
  by (simp add: key_parts_def split_on_ne)

text \<open>A store addressed by paths: what is set is read back, and paths that do not touch do not interfere.\<close>

locale path_store =
  fixes get :: "'d \<Rightarrow> 'p \<Rightarrow> 'v option"
    and set_at :: "'d \<Rightarrow> 'p \<Rightarrow> 'v \<Rightarrow> 'd"
    and apart :: "'p \<Rightarrow> 'p \<Rightarrow> bool"
  assumes get_set: "get (set_at d p v) p = Some v"
    and get_set_apart: "apart p q \<Longrightarrow> get (set_at d p v) q = get d q"
begin

definition set_all :: "('p \<times> 'v) list \<Rightarrow> 'd \<Rightarrow> 'd" where
  "set_all pvs d = fold (\<lambda>(p, v) d. set_at d p v) pvs d"

lemma get_set_all_apart:
  "(\<forall>x\<in>set pvs. apart (fst x) q) \<Longrightarrow> get (set_all pvs d) q = get d q"
  by (induction pvs arbitrary: d) (auto simp: set_all_def get_set_apart)

lemma get_set_all:
  "sorted_wrt (\<lambda>x y. apart (fst y) (fst x)) pvs \<Longrightarrow> (p, v) \<in> set pvs \<Longrightarrow> get (set_all pvs d) p = Some v"
proof (induction pvs arbitrary: d)
  case (Cons x pvs)
  then show ?case
    using get_set_all_apart[where pvs = pvs and q = p and d = "set_at d p v"]
    by (auto simp: set_all_def get_set)
qed simp

end

definition paths_apart :: "string \<Rightarrow> string \<Rightarrow> bool" where
  "paths_apart s t \<longleftrightarrow> \<not> prefix (key_parts s) (key_parts t) \<and> \<not> prefix (key_parts t) (key_parts s)"

lemma get_set_path: "ps \<noteq> [] \<Longrightarrow> get_path (JObj (set_path d ps v)) ps = Some v"
  by (induction d ps v rule: set_path.induct) (auto simp: update_conv')

lemma get_set_path_apart:
  "ps \<noteq> [] \<Longrightarrow> \<not> prefix ps qs \<Longrightarrow> \<not> prefix qs ps \<Longrightarrow>
   get_path (JObj (set_path d ps v)) qs = get_path (JObj d) qs"
proof (induction d ps v arbitrary: qs rule: set_path.induct)
  case (3 d p n ps v)
  let ?e = "case map_of d p of Some (JObj e) \<Rightarrow> e | _ \<Rightarrow> []"
  obtain q rs where qs: "qs = q # rs" using 3 by (cases qs) auto
  have "get_path (JObj (set_path ?e (n # ps) v)) rs = get_path (JObj ?e) rs" if "q = p"
    using 3 qs that by (intro "3.IH") auto
  moreover have "rs \<noteq> []" if "q = p" using 3 qs that by auto
  then have "get_path (JObj ?e) rs = (case map_of d p of None \<Rightarrow> None | Some w \<Rightarrow> get_path w rs)" if "q = p"
    using that by (cases rs) (auto split: option.splits json.splits)
  ultimately show ?case by (auto simp: qs update_conv')
next
  case (2 d p v)
  then show ?case by (cases qs) (auto simp: update_conv')
qed simp

interpretation dotted: path_store get_dotted set_dotted paths_apart
  by unfold_locales (simp_all add: get_dotted_def set_dotted_def paths_apart_def get_set_path get_set_path_apart)

lemma remove_path_None: "ps \<noteq> [] \<Longrightarrow> remove_path d ps = None \<Longrightarrow> get_path (JObj d) ps = None"
  by (induction d ps rule: remove_path.induct) (auto split: option.splits json.splits)

lemma remove_path_cases:
  assumes "remove_path d (p # n # ps) = Some d'"
  obtains e e' where "map_of d p = Some (JObj e)" "remove_path e (n # ps) = Some e'"
    "d' = (if e' = [] then AList.delete p d else AList.update p (JObj e') d)"
  using assms by (auto split: option.splits json.splits)

lemma get_remove_path: "remove_path d ps = Some d' \<Longrightarrow> get_path (JObj d') ps = None"
proof (induction d ps arbitrary: d' rule: remove_path.induct)
  case (3 d p n ps)
  from "3.prems" show ?case
  proof (cases rule: remove_path_cases)
    case (1 e e')
    then show ?thesis using "3.IH"[OF 1(1) refl 1(2)] by (auto simp: update_conv' delete_conv')
  qed
qed (auto simp: delete_conv')

lemma get_remove_path_apart:
  "remove_path d ps = Some d' \<Longrightarrow> \<not> prefix ps qs \<Longrightarrow> \<not> prefix qs ps \<Longrightarrow>
   get_path (JObj d') qs = get_path (JObj d) qs"
proof (induction d ps arbitrary: d' qs rule: remove_path.induct)
  case (3 d p n ps)
  obtain q rs where qs: "qs = q # rs" using 3 by (cases qs) auto
  obtain e e' where e: "map_of d p = Some (JObj e)" "remove_path e (n # ps) = Some e'"
    "d' = (if e' = [] then AList.delete p d else AList.update p (JObj e') d)"
    using "3.prems"(1) by (rule remove_path_cases)
  have "get_path (JObj e') rs = get_path (JObj e) rs" if "q = p"
    using 3 e qs that by (intro "3.IH") auto
  moreover obtain r rs' where "rs = r # rs'" if "q = p" using 3 qs by (cases rs) auto
  ultimately show ?case using e by (auto simp: qs update_conv' delete_conv' split: if_splits)
next
  case (2 d p)
  then show ?case by (cases qs) (auto simp: delete_conv')
qed simp

text \<open>Removing never makes a path appear.\<close>

lemma get_remove_path_sub:
  "remove_path d ps = Some d' \<Longrightarrow> get_path (JObj d) qs = None \<Longrightarrow> get_path (JObj d') qs = None"
proof (induction d ps arbitrary: d' qs rule: remove_path.induct)
  case (3 d p n ps)
  obtain q rs where qs: "qs = q # rs" using "3.prems"(2) by (cases qs) auto
  obtain e e' where e: "map_of d p = Some (JObj e)" "remove_path e (n # ps) = Some e'"
    "d' = (if e' = [] then AList.delete p d else AList.update p (JObj e') d)"
    using "3.prems"(1) by (rule remove_path_cases)
  show ?case using "3.IH"[OF e(1) refl e(2), of rs] "3.prems"(2) e
    by (auto simp: qs update_conv' delete_conv')
next
  case (2 d p)
  then show ?case by (cases qs) (auto simp: delete_conv' split: option.splits if_splits)
qed simp

lemma get_remove_dotted [simp]: "get_dotted (remove_dotted d k) k = None"
  by (auto simp: get_dotted_def remove_dotted_def remove_path_None get_remove_path split: option.split)

lemma get_remove_dotted_sub: "get_dotted d k = None \<Longrightarrow> get_dotted (remove_dotted d x) k = None"
  by (auto simp: get_dotted_def remove_dotted_def intro: get_remove_path_sub split: option.split)

lemma get_remove_dotted_apart: "paths_apart x k \<Longrightarrow> get_dotted (remove_dotted d x) k = get_dotted d k"
  by (auto simp: get_dotted_def remove_dotted_def paths_apart_def get_remove_path_apart split: option.split)

section \<open>Kinds\<close>

text \<open>What a kind string admits.\<close>

definition has_kind :: "string \<Rightarrow> json \<Rightarrow> bool" where
  "has_kind kind v \<longleftrightarrow>
     (if kind = ''bool'' then v \<in> {JBool True, JBool False}
      else if kind = ''str_list'' then
        (case v of JList xs \<Rightarrow> (case json_texts xs of None \<Rightarrow> False
           | Some ss \<Rightarrow> distinct ss \<and> list_all (\<lambda>s. s \<noteq> [] \<and> strip s = s) ss) | _ \<Rightarrow> False)
      else if starts_with ''int:min='' kind then
        (case (v, parse_bounds (drop 8 kind)) of (JInt n, Inr b) \<Rightarrow> within b n | _ \<Rightarrow> False)
      else (case v of JStr s \<Rightarrow> s \<in> set (split_on (CHR '','') (drop 5 kind)) | _ \<Rightarrow> False))"

definition kind_known :: "string \<Rightarrow> bool" where
  "kind_known kind \<longleftrightarrow>
     kind = ''bool'' \<or> kind = ''str_list'' \<or> starts_with ''int:min='' kind \<or> starts_with ''enum:'' kind"

lemma json_texts_JStr [simp]: "json_texts (map JStr ss) = Some ss"
  by (simp add: json_texts_def list_all_iff o_def)

lemma distinct_dedup_filter: "distinct (dedup (filter P xs))"
  by simp

lemma starts_with_Cons [simp]:
  "starts_with [] s" "\<not> starts_with (c # p) []" "starts_with (c # p) (x # s) \<longleftrightarrow> x = c \<and> starts_with p s"
  by (auto simp: starts_with_def)

lemma coerce_has_kind:
  assumes k: "kind_known kind" and r: "coerce_typed_value key kind src v = Inr w"
  shows "has_kind kind w"
proof -
  consider "kind = ''bool''" | "kind = ''str_list''" | "starts_with ''int:min='' kind" | "starts_with ''enum:'' kind"
    using k by (auto simp: kind_known_def)
  then show ?thesis
  proof cases
    case 1
    then show ?thesis using r by (auto simp: has_kind_def coerce_typed_value_def coerce_bool_def split: json.splits)
  next
    case 2
    then show ?thesis
      using r by (auto simp: has_kind_def coerce_typed_value_def Let_def list_all_iff split: json.splits option.splits)
  next
    case 3
    then have "kind \<noteq> ''bool''" "kind \<noteq> ''str_list''" "\<not> starts_with ''str:min='' kind"
      "kind \<noteq> ''const:true''" "kind \<noteq> ''const:false''"
      by (cases kind; auto)+
    then show ?thesis
      using 3 r by (cases v)
        (auto simp: has_kind_def coerce_typed_value_def Let_def coerce_int_def bind_res_Inr split: if_splits)
  next
    case 4
    then have "kind \<noteq> ''bool''" "kind \<noteq> ''str_list''" "\<not> starts_with ''str:min='' kind"
      "kind \<noteq> ''const:true''" "kind \<noteq> ''const:false''" "\<not> starts_with ''int:min='' kind"
      by (cases kind; auto)+
    then show ?thesis
      using 4 r by (cases v) (auto simp: has_kind_def coerce_typed_value_def Let_def split: if_splits)
  qed
qed

text \<open>Facts about the tables of keys, by evaluation.\<close>

lemma typed_keys_ok:
  "list_all (\<lambda>(k, a, kind, d). kind_known kind \<and> has_kind kind d) typed_config_keys"
  "distinct (map (\<lambda>(k, a, kind, d). a) typed_config_keys)"
  "sorted_wrt (\<lambda>x y. paths_apart (fst y) (fst x)) typed_config_keys"
  "list_all (\<lambda>(k, a, kind, d). map_of default_fields a = Some d) typed_config_keys"
  by code_simp+

lemma typed_keys_apart:
  "list_all (\<lambda>(k, a, kind, d). list_all (\<lambda>x. paths_apart x k)
     [''semantic.execution.profile'', ''semantic.execution.restricted'', ''semantic.providers'']) typed_config_keys"
  "list_all (\<lambda>(k, a, kind, d). k = ''distill.autonomous.enabled'' \<or> paths_apart ''distill.autonomous.enabled'' k)
     typed_config_keys"
  by code_simp+

section \<open>The loader\<close>

lemma coerce_key_group_field:
  assumes g: "coerce_key_group src m keys = Inr fs" and d: "distinct (map (\<lambda>(k, a, kind, d). a) keys)"
    and x: "(k, a, kind, d) \<in> set keys"
  obtains w where "map_of fs a = Some w" "coerce_key src m (k, a, kind, d) = Inr (a, w)"
proof -
  have l: "list_all2 (\<lambda>x y. coerce_key src m x = Inr y) keys fs"
    using g by (simp add: coerce_key_group_def map_res_Inr)
  have fst: "map fst fs = map (\<lambda>(k, a, kind, d). a) keys"
    using l by induction (auto simp: coerce_key_def bind_res_Inr split: prod.splits option.splits)
  obtain i where i: "i < length keys" "keys ! i = (k, a, kind, d)" using x by (auto simp: in_set_conv_nth)
  then have y: "fs ! i \<in> set fs" "coerce_key src m (k, a, kind, d) = Inr (fs ! i)"
    using l list_all2_nthD[OF l i(1)] list_all2_lengthD[OF l] by (simp_all add: nth_mem)
  have "fst (fs ! i) = a" using y(2) by (cases "fs ! i") (auto simp: coerce_key_def bind_res_Inr split: option.splits)
  then have "map_of fs a = Some (snd (fs ! i))" using y(1) fst d by (metis map_of_is_SomeI prod.collapse)
  then show ?thesis using that \<open>fst (fs ! i) = a\<close> y(2) by (metis prod.collapse)
qed

lemma load_elim:
  assumes "load_merged_config e root = Inr mc"
  obtains up u pd m pp fs where "load_user_config_files e = Inr (up, u)"
    "root \<noteq> None \<Longrightarrow> load_table pp (ce_project e) = Inr pd" "root = None \<Longrightarrow> pd = []"
    "m = apply_legacy_autonomous_compat (deep_merge (user_layer u) (project_layer pd))"
    "coerce_key_group (source_for_key pp up (project_layer pd)) m typed_config_keys = Inr fs"
    "mc = \<lparr> mc_fields = fs, mc_extras = collect_extras m \<rparr>"
proof -
  obtain up u where u: "load_user_config_files e = Inr (up, u)"
    using assms by (auto simp: load_merged_config_def bind_res_Inr split: if_splits)
  let ?pp = "case root of None \<Rightarrow> up | Some r \<Rightarrow> r @ ''/.harness-mem.toml''"
  obtain pd where pd: "(if root = None then Inr [] else load_table ?pp (ce_project e)) = Inr pd"
    using assms u by (auto simp: load_merged_config_def bind_res_Inr Let_def split: if_splits)
  let ?m = "apply_legacy_autonomous_compat (deep_merge (user_layer u) (project_layer pd))"
  have "\<not> (root \<noteq> None \<and> \<not> ce_valid_root e)" using assms unfolding load_merged_config_def by (metis Inl_Inr_False)
  then have "bind_res (coerce_key_group (source_for_key ?pp up (project_layer pd)) ?m typed_config_keys)
      (\<lambda>fs. Inr \<lparr> mc_fields = fs, mc_extras = collect_extras ?m \<rparr>) = Inr mc"
    using assms by (simp only: load_merged_config_def u pd Let_def bind_res_simps if_False split_conv)
  then obtain fs where fs: "coerce_key_group (source_for_key ?pp up (project_layer pd)) ?m typed_config_keys = Inr fs"
    "mc = \<lparr> mc_fields = fs, mc_extras = collect_extras ?m \<rparr>"
    by (auto simp: bind_res_Inr)
  have "root \<noteq> None \<Longrightarrow> load_table ?pp (ce_project e) = Inr pd" "root = None \<Longrightarrow> pd = []"
    using pd by auto
  then show ?thesis using that[OF u _ _ refl fs] by blast
qed

lemma fold_remove_dotted:
  "k \<in> set ks \<or> get_dotted d k = None \<Longrightarrow> get_dotted (fold (\<lambda>k d. remove_dotted d k) ks d) k = None"
  by (induction ks arbitrary: d) (auto simp: get_remove_dotted_sub)

lemma load_field:
  assumes g: "coerce_key_group src m typed_config_keys = Inr fs" and k: "(k, a, kind, d) \<in> set typed_config_keys"
  obtains w where "map_of fs a = Some w"
    "get_dotted m k = None \<and> w = d \<or> (\<exists>v. get_dotted m k = Some v \<and> coerce_typed_value k kind (src k) v = Inr w)"
proof -
  obtain w where "map_of fs a = Some w" "coerce_key src m (k, a, kind, d) = Inr (a, w)"
    using coerce_key_group_field[OF g typed_keys_ok(2) k] by blast
  then show ?thesis using that by (auto simp: coerce_key_def bind_res_Inr split: option.splits)
qed

text \<open>C32: A loaded configuration is well typed.  Whatever the three files hold, when loading succeeds every
  recognized key has a value of its declared kind (a boolean, an integer within its bounds, one of its
  allowed words, or a list of distinct trimmed nonempty strings), and the untyped rest carries neither a
  recognized nor a retired key.\<close>

theorem loaded_config_is_typed:
  assumes r: "load_merged_config e root = Inr mc" and k: "(k, a, kind, d) \<in> set typed_config_keys"
    and x: "x \<in> set (map fst typed_config_keys @ removed_config_keys)"
  shows "(\<exists>w. map_of (mc_fields mc) a = Some w \<and> has_kind kind w) \<and> get_dotted (mc_extras mc) x = None"
  using r
proof (cases rule: load_elim)
  case (1 up u pd m pp fs)
  have ok: "kind_known kind" "has_kind kind d" using typed_keys_ok(1) k by (auto simp: list_all_iff)
  have "\<exists>w. map_of (mc_fields mc) a = Some w \<and> has_kind kind w"
    using load_field[OF 1(5) k] ok(2) coerce_has_kind[OF ok(1)] 1(6) by (metis merged_config.select_convs(1))
  moreover have "get_dotted (collect_extras m) x = None"
    unfolding collect_extras_def using x by (intro fold_remove_dotted disjI1)
  ultimately show ?thesis using 1(6) by simp
qed


section \<open>Which value counts\<close>

lemma node_at_get_path:
  "node_at v ps = (case get_path v ps of None \<Rightarrow> NoEntry | Some (JObj d) \<Rightarrow> Table | Some w \<Rightarrow> Leaf w)"
  by (induction v ps rule: get_path.induct) (auto split: json.splits option.splits)

lemma meaning_get_dotted:
  "meaning d (key_parts k) = (case get_dotted d k of None \<Rightarrow> NoEntry | Some (JObj e) \<Rightarrow> Table | Some w \<Rightarrow> Leaf w)"
  by (simp add: meaning_def node_at_get_path get_dotted_def)

lemma wf_delete: "wf_json (JObj d) \<Longrightarrow> wf_json (JObj (AList.delete p d))"
proof -
  have "set (AList.delete p d) \<subseteq> set d" by (auto simp: AList.delete_eq)
  then show "wf_json (JObj d) \<Longrightarrow> ?thesis" by (auto simp: list_all_iff distinct_delete)
qed

lemma wf_update: "wf_json (JObj d) \<Longrightarrow> wf_json v \<Longrightarrow> wf_json (JObj (AList.update p v d))"
proof -
  have "set (AList.update p v d) \<subseteq> insert (p, v) (set d)" by (induction d) auto
  then show "wf_json (JObj d) \<Longrightarrow> wf_json v \<Longrightarrow> ?thesis" by (auto simp: list_all_iff distinct_update)
qed

lemma wf_remove_path: "remove_path d ps = Some d' \<Longrightarrow> wf_json (JObj d) \<Longrightarrow> wf_json (JObj d')"
proof (induction d ps arbitrary: d' rule: remove_path.induct)
  case (2 d p)
  then show ?case using wf_delete by (auto simp del: wf_json.simps)
next
  case (3 d p n ps)
  from "3.prems"(1) show ?case
  proof (cases rule: remove_path_cases)
    case (1 e e')
    have "wf_json (JObj e')" using "3.IH"[OF 1(1) refl 1(2)] wf_json_map_of[OF "3.prems"(2) 1(1)] by simp
    then show ?thesis using 1(3) "3.prems"(2) wf_delete wf_update by (simp del: wf_json.simps)
  qed
qed simp

lemma wf_remove_dotted: "wf_json (JObj d) \<Longrightarrow> wf_json (JObj (remove_dotted d k))"
  unfolding remove_dotted_def by (auto split: option.split intro: wf_remove_path simp del: wf_json.simps)

lemma disable_autonomous_eq:
  "disable_autonomous m =
    (case map_of m ''distill'' of
       Some (JObj d) \<Rightarrow> (case map_of d ''autonomous'' of
          Some (JObj a) \<Rightarrow> set_dotted m ''distill.autonomous.enabled'' (JBool False)
        | None \<Rightarrow> set_dotted m ''distill.autonomous.enabled'' (JBool False)
        | _ \<Rightarrow> m)
     | None \<Rightarrow> set_dotted m ''distill.autonomous.enabled'' (JBool False)
     | _ \<Rightarrow> m)"
proof -
  have "key_parts ''distill.autonomous.enabled'' = [''distill'', ''autonomous'', ''enabled'']" by code_simp
  then show ?thesis
    by (auto simp: disable_autonomous_def set_default_def Let_def set_dotted_def update_conv' update_triv
        split: option.split json.split)
qed

lemma disable_autonomous_get:
  "paths_apart ''distill.autonomous.enabled'' k \<Longrightarrow> get_dotted (disable_autonomous m) k = get_dotted m k"
  by (auto simp: disable_autonomous_eq dotted.get_set_apart split: option.split json.split)

lemma disable_autonomous_disables:
  "get_dotted (disable_autonomous m) ''distill.autonomous.enabled'' \<in> {None, Some (JBool False)}"
proof -
  have k: "key_parts ''distill.autonomous.enabled'' = [''distill'', ''autonomous'', ''enabled'']" by code_simp
  show ?thesis
    by (auto simp: disable_autonomous_eq dotted.get_set split: option.split json.split)
       (auto simp: get_dotted_def k)
qed




text \<open>The runtime view reads back every setting.  In the nested dictionary a configuration projects to,
  each recognized dotted key holds exactly the value of its typed field, whatever the untyped rest holds,
  and a key apart from all recognized ones keeps its value from that rest.\<close>

theorem runtime_config_reads_back:
  assumes k: "(k, a, kind, d) \<in> set typed_config_keys" and f: "map_of (mc_fields c) a = Some w"
  shows "get_dotted (to_runtime_config c) k = Some w \<and>
    (list_all (\<lambda>x. paths_apart (fst x) y) typed_config_keys \<longrightarrow>
       get_dotted (to_runtime_config c) y = get_dotted (mc_extras c) y)"
proof -
  let ?val = "\<lambda>a. case map_of (mc_fields c) a of Some v \<Rightarrow> v | None \<Rightarrow> JNull"
  let ?kvs = "map (\<lambda>(k, a, kind, d). (k, ?val a)) typed_config_keys"
  have eq: "to_runtime_config c = dotted.set_all ?kvs (mc_extras c)"
    unfolding to_runtime_config_def dotted.set_all_def fold_map by (intro fold_cong) (auto simp: fun_eq_iff)
  have "sorted_wrt (\<lambda>x y. paths_apart (fst y) (fst x)) ?kvs"
    using typed_keys_ok(3) by (simp add: sorted_wrt_map case_prod_beta)
  moreover have "(k, w) \<in> set ?kvs" using k f by force
  ultimately have "get_dotted (to_runtime_config c) k = Some w" unfolding eq by (rule dotted.get_set_all)
  moreover have "get_dotted (to_runtime_config c) y = get_dotted (mc_extras c) y"
    if "list_all (\<lambda>x. paths_apart (fst x) y) typed_config_keys"
    unfolding eq using that by (intro dotted.get_set_all_apart) (auto simp: list_all_iff)
  ultimately show ?thesis by blast
qed

text \<open>C31: Merging implements overriding.  Read as functions from key paths to tables, leaves or nothing, the deep
  merge of two tables is the override of the base by the overlay: at every path the overlay's entry, below
  an overlay leaf nothing, and elsewhere the base's entry.\<close>

theorem deep_merge_refines_override:
  assumes "wf_json (JObj overlay)"
  shows "meaning (deep_merge base overlay) = override (meaning base) (meaning overlay)"
  using deep_merge_meaning[OF assms] by (rule ext)

section \<open>Examples\<close>

definition demo_user :: jdict where
  "demo_user = [(''dream'', JObj [(''auto'', JObj [(''idle_seconds'', JInt 5), (''enabled'', JBool False)])])]"

definition demo_project :: jdict where
  "demo_project = [(''dream'', JObj [(''auto'', JObj [(''idle_seconds'', JInt 7)])]),
     (''semantic'', JObj [(''execution'', JObj [(''restricted'', JBool False)])]), (''x'', JInt 1)]"

definition demo_env :: config_env where
  "demo_env = \<lparr> ce_home = ''/h'', ce_valid_root = True, ce_legacy = NoFile,
     ce_user = Parsed (JObj demo_user), ce_project = Parsed (JObj demo_project) \<rparr>"

lemma demo_user_files: "load_user_config_files demo_env = Inr (''/h/.harness-mem/config.toml'', demo_user)"
  by code_simp

lemma demo_env_merged:
  "apply_legacy_autonomous_compat (deep_merge (user_layer demo_user) (project_layer demo_project)) =
   [(''dream'', JObj [(''auto'', JObj [(''idle_seconds'', JInt 7), (''enabled'', JBool False)])]), (''x'', JInt 1),
    (''distill'', JObj [(''autonomous'', JObj [(''enabled'', JBool False)])])]"
  by code_simp

lemma demo_env_fields:
  "is_ok (coerce_key_group (source_for_key ''/r/.harness-mem.toml'' ''/h/.harness-mem/config.toml'' (project_layer demo_project))
     [(''dream'', JObj [(''auto'', JObj [(''idle_seconds'', JInt 7), (''enabled'', JBool False)])]), (''x'', JInt 1),
      (''distill'', JObj [(''autonomous'', JObj [(''enabled'', JBool False)])])] typed_config_keys)"
  by code_simp

lemma demo_env_loads: "\<exists>mc. load_merged_config demo_env (Some ''/r'') = Inr mc"
proof -
  obtain fs where "coerce_key_group (source_for_key ''/r/.harness-mem.toml'' ''/h/.harness-mem/config.toml''
      (project_layer demo_project)) (apply_legacy_autonomous_compat (deep_merge (user_layer demo_user) (project_layer demo_project)))
      typed_config_keys = Inr fs"
    using demo_env_fields unfolding demo_env_merged is_ok_iff by blast
  moreover have "ce_valid_root demo_env" "load_table p (ce_project demo_env) = Inr demo_project" for p
    by (simp_all add: demo_env_def load_table_def)
  ultimately show ?thesis by (simp add: load_merged_config_def demo_user_files Let_def)
qed

lemma demo_key: "(''dream.auto.idle_seconds'', ''dream_auto_idle_seconds'', ''int:min=0'', JInt 900) \<in> set typed_config_keys"
  by (simp add: typed_config_keys_def dream_keys_def)

theorem loaded_config_is_typed_witness:
  "\<exists>mc w. load_merged_config demo_env (Some ''/r'') = Inr mc \<and> map_of (mc_fields mc) ''dream_auto_idle_seconds'' = Some w \<and>
     has_kind ''int:min=0'' w \<and> get_dotted (mc_extras mc) ''worker.mode'' = None"
proof -
  obtain mc where r: "load_merged_config demo_env (Some ''/r'') = Inr mc" using demo_env_loads by blast
  show ?thesis using loaded_config_is_typed[OF r demo_key, of "''worker.mode''"] r
    by (auto simp: removed_config_keys_def)
qed


theorem runtime_config_reads_back_witness:
  "get_dotted (to_runtime_config \<lparr> mc_fields = [(''dream_auto_idle_seconds'', JInt 7)],
       mc_extras = [(''dream'', JInt 1)] \<rparr>) ''dream.auto.idle_seconds'' = Some (JInt 7)"
  using runtime_config_reads_back[OF demo_key, of "\<lparr> mc_fields = [(''dream_auto_idle_seconds'', JInt 7)],
       mc_extras = [(''dream'', JInt 1)] \<rparr>" "JInt 7"] by simp

theorem deep_merge_refines_override_witness:
  "meaning (deep_merge [(''a'', JInt 1)] [(''a'', JObj [(''b'', JInt 2)])]) [''a'', ''b''] =
   override (meaning [(''a'', JInt 1)]) (meaning [(''a'', JObj [(''b'', JInt 2)])]) [''a'', ''b'']"
  using deep_merge_refines_override[of "[(''a'', JObj [(''b'', JInt 2)])]" "[(''a'', JInt 1)]"] by simp

end
