(* ===== verification/JsonText.thy ===== *)
theory JsonText
  imports Prelude
begin

text \<open>
  The texts the stores hash and persist: \<^verbatim>\<open>json.dumps\<close> with ASCII escapes, and the stable form with sorted
  keys and compact separators.  A float carries its printed form.  \<open>json_str\<close>, \<open>json_truthy\<close> and \<open>first_truthy\<close>
  are \<^verbatim>\<open>str(x)\<close>, \<^verbatim>\<open>bool(x)\<close> and \<^verbatim>\<open>a or b or c\<close> on JSON values; what \<^verbatim>\<open>str\<close> prints for a list or a dictionary
  is an argument.
\<close>

section \<open>Printing\<close>

definition hex4 :: "nat \<Rightarrow> string" where
  "hex4 n = map (\<lambda>d. ''0123456789abcdef'' ! (n div d mod 16)) [4096, 256, 16, 1]"

definition json_char :: "char \<Rightarrow> string" where
  "json_char c = (let n = (of_char c :: nat) in
     if n = 34 then [CHR 0x5C, c] else if n = 92 then [c, c]
     else if n = 8 then [CHR 0x5C, CHR ''b''] else if n = 9 then [CHR 0x5C, CHR ''t'']
     else if n = 10 then [CHR 0x5C, CHR ''n''] else if n = 12 then [CHR 0x5C, CHR ''f'']
     else if n = 13 then [CHR 0x5C, CHR ''r'']
     else if n < 32 \<or> 126 < n then [CHR 0x5C, CHR ''u''] @ hex4 n else [c])"

definition json_text :: "string \<Rightarrow> string" where
  "json_text s = [CHR 0x22] @ concat (map json_char s) @ [CHR 0x22]"

fun json_dumps :: "json \<Rightarrow> string" where
  "json_dumps JNull = ''null''"
| "json_dumps (JBool b) = (if b then ''true'' else ''false'')"
| "json_dumps (JInt i) = int_str i"
| "json_dumps (JFloat s) = s"
| "json_dumps (JStr s) = json_text s"
| "json_dumps (JList xs) = ''['' @ join_words '','' (map json_dumps xs) @ '']''"
| "json_dumps (JObj d) =
     ''{'' @ join_words '','' (map (\<lambda>(k, v). json_text k @ '':'' @ json_dumps v) d) @ ''}''"

text \<open>\<^verbatim>\<open>sort_keys\<close>: also what \<^verbatim>\<open>json.loads\<close> gives back of the stable text.\<close>

fun sort_json :: "json \<Rightarrow> json" where
  "sort_json (JList xs) = JList (map sort_json xs)"
| "sort_json (JObj d) = JObj (sort_key fst (map (\<lambda>(k, v). (k, sort_json v)) d))"
| "sort_json j = j"

definition stable_json :: "json \<Rightarrow> string" where
  "stable_json j = json_dumps (sort_json j)"

section \<open>Values\<close>

definition json_get :: "jdict \<Rightarrow> string \<Rightarrow> json" where \<comment> \<open>\<^verbatim>\<open>d.get(k)\<close>\<close>
  "json_get d k = (case map_of d k of None \<Rightarrow> JNull | Some v \<Rightarrow> v)"

definition json_dict :: "json \<Rightarrow> jdict" where \<comment> \<open>\<^verbatim>\<open>v if isinstance(v, dict) else {}\<close>\<close>
  "json_dict j = (case j of JObj d \<Rightarrow> d | _ \<Rightarrow> [])"

fun json_truthy :: "json \<Rightarrow> bool" where
  "json_truthy JNull = False"
| "json_truthy (JBool b) = b"
| "json_truthy (JInt i) = (i \<noteq> 0)"
| "json_truthy (JFloat s) = (s \<notin> {''0.0'', ''-0.0''})"
| "json_truthy (JStr s) = (s \<noteq> [])"
| "json_truthy (JList xs) = (xs \<noteq> [])"
| "json_truthy (JObj d) = (d \<noteq> [])"

fun first_truthy :: "json list \<Rightarrow> json" where \<comment> \<open>\<^verbatim>\<open>a or b or c\<close>\<close>
  "first_truthy [] = JNull"
| "first_truthy [v] = v"
| "first_truthy (v # w # vs) = (if json_truthy v then v else first_truthy (w # vs))"

fun json_str :: "(json \<Rightarrow> string) \<Rightarrow> json \<Rightarrow> string" where
  "json_str r JNull = ''None''"
| "json_str r (JBool b) = (if b then ''True'' else ''False'')"
| "json_str r (JInt i) = int_str i"
| "json_str r (JFloat s) = s"
| "json_str r (JStr s) = s"
| "json_str r j = r j"

text \<open>\<^verbatim>\<open>str(d.get(k) or "")\<close>\<close>

definition text_or_empty :: "(json \<Rightarrow> string) \<Rightarrow> jdict \<Rightarrow> string \<Rightarrow> string" where
  "text_or_empty r d k = json_str r (first_truthy [json_get d k, JStr []])"

text \<open>\<^verbatim>\<open>str.lower\<close> on the code points below 256.\<close>

definition lower_char :: "char \<Rightarrow> char" where
  "lower_char c = (let n = (of_char c :: nat) in
     if (65 \<le> n \<and> n \<le> 90) \<or> (192 \<le> n \<and> n \<le> 222 \<and> n \<noteq> 215) then char_of (n + 32) else c)"

definition lower :: "string \<Rightarrow> string" where
  "lower s = map lower_char s"

definition contains :: "string \<Rightarrow> string \<Rightarrow> bool" where \<comment> \<open>\<^verbatim>\<open>p in s\<close>\<close>
  "contains p s \<longleftrightarrow> list_ex (\<lambda>i. starts_with p (drop i s)) [0..<Suc (length s)]"

definition ends_with :: "string \<Rightarrow> string \<Rightarrow> bool" where
  "ends_with p s \<longleftrightarrow> starts_with (rev p) (rev s)"

end
