(* ===== verification/ManualBatch.thy ===== *)
theory ManualBatch
  imports Ledger DistillSchema JsonText
begin

text \<open>
  Explicit batches: \<^verbatim>\<open>harness_mem/storage/manual_batch_store.py\<close>.

  A batch is one manifest file that freezes the sessions a user selected and records which job each of them is
  bound to.  The store is the list of its manifests by batch id.  A manifest is its decoded form: the test of
  the JSON types and of the set of field names is the decoder's, \<open>b_device\<close> holds the four fields only a
  device batch (\<^verbatim>\<open>scope == "all"\<close>) has, and \<open>d_started_at\<close> is absent for a time without a zone.  Locks, the
  atomic replacement of the file and the tests for redirected paths are the operating system's; what a path
  resolves to is a parameter (\<open>path_env\<close>), and so is the fresh \<^verbatim>\<open>uuid4\<close> of a new batch.
\<close>

section \<open>References\<close>

record path_env =
  pe_absolute :: "string \<Rightarrow> bool" \<comment> \<open>\<^verbatim>\<open>Path(p).is_absolute() and ".." not in Path(p).parts\<close>\<close>
  pe_resolve :: "string \<Rightarrow> string" \<comment> \<open>\<^verbatim>\<open>os.path.normcase(str(Path(p).resolve()))\<close>\<close>

type_synonym selection_item = "(string \<times> string \<times> string \<times> string) \<times> string option"

record batch_ref =
  br_client :: string
  br_session_id :: string
  br_source_id :: string
  br_source_revision :: string
  br_reference_id :: string

definition ref_identity :: "batch_ref \<Rightarrow> string \<times> string \<times> string \<times> string" where
  "ref_identity r = (br_client r, br_session_id r, br_source_id r, br_source_revision r)"

definition ref_item :: "batch_ref \<Rightarrow> selection_item" where
  "ref_item r = (ref_identity r, Some (br_reference_id r))"

definition text_ok :: "string \<Rightarrow> bool" where
  "text_ok s \<longleftrightarrow> strip s \<noteq> [] \<and> s = strip s \<and> length s \<le> 1024 \<and> list_all (\<lambda>c. 32 \<le> (of_char c :: nat)) s"

definition require :: "bool \<Rightarrow> string \<Rightarrow> py_error + unit" where
  "require b msg = (if b then Inr () else Inl (ValueError msg))"

definition check_text :: "string \<Rightarrow> string \<Rightarrow> py_error + string" where
  "check_text v field = bind_res (require (text_ok v) (''invalid '' @ field)) (\<lambda>_. Inr v)"

definition batch_scope :: "path_env \<Rightarrow> string \<Rightarrow> string \<Rightarrow> string \<Rightarrow> py_error + string \<times> string" where
  "batch_scope e project_name project_root scope =
     bind_res (check_text project_name ''project_name'') (\<lambda>name.
     if scope = ''all'' then
       bind_res (require (project_root = []) ''a device selection has no directory owner'') (\<lambda>_. Inr (name, []))
     else
       bind_res (require (scope = ''project'') ''invalid batch scope'') (\<lambda>_.
       bind_res (require (pe_absolute e project_root) ''project_root must be absolute and traversal-free'') (\<lambda>_.
       Inr (name, pe_resolve e project_root))))"

text \<open>\<^verbatim>\<open>json.dumps\<close> of a tuple of strings.\<close>

definition identity_json :: "string \<times> string \<times> string \<times> string \<Rightarrow> string" where
  "identity_json k = (case k of (a, b, c, d) \<Rightarrow>
     ''['' @ join_words '', '' (map json_text [a, b, c, d]) @ '']'')"

fun select_items ::
  "digests \<Rightarrow> (string \<times> string \<times> string \<times> string) list \<Rightarrow> string list \<Rightarrow> selection_item list \<Rightarrow>
   py_error + batch_ref list" where
  "select_items h identities references [] = Inr []"
| "select_items h identities references (((c, s, i, v), rid) # items) =
     bind_res (check_text c ''client'') (\<lambda>_.
     bind_res (check_text s ''session_id'') (\<lambda>_.
     bind_res (check_text i ''source_id'') (\<lambda>_.
     bind_res (check_text v ''source_revision'') (\<lambda>_.
     bind_res (check_text (case rid of None \<Rightarrow> sha256_text h (identity_json (c, s, i, v)) | Some x \<Rightarrow> x) ''reference_id'')
       (\<lambda>reference.
     bind_res (require ((c, s, i, v) \<notin> set identities \<and> reference \<notin> set references)
                ''duplicate selection or reference_id'') (\<lambda>_.
     bind_res (select_items h ((c, s, i, v) # identities) (reference # references) items) (\<lambda>rest.
     Inr (\<lparr> br_client = c, br_session_id = s, br_source_id = i, br_source_revision = v,
            br_reference_id = reference \<rparr> # rest))))))))"

definition selection :: "digests \<Rightarrow> selection_item list \<Rightarrow> py_error + batch_ref list" where
  "selection h items =
     bind_res (require (items \<noteq> []) ''sessions must be a nonempty list'') (\<lambda>_.
     bind_res (select_items h [] [] items) (\<lambda>selected. Inr (sort_key ref_identity selected)))"

definition completed_references :: "string list \<Rightarrow> batch_ref list \<Rightarrow> py_error + string list" where
  "completed_references vs sessions =
     bind_res (map_res (\<lambda>v. check_text v ''already_completed reference_id'') vs) (\<lambda>references.
     bind_res (require (set references \<subseteq> br_reference_id ` set sessions)
                ''already_completed must be a subset of selection'') (\<lambda>_.
     Inr (sort (remdups references))))"

section \<open>Manifests\<close>

record batch_device =
  d_started_at :: "time option"
  d_skipped :: "(string \<times> string) list"
  d_validated :: "(string \<times> batch_ref) list"

record batch =
  b_version :: int
  b_batch_id :: string
  b_project_name :: string
  b_project_root :: string
  b_state :: string
  b_sessions :: "batch_ref list"
  b_bindings :: "(string \<times> string) list"
  b_failures :: "(string \<times> string) list"
  b_runtime_fingerprint :: "string option"
  b_already_completed :: "string list"
  b_device :: "batch_device option"

type_synonym batch_store = "(string \<times> batch) list"

definition canonical_uuid :: "string \<Rightarrow> bool" where
  "canonical_uuid s \<longleftrightarrow> length s = 36 \<and>
     list_all (\<lambda>i. if i \<in> {8, 13, 18, 23} then s ! i = CHR ''-'' else s ! i \<in> set ''0123456789abcdef'') [0..<36]"

definition skip_reasons :: "string list" where
  "skip_reasons = [''empty_source'', ''empty_draft'', ''excluded'']"

definition batch_skipped :: "batch \<Rightarrow> (string \<times> string) list" where \<comment> \<open>\<^verbatim>\<open>payload.get("skipped", {})\<close>\<close>
  "batch_skipped m = (case b_device m of None \<Rightarrow> [] | Some d \<Rightarrow> d_skipped d)"

definition create ::
  "digests \<Rightarrow> path_env \<Rightarrow> time \<Rightarrow> string \<Rightarrow> string \<Rightarrow> string \<Rightarrow> selection_item list \<Rightarrow> string option \<Rightarrow>
   string list option \<Rightarrow> string \<Rightarrow> batch_store \<Rightarrow> py_error + batch \<times> batch_store" where
  "create h e now batch_id project_name project_root sessions runtime_fingerprint already_completed scope st =
     bind_res (batch_scope e project_name project_root scope) (\<lambda>(name, root).
     bind_res (selection h sessions) (\<lambda>selected.
     bind_res (case runtime_fingerprint of None \<Rightarrow> Inr [] | Some f \<Rightarrow> check_text f ''runtime_fingerprint'') (\<lambda>_.
     bind_res (completed_references (case already_completed of None \<Rightarrow> [] | Some xs \<Rightarrow> xs) selected) (\<lambda>completed.
     bind_res (require (canonical_uuid batch_id) ''batch_id must be a canonical UUID'') (\<lambda>_.
     if map_of st batch_id \<noteq> None then Inl (FileExistsError batch_id)
     else
       let payload = \<lparr> b_version = (if scope = ''all'' then 2 else 1), b_batch_id = batch_id,
             b_project_name = name, b_project_root = root, b_state = ''active'', b_sessions = selected,
             b_bindings = [], b_failures = [], b_runtime_fingerprint = runtime_fingerprint,
             b_already_completed = completed,
             b_device = (if scope = ''all''
                         then Some \<lparr> d_started_at = Some now, d_skipped = [], d_validated = [] \<rparr>
                         else None) \<rparr>
       in Inr (payload, AList.update batch_id payload st))))))"

definition check_values :: "string \<Rightarrow> string list \<Rightarrow> (string \<times> string) list \<Rightarrow> py_error + string list" where
  "check_values field ids values =
     bind_res (require (fst ` set values \<subseteq> set ids) (''invalid '' @ field)) (\<lambda>_.
     map_res (\<lambda>v. check_text (snd v) field) values)"

definition check_skips :: "string list \<Rightarrow> batch_device \<Rightarrow> py_error + unit" where
  "check_skips ids d =
     bind_res (require (d_started_at d \<noteq> None) ''batch start time must include a timezone'') (\<lambda>_.
     bind_res (require (fst ` set (d_skipped d) \<subseteq> set ids) ''invalid skipped references'') (\<lambda>_.
     require (snd ` set (d_skipped d) \<subseteq> set skip_reasons) ''invalid skip reason''))"

definition check_validated :: "digests \<Rightarrow> batch \<Rightarrow> batch_device \<Rightarrow> py_error + unit" where
  "check_validated h m d =
     bind_res (require (set (map fst (d_skipped d)) \<inter> set (map fst (b_bindings m)) = {})
                ''a skipped source cannot own a job'') (\<lambda>_.
     bind_res (require (set (map fst (d_validated d)) = set (map fst (b_bindings m)))
                ''each device binding requires a validated immutable reference'') (\<lambda>_.
     bind_res (map_res (\<lambda>r. bind_res (selection h [ref_item r]) (\<lambda>sel.
                 require (sel = [r] \<and> starts_with ''sha256:'' (br_source_revision r))
                   ''invalid validated source reference'')) (map snd (d_validated d)))
       (\<lambda>_. Inr ())))"

definition check_batch :: "digests \<Rightarrow> batch \<Rightarrow> py_error + unit" where
  "check_batch h m =
     (let ids = map br_reference_id (b_sessions m) in
     bind_res (require (b_state m \<in> {''active'', ''stopped''}) ''invalid batch state'') (\<lambda>_.
     bind_res (selection h (map ref_item (b_sessions m))) (\<lambda>sel.
     bind_res (require (sel = b_sessions m) ''invalid frozen selection'') (\<lambda>_.
     bind_res (completed_references (b_already_completed m) (b_sessions m)) (\<lambda>completed.
     bind_res (require (completed = b_already_completed m) ''already_completed must be sorted and unique'') (\<lambda>_.
     bind_res (case b_device m of None \<Rightarrow> Inr () | Some d \<Rightarrow> check_skips ids d) (\<lambda>_.
     bind_res (check_values ''bindings'' ids (b_bindings m)) (\<lambda>_.
     bind_res (check_values ''failures'' ids (b_failures m)) (\<lambda>_.
     bind_res (require (distinct (map snd (b_bindings m))) ''job bound to multiple references'') (\<lambda>_.
     case b_device m of None \<Rightarrow> Inr () | Some d \<Rightarrow> check_validated h m d))))))))))"

definition load_batch ::
  "digests \<Rightarrow> path_env \<Rightarrow> string \<Rightarrow> string \<Rightarrow> string \<Rightarrow> batch_store \<Rightarrow> py_error + batch" where
  "load_batch h e batch_id project_name project_root st =
     bind_res (require (canonical_uuid batch_id) ''batch_id must be a canonical UUID'') (\<lambda>_.
     case map_of st batch_id of
       None \<Rightarrow> Inl (FileNotFoundError batch_id)
     | Some m \<Rightarrow>
         let device_scope = (b_version m = 2 \<and> b_device m \<noteq> None) in
         bind_res (batch_scope e project_name project_root (if device_scope then ''all'' else ''project''))
           (\<lambda>(name, root).
         bind_res (require ((b_device m \<noteq> None) = device_scope) ''invalid manifest schema'') (\<lambda>_.
         bind_res (case b_runtime_fingerprint m of None \<Rightarrow> Inr []
                   | Some f \<Rightarrow> check_text f ''runtime_fingerprint'') (\<lambda>_.
         bind_res (require (b_version m = (if device_scope then 2 else 1)) ''unsupported manifest version'') (\<lambda>_.
         bind_res (require (b_batch_id m = batch_id \<and> b_project_name m = name \<and> b_project_root m = root)
                    ''manifest scope mismatch'') (\<lambda>_.
         bind_res (check_batch h m) (\<lambda>_. Inr m)))))))"

section \<open>Updates\<close>

definition bind_stage ::
  "digests \<Rightarrow> string \<Rightarrow> string \<Rightarrow> selection_item option \<Rightarrow> batch \<Rightarrow> py_error + batch" where
  "bind_stage h reference_id job_id source_reference m =
     bind_res (require (map_of (batch_skipped m) reference_id = None) ''source was skipped in this selection'') (\<lambda>_.
     bind_res (case map_of (b_bindings m) reference_id of
         Some existing \<Rightarrow> bind_res (require (existing = job_id) ''reference cannot be rebound'') (\<lambda>_. Inr m)
       | None \<Rightarrow>
           bind_res (require (b_state m \<noteq> ''stopped'') ''batch is stopped'') (\<lambda>_.
           bind_res (require (job_id \<notin> snd ` set (b_bindings m)) ''job already bound to another reference'') (\<lambda>_.
           Inr (m\<lparr>b_bindings := AList.update reference_id job_id (b_bindings m)\<rparr>)))) (\<lambda>m1.
     case b_device m1 of
       None \<Rightarrow> Inr m1
     | Some d \<Rightarrow>
         (case source_reference of
            None \<Rightarrow> Inl (ValueError ''device job requires a validated source reference'')
          | Some item \<Rightarrow>
              bind_res (selection h [item]) (\<lambda>sel.
              bind_res (require (map ref_item sel = [item]) ''device job requires a validated source reference'') (\<lambda>_.
              bind_res (require (map_of (d_validated d) reference_id \<in> {None, Some (hd sel)})
                         ''validated source cannot be rebound'') (\<lambda>_.
              Inr (m1\<lparr>b_device := Some (d\<lparr>d_validated := AList.update reference_id (hd sel) (d_validated d)\<rparr>)\<rparr>)))))))"

definition failure_stage :: "string \<Rightarrow> string \<Rightarrow> bool \<Rightarrow> batch \<Rightarrow> py_error + batch" where
  "failure_stage reference_id reason stop_batch m =
     (case map_of (b_failures m) reference_id of
        Some existing \<Rightarrow>
          bind_res (require (existing = reason \<or> stop_batch) ''unresolved failure cannot be overwritten'') (\<lambda>_. Inr m)
      | None \<Rightarrow> Inr (m\<lparr>b_failures := AList.update reference_id reason (b_failures m)\<rparr>))"

definition skip_stage :: "string \<Rightarrow> string \<Rightarrow> batch \<Rightarrow> py_error + batch" where
  "skip_stage reference_id skip_reason m =
     (case b_device m of
        None \<Rightarrow> Inl (ValueError ''source cannot be skipped'')
      | Some d \<Rightarrow>
          bind_res (require (map_of (b_bindings m) reference_id = None \<and> map_of (b_failures m) reference_id = None)
                     ''source cannot be skipped'') (\<lambda>_.
          bind_res (require (map_of (d_skipped d) reference_id \<in> {None, Some skip_reason})
                     ''skip decision cannot be overwritten'') (\<lambda>_.
          Inr (m\<lparr>b_device := Some (d\<lparr>d_skipped := AList.update reference_id skip_reason (d_skipped d)\<rparr>)\<rparr>))))"

definition completed_stage :: "string \<Rightarrow> batch \<Rightarrow> batch" where
  "completed_stage reference_id m =
     m\<lparr>b_already_completed := sort (remdups (reference_id # b_already_completed m))\<rparr>"

definition update_batch ::
  "digests \<Rightarrow> path_env \<Rightarrow> string \<Rightarrow> string \<Rightarrow> string \<Rightarrow> string \<Rightarrow> string option \<Rightarrow> string option \<Rightarrow> bool \<Rightarrow>
   string option \<Rightarrow> bool \<Rightarrow> selection_item option \<Rightarrow> batch_store \<Rightarrow> py_error + batch \<times> batch_store" where
  "update_batch h e batch_id project_name project_root reference_id job_id reason stop_batch skip_reason
     already_completed source_reference st =
     bind_res (load_batch h e batch_id project_name project_root st) (\<lambda>m.
     if reference_id \<notin> br_reference_id ` set (b_sessions m) then Inl (KeyError reference_id)
     else
       bind_res (case job_id of None \<Rightarrow> Inr m
                 | Some j \<Rightarrow> bind_stage h reference_id j source_reference m) (\<lambda>m1.
       bind_res (case reason of None \<Rightarrow> Inr m1
                 | Some r \<Rightarrow> failure_stage reference_id r stop_batch m1) (\<lambda>m2.
       bind_res (case skip_reason of None \<Rightarrow> Inr m2 | Some r \<Rightarrow> skip_stage reference_id r m2) (\<lambda>m3.
       let m4 = (if already_completed then completed_stage reference_id m3 else m3);
           payload = (if stop_batch then m4\<lparr>b_state := ''stopped''\<rparr> else m4)
       in Inr (payload, AList.update batch_id payload st)))))"

definition record_skip ::
  "digests \<Rightarrow> path_env \<Rightarrow> string \<Rightarrow> string \<Rightarrow> string \<Rightarrow> string \<Rightarrow> batch_store \<Rightarrow> py_error + batch \<times> batch_store" where
  "record_skip h e batch_id project_name reference_id reason st =
     bind_res (require (reason \<in> set skip_reasons) ''invalid skip reason'') (\<lambda>_.
     update_batch h e batch_id project_name [] reference_id None None False (Some reason) False None st)"

definition mark_already_completed ::
  "digests \<Rightarrow> path_env \<Rightarrow> string \<Rightarrow> string \<Rightarrow> string \<Rightarrow> string \<Rightarrow> batch_store \<Rightarrow> py_error + batch \<times> batch_store" where
  "mark_already_completed h e batch_id project_name project_root reference_id st =
     update_batch h e batch_id project_name project_root reference_id None None False None True None st"

definition bind_job ::
  "digests \<Rightarrow> path_env \<Rightarrow> string \<Rightarrow> string \<Rightarrow> string \<Rightarrow> string \<Rightarrow> string \<Rightarrow> selection_item option \<Rightarrow> batch_store \<Rightarrow>
   py_error + batch \<times> batch_store" where
  "bind_job h e batch_id project_name project_root reference_id job_id source_reference st =
     bind_res (check_text job_id ''job_id'') (\<lambda>job_id.
     update_batch h e batch_id project_name project_root reference_id (Some job_id) None False None False
       source_reference st)"

definition record_failure ::
  "digests \<Rightarrow> path_env \<Rightarrow> string \<Rightarrow> string \<Rightarrow> string \<Rightarrow> string \<Rightarrow> string \<Rightarrow> bool \<Rightarrow> batch_store \<Rightarrow>
   py_error + batch \<times> batch_store" where
  "record_failure h e batch_id project_name project_root reference_id reason stop_batch st =
     bind_res (check_text reason ''reason'') (\<lambda>reason.
     update_batch h e batch_id project_name project_root reference_id None (Some reason) stop_batch None False None st)"

definition retry_failures ::
  "digests \<Rightarrow> path_env \<Rightarrow> string \<Rightarrow> string \<Rightarrow> string \<Rightarrow> batch_store \<Rightarrow> py_error + batch \<times> batch_store" where
  "retry_failures h e batch_id project_name project_root st =
     bind_res (load_batch h e batch_id project_name project_root st) (\<lambda>m.
     bind_res (require (b_state m = ''active'') ''batch is stopped'') (\<lambda>_.
     let payload = m\<lparr>b_failures := []\<rparr> in Inr (payload, AList.update batch_id payload st)))"

section \<open>Ownership\<close>

definition metadata_text :: "jdict \<Rightarrow> string \<Rightarrow> string" where
  "metadata_text d k = (case map_of d k of Some (JStr s) \<Rightarrow> s | _ \<Rightarrow> [])"

definition metadata_texts :: "jdict \<Rightarrow> string \<Rightarrow> string list" where
  "metadata_texts d k = (case map_of d k of
     Some (JList xs) \<Rightarrow> concat (map (\<lambda>x. case x of JStr s \<Rightarrow> [s] | _ \<Rightarrow> []) xs) | _ \<Rightarrow> [])"

definition frozen_source_matches ::
  "digests \<Rightarrow> job \<Rightarrow> trevision option \<Rightarrow> batch_ref \<Rightarrow> bool \<Rightarrow> bool" where
  "frozen_source_matches h j revision ref metadata_hint =
     (case revision of
        None \<Rightarrow> False
      | Some r \<Rightarrow>
          if r_project_name r \<noteq> j_project_name j \<or> r_project_root r \<noteq> j_project_root j \<or> r_client r \<noteq> j_client j \<or>
             r_session_id r \<noteq> j_session_id j \<or> br_client ref \<noteq> j_client j \<or> br_session_id ref \<noteq> j_session_id j
          then False
          else if metadata_hint \<and> starts_with ''metadata:'' (br_source_revision ref)
          then list_ex (\<lambda>locator. locator \<noteq> [] \<and>
                 br_source_id ref = transcript_source_id h (j_client j) ''metadata-source'' (j_session_id j) locator)
                 (r_source_uri r # metadata_text (r_metadata r) ''native_source_uri'' #
                  metadata_texts (r_metadata r) ''native_source_aliases'')
          else (j_source_id j = br_source_id ref \<and> j_source_revision j = br_source_revision ref) \<or>
               (metadata_hint \<and> j_source_id j = br_source_id ref \<and>
                ''sha256:'' @ r_raw_sha256 r = br_source_revision ref))"

definition read_scope ::
  "digests \<Rightarrow> path_env \<Rightarrow> string \<Rightarrow> batch_store \<Rightarrow> py_error + string \<times> string option" where
  "read_scope h e batch_id st =
     bind_res (require (canonical_uuid batch_id) ''batch_id must be a canonical UUID'') (\<lambda>_.
     case map_of st batch_id of
       None \<Rightarrow> Inl (FileNotFoundError batch_id)
     | Some m \<Rightarrow>
         bind_res (batch_scope e (b_project_name m) (b_project_root m)
                     (if b_device m \<noteq> None then ''all'' else ''project'')) (\<lambda>(name, root).
         bind_res (load_batch h e batch_id name root st) (\<lambda>_.
         Inr (name, if root = [] then None else Some root))))"

definition device_owns :: "digests \<Rightarrow> job \<Rightarrow> trevision option \<Rightarrow> batch \<Rightarrow> batch_device \<Rightarrow> bool" where
  "device_owns h j revision m d =
     list_ex (\<lambda>ref. map_of (d_skipped d) (br_reference_id ref) = None \<and>
         frozen_source_matches h j revision
           (case map_of (d_validated d) (br_reference_id ref) of None \<Rightarrow> ref | Some v \<Rightarrow> v)
           (map_of (b_bindings m) (br_reference_id ref) = None))
       (b_sessions m)"

definition project_owns :: "path_env \<Rightarrow> job \<Rightarrow> trevision option \<Rightarrow> batch \<Rightarrow> py_error + bool" where
  "project_owns e j revision m =
     (case revision of
        None \<Rightarrow> Inr False
      | Some r \<Rightarrow>
          if r_project_name r \<noteq> j_project_name j then Inr False
          else bind_res (batch_scope e (j_project_name j) (r_project_root r) ''project'') (\<lambda>(_, revision_root).
               bind_res (batch_scope e (j_project_name j) (j_project_root j) ''project'') (\<lambda>(_, job_root).
               Inr (revision_root = job_root \<and> r_client r = j_client j \<and> r_session_id r = j_session_id j \<and>
                    list_ex (\<lambda>ref. br_client ref = j_client j \<and> br_session_id ref = j_session_id j \<and>
                      ((j_source_id j = br_source_id ref \<and> j_source_revision j = br_source_revision ref) \<or>
                       ''sha256:'' @ r_raw_sha256 r = br_source_revision ref)) (b_sessions m)))))"

text \<open>What one manifest file says of a job.\<close>

definition batch_owns ::
  "digests \<Rightarrow> path_env \<Rightarrow> job \<Rightarrow> trevision option \<Rightarrow> batch_store \<Rightarrow> string \<times> batch \<Rightarrow> py_error + bool" where
  "batch_owns h e j revision st entry =
     (case entry of (stem, m) \<Rightarrow>
      case b_device m of
        Some d \<Rightarrow>
          bind_res (load_batch h e stem (b_project_name m) [] st) (\<lambda>manifest.
          Inr (j_id j \<in> snd ` set (b_bindings manifest) \<or> device_owns h j revision manifest d))
      | None \<Rightarrow>
          if b_project_name m \<noteq> j_project_name j then Inr False
          else bind_res (batch_scope e (j_project_name j) (b_project_root m) ''project'') (\<lambda>(_, header_root).
               bind_res (batch_scope e (j_project_name j) (j_project_root j) ''project'') (\<lambda>(_, job_root).
               if header_root \<noteq> job_root then Inr False
               else bind_res (load_batch h e stem (j_project_name j) (j_project_root j) st) (\<lambda>manifest.
                    if j_id j \<in> snd ` set (b_bindings manifest) then Inr True
                    else project_owns e j revision manifest))))"

fun first_true :: "('a \<Rightarrow> py_error + bool) \<Rightarrow> 'a list \<Rightarrow> py_error + bool" where
  "first_true f [] = Inr False"
| "first_true f (x # xs) = bind_res (f x) (\<lambda>b. if b then Inr True else first_true f xs)"

definition owns_job ::
  "digests \<Rightarrow> path_env \<Rightarrow> job \<Rightarrow> trevision option \<Rightarrow> batch_store \<Rightarrow> py_error + bool" where
  "owns_job h e j revision st =
     (if j_manual_only j then Inr True
      else first_true (batch_owns h e j revision st) (sort_key fst st))"

end
