(* ===== verification/BatchInvariant.thy ===== *)
theory BatchInvariant
  imports ManualBatch "HOL-Library.Sublist"
begin

text \<open>
  The invariant of the batch store: what the checks of \<^verbatim>\<open>load\<close> accept as a plain predicate (\<open>batch_ok\<close>), how a
  manifest may change (\<open>batch_le\<close>), one preservation lemma per stage of an update, and the store as a machine
  that interprets the interface \<open>monotone_machine\<close>.
\<close>

section \<open>What the checks accept\<close>

lemma require_Inr [res_simps]: "require b msg = Inr u \<longleftrightarrow> b"
  by (simp add: require_def)

lemma require_simps [simp]: "require True msg = Inr ()" "require False msg = Inl (ValueError msg)"
  by (simp_all add: require_def)

lemma check_text_Inr [res_simps]: "check_text v field = Inr w \<longleftrightarrow> text_ok v \<and> w = v"
  by (auto simp: check_text_def res_simps)

lemma check_text_ok [simp]: "text_ok v \<Longrightarrow> check_text v field = Inr v"
  by (simp add: res_simps)

lemma batch_scope_Inr [res_simps]:
  "batch_scope e name root scope = Inr (n, r) \<longleftrightarrow> text_ok name \<and> n = name \<and>
     (scope = ''all'' \<and> root = [] \<and> r = [] \<or> scope = ''project'' \<and> pe_absolute e root \<and> r = pe_resolve e root)"
  by (auto simp: batch_scope_def res_simps)

definition item_ref :: "digests \<Rightarrow> selection_item \<Rightarrow> batch_ref" where
  "item_ref h item = (case item of ((c, s, i, v), rid) \<Rightarrow>
     \<lparr> br_client = c, br_session_id = s, br_source_id = i, br_source_revision = v,
       br_reference_id = (case rid of None \<Rightarrow> sha256_text h (identity_json (c, s, i, v)) | Some x \<Rightarrow> x) \<rparr>)"

definition ref_ok :: "batch_ref \<Rightarrow> bool" where
  "ref_ok r \<longleftrightarrow> text_ok (br_client r) \<and> text_ok (br_session_id r) \<and> text_ok (br_source_id r) \<and>
     text_ok (br_source_revision r) \<and> text_ok (br_reference_id r)"

lemma item_ref_item [simp]: "item_ref h (ref_item r) = r"
  by (simp add: item_ref_def ref_item_def ref_identity_def)

lemma ref_identity_item [simp]: "ref_identity (item_ref h item) = fst item"
  by (simp add: item_ref_def ref_identity_def split: prod.split)

lemma select_items_Inr:
  "select_items h ids refs items = Inr rs \<longleftrightarrow>
     rs = map (item_ref h) items \<and> list_all ref_ok rs \<and>
     distinct (map ref_identity rs) \<and> set (map ref_identity rs) \<inter> set ids = {} \<and>
     distinct (map br_reference_id rs) \<and> set (map br_reference_id rs) \<inter> set refs = {}"
proof (induction h ids refs items arbitrary: rs rule: select_items.induct)
  case (2 h ids refs c s i v rid items)
  let ?r = "item_ref h ((c, s, i, v), rid)"
  have step: "select_items h ids refs (((c, s, i, v), rid) # items) = Inr rs \<longleftrightarrow>
      ref_ok ?r \<and> (c, s, i, v) \<notin> set ids \<and> br_reference_id ?r \<notin> set refs \<and>
      (\<exists>rest. select_items h ((c, s, i, v) # ids) (br_reference_id ?r # refs) items = Inr rest \<and> rs = ?r # rest)"
    by (auto simp: bind_res_Inr require_Inr check_text_Inr item_ref_def ref_ok_def)
  have IH: "select_items h ((c, s, i, v) # ids) (br_reference_id ?r # refs) items = Inr rest \<longleftrightarrow>
      rest = map (item_ref h) items \<and> list_all ref_ok rest \<and>
      distinct (map ref_identity rest) \<and> set (map ref_identity rest) \<inter> set ((c, s, i, v) # ids) = {} \<and>
      distinct (map br_reference_id rest) \<and> set (map br_reference_id rest) \<inter> set (br_reference_id ?r # refs) = {}" for rest
    by (rule 2)
  define r qs where "r = ?r" and "qs = map (item_ref h) items"
  have idn: "(c, s, i, v) = ref_identity r" by (simp add: r_def)
  have m: "map (item_ref h) (((c, s, i, v), rid) # items) = r # qs" by (simp add: r_def qs_def)
  show ?case unfolding step IH m unfolding r_def[symmetric] qs_def[symmetric] unfolding idn
    by (cases "rs = r # qs"; simp; argo?)
qed auto

definition refs_ok :: "batch_ref list \<Rightarrow> bool" where
  "refs_ok rs \<longleftrightarrow> rs \<noteq> [] \<and> list_all ref_ok rs \<and> distinct (map ref_identity rs) \<and>
     distinct (map br_reference_id rs) \<and> sorted (map ref_identity rs)"

lemma sort_key_Nil [simp]: "sort_key f xs = [] \<longleftrightarrow> xs = []"
  by (metis length_0_conv length_sort)

lemma selection_refs_ok: "selection h items = Inr rs \<Longrightarrow> refs_ok rs"
  by (auto simp: selection_def bind_res_Inr require_Inr select_items_Inr refs_ok_def list_all_iff distinct_map
      simp del: map_map)

lemma selection_again: "selection h (map ref_item rs) = Inr rs \<longleftrightarrow> refs_ok rs"
proof
  assume "refs_ok rs"
  then show "selection h (map ref_item rs) = Inr rs"
    by (auto simp: selection_def bind_res_Inr require_Inr select_items_Inr refs_ok_def o_def sort_key_id_if_sorted)
qed (rule selection_refs_ok)

lemma completed_references_Inr [res_simps]:
  "completed_references vs rs = Inr c \<longleftrightarrow>
     list_all text_ok vs \<and> set vs \<subseteq> br_reference_id ` set rs \<and> c = sort (remdups vs)"
proof -
  have "list_all2 (\<lambda>x y. text_ok x \<and> y = x) vs ys \<longleftrightarrow> list_all text_ok vs \<and> ys = vs" for ys
    by (induction vs arbitrary: ys) (auto simp: list_all2_Cons1)
  then show ?thesis by (auto simp: completed_references_def res_simps)
qed

text \<open>The dict_keys and the values of a dictionary, and the references of a batch.\<close>

definition dict_keys :: "('k \<times> 'v) list \<Rightarrow> 'k set" where "dict_keys al = fst ` set al"
definition dict_vals :: "('k \<times> 'v) list \<Rightarrow> 'v set" where "dict_vals al = snd ` set al"
definition batch_ids :: "batch \<Rightarrow> string set" where "batch_ids m = br_reference_id ` set (b_sessions m)"

definition values_ok :: "string set \<Rightarrow> (string \<times> string) list \<Rightarrow> bool" where
  "values_ok ids vs \<longleftrightarrow> dict_keys vs \<subseteq> ids \<and> list_all (\<lambda>v. text_ok (snd v)) vs"

lemma check_values_Inr [res_simps]: "check_values f ids vs = Inr ws \<longleftrightarrow> values_ok (set ids) vs \<and> ws = map snd vs"
proof -
  have "list_all2 (\<lambda>v w. text_ok (snd v) \<and> w = snd v) vs ws \<longleftrightarrow> list_all (\<lambda>v. text_ok (snd v)) vs \<and> ws = map snd vs"
    by (induction vs arbitrary: ws) (auto simp: list_all2_Cons1)
  then show ?thesis by (auto simp: check_values_def values_ok_def dict_keys_def res_simps)
qed

definition device_ok :: "batch \<Rightarrow> batch_device \<Rightarrow> bool" where
  "device_ok m d \<longleftrightarrow>
     d_started_at d \<noteq> None \<and> dict_keys (d_skipped d) \<subseteq> batch_ids m \<and> dict_vals (d_skipped d) \<subseteq> set skip_reasons \<and>
     dict_keys (d_skipped d) \<inter> dict_keys (b_bindings m) = {} \<and> dict_keys (d_validated d) = dict_keys (b_bindings m) \<and>
     list_all (\<lambda>v. ref_ok (snd v) \<and> starts_with ''sha256:'' (br_source_revision (snd v))) (d_validated d)"

text \<open>The manifests \<^verbatim>\<open>load\<close> accepts, whatever scope is asked for.\<close>

definition batch_ok :: "batch \<Rightarrow> bool" where
  "batch_ok m \<longleftrightarrow>
     b_version m = (if b_device m \<noteq> None then 2 else 1) \<and> b_state m \<in> {''active'', ''stopped''} \<and>
     (case b_runtime_fingerprint m of None \<Rightarrow> True | Some f \<Rightarrow> text_ok f) \<and> refs_ok (b_sessions m) \<and>
     list_all text_ok (b_already_completed m) \<and> sorted (b_already_completed m) \<and> distinct (b_already_completed m) \<and>
     set (b_already_completed m) \<subseteq> batch_ids m \<and>
     values_ok (batch_ids m) (b_bindings m) \<and>
     values_ok (batch_ids m) (b_failures m) \<and> distinct (map snd (b_bindings m)) \<and>
     (case b_device m of None \<Rightarrow> True | Some d \<Rightarrow> device_ok m d)"

lemma check_skips_Inr: "check_skips (map br_reference_id (b_sessions m)) d = Inr u \<longleftrightarrow>
    d_started_at d \<noteq> None \<and> dict_keys (d_skipped d) \<subseteq> batch_ids m \<and> dict_vals (d_skipped d) \<subseteq> set skip_reasons"
  by (auto simp: check_skips_def res_simps dict_keys_def dict_vals_def batch_ids_def)

lemma refs_ok_single: "refs_ok [r] \<longleftrightarrow> ref_ok r"
  by (simp add: refs_ok_def)

lemma check_validated_Inr: "check_validated h m d = Inr u \<longleftrightarrow>
    dict_keys (d_skipped d) \<inter> dict_keys (b_bindings m) = {} \<and> dict_keys (d_validated d) = dict_keys (b_bindings m) \<and>
    list_all (\<lambda>v. ref_ok (snd v) \<and> starts_with ''sha256:'' (br_source_revision (snd v))) (d_validated d)"
proof -
  have "selection h [ref_item r] = Inr [r] \<longleftrightarrow> ref_ok r" for r
    using selection_again[of h "[r]"] by (simp add: refs_ok_single)
  moreover have "(\<exists>ys :: unit list. list_all2 (\<lambda>x y. Q x) xs ys) \<longleftrightarrow> list_all Q xs" for Q and xs :: "batch_ref list"
    by (induction xs) (auto simp: list_all2_Cons1)
  ultimately show ?thesis by (auto simp: check_validated_def res_simps list_all_iff dict_keys_def)
qed

lemma check_batch_Inr: "check_batch h m = Inr u \<longleftrightarrow>
    b_state m \<in> {''active'', ''stopped''} \<and> refs_ok (b_sessions m) \<and>
    list_all text_ok (b_already_completed m) \<and> sorted (b_already_completed m) \<and> distinct (b_already_completed m) \<and>
    set (b_already_completed m) \<subseteq> batch_ids m \<and>
    values_ok (batch_ids m) (b_bindings m) \<and>
    values_ok (batch_ids m) (b_failures m) \<and> distinct (map snd (b_bindings m)) \<and>
    (case b_device m of None \<Rightarrow> True | Some d \<Rightarrow> device_ok m d)"
proof -
  have s: "sort (remdups xs) = xs \<longleftrightarrow> sorted xs \<and> distinct xs" for xs :: "string list"
    by (metis distinct_remdups distinct_remdups_id distinct_sort sorted_sort sorted_sort_id)
  show ?thesis
    by (cases "b_device m")
       (auto simp: check_batch_def Let_def res_simps s selection_again check_skips_Inr check_validated_Inr device_ok_def batch_ids_def)
qed

lemma load_batch_Inr:
  "load_batch h e batch_id name root st = Inr m \<longleftrightarrow>
     canonical_uuid batch_id \<and> map_of st batch_id = Some m \<and> batch_ok m \<and> b_batch_id m = batch_id \<and>
     batch_scope e name root (if b_device m \<noteq> None then ''all'' else ''project'') =
       Inr (b_project_name m, b_project_root m)"
  by (cases "b_runtime_fingerprint m"; cases "b_device m")
     (auto simp: load_batch_def Let_def bind_res_Inr require_Inr check_text_Inr check_batch_Inr batch_ok_def
       split: option.splits)

section \<open>What an update does\<close>

lemma update_new: "map_of al k = None \<Longrightarrow> AList.update k v al = al @ [(k, v)]"
  by (induction al) auto

lemma dict_append [simp]: "dict_keys (al @ [(k, v)]) = insert k (dict_keys al)" "dict_vals (al @ [(k, v)]) = insert v (dict_vals al)"
  "dict_keys [] = {}" "dict_vals [] = {}"
  by (auto simp: dict_keys_def dict_vals_def)

lemma dict_keys_iff: "map_of al k = None \<longleftrightarrow> k \<notin> dict_keys al"
  by (simp add: dict_keys_def map_of_eq_None_iff)

lemma map_of_key: "map_of al k = Some v \<Longrightarrow> k \<in> dict_keys al"
  by (force simp: dict_keys_def dest: map_of_SomeD)

lemma update_ids [simp]:
  "batch_ids (m\<lparr>b_bindings := bs\<rparr>) = batch_ids m" "batch_ids (m\<lparr>b_device := d\<rparr>) = batch_ids m"
  "batch_ids (m\<lparr>b_failures := bs\<rparr>) = batch_ids m" "batch_ids (m\<lparr>b_state := st\<rparr>) = batch_ids m"
  "batch_ids (m\<lparr>b_already_completed := xs\<rparr>) = batch_ids m"
  by (simp_all add: batch_ids_def)

lemma values_ok_append: "values_ok ids vs \<Longrightarrow> k \<in> ids \<Longrightarrow> text_ok v \<Longrightarrow> values_ok ids (vs @ [(k, v)])"
  by (auto simp: values_ok_def)

definition pinned :: "selection_item option \<Rightarrow> bool" where
  "pinned item \<longleftrightarrow> (case item of None \<Rightarrow> True | Some i \<Rightarrow> starts_with ''sha256:'' (snd (snd (snd (fst i)))))"

text \<open>How a manifest may change: what is frozen stays, decisions are only added, stopping is final.\<close>

definition batch_le :: "batch \<Rightarrow> batch \<Rightarrow> bool" where
  "batch_le m m' \<longleftrightarrow>
     b_version m' = b_version m \<and> b_batch_id m' = b_batch_id m \<and> b_project_name m' = b_project_name m \<and>
     b_project_root m' = b_project_root m \<and> b_sessions m' = b_sessions m \<and>
     b_runtime_fingerprint m' = b_runtime_fingerprint m \<and> (b_device m' = None \<longleftrightarrow> b_device m = None) \<and>
     prefix (b_bindings m) (b_bindings m') \<and> prefix (batch_skipped m) (batch_skipped m') \<and>
     set (b_already_completed m) \<subseteq> set (b_already_completed m') \<and>
     (b_state m = ''stopped'' \<longrightarrow> b_state m' = ''stopped'' \<and> b_bindings m' = b_bindings m)"

lemma batch_le_refl [simp]: "batch_le m m"
  by (simp add: batch_le_def)

lemma batch_le_trans: "batch_le m n \<Longrightarrow> batch_le n k \<Longrightarrow> batch_le m k"
  unfolding batch_le_def by (auto dest: prefix_order.trans)

lemma bind_stage_elim:
  assumes "bind_stage h rid jid item m = Inr m'"
  obtains bs d' where "m' = m\<lparr>b_bindings := bs, b_device := d'\<rparr>" "map_of (batch_skipped m) rid = None"
    "bs = b_bindings m \<and> map_of bs rid = Some jid \<or>
     bs = b_bindings m @ [(rid, jid)] \<and> map_of (b_bindings m) rid = None \<and> b_state m \<noteq> ''stopped'' \<and>
       jid \<notin> dict_vals (b_bindings m)"
    "b_device m = None \<and> d' = None \<or>
     (\<exists>d i vs. b_device m = Some d \<and> item = Some i \<and> ref_ok (item_ref h i) \<and> d' = Some (d\<lparr>d_validated := vs\<rparr>) \<and>
        (vs = d_validated d \<and> map_of vs rid = Some (item_ref h i) \<or>
         vs = d_validated d @ [(rid, item_ref h i)]))"
proof -
  obtain m1 where m1: "map_of (batch_skipped m) rid = None"
    "m1 = m \<and> map_of (b_bindings m) rid = Some jid \<or>
     m1 = m\<lparr>b_bindings := b_bindings m @ [(rid, jid)]\<rparr> \<and> map_of (b_bindings m) rid = None \<and>
       b_state m \<noteq> ''stopped'' \<and> jid \<notin> dict_vals (b_bindings m)"
    "(case b_device m1 of
       None \<Rightarrow> Inr m1
     | Some d \<Rightarrow>
         (case item of
            None \<Rightarrow> Inl (ValueError ''device job requires a validated source reference'')
          | Some item \<Rightarrow>
              bind_res (selection h [item]) (\<lambda>sel.
              bind_res (require (map ref_item sel = [item]) ''device job requires a validated source reference'') (\<lambda>_.
              bind_res (require (map_of (d_validated d) rid \<in> {None, Some (hd sel)})
                         ''validated source cannot be rebound'') (\<lambda>_.
              Inr (m1\<lparr>b_device := Some (d\<lparr>d_validated := AList.update rid (hd sel) (d_validated d)\<rparr>)\<rparr>)))))) = Inr m'"
    using assms by (auto simp: bind_stage_def bind_res_Inr require_Inr update_new dict_vals_def split: option.splits)
  have dev: "b_device m1 = b_device m" using m1(2) by auto
  show ?thesis
  proof (cases "b_device m")
    case None
    then show ?thesis using m1 dev that[where bs = "b_bindings m1" and d' = None] by auto
  next
    case (Some d)
    then obtain i where i: "item = Some i" using m1(3) dev by (auto split: option.splits)
    obtain sel where sel: "selection h [i] = Inr sel" "map ref_item sel = [i]" "map_of (d_validated d) rid \<in> {None, Some (hd sel)}"
      "m' = m1\<lparr>b_device := Some (d\<lparr>d_validated := AList.update rid (hd sel) (d_validated d)\<rparr>)\<rparr>"
      using m1(3) by (auto simp: dev Some i bind_res_Inr require_Inr)
    obtain r where r: "sel = [r]" "i = ref_item r" using sel(2) by (cases sel) auto
    have "ref_ok r" using selection_refs_ok[OF sel(1)] r by (simp add: refs_ok_single)
    define vs where "vs = AList.update rid r (d_validated d)"
    have "vs = d_validated d \<and> map_of vs rid = Some r \<or> vs = d_validated d @ [(rid, r)]"
      using sel(3) r by (auto simp: vs_def update_new update_triv)
    then have "\<exists>d1 i vs1. b_device m = Some d1 \<and> item = Some i \<and> ref_ok (item_ref h i) \<and>
        Some (d\<lparr>d_validated := vs\<rparr>) = Some (d1\<lparr>d_validated := vs1\<rparr>) \<and>
        (vs1 = d_validated d1 \<and> map_of vs1 rid = Some (item_ref h i) \<or> vs1 = d_validated d1 @ [(rid, item_ref h i)])"
      using Some i r \<open>ref_ok r\<close> by (intro exI[of _ d] exI[of _ i] exI[of _ vs]) simp
    moreover have "m' = m\<lparr>b_bindings := b_bindings m1, b_device := Some (d\<lparr>d_validated := vs\<rparr>)\<rparr>"
      using m1(2) sel(4) r by (auto simp: vs_def)
    ultimately show ?thesis
      using m1(1,2) that[where bs = "b_bindings m1" and d' = "Some (d\<lparr>d_validated := vs\<rparr>)"] by auto
  qed
qed

lemma bind_stage_le:
  assumes "bind_stage h rid jid item m = Inr m'" shows "batch_le m m'"
  using assms
proof (cases rule: bind_stage_elim)
  case (1 bs d')
  then show ?thesis by (auto simp: batch_le_def batch_skipped_def)
qed

lemma device_okD: "batch_ok m \<Longrightarrow> b_device m = Some d \<Longrightarrow> device_ok m d"
  by (simp add: batch_ok_def)

lemma bind_stage_ok:
  assumes ok: "batch_ok m" and r: "bind_stage h rid jid item m = Inr m'"
    and rid: "rid \<in> batch_ids m" and jid: "text_ok jid" and pin: "pinned item"
  shows "batch_ok m'"
  using r
proof (cases rule: bind_stage_elim)
  case (1 bs d')
  have bs: "values_ok (batch_ids m) bs" "distinct (map snd bs)"
    "dict_keys bs = insert rid (dict_keys (b_bindings m))"
    using 1(3) ok rid jid map_of_key[of bs rid jid]
    by (auto simp: batch_ok_def values_ok_append insert_absorb dict_vals_def)
  have dev: "case d' of None \<Rightarrow> True | Some d \<Rightarrow> device_ok m' d"
  proof (cases "b_device m")
    case None
    then show ?thesis using 1(4) by simp
  next
    case (Some d)
    then have "\<not> (b_device m = None \<and> d' = None)" by simp
    then obtain d1 i vs where "b_device m = Some d1" and i: "item = Some i" "ref_ok (item_ref h i)" "d' = Some (d1\<lparr>d_validated := vs\<rparr>)"
      "vs = d_validated d1 \<and> map_of vs rid = Some (item_ref h i) \<or> vs = d_validated d1 @ [(rid, item_ref h i)]"
      using 1(4) by blast
    then have v: "item = Some i" "ref_ok (item_ref h i)" "d' = Some (d\<lparr>d_validated := vs\<rparr>)"
      "vs = d_validated d \<and> map_of vs rid = Some (item_ref h i) \<or> vs = d_validated d @ [(rid, item_ref h i)]"
      using Some by simp_all
    note d = device_okD[OF ok Some]
    have "starts_with ''sha256:'' (br_source_revision (item_ref h i))"
      using pin v(1) by (auto simp: pinned_def item_ref_def split: prod.splits)
    then have "dict_keys vs = insert rid (dict_keys (d_validated d))"
      "list_all (\<lambda>v. ref_ok (snd v) \<and> starts_with ''sha256:'' (br_source_revision (snd v))) vs"
      using v(2,4) d map_of_key[of vs rid "item_ref h i"] by (auto simp: device_ok_def insert_absorb)
    moreover have "rid \<notin> dict_keys (d_skipped d)"
      using 1(2) Some by (simp add: batch_skipped_def dict_keys_iff)
    ultimately show ?thesis using d v(3) 1(1) bs(3) by (simp add: device_ok_def)
  qed
  have "(d' = None) = (b_device m = None)" using 1(4) by auto
  then show ?thesis using ok bs(1,2) dev 1(1) by (cases d') (simp_all add: batch_ok_def)
qed

lemma failure_stage_keeps:
  assumes "failure_stage rid reason stop m = Inr m'" "batch_ok m" "rid \<in> batch_ids m" "text_ok reason"
  shows "batch_le m m' \<and> batch_ok m'"
proof -
  have "m' = m \<or> m' = m\<lparr>b_failures := b_failures m @ [(rid, reason)]\<rparr>"
    using assms(1) by (auto simp: failure_stage_def bind_res_Inr require_Inr update_new split: option.splits)
  then obtain fs where fs: "m' = m\<lparr>b_failures := fs\<rparr>" "fs = b_failures m \<or> fs = b_failures m @ [(rid, reason)]"
    by (metis batch.surjective batch.update_convs(8))
  have "device_ok (m\<lparr>b_failures := fs\<rparr>) d = device_ok m d" for d by (simp add: device_ok_def)
  moreover have "values_ok (batch_ids m) fs"
    using fs(2) assms(2-4) by (auto simp: batch_ok_def values_ok_append)
  ultimately show ?thesis using fs(1) assms(2)
    by (cases "b_device m") (simp_all add: batch_le_def batch_ok_def batch_skipped_def)
qed

lemma skip_stage_keeps:
  assumes "skip_stage rid reason m = Inr m'" "batch_ok m" "rid \<in> batch_ids m"
    "reason \<in> set skip_reasons"
  shows "batch_le m m' \<and> batch_ok m'"
proof -
  obtain d where d: "b_device m = Some d" "map_of (b_bindings m) rid = None"
    "m' = m\<lparr>b_device := Some (d\<lparr>d_skipped := AList.update rid reason (d_skipped d)\<rparr>)\<rparr>"
    "map_of (d_skipped d) rid \<in> {None, Some reason}"
    using assms(1) by (auto simp: skip_stage_def bind_res_Inr require_Inr split: option.splits)
  define vs where "vs = AList.update rid reason (d_skipped d)"
  have "vs = d_skipped d \<or> vs = d_skipped d @ [(rid, reason)]"
    using d(4) by (auto simp: vs_def update_new update_triv)
  note v = d(1,2) d(3)[folded vs_def] this
  then have sub: "dict_keys vs \<subseteq> insert rid (dict_keys (d_skipped d))" "dict_vals vs \<subseteq> insert reason (dict_vals (d_skipped d))"
    by auto
  have "rid \<notin> dict_keys (b_bindings m)" using v(2) by (simp add: dict_keys_iff)
  moreover have "batch_ids m' = batch_ids m" "b_bindings m' = b_bindings m" using v(3) by simp_all
  ultimately have "device_ok m' (d\<lparr>d_skipped := vs\<rparr>)"
    using device_okD[OF assms(2) v(1)] sub assms(3,4)
    by (auto simp: device_ok_def)
  then show ?thesis using v assms(2) by (auto simp: batch_le_def batch_ok_def batch_skipped_def)
qed

lemma completed_stage_keeps:
  assumes "batch_ok m" "rid \<in> batch_ids m"
  shows "batch_le m (completed_stage rid m) \<and> batch_ok (completed_stage rid m)"
proof -
  define xs where "xs = sort (remdups (rid # b_already_completed m))"
  have eq: "completed_stage rid m = m\<lparr>b_already_completed := xs\<rparr>" unfolding completed_stage_def xs_def ..
  have xs: "set xs = insert rid (set (b_already_completed m))" "sorted xs" "distinct xs" by (auto simp: xs_def)
  have "text_ok rid" using assms by (auto simp: batch_ok_def refs_ok_def list_all_iff ref_ok_def batch_ids_def)
  then have "list_all text_ok xs" using xs(1) assms(1) by (simp add: list_all_iff batch_ok_def)
  moreover have "device_ok (m\<lparr>b_already_completed := xs\<rparr>) d = device_ok m d" for d by (simp add: device_ok_def)
  ultimately show ?thesis
    unfolding eq using assms xs by (cases "b_device m") (simp_all add: batch_le_def batch_ok_def batch_skipped_def subset_insertI)
qed

lemma device_ok_irrelevant [simp]:
  "device_ok (m\<lparr>b_state := s\<rparr>) d = device_ok m d" "device_ok (m\<lparr>b_failures := fs\<rparr>) d = device_ok m d"
  "batch_skipped (m\<lparr>b_state := s\<rparr>) = batch_skipped m" "batch_skipped (m\<lparr>b_failures := fs\<rparr>) = batch_skipped m"
  by (simp_all add: device_ok_def batch_skipped_def)

lemma stop_keeps: "batch_ok m \<Longrightarrow> batch_le m (m\<lparr>b_state := ''stopped''\<rparr>) \<and> batch_ok (m\<lparr>b_state := ''stopped''\<rparr>)"
  by (cases "b_device m") (simp_all add: batch_le_def batch_ok_def)

lemma retry_keeps: "batch_ok m \<Longrightarrow> batch_le m (m\<lparr>b_failures := []\<rparr>) \<and> batch_ok (m\<lparr>b_failures := []\<rparr>)"
  by (cases "b_device m") (simp_all add: batch_le_def batch_ok_def values_ok_def)

lemma update_batch_keeps:
  assumes r: "update_batch h e bid name root rid job_id reason stop skip completed item st = Inr (m', st')"
    and j: "\<And>j. job_id = Some j \<Longrightarrow> text_ok j" and f: "\<And>f. reason = Some f \<Longrightarrow> text_ok f"
    and s: "\<And>s. skip = Some s \<Longrightarrow> s \<in> set skip_reasons" and p: "pinned item"
  obtains m where "load_batch h e bid name root st = Inr m" "st' = AList.update bid m' st" "batch_le m m'" "batch_ok m'"
proof -
  obtain m m1 m2 m3 where m: "load_batch h e bid name root st = Inr m" "rid \<in> batch_ids m"
    and m1: "(case job_id of None \<Rightarrow> Inr m | Some j \<Rightarrow> bind_stage h rid j item m) = Inr m1"
    and m2: "(case reason of None \<Rightarrow> Inr m1 | Some r \<Rightarrow> failure_stage rid r stop m1) = Inr m2"
    and m3: "(case skip of None \<Rightarrow> Inr m2 | Some r \<Rightarrow> skip_stage rid r m2) = Inr m3"
    and m': "m' = (let m4 = (if completed then completed_stage rid m3 else m3) in if stop then m4\<lparr>b_state := ''stopped''\<rparr> else m4)"
    and st': "st' = AList.update bid m' st"
    using r by (auto simp: update_batch_def bind_res_Inr Let_def batch_ids_def split: if_splits)
  have 0: "batch_ok m" using m(1) by (simp add: load_batch_Inr)
  have 1: "batch_le m m1 \<and> batch_ok m1"
    using m1 0 bind_stage_le bind_stage_ok[OF 0 _ m(2) j p] by (auto split: option.splits)
  have ids: "batch_le m n \<Longrightarrow> rid \<in> batch_ids n" for n using m(2) by (simp add: batch_le_def batch_ids_def)
  have 2: "batch_le m m2 \<and> batch_ok m2"
  proof (cases reason)
    case None
    then show ?thesis using 1 m2 by simp
  next
    case (Some q)
    then show ?thesis
      using 1 m2 failure_stage_keeps[OF _ _ ids f[OF Some], of stop m1 m2] batch_le_trans by auto
  qed
  have 3: "batch_le m m3 \<and> batch_ok m3"
  proof (cases skip)
    case None
    then show ?thesis using 2 m3 by simp
  next
    case (Some q)
    then show ?thesis
      using 2 m3 skip_stage_keeps[OF _ _ ids s[OF Some], of m2 m3] batch_le_trans by auto
  qed
  define m4 where "m4 = (if completed then completed_stage rid m3 else m3)"
  have "batch_le m m4 \<and> batch_ok m4"
    using 3 completed_stage_keeps[of m3 rid] ids batch_le_trans by (auto simp: m4_def)
  then have "batch_le m m' \<and> batch_ok m'"
    using stop_keeps[of m4] batch_le_trans by (auto simp: m' m4_def[symmetric] Let_def)
  then show ?thesis using that m(1) st' by blast
qed

section \<open>The store as a machine\<close>

datatype batch_event =
    CreateBatch time string string string "selection_item list" "string option" "string list option" string
  | SkipReference string string string string
  | CompleteReference string string string string
  | BindReference string string string string string "selection_item option"
  | FailReference string string string string string bool
  | RetryFailures string string string

text \<open>A failed operation leaves the store as it was.  The callers bind only references to captured revisions
  (\<^verbatim>\<open>commands/manual_distill.py\<close>, which passes the revision of a stored job); a bind of another one is no event.\<close>

definition settled :: "py_error + batch \<times> batch_store \<Rightarrow> batch_store \<Rightarrow> batch_store" where
  "settled r st = (case r of Inl _ \<Rightarrow> st | Inr (_, st') \<Rightarrow> st')"

fun batch_step :: "digests \<Rightarrow> path_env \<Rightarrow> batch_event \<Rightarrow> batch_store \<Rightarrow> batch_store" where
  "batch_step h e (CreateBatch now bid name root items fp completed scope) st =
     settled (create h e now bid name root items fp completed scope st) st"
| "batch_step h e (SkipReference bid name rid reason) st = settled (record_skip h e bid name rid reason st) st"
| "batch_step h e (CompleteReference bid name root rid) st = settled (mark_already_completed h e bid name root rid st) st"
| "batch_step h e (BindReference bid name root rid jid item) st =
     (if pinned item then settled (bind_job h e bid name root rid jid item st) st else st)"
| "batch_step h e (FailReference bid name root rid reason stop) st =
     settled (record_failure h e bid name root rid reason stop st) st"
| "batch_step h e (RetryFailures bid name root) st = settled (retry_failures h e bid name root st) st"

definition store_ok :: "path_env \<Rightarrow> batch_store \<Rightarrow> bool" where
  "store_ok e st \<longleftrightarrow> (\<forall>bid m. map_of st bid = Some m \<longrightarrow>
     canonical_uuid bid \<and> b_batch_id m = bid \<and> batch_ok m \<and> text_ok (b_project_name m) \<and>
     (if b_device m = None then \<exists>root. pe_absolute e root \<and> b_project_root m = pe_resolve e root
      else b_project_root m = []))"

definition store_le :: "batch_store \<Rightarrow> batch_store \<Rightarrow> bool" where
  "store_le st st' \<longleftrightarrow> (\<forall>bid m. map_of st bid = Some m \<longrightarrow> (\<exists>m'. map_of st' bid = Some m' \<and> batch_le m m'))"

lemma store_update:
  assumes ok: "store_ok e st" and m: "map_of st bid = Some m" and le: "batch_le m m'" "batch_ok m'"
  shows "store_ok e (AList.update bid m' st) \<and> store_le st (AList.update bid m' st)"
  using assms by (auto simp: store_ok_def store_le_def update_conv' batch_le_def)

lemma update_batch_step:
  assumes ok: "store_ok e st"
    and r: "update_batch h e bid name root rid job_id reason stop skip completed item st = Inr (m', st')"
    and "\<And>j. job_id = Some j \<Longrightarrow> text_ok j" "\<And>f. reason = Some f \<Longrightarrow> text_ok f"
      "\<And>s. skip = Some s \<Longrightarrow> s \<in> set skip_reasons" "pinned item"
  shows "store_ok e st' \<and> store_le st st'"
  using r assms(3-6)
proof (rule update_batch_keeps)
  fix m assume "load_batch h e bid name root st = Inr m" "st' = AList.update bid m' st" "batch_le m m'" "batch_ok m'"
  then show ?thesis using store_update[OF ok] by (simp add: load_batch_Inr)
qed

lemma create_step:
  assumes ok: "store_ok e st" and r: "create h e now bid name root items fp completed scope st = Inr (m, st')"
  shows "store_ok e st' \<and> store_le st st' \<and> b_bindings m = [] \<and> b_state m = ''active'' \<and> map_of st' bid = Some m"
proof -
  obtain n r' sel c where c: "batch_scope e name root scope = Inr (n, r')" "selection h items = Inr sel"
    "(case fp of None \<Rightarrow> True | Some f \<Rightarrow> text_ok f)" "canonical_uuid bid" "map_of st bid = None"
    "completed_references (case completed of None \<Rightarrow> [] | Some xs \<Rightarrow> xs) sel = Inr c"
    and m: "m = \<lparr> b_version = (if scope = ''all'' then 2 else 1), b_batch_id = bid,
             b_project_name = n, b_project_root = r', b_state = ''active'', b_sessions = sel,
             b_bindings = [], b_failures = [], b_runtime_fingerprint = fp, b_already_completed = c,
             b_device = (if scope = ''all''
                         then Some \<lparr> d_started_at = Some now, d_skipped = [], d_validated = [] \<rparr>
                         else None) \<rparr>"
    and st': "st' = AList.update bid m st"
    using r by (auto simp: create_def Let_def bind_res_Inr require_Inr check_text_Inr split: if_splits option.splits)
  have "batch_ok m"
    using c(2,3,6) selection_refs_ok[OF c(2)]
    by (auto simp: m batch_ok_def completed_references_Inr batch_ids_def values_ok_def device_ok_def list_all_iff split: option.splits)
  moreover have "text_ok n" "if scope = ''all'' then r' = [] else \<exists>root. pe_absolute e root \<and> r' = pe_resolve e root"
    using c(1) by (auto simp: batch_scope_Inr)
  ultimately have "store_ok e st'" using ok c(4) by (auto simp: st' store_ok_def update_conv' m split: if_splits)
  then show ?thesis using c(5) by (auto simp: store_le_def st' update_conv' m)
qed

lemma settled_keeps: "(\<And>m' st'. r = Inr (m', st') \<Longrightarrow> P st') \<Longrightarrow> P st \<Longrightarrow> P (settled r st)"
  by (auto simp: settled_def split: sum.split)

lemma batch_step_keeps:
  assumes ok: "store_ok e st"
  shows "store_ok e (batch_step h e ev st) \<and> store_le st (batch_step h e ev st)"
proof -
  define P where "P st' \<longleftrightarrow> store_ok e st' \<and> store_le st st'" for st'
  have refl: "P st" using ok by (simp add: P_def store_le_def)
  have upd: "P st'" if "update_batch h e bid name root rid job_id reason stop skip completed item st = Inr (m', st')"
    "\<And>j. job_id = Some j \<Longrightarrow> text_ok j" "\<And>f. reason = Some f \<Longrightarrow> text_ok f"
    "\<And>s. skip = Some s \<Longrightarrow> s \<in> set skip_reasons" "pinned item"
    for bid name root rid job_id reason stop skip completed item m' st'
    unfolding P_def using update_batch_step[OF ok that] .
  have "P (batch_step h e ev st)"
  proof (cases ev)
    case (CreateBatch now bid name root items fp completed scope)
    have "P st'" if "create h e now bid name root items fp completed scope st = Inr (m', st')" for m' st'
      using create_step[OF ok that] by (simp add: P_def)
    then show ?thesis using CreateBatch by (auto intro: settled_keeps refl)
  next
    case (SkipReference bid name rid reason)
    have "P st'" if "record_skip h e bid name rid reason st = Inr (m', st')" for m' st'
      using that by (intro upd[of bid name "[]" rid None None False "Some reason" False None m' st'])
        (auto simp: record_skip_def bind_res_Inr require_Inr pinned_def)
    then show ?thesis using SkipReference by (auto intro: settled_keeps refl)
  next
    case (CompleteReference bid name root rid)
    have "P st'" if "mark_already_completed h e bid name root rid st = Inr (m', st')" for m' st'
      using that by (intro upd[of bid name root rid None None False None True None m' st'])
        (auto simp: mark_already_completed_def pinned_def)
    then show ?thesis using CompleteReference by (auto intro: settled_keeps refl)
  next
    case (BindReference bid name root rid jid item)
    have "P st'" if "bind_job h e bid name root rid jid item st = Inr (m', st')" "pinned item" for m' st'
      using that by (intro upd[of bid name root rid "Some jid" None False None False item m' st'])
        (auto simp: bind_job_def bind_res_Inr check_text_Inr)
    then show ?thesis using BindReference by (auto intro: settled_keeps refl)
  next
    case (FailReference bid name root rid reason stop)
    have "P st'" if "record_failure h e bid name root rid reason stop st = Inr (m', st')" for m' st'
      using that by (intro upd[of bid name root rid None "Some reason" stop None False None m' st'])
        (auto simp: record_failure_def bind_res_Inr check_text_Inr pinned_def)
    then show ?thesis using FailReference by (auto intro: settled_keeps refl)
  next
    case (RetryFailures bid name root)
    have "P st'" if "retry_failures h e bid name root st = Inr (m', st')" for m' st'
      using that store_update[OF ok] retry_keeps
      by (auto simp: P_def retry_failures_def bind_res_Inr require_Inr load_batch_Inr Let_def)
    then show ?thesis using RetryFailures by (auto intro: settled_keeps refl)
  qed
  then show ?thesis by (simp add: P_def)
qed

lemma store_le_trans: "store_le a b \<Longrightarrow> store_le b c \<Longrightarrow> store_le a c"
  unfolding store_le_def by (metis batch_le_trans)

interpretation batches: monotone_machine "batch_step h e" "store_ok e" store_le for h e
proof unfold_locales
  show "store_le st st" for st by (simp add: store_le_def)
qed (use batch_step_keeps store_le_trans in blast)+

end
