(* ===== verification/BatchProps.thy ===== *)
theory BatchProps
  imports BatchInvariant
begin

text \<open>
  What the batch store guarantees for every sequence of operations: stored manifests load again, decisions are
  final, a bound job is claimed by its batch; and the one binding that locks a batch.
\<close>

lemma store_ok_load:
  assumes "store_ok e st" "map_of st bid = Some m"
    and "b_device m = None \<Longrightarrow> pe_absolute e root \<and> pe_resolve e root = b_project_root m"
  shows "load_batch h e bid (b_project_name m) (if b_device m = None then root else []) st = Inr m"
  using assms by (auto simp: store_ok_def load_batch_Inr batch_scope_Inr split: if_splits)

lemma store_ok_empty: "store_ok e []"
  by (simp add: store_ok_def)

section \<open>Properties\<close>


definition demo_paths :: path_env where
  "demo_paths = \<lparr> pe_absolute = (\<lambda>p. starts_with ''/'' p), pe_resolve = (\<lambda>p. p) \<rparr>"

definition demo_batch_id :: string where
  "demo_batch_id = ''01234567-89ab-cdef-0123-456789abcdef''"

definition demo_events :: "string \<Rightarrow> batch_event list" where
  "demo_events jid =
     [CreateBatch 5 demo_batch_id ''p'' ''/r'' [((''c'', ''x'', ''s'', ''r''), Some ''ref'')] None None ''project'',
      BindReference demo_batch_id ''p'' ''/r'' ''ref'' jid None]"

definition demo_batch :: "string \<Rightarrow> batch" where
  "demo_batch jid = \<lparr> b_version = 1, b_batch_id = demo_batch_id, b_project_name = ''p'', b_project_root = ''/r'',
     b_state = ''active'',
     b_sessions = [\<lparr> br_client = ''c'', br_session_id = ''x'', br_source_id = ''s'', br_source_revision = ''r'',
                     br_reference_id = ''ref'' \<rparr>],
     b_bindings = [(''ref'', jid)], b_failures = [], b_runtime_fingerprint = None, b_already_completed = [],
     b_device = None \<rparr>"

lemma demo_run: "fold (batch_step demo_digests demo_paths) (demo_events ''j1'') [] = [(demo_batch_id, demo_batch ''j1'')]"
  by code_simp


text \<open>What a batch has decided stays decided.  Whatever operations follow, a stored batch keeps its
  scope and its frozen selection, keeps every binding of a reference to a job and every skip decision, and
  once stopped it stays stopped and binds no further job.\<close>

theorem batch_decisions_are_final:
  assumes "map_of (fold (batch_step h e) events []) bid = Some m"
  shows "\<exists>m'. map_of (fold (batch_step h e) (events @ later) []) bid = Some m' \<and>
    b_sessions m' = b_sessions m \<and> b_project_name m' = b_project_name m \<and> b_project_root m' = b_project_root m \<and>
    prefix (b_bindings m) (b_bindings m') \<and> prefix (batch_skipped m) (batch_skipped m') \<and>
    (b_state m = ''stopped'' \<longrightarrow> b_state m' = ''stopped'' \<and> b_bindings m' = b_bindings m)"
proof -
  have "store_ok e (fold (batch_step h e) events [])"
    using batches.run_inv[OF store_ok_empty] by (simp add: batches.run_def)
  then have "store_le (fold (batch_step h e) events []) (fold (batch_step h e) (events @ later) [])"
    using batches.run_below by (simp add: batches.run_def)
  then show ?thesis using assms by (fastforce simp: store_le_def batch_le_def)
qed

theorem batch_decisions_are_final_witness:
  "\<exists>m'. map_of (fold (batch_step demo_digests demo_paths) (demo_events ''j1'' @
       [BindReference demo_batch_id ''p'' ''/r'' ''ref'' ''j2'' None]) []) demo_batch_id = Some m' \<and>
     prefix [(''ref'', ''j1'')] (b_bindings m')"
  using batch_decisions_are_final[where h = demo_digests and e = demo_paths and events = "demo_events ''j1''" and bid = demo_batch_id
      and m = "demo_batch ''j1''" and later = "[BindReference demo_batch_id ''p'' ''/r'' ''ref'' ''j2'' None]"]
  unfolding demo_run by (auto simp: demo_batch_def)

text \<open>C35: A device batch accepts a binding it can never read back.  \<^verbatim>\<open>bind_job\<close> validates the source reference it
  is given but not that its revision is content-addressed, which \<^verbatim>\<open>load\<close> demands: after such a binding
  succeeds every load of the batch fails, in whatever scope it is asked for.\<close>

theorem unpinned_binding_locks_the_batch:
  assumes "bind_job h e bid name root rid jid (Some item) st = Inr (m, st')" and "b_device m \<noteq> None"
    and "\<not> starts_with ''sha256:'' (snd (snd (snd (fst item))))"
  shows "\<not> is_ok (load_batch h e bid name' root' st')"
proof -
  obtain m0 where u: "bind_stage h rid jid (Some item) m0 = Inr m" "st' = AList.update bid m st"
    using assms(1) by (auto simp: bind_job_def update_batch_def bind_res_Inr check_text_Inr Let_def split: if_splits)
  from u(1) have "\<not> batch_ok m"
  proof (cases rule: bind_stage_elim)
    case (1 bs d')
    then obtain d vs where d: "d' = Some (d\<lparr>d_validated := vs\<rparr>)" "(rid, item_ref h item) \<in> set vs"
      using assms(2) by (auto dest: map_of_SomeD)
    have "\<not> starts_with ''sha256:'' (br_source_revision (item_ref h item))"
      using assms(3) by (auto simp: item_ref_def split: prod.splits)
    then have "\<not> device_ok m (d\<lparr>d_validated := vs\<rparr>)" using d(2) by (force simp: device_ok_def list_all_iff)
    then show ?thesis using 1(1) d(1) by (simp add: batch_ok_def)
  qed
  then show ?thesis using u(2) by (auto simp: is_ok_iff load_batch_Inr update_conv')
qed

definition demo_device :: batch_store where
  "demo_device = fold (batch_step demo_digests demo_paths)
     [CreateBatch 5 demo_batch_id ''p'' '''' [((''c'', ''x'', ''s'', ''metadata:1''), Some ''ref'')] None None ''all''] []"

theorem unpinned_binding_locks_the_batch_witness:
  "\<exists>m st'. bind_job demo_digests demo_paths demo_batch_id ''p'' '''' ''ref'' ''j1''
       (Some ((''c'', ''x'', ''s'', ''metadata:1''), Some ''ref'')) demo_device = Inr (m, st') \<and>
     \<not> is_ok (load_batch demo_digests demo_paths demo_batch_id ''p'' '''' st')"
proof -
  let ?r = "bind_job demo_digests demo_paths demo_batch_id ''p'' '''' ''ref'' ''j1''
       (Some ((''c'', ''x'', ''s'', ''metadata:1''), Some ''ref'')) demo_device"
  have "case ?r of Inl _ \<Rightarrow> False | Inr (m, _) \<Rightarrow> b_version m = 2 \<and> \<not> Option.is_none (b_device m)" by code_simp
  then obtain m st' where r: "?r = Inr (m, st')" "b_device m \<noteq> None" by (auto split: sum.splits simp: Option.is_none_def)
  have "\<not> starts_with ''sha256:'' (snd (snd (snd (fst ((''c'', ''x'', ''s'', ''metadata:1''), Some ''ref'')))))"
    by (simp add: starts_with_def)
  from unpinned_binding_locks_the_batch[OF r(1,2) this] r(1) show ?thesis by blast
qed

lemma first_true_found:
  "is_ok (first_true f xs) \<Longrightarrow> x \<in> set xs \<Longrightarrow> f x = Inr True \<Longrightarrow> first_true f xs = Inr True"
  by (induction xs) (auto simp: bind_res_def split: sum.splits if_splits)

text \<open>A batch claims the jobs bound in it.\<close>

lemma bound_job_is_owned:
  assumes ok: "store_ok e st" and m: "map_of st bid = Some m" and b: "j_id j \<in> dict_vals (b_bindings m)"
    and s: "b_device m = None \<Longrightarrow> b_project_name m = j_project_name j \<and> pe_absolute e (j_project_root j) \<and>
       pe_resolve e (j_project_root j) = b_project_root m \<and> pe_absolute e (b_project_root m) \<and>
       pe_resolve e (b_project_root m) = b_project_root m"
    and r: "is_ok (owns_job h e j revision st)"
  shows "owns_job h e j revision st = Inr True"
proof -
  have "batch_owns h e j revision st (bid, m) = Inr True"
  proof (cases "b_device m")
    case (Some d)
    then have "load_batch h e bid (b_project_name m) [] st = Inr m" using store_ok_load[OF ok m] by auto
    then show ?thesis using b Some by (simp add: batch_owns_def dict_vals_def)
  next
    case None
    then have "load_batch h e bid (j_project_name j) (j_project_root j) st = Inr m"
      using store_ok_load[OF ok m, of "j_project_root j"] s by auto
    moreover have "text_ok (j_project_name j)" using ok m s[OF None] unfolding store_ok_def by metis
    then have "batch_scope e (j_project_name j) (b_project_root m) ''project'' = Inr (j_project_name j, b_project_root m)"
      "batch_scope e (j_project_name j) (j_project_root j) ''project'' = Inr (j_project_name j, b_project_root m)"
      using s[OF None] by (simp_all add: batch_scope_Inr)
    ultimately show ?thesis using b None s[OF None] by (simp add: batch_owns_def dict_vals_def)
  qed
  then show ?thesis using r first_true_found[of "batch_owns h e j revision st" "sort_key fst st" "(bid, m)"] map_of_SomeD[OF m]
    by (auto simp: owns_job_def split: if_splits)
qed

end
