(* ===== verification/ScanScheduler.thy ===== *)
theory ScanScheduler
  imports Ledger
begin

text \<open>
  Fair scanning of session inventories: \<^verbatim>\<open>harness_mem/adapters/scan_scheduler.py\<close>, the frontier rows of
  \<^verbatim>\<open>core/schemas/transcript.py\<close> and their table in \<^verbatim>\<open>storage/transcript_store.py\<close>.

  A round plans a bounded list of sessions from the host's inventory (due retries, then the recent and the
  backlog lane interleaved), synchronizes them until the change limit is reached and saves the frontier.
  What a path resolves to and Unicode case folding are parameters (\<open>scan_env\<close>), and so is the adapter that
  synchronizes one session: it may change the ledger and either reports an action or raises.  Every reading
  of the clock in a round is an argument; one plan reads it once.
\<close>

section \<open>Rows\<close>

datatype lane = Recent | Backlog

record scan_retry =
  rt_attempts :: int
  rt_next_retry_at :: "time option"
  rt_last_error :: "string option"
  rt_updated_at :: time

record frontier =
  fr_project_name :: string
  fr_client :: string
  fr_source_root :: string
  fr_cursor_key :: "string option"
  fr_next_lane :: lane
  fr_retry_sources :: "(string \<times> scan_retry) list"
  fr_scan_cycle :: int
  fr_scanned_in_cycle :: int
  fr_last_scanned_at :: "time option"
  fr_last_completed_cycle_at :: "time option"
  fr_updated_at :: time

record session =
  ss_path :: string
  ss_session_id :: string

record scan_env =
  se_path_key :: "string \<Rightarrow> string" \<comment> \<open>\<^verbatim>\<open>expanduser().resolve(strict=False).as_posix().casefold()\<close>\<close>
  se_casefold :: "string \<Rightarrow> string"

definition new_frontier :: "time \<Rightarrow> string \<Rightarrow> string \<Rightarrow> string \<Rightarrow> frontier" where
  "new_frontier now project_name client source_root =
     \<lparr> fr_project_name = project_name, fr_client = client, fr_source_root = source_root,
       fr_cursor_key = None, fr_next_lane = Recent, fr_retry_sources = [], fr_scan_cycle = 0,
       fr_scanned_in_cycle = 0, fr_last_scanned_at = None, fr_last_completed_cycle_at = None,
       fr_updated_at = now \<rparr>"

definition new_retry :: "time \<Rightarrow> scan_retry" where
  "new_retry now = \<lparr> rt_attempts = 0, rt_next_retry_at = None, rt_last_error = None, rt_updated_at = now \<rparr>"

section \<open>The table of frontiers\<close>

definition fr_key :: "frontier \<Rightarrow> string \<times> string \<times> string" where
  "fr_key f = (fr_project_name f, fr_client f, fr_source_root f)"

record scan_store =
  sc_ledger :: ledger
  sc_frontiers :: "frontier list"

definition get_scan_frontier :: "string \<times> string \<times> string \<Rightarrow> scan_store \<Rightarrow> frontier option" where
  "get_scan_frontier k st = get_row fr_key k (sc_frontiers st)"

definition put_scan_frontier :: "frontier \<Rightarrow> scan_store \<Rightarrow> scan_store" where
  "put_scan_frontier f st = st\<lparr>sc_frontiers := put_row fr_key f (sc_frontiers st)\<rparr>"

definition save_scan_frontier :: "time \<Rightarrow> frontier \<Rightarrow> scan_store \<Rightarrow> scan_store" where
  "save_scan_frontier now f st = put_scan_frontier (f\<lparr>fr_updated_at := now\<rparr>) st"

definition list_scan_frontiers :: "string option \<Rightarrow> string option \<Rightarrow> scan_store \<Rightarrow> frontier list" where
  "list_scan_frontiers project_name client st =
     sort_key (\<lambda>f. - fr_updated_at f) (filter (\<lambda>f.
       (case project_name of None \<Rightarrow> True | Some p \<Rightarrow> fr_project_name f = p) \<and>
       (case client of None \<Rightarrow> True | Some c \<Rightarrow> fr_client f = c)) (sc_frontiers st))"

definition reset_scan_frontier :: "string \<times> string \<times> string \<Rightarrow> scan_store \<Rightarrow> scan_store" where
  "reset_scan_frontier k st = st\<lparr>sc_frontiers := filter (\<lambda>f. fr_key f \<noteq> k) (sc_frontiers st)\<rparr>"

interpretation frontier_rows: row_store fr_key get_scan_frontier put_scan_frontier
  by unfold_locales (auto simp: get_scan_frontier_def put_scan_frontier_def row_simps dest: get_row_key)

section \<open>Planning\<close>

definition session_scan_key :: "scan_env \<Rightarrow> session \<Rightarrow> string" where
  "session_scan_key e s = se_path_key e (ss_path s) @ ''#'' @ se_casefold e (ss_session_id s)"

definition normalize_source_root :: "scan_env \<Rightarrow> string \<Rightarrow> string" where
  "normalize_source_root e source_root = se_path_key e source_root"

record scan_plan =
  pl_sessions :: "session list"
  pl_frontier :: frontier
  pl_backlog_wrap :: "(string \<times> bool) list"
  pl_lanes :: "(string \<times> lane) list"
  pl_primary_lane :: "lane option"
  pl_cycle_advanced :: bool
  pl_scanned_keys :: "string list"

definition empty_plan :: "frontier \<Rightarrow> scan_plan" where
  "empty_plan f = \<lparr> pl_sessions = [], pl_frontier = f, pl_backlog_wrap = [], pl_lanes = [],
     pl_primary_lane = None, pl_cycle_advanced = False, pl_scanned_keys = [] \<rparr>"

text \<open>\<^verbatim>\<open>{key(s): s for s in sessions}\<close>: the last session of a key wins.\<close>

definition by_key :: "scan_env \<Rightarrow> session list \<Rightarrow> string \<Rightarrow> session option" where
  "by_key e sessions = map_of (rev (map (\<lambda>s. (session_scan_key e s, s)) sessions))"

fun index_of :: "'a \<Rightarrow> 'a list \<Rightarrow> nat option" where \<comment> \<open>\<^verbatim>\<open>list.index\<close>, \<open>None\<close> for its \<^verbatim>\<open>ValueError\<close>\<close>
  "index_of x [] = None"
| "index_of x (y # ys) = (if x = y then Some 0 else map_option Suc (index_of x ys))"

text \<open>Where the backlog traversal starts, and whether it has wrapped already.\<close>

definition traversal_start :: "string option \<Rightarrow> string list \<Rightarrow> nat \<times> bool" where
  "traversal_start cursor ks =
     (case cursor of
        None \<Rightarrow> (0, False)
      | Some c \<Rightarrow>
          if c = [] then (0, False)
          else (case index_of c ks of
                  None \<Rightarrow> (0, True)
                | Some i \<Rightarrow> if length ks \<le> i + 1 then (0, True) else (i + 1, False)))"

definition traversal :: "string option \<Rightarrow> scan_env \<Rightarrow> session list \<Rightarrow> (session \<times> bool) list" where
  "traversal cursor e sessions =
     (let ordered = sort_key (session_scan_key e) sessions;
          (start, wrap_at_start) = traversal_start cursor (map (session_scan_key e) ordered)
      in zip (drop start ordered @ take start ordered)
           (replicate (length ordered - start) wrap_at_start @ replicate start True))"

definition retry_due_at :: "time \<Rightarrow> scan_retry \<Rightarrow> bool" where
  "retry_due_at now r = (case rt_next_retry_at r of None \<Rightarrow> True | Some t \<Rightarrow> t \<le> now)"

text \<open>Two lanes taken in turns, the first one first; when one is used up the other follows.\<close>

fun interleave :: "'a list \<Rightarrow> 'a list \<Rightarrow> 'a list" where
  "interleave [] ys = ys"
| "interleave xs [] = xs"
| "interleave (x # xs) (y # ys) = x # y # interleave xs ys"

definition change_budget :: "session list \<Rightarrow> int option \<Rightarrow> int" where
  "change_budget sessions change_limit =
     (case change_limit of None \<Rightarrow> max 1 (int (length sessions)) | Some n \<Rightarrow> max 1 n)"

definition probe_budget :: "int \<Rightarrow> int" where
  "probe_budget total_budget = max 4 (total_budget * 4)"

definition recent_lane :: "int \<Rightarrow> session list \<Rightarrow> session list" where
  "recent_lane total_budget sessions = take (nat (max 1 ((total_budget + 1) div 2))) sessions"

definition backlog_lane ::
  "scan_env \<Rightarrow> string option \<Rightarrow> int \<Rightarrow> session list \<Rightarrow> (session \<times> bool) list" where
  "backlog_lane e cursor total_budget sessions =
     filter (\<lambda>(s, _). session_scan_key e s \<notin> session_scan_key e ` set (recent_lane total_budget sessions))
       (traversal cursor e sessions)"

definition due_retries ::
  "scan_env \<Rightarrow> time \<Rightarrow> (string \<times> scan_retry) list \<Rightarrow> int \<Rightarrow> session list \<Rightarrow> session list \<Rightarrow> session list" where
  "due_retries e now retries total_budget backlog recent =
     take (nat (max 1 total_budget))
       (List.map_filter (\<lambda>k. case by_key e backlog k of Some s \<Rightarrow> Some s | None \<Rightarrow> by_key e recent k)
          (sort (remdups (map fst (filter (\<lambda>(_, r). retry_due_at now r) retries)))))"

definition waiting_out :: "scan_env \<Rightarrow> (string \<times> scan_retry) list \<Rightarrow> session list \<Rightarrow> session list" where
  "waiting_out e retries sessions = filter (\<lambda>s. session_scan_key e s \<notin> fst ` set retries) sessions"

text \<open>The parts of a plan made from the frontier \<open>f\<close> with a change budget of \<open>b\<close> sessions.\<close>

definition plan_due :: "scan_env \<Rightarrow> time \<Rightarrow> frontier \<Rightarrow> int \<Rightarrow> session list \<Rightarrow> session list" where
  "plan_due e now f b sessions =
     due_retries e now (fr_retry_sources f) b
       (map fst (backlog_lane e (fr_cursor_key f) b sessions)) (recent_lane b sessions)"

definition plan_recent :: "scan_env \<Rightarrow> frontier \<Rightarrow> int \<Rightarrow> session list \<Rightarrow> session list" where
  "plan_recent e f b sessions = waiting_out e (fr_retry_sources f) (recent_lane b sessions)"

definition plan_backlog :: "scan_env \<Rightarrow> frontier \<Rightarrow> int \<Rightarrow> session list \<Rightarrow> session list" where
  "plan_backlog e f b sessions =
     waiting_out e (fr_retry_sources f) (map fst (backlog_lane e (fr_cursor_key f) b sessions))"

definition plan_primary :: "scan_env \<Rightarrow> frontier \<Rightarrow> int \<Rightarrow> session list \<Rightarrow> lane" where
  "plan_primary e f b sessions =
     (let recent = plan_recent e f b sessions; backlog = plan_backlog e f b sessions in
      if recent \<noteq> [] \<and> backlog \<noteq> [] then fr_next_lane f else if recent \<noteq> [] then Recent else Backlog)"

definition tag_lane :: "lane \<Rightarrow> session list \<Rightarrow> (session \<times> lane) list" where
  "tag_lane l ss = map (\<lambda>s. (s, l)) ss"

definition plan_turns :: "scan_env \<Rightarrow> frontier \<Rightarrow> int \<Rightarrow> session list \<Rightarrow> (session \<times> lane) list" where
  "plan_turns e f b sessions =
     (let recent = tag_lane Recent (plan_recent e f b sessions);
          backlog = tag_lane Backlog (plan_backlog e f b sessions)
      in case plan_primary e f b sessions of Recent \<Rightarrow> interleave recent backlog
         | Backlog \<Rightarrow> interleave backlog recent)"

definition plan_from :: "scan_env \<Rightarrow> time \<Rightarrow> frontier \<Rightarrow> int \<Rightarrow> session list \<Rightarrow> scan_plan" where
  "plan_from e now f b sessions =
     (let due = plan_due e now f b sessions;
          turns = take (nat (probe_budget b) - length due) (plan_turns e f b sessions)
      in \<lparr> pl_sessions = due @ map fst turns, pl_frontier = f,
           pl_backlog_wrap = fold (\<lambda>(s, w). AList.update (session_scan_key e s) w)
             (backlog_lane e (fr_cursor_key f) b sessions) [],
           pl_lanes = fold (\<lambda>(s, l). AList.update (session_scan_key e s) l) (tag_lane Backlog due @ turns) [],
           pl_primary_lane = Some (plan_primary e f b sessions), pl_cycle_advanced = False,
           pl_scanned_keys = [] \<rparr>)"

definition planned_frontier ::
  "scan_env \<Rightarrow> time \<Rightarrow> string \<Rightarrow> string \<Rightarrow> string \<Rightarrow> scan_store \<Rightarrow> frontier" where
  "planned_frontier e now project_name client source_root st =
     (let root = normalize_source_root e source_root in
      case get_scan_frontier (project_name, client, root) st of
        Some f \<Rightarrow> f | None \<Rightarrow> new_frontier now project_name client root)"

definition plan_session_scan ::
  "scan_env \<Rightarrow> time \<Rightarrow> string \<Rightarrow> string \<Rightarrow> string \<Rightarrow> session list \<Rightarrow> int option \<Rightarrow> scan_store \<Rightarrow> scan_plan" where
  "plan_session_scan e now project_name client source_root sessions change_limit st =
     (let f = planned_frontier e now project_name client source_root st in
      if sessions = [] then empty_plan f
      else plan_from e now f (change_budget sessions change_limit) sessions)"

section \<open>Recording what was scanned\<close>

definition lane_for :: "scan_env \<Rightarrow> scan_plan \<Rightarrow> session \<Rightarrow> lane" where
  "lane_for e p s = (case map_of (pl_lanes p) (session_scan_key e s) of Some l \<Rightarrow> l | None \<Rightarrow> Backlog)"

definition mark_scanned :: "scan_env \<Rightarrow> time \<Rightarrow> session \<Rightarrow> scan_plan \<Rightarrow> scan_plan" where
  "mark_scanned e now s p =
     (let key = session_scan_key e s; p1 = p\<lparr>pl_scanned_keys := pl_scanned_keys p @ [key]\<rparr> in
      case map_of (pl_backlog_wrap p) key of
        None \<Rightarrow> p1
      | Some wrapped \<Rightarrow>
          let p2 = (if wrapped \<and> \<not> pl_cycle_advanced p
                    then p1\<lparr>pl_frontier := (pl_frontier p1)
                             \<lparr>fr_scan_cycle := fr_scan_cycle (pl_frontier p1) + 1, fr_scanned_in_cycle := 0,
                              fr_last_completed_cycle_at := Some now\<rparr>,
                            pl_cycle_advanced := True\<rparr>
                    else p1);
              f = pl_frontier p2
          in p2\<lparr>pl_frontier := f\<lparr>fr_cursor_key := Some key, fr_scanned_in_cycle := fr_scanned_in_cycle f + 1,
                  fr_last_scanned_at := Some now\<rparr>\<rparr>)"

definition retry_delay :: "int \<Rightarrow> time" where
  "retry_delay attempts = seconds (min 3600 (30 * 2 ^ nat (max 0 (attempts - 1))))"

text \<open>\<open>now\<close> is read for the retry, \<open>now'\<close> by \<open>mark_scanned\<close>; the error is its type's name and its text.\<close>

definition mark_failed ::
  "scan_env \<Rightarrow> time \<Rightarrow> time \<Rightarrow> session \<Rightarrow> string \<times> string \<Rightarrow> scan_plan \<Rightarrow> scan_plan" where
  "mark_failed e now now' s err p =
     (let key = session_scan_key e s; f = pl_frontier p;
          r = (case map_of (fr_retry_sources f) key of Some r \<Rightarrow> r | None \<Rightarrow> new_retry now);
          attempts = rt_attempts r + 1;
          r' = r\<lparr>rt_attempts := attempts, rt_next_retry_at := Some (now + retry_delay attempts),
                 rt_last_error := Some (take 512 (fst err @ '': '' @ snd err)), rt_updated_at := now\<rparr>
      in mark_scanned e now' s
           (p\<lparr>pl_frontier := f\<lparr>fr_retry_sources := AList.update key r' (fr_retry_sources f)\<rparr>\<rparr>))"

definition mark_succeeded :: "scan_env \<Rightarrow> time \<Rightarrow> session \<Rightarrow> scan_plan \<Rightarrow> scan_plan" where
  "mark_succeeded e now s p =
     (let f = pl_frontier p in
      mark_scanned e now s
        (p\<lparr>pl_frontier := f\<lparr>fr_retry_sources := AList.delete (session_scan_key e s) (fr_retry_sources f)\<rparr>\<rparr>))"

definition advance_lane_turn :: "scan_env \<Rightarrow> lane option \<Rightarrow> int \<Rightarrow> scan_plan \<Rightarrow> scan_plan" where
  "advance_lane_turn e changed_lane change_limit p =
     (case changed_lane of
        None \<Rightarrow> p
      | Some l \<Rightarrow>
          if change_limit \<noteq> 1 then p
          else if \<not> list_ex (\<lambda>s. lane_for e p s = Recent) (pl_sessions p) then p
          else if \<not> list_ex (\<lambda>s. lane_for e p s = Backlog) (pl_sessions p) then p
          else p\<lparr>pl_frontier := (pl_frontier p)
                  \<lparr>fr_next_lane := (if l = Recent then Backlog else Recent)\<rparr>\<rparr>)"

definition lane_change_limit :: "scan_env \<Rightarrow> scan_plan \<Rightarrow> int \<Rightarrow> lane \<Rightarrow> int" where
  "lane_change_limit e p change_limit l =
     (let total = max 1 change_limit;
          has_recent = list_ex (\<lambda>s. lane_for e p s = Recent) (pl_sessions p);
          has_backlog = list_ex (\<lambda>s. lane_for e p s = Backlog) (pl_sessions p)
      in if \<not> has_recent \<or> \<not> has_backlog then total
         else if total = 1
         then (if l = (case pl_primary_lane p of Some q \<Rightarrow> q | None \<Rightarrow> Recent) then 1 else 0)
         else (let recent_limit = (total + 1) div 2 in
               if l = Recent then recent_limit else total - recent_limit))"

section \<open>A round\<close>

datatype sync_action = Ingested | Updated | Unchanged

type_synonym sync_error = "string \<times> string" \<comment> \<open>the name of the exception's type and its text\<close>
type_synonym adapter = "session \<Rightarrow> ledger \<Rightarrow> (sync_error + sync_action) \<times> ledger"

record scan_round =
  ro_plan :: scan_plan
  ro_ledger :: ledger
  ro_ingested :: int
  ro_updated :: int
  ro_unchanged :: int
  ro_scanned :: int
  ro_failures :: "(session \<times> sync_error) list"
  ro_recent_changes :: int
  ro_backlog_changes :: int
  ro_first_changed_lane :: "lane option"

definition lane_changes :: "scan_round \<Rightarrow> lane \<Rightarrow> int" where
  "lane_changes ro l = (case l of Recent \<Rightarrow> ro_recent_changes ro | Backlog \<Rightarrow> ro_backlog_changes ro)"

definition bump_lane :: "lane \<Rightarrow> scan_round \<Rightarrow> scan_round" where
  "bump_lane l ro = (case l of Recent \<Rightarrow> ro\<lparr>ro_recent_changes := ro_recent_changes ro + 1\<rparr>
                     | Backlog \<Rightarrow> ro\<lparr>ro_backlog_changes := ro_backlog_changes ro + 1\<rparr>)"

definition first_changed :: "lane \<Rightarrow> scan_round \<Rightarrow> scan_round" where
  "first_changed l ro = (if ro_first_changed_lane ro = None then ro\<lparr>ro_first_changed_lane := Some l\<rparr> else ro)"

text \<open>One session; the \<open>n\<close>-th of a round reads the clock at \<open>2 n\<close> and \<open>2 n + 1\<close>.\<close>

definition sync_one ::
  "scan_env \<Rightarrow> (nat \<Rightarrow> time) \<Rightarrow> adapter \<Rightarrow> session \<Rightarrow> scan_round \<Rightarrow> bool \<times> scan_round" where
  "sync_one e clock sync s ro =
     (let l = lane_for e (ro_plan ro) s;
          n = ro_scanned ro + 1; t = clock (2 * nat n); t' = clock (2 * nat n + 1);
          (outcome, ledger') = sync s (ro_ledger ro);
          ro1 = ro\<lparr>ro_scanned := n, ro_ledger := ledger'\<rparr>;
          ok = (\<lambda>r. r\<lparr>ro_plan := mark_succeeded e t s (ro_plan r)\<rparr>)
      in case outcome of
           Inl err \<Rightarrow> (False, ro1\<lparr>ro_failures := ro_failures ro1 @ [(s, err)],
                               ro_plan := mark_failed e t t' s err (ro_plan ro1)\<rparr>)
         | Inr Ingested \<Rightarrow> (True, ok (first_changed l (ro1\<lparr>ro_ingested := ro_ingested ro1 + 1\<rparr>)))
         | Inr Updated \<Rightarrow> (True, ok (first_changed l (ro1\<lparr>ro_updated := ro_updated ro1 + 1\<rparr>)))
         | Inr Unchanged \<Rightarrow> (False, ok (ro1\<lparr>ro_unchanged := ro_unchanged ro1 + 1\<rparr>)))"

definition budget_spent :: "int \<Rightarrow> scan_round \<Rightarrow> bool" where
  "budget_spent work_limit ro \<longleftrightarrow> work_limit \<le> ro_ingested ro + ro_updated ro"

text \<open>The pass that respects the lanes; a session whose lane is used up is deferred.\<close>

fun first_pass ::
  "scan_env \<Rightarrow> (nat \<Rightarrow> time) \<Rightarrow> adapter \<Rightarrow> int \<Rightarrow> (lane \<Rightarrow> int) \<Rightarrow> session list \<Rightarrow> scan_round \<Rightarrow>
   session list \<times> scan_round" where
  "first_pass e clock sync work_limit limits [] ro = ([], ro)"
| "first_pass e clock sync work_limit limits (s # ss) ro =
     (if budget_spent work_limit ro then ([], ro)
      else let l = lane_for e (ro_plan ro) s in
        if limits l \<le> lane_changes ro l
        then (let (deferred, ro') = first_pass e clock sync work_limit limits ss ro in (s # deferred, ro'))
        else (let (changed, ro1) = sync_one e clock sync s ro in
              first_pass e clock sync work_limit limits ss (if changed then bump_lane l ro1 else ro1)))"

fun second_pass ::
  "scan_env \<Rightarrow> (nat \<Rightarrow> time) \<Rightarrow> adapter \<Rightarrow> int \<Rightarrow> session list \<Rightarrow> scan_round \<Rightarrow> scan_round" where
  "second_pass e clock sync work_limit [] ro = ro"
| "second_pass e clock sync work_limit (s # ss) ro =
     (if budget_spent work_limit ro then ro
      else second_pass e clock sync work_limit ss (snd (sync_one e clock sync s ro)))"

definition start_round :: "scan_plan \<Rightarrow> ledger \<Rightarrow> scan_round" where
  "start_round p l = \<lparr> ro_plan = p, ro_ledger = l, ro_ingested = 0, ro_updated = 0, ro_unchanged = 0,
     ro_scanned = 0, ro_failures = [], ro_recent_changes = 0, ro_backlog_changes = 0,
     ro_first_changed_lane = None \<rparr>"

definition scan_sessions ::
  "scan_env \<Rightarrow> (nat \<Rightarrow> time) \<Rightarrow> adapter \<Rightarrow> int \<Rightarrow> scan_plan \<Rightarrow> ledger \<Rightarrow> scan_round" where
  "scan_sessions e clock sync work_limit p l =
     (let (deferred, ro) = first_pass e clock sync work_limit (lane_change_limit e p work_limit)
            (pl_sessions p) (start_round p l)
      in second_pass e clock sync work_limit deferred ro)"

record fair_result =
  fs_ingested :: int
  fs_updated :: int
  fs_unchanged :: int
  fs_sessions_scanned :: int
  fs_failures :: "(session \<times> sync_error) list"
  fs_frontier :: frontier

text \<open>The frontier is saved even when marking the missing sources raises.\<close>

definition sync_sessions_fairly ::
  "scan_env \<Rightarrow> (nat \<Rightarrow> time) \<Rightarrow> adapter \<Rightarrow> string \<Rightarrow> string \<Rightarrow> string \<Rightarrow> session list \<Rightarrow> int option \<Rightarrow>
   scan_store \<Rightarrow> (py_error + fair_result) \<times> scan_store" where
  "sync_sessions_fairly e clock sync project_name client source_root sessions change_limit st =
     (let work_limit = change_budget sessions change_limit;
          p = plan_session_scan e (clock 0) project_name client source_root sessions (Some work_limit) st;
          ro = scan_sessions e clock sync work_limit p (sc_ledger st);
          after = 2 * nat (ro_scanned ro) + 2;
          commit = (\<lambda>f l. save_scan_frontier (clock (after + 1)) f (st\<lparr>sc_ledger := l\<rparr>))
      in case mark_sources_missing_from_inventory (clock after) project_name client
                (ss_session_id ` set sessions) (ro_ledger ro) of
           Inl err \<Rightarrow> (Inl err, commit (pl_frontier (ro_plan ro)) (ro_ledger ro))
         | Inr (_, l') \<Rightarrow>
             (let f = pl_frontier (advance_lane_turn e (ro_first_changed_lane ro) work_limit (ro_plan ro))
              in (Inr \<lparr> fs_ingested = ro_ingested ro, fs_updated = ro_updated ro,
                        fs_unchanged = ro_unchanged ro, fs_sessions_scanned = ro_scanned ro,
                        fs_failures = ro_failures ro, fs_frontier = f\<lparr>fr_updated_at := clock (after + 1)\<rparr> \<rparr>, commit f l')))"

end
