(* ===== verification/ScanPlans.thy ===== *)
theory ScanPlans
  imports ScanScheduler "HOL-Library.Sublist"
begin

text \<open>
  Plans: the traversal of an inventory is its sorted list rotated to start after the cursor, a plan holds
  distinct sessions within the probe budget, and its lanes exclude each other and the waiting retries.
\<close>

section \<open>Plans\<close>

lemma interleave_set [simp]: "set (interleave xs ys) = set xs \<union> set ys"
  by (induction xs ys rule: interleave.induct) auto

lemma interleave_distinct:
  "distinct (xs @ ys) \<Longrightarrow> distinct (interleave xs ys)"
  by (induction xs ys rule: interleave.induct) auto

lemma map_interleave: "map f (interleave xs ys) = interleave (map f xs) (map f ys)"
  by (induction xs ys rule: interleave.induct) auto

lemma filter_interleave:
  "(\<And>x. x \<in> set xs \<Longrightarrow> \<not> P x) \<Longrightarrow> (\<And>y. y \<in> set ys \<Longrightarrow> P y) \<Longrightarrow> filter P (interleave xs ys) = ys"
  "(\<And>x. x \<in> set xs \<Longrightarrow> \<not> P x) \<Longrightarrow> (\<And>y. y \<in> set ys \<Longrightarrow> P y) \<Longrightarrow> filter P (interleave ys xs) = ys"
proof -
  show "(\<And>x. x \<in> set xs \<Longrightarrow> \<not> P x) \<Longrightarrow> (\<And>y. y \<in> set ys \<Longrightarrow> P y) \<Longrightarrow> filter P (interleave xs ys) = ys"
    by (induction xs ys rule: interleave.induct) auto
  show "(\<And>x. x \<in> set xs \<Longrightarrow> \<not> P x) \<Longrightarrow> (\<And>y. y \<in> set ys \<Longrightarrow> P y) \<Longrightarrow> filter P (interleave ys xs) = ys"
    by (induction ys xs rule: interleave.induct) auto
qed

lemma index_of_nth: "index_of x xs = Some i \<Longrightarrow> i < length xs \<and> xs ! i = x"
  by (induction xs arbitrary: i) (auto split: if_splits simp: nth_Cons split: nat.splits)

lemma index_of_distinct: "distinct xs \<Longrightarrow> i < length xs \<Longrightarrow> index_of (xs ! i) xs = Some i"
  by (induction xs arbitrary: i) (auto simp: nth_Cons split: nat.splits)

text \<open>The traversal is the sorted inventory, rotated to start after the cursor.\<close>

lemma map_fst_traversal:
  "map fst (traversal cursor e ss) =
     rotate (fst (traversal_start cursor (map (session_scan_key e) (sort_key (session_scan_key e) ss))))
       (sort_key (session_scan_key e) ss)"
proof -
  define o' where "o' = sort_key (session_scan_key e) ss"
  obtain i w where iw: "traversal_start cursor (map (session_scan_key e) o') = (i, w)" by fastforce
  have "i \<le> length o'"
    using iw unfolding traversal_start_def
    by (auto split: option.splits if_splits dest: index_of_nth)
  moreover from this have "rotate i o' = drop i o' @ take i o'"
    by (cases "i = length o'") (auto simp: rotate_drop_take)
  ultimately show ?thesis using iw by (simp add: traversal_def Let_def flip: o'_def)
qed

lemma set_traversal [simp]: "fst ` set (traversal cursor e ss) = set ss"
  using arg_cong[OF map_fst_traversal[of cursor e ss], of set] by simp

lemma distinct_traversal:
  "distinct (map (session_scan_key e) ss) \<Longrightarrow> distinct (map (session_scan_key e) (map fst (traversal cursor e ss)))"
  unfolding map_fst_traversal rotate_map[symmetric]
  by (simp add: distinct_map)

lemma rotate_after:
  assumes d: "distinct xs" and i: "i < length xs" and j: "j < length xs" and "rotate a xs ! j = xs ! i"
  shows "rotate (Suc i) xs = drop (Suc j) (rotate a xs) @ take (Suc j) (rotate a xs)"
proof -
  have "xs ! ((a + j) mod length xs) = xs ! i" using assms(4) j by (simp add: nth_rotate)
  moreover have "(a + j) mod length xs < length xs" using i by (intro mod_less_divisor) auto
  ultimately have i': "i = (a + j) mod length xs" using d i by (metis nth_eq_iff_index_eq)
  have "rotate (Suc i) xs = rotate (Suc (a + j)) xs"
    by (metis i' mod_Suc_eq rotate_conv_mod)
  also have "\<dots> = rotate (Suc j) (rotate a xs)" by (simp add: rotate_rotate add.commute)
  also have "\<dots> = drop (Suc j) (rotate a xs) @ take (Suc j) (rotate a xs)"
  proof (cases "Suc j = length xs")
    case True
    then show ?thesis by (simp add: rotate_id)
  next
    case False
    then show ?thesis using j by (simp add: rotate_drop_take)
  qed
  finally show ?thesis .
qed


lemma by_key_Some: "by_key e ss k = Some s \<Longrightarrow> s \<in> set ss \<and> session_scan_key e s = k"
  by (auto simp: by_key_def dest: map_of_SomeD)

lemma due_retries_from:
  assumes "s \<in> set (due_retries e now rs b bs cs)"
  shows "s \<in> set bs \<union> set cs \<and> (\<exists>r. (session_scan_key e s, r) \<in> set rs \<and> retry_due_at now r)"
  using set_take_subset assms
  by (fastforce simp: due_retries_def map_filter_def split: option.splits dest: by_key_Some set_take_subset[THEN subsetD])

lemma map_filter_keys_distinct:
  "(\<And>k s. f k = Some s \<Longrightarrow> g s = k) \<Longrightarrow> distinct ks \<Longrightarrow> distinct (map g (List.map_filter f ks))"
  by (induction ks) (auto simp: List.map_filter_simps split: option.splits simp: map_filter_def)

lemma due_retries_distinct: "distinct (map (session_scan_key e) (due_retries e now rs b bs cs))"
  unfolding due_retries_def take_map[symmetric]
  by (intro distinct_take map_filter_keys_distinct) (auto split: option.splits dest: by_key_Some)

lemma length_due_retries: "int (length (due_retries e now rs b bs cs)) \<le> max 1 b"
  by (simp add: due_retries_def)

lemma budget_positive: "1 \<le> change_budget ss lim"
  by (auto simp: change_budget_def split: option.splits)

lemma backlog_from: "s \<in> fst ` set (backlog_lane e c b ss) \<Longrightarrow>
   s \<in> set ss \<and> session_scan_key e s \<notin> session_scan_key e ` set (recent_lane b ss)"
proof -
  assume "s \<in> fst ` set (backlog_lane e c b ss)"
  then obtain w where "(s, w) \<in> set (traversal c e ss)"
    "session_scan_key e s \<notin> session_scan_key e ` set (recent_lane b ss)"
    by (auto simp: backlog_lane_def)
  moreover have "s \<in> fst ` set (traversal c e ss)" using calculation(1) by (rule rev_image_eqI) simp
  ultimately show ?thesis by simp
qed

lemma backlog_pair_from: "(s, w) \<in> set (backlog_lane e c b ss) \<Longrightarrow>
   s \<in> set ss \<and> session_scan_key e s \<notin> session_scan_key e ` set (recent_lane b ss)"
  by (rule backlog_from) (rule rev_image_eqI, auto)

lemma recent_from: "s \<in> set (recent_lane b ss) \<Longrightarrow> s \<in> set ss"
  by (auto simp: recent_lane_def dest: in_set_takeD)

lemma length_plan_due: "1 \<le> b \<Longrightarrow> int (length (plan_due e now f b ss)) \<le> b"
  using length_due_retries[of e now "fr_retry_sources f" b] by (simp add: plan_due_def)

lemma plan_due_from:
  "s \<in> set (plan_due e now f b ss) \<Longrightarrow>
     s \<in> set ss \<and> (\<exists>r. (session_scan_key e s, r) \<in> set (fr_retry_sources f) \<and> retry_due_at now r)"
  unfolding plan_due_def using due_retries_from backlog_from recent_from by (metis Un_iff set_map)

lemma plan_lane_from:
  "s \<in> set (plan_recent e f b ss) \<union> set (plan_backlog e f b ss) \<Longrightarrow>
     s \<in> set ss \<and> session_scan_key e s \<notin> fst ` set (fr_retry_sources f)"
  using recent_from backlog_pair_from by (auto simp: plan_recent_def plan_backlog_def waiting_out_def)

lemma plan_lanes_disjoint:
  "session_scan_key e ` set (plan_recent e f b ss) \<inter> session_scan_key e ` set (plan_backlog e f b ss) = {}"
proof -
  have "session_scan_key e s \<noteq> session_scan_key e t"
    if "s \<in> set (plan_recent e f b ss)" "t \<in> set (plan_backlog e f b ss)" for s t
  proof -
    have "t \<in> fst ` set (backlog_lane e (fr_cursor_key f) b ss)" "s \<in> set (recent_lane b ss)"
      using that by (auto simp: plan_recent_def plan_backlog_def waiting_out_def)
    then show ?thesis using backlog_from by (metis imageI)
  qed
  then show ?thesis by blast
qed

lemma map_fst_turns:
  "map fst (plan_turns e f b ss) =
     (case plan_primary e f b ss of
        Recent \<Rightarrow> interleave (plan_recent e f b ss) (plan_backlog e f b ss)
      | Backlog \<Rightarrow> interleave (plan_backlog e f b ss) (plan_recent e f b ss))"
  by (simp add: plan_turns_def Let_def map_interleave tag_lane_def o_def split: lane.split)

lemma set_turns: "set (map fst (plan_turns e f b ss)) = set (plan_recent e f b ss) \<union> set (plan_backlog e f b ss)"
  unfolding map_fst_turns by (auto split: lane.split)

lemma distinct_lanes:
  assumes d: "distinct (map (session_scan_key e) ss)"
  shows "distinct (map (session_scan_key e) (plan_recent e f b ss))"
    and "distinct (map (session_scan_key e) (plan_backlog e f b ss))"
proof -
  show "distinct (map (session_scan_key e) (plan_recent e f b ss))"
    using d unfolding plan_recent_def waiting_out_def recent_lane_def
    by (intro distinct_map_filter) (simp add: take_map[symmetric])
  show "distinct (map (session_scan_key e) (plan_backlog e f b ss))"
    using distinct_traversal[OF d, of "fr_cursor_key f"]
    unfolding plan_backlog_def waiting_out_def backlog_lane_def map_map
    by (metis (no_types) distinct_map_filter map_map)
qed

lemma distinct_turns:
  assumes "distinct (map (session_scan_key e) ss)"
  shows "distinct (map (session_scan_key e) (map fst (plan_turns e f b ss)))"
  using distinct_lanes[OF assms] plan_lanes_disjoint[of e f b ss]
  unfolding map_fst_turns
  by (cases "plan_primary e f b ss") (simp_all add: map_interleave interleave_distinct Int_commute)

lemma plan_frontier [simp]:
  "pl_frontier (plan_session_scan e now pn cl root ss lim st) = planned_frontier e now pn cl root st"
  by (simp add: plan_session_scan_def Let_def empty_plan_def plan_from_def)

lemma plan_from_sessions:
  "pl_sessions (plan_from e now f b ss) = plan_due e now f b ss @
     take (nat (probe_budget b) - length (plan_due e now f b ss)) (map fst (plan_turns e f b ss))"
  by (simp add: plan_from_def Let_def take_map)

lemma plan_from_bounded:
  assumes b: "1 \<le> b" and d: "distinct (map (session_scan_key e) ss)"
  shows "int (length (pl_sessions (plan_from e now f b ss))) \<le> max 4 (4 * b)"
    and "set (pl_sessions (plan_from e now f b ss)) \<subseteq> set ss"
    and "distinct (map (session_scan_key e) (pl_sessions (plan_from e now f b ss)))"
proof -
  let ?due = "plan_due e now f b ss"
  let ?turns = "take (nat (probe_budget b) - length ?due) (map fst (plan_turns e f b ss))"
  have "int (length ?due) \<le> b" by (rule length_plan_due[OF b])
  moreover have "int (length ?turns) \<le> int (nat (probe_budget b) - length ?due)" by simp
  ultimately show "int (length (pl_sessions (plan_from e now f b ss))) \<le> max 4 (4 * b)"
    using b unfolding plan_from_sessions length_append probe_budget_def by linarith
  have t: "s \<in> set ss \<and> session_scan_key e s \<notin> fst ` set (fr_retry_sources f)" if "s \<in> set ?turns" for s
    using in_set_takeD[OF that] plan_lane_from unfolding set_turns by blast
  then show "set (pl_sessions (plan_from e now f b ss)) \<subseteq> set ss"
    unfolding plan_from_sessions set_append using plan_due_from by blast
  have "session_scan_key e s \<noteq> session_scan_key e u" if "s \<in> set ?due" "u \<in> set ?turns" for s u
    using plan_due_from[OF that(1)] t[OF that(2)] by (metis fst_conv imageI)
  moreover have "distinct (map (session_scan_key e) ?due)" unfolding plan_due_def by (rule due_retries_distinct)
  moreover have "distinct (map (session_scan_key e) ?turns)"
    unfolding take_map[symmetric] by (rule distinct_take[OF distinct_turns[OF d]])
  ultimately show "distinct (map (session_scan_key e) (pl_sessions (plan_from e now f b ss)))"
    unfolding plan_from_sessions map_append distinct_append set_map by (blast)
qed

end
