(* ===== verification/ScanRounds.thy ===== *)
theory ScanRounds
  imports ScanPlans
begin

text \<open>
  Rounds: the step relation \<open>scan_steps\<close> of scanning one session after the other, what its two passes
  select, the budget of a round and the backoff of failed sessions.
\<close>

section \<open>One session of a round\<close>

lemma mark_scanned_plan [simp]:
  "pl_lanes (mark_scanned e t s p) = pl_lanes p" "pl_sessions (mark_scanned e t s p) = pl_sessions p"
  "pl_backlog_wrap (mark_scanned e t s p) = pl_backlog_wrap p"
  "pl_primary_lane (mark_scanned e t s p) = pl_primary_lane p"
  "pl_scanned_keys (mark_scanned e t s p) = pl_scanned_keys p @ [session_scan_key e s]"
  "fr_retry_sources (pl_frontier (mark_scanned e t s p)) = fr_retry_sources (pl_frontier p)"
  "fr_next_lane (pl_frontier (mark_scanned e t s p)) = fr_next_lane (pl_frontier p)"
  "fr_key (pl_frontier (mark_scanned e t s p)) = fr_key (pl_frontier p)"
  "fr_cursor_key (pl_frontier (mark_scanned e t s p)) =
     (if map_of (pl_backlog_wrap p) (session_scan_key e s) = None then fr_cursor_key (pl_frontier p)
      else Some (session_scan_key e s))"
  by (simp_all add: mark_scanned_def Let_def fr_key_def split: option.split)

lemma mark_outcome_plan [simp]:
  "pl_lanes (mark_succeeded e t s p) = pl_lanes p" "pl_sessions (mark_succeeded e t s p) = pl_sessions p"
  "pl_backlog_wrap (mark_succeeded e t s p) = pl_backlog_wrap p"
  "pl_primary_lane (mark_succeeded e t s p) = pl_primary_lane p"
  "pl_scanned_keys (mark_succeeded e t s p) = pl_scanned_keys p @ [session_scan_key e s]"
  "fr_next_lane (pl_frontier (mark_succeeded e t s p)) = fr_next_lane (pl_frontier p)"
  "fr_key (pl_frontier (mark_succeeded e t s p)) = fr_key (pl_frontier p)"
  "fr_cursor_key (pl_frontier (mark_succeeded e t s p)) =
     (if map_of (pl_backlog_wrap p) (session_scan_key e s) = None then fr_cursor_key (pl_frontier p)
      else Some (session_scan_key e s))"
  "fr_retry_sources (pl_frontier (mark_succeeded e t s p)) =
     AList.delete (session_scan_key e s) (fr_retry_sources (pl_frontier p))"
  "pl_lanes (mark_failed e t u s x p) = pl_lanes p" "pl_sessions (mark_failed e t u s x p) = pl_sessions p"
  "pl_backlog_wrap (mark_failed e t u s x p) = pl_backlog_wrap p"
  "pl_primary_lane (mark_failed e t u s x p) = pl_primary_lane p"
  "pl_scanned_keys (mark_failed e t u s x p) = pl_scanned_keys p @ [session_scan_key e s]"
  "fr_next_lane (pl_frontier (mark_failed e t u s x p)) = fr_next_lane (pl_frontier p)"
  "fr_key (pl_frontier (mark_failed e t u s x p)) = fr_key (pl_frontier p)"
  "fr_cursor_key (pl_frontier (mark_failed e t u s x p)) =
     (if map_of (pl_backlog_wrap p) (session_scan_key e s) = None then fr_cursor_key (pl_frontier p)
      else Some (session_scan_key e s))"
  by (simp_all add: mark_succeeded_def mark_failed_def Let_def) (simp_all add: fr_key_def)

text \<open>A session of the retry lane that also lies in the backlog moves the traversal.\<close>

lemma retried_session_moves_the_cursor:
  assumes "map_of (pl_backlog_wrap p) (session_scan_key e s) = Some True" and "\<not> pl_cycle_advanced p"
  shows "fr_cursor_key (pl_frontier (mark_failed e t u s x p)) = Some (session_scan_key e s)"
    and "fr_scan_cycle (pl_frontier (mark_failed e t u s x p)) = fr_scan_cycle (pl_frontier p) + 1"
  using assms by (simp_all add: mark_failed_def mark_scanned_def Let_def)

lemma lane_for_cong: "pl_lanes p = pl_lanes q \<Longrightarrow> lane_for e p s = lane_for e q s"
  by (simp add: lane_for_def)

lemma bump_lane_round [simp]:
  "ro_plan (bump_lane l ro) = ro_plan ro" "ro_ledger (bump_lane l ro) = ro_ledger ro"
  "ro_ingested (bump_lane l ro) = ro_ingested ro" "ro_updated (bump_lane l ro) = ro_updated ro"
  "ro_unchanged (bump_lane l ro) = ro_unchanged ro" "ro_scanned (bump_lane l ro) = ro_scanned ro"
  "ro_failures (bump_lane l ro) = ro_failures ro"
  "ro_first_changed_lane (bump_lane l ro) = ro_first_changed_lane ro"
  "lane_changes (bump_lane l ro) m = lane_changes ro m + (if l = m then 1 else 0)"
  by (cases l; cases m; simp_all add: bump_lane_def lane_changes_def)+

lemma first_changed_round [simp]:
  "ro_plan (first_changed l ro) = ro_plan ro" "ro_ledger (first_changed l ro) = ro_ledger ro"
  "ro_ingested (first_changed l ro) = ro_ingested ro" "ro_updated (first_changed l ro) = ro_updated ro"
  "ro_unchanged (first_changed l ro) = ro_unchanged ro" "ro_scanned (first_changed l ro) = ro_scanned ro"
  "ro_failures (first_changed l ro) = ro_failures ro"
  "ro_recent_changes (first_changed l ro) = ro_recent_changes ro"
  "ro_backlog_changes (first_changed l ro) = ro_backlog_changes ro"
  "ro_first_changed_lane (first_changed l ro) =
     (if ro_first_changed_lane ro = None then Some l else ro_first_changed_lane ro)"
  by (simp_all add: first_changed_def)

text \<open>How many sessions a round has changed, and how many it has looked at by their outcome.\<close>

definition changes :: "scan_round \<Rightarrow> int" where
  "changes ro = ro_ingested ro + ro_updated ro"

definition outcomes :: "scan_round \<Rightarrow> int" where
  "outcomes ro = changes ro + ro_unchanged ro + int (length (ro_failures ro))"

lemma changes_bump [simp]: "changes (bump_lane l ro) = changes ro"
  by (simp add: changes_def)

definition never_raises :: "adapter \<Rightarrow> bool" where
  "never_raises sync \<longleftrightarrow> (\<forall>s l. is_ok (fst (sync s l)))"

lemma sync_one_facts:
  assumes "sync_one e clock sync s ro = (c, ro')"
  shows "pl_lanes (ro_plan ro') = pl_lanes (ro_plan ro)" "pl_sessions (ro_plan ro') = pl_sessions (ro_plan ro)"
    "pl_backlog_wrap (ro_plan ro') = pl_backlog_wrap (ro_plan ro)"
    "pl_primary_lane (ro_plan ro') = pl_primary_lane (ro_plan ro)"
    "pl_scanned_keys (ro_plan ro') = pl_scanned_keys (ro_plan ro) @ [session_scan_key e s]"
    "fr_next_lane (pl_frontier (ro_plan ro')) = fr_next_lane (pl_frontier (ro_plan ro))"
    "fr_key (pl_frontier (ro_plan ro')) = fr_key (pl_frontier (ro_plan ro))"
    "fr_cursor_key (pl_frontier (ro_plan ro')) =
       (if map_of (pl_backlog_wrap (ro_plan ro)) (session_scan_key e s) = None
        then fr_cursor_key (pl_frontier (ro_plan ro)) else Some (session_scan_key e s))"
    "changes ro' = changes ro + (if c then 1 else 0)" "outcomes ro' = outcomes ro + 1"
    "ro_scanned ro' = ro_scanned ro + 1" "lane_changes ro' l = lane_changes ro l"
    "ro_first_changed_lane ro' = (if c \<and> ro_first_changed_lane ro = None
       then Some (lane_for e (ro_plan ro) s) else ro_first_changed_lane ro)"
    "ro_ledger ro' = snd (sync s (ro_ledger ro))"
    "never_raises sync \<Longrightarrow> fr_retry_sources (pl_frontier (ro_plan ro)) = [] \<Longrightarrow>
       fr_retry_sources (pl_frontier (ro_plan ro')) = []"
proof -
  obtain r l' where r: "sync s (ro_ledger ro) = (r, l')" by fastforce
  have "is_ok r" if "never_raises sync" using that r by (metis fst_conv never_raises_def)
  note U = assms r sync_one_def Let_def changes_def outcomes_def lane_changes_def
  show "pl_lanes (ro_plan ro') = pl_lanes (ro_plan ro)" "pl_sessions (ro_plan ro') = pl_sessions (ro_plan ro)"
    "pl_backlog_wrap (ro_plan ro') = pl_backlog_wrap (ro_plan ro)"
    "pl_primary_lane (ro_plan ro') = pl_primary_lane (ro_plan ro)"
    "pl_scanned_keys (ro_plan ro') = pl_scanned_keys (ro_plan ro) @ [session_scan_key e s]"
    "fr_next_lane (pl_frontier (ro_plan ro')) = fr_next_lane (pl_frontier (ro_plan ro))"
    "fr_key (pl_frontier (ro_plan ro')) = fr_key (pl_frontier (ro_plan ro))"
    "fr_cursor_key (pl_frontier (ro_plan ro')) =
       (if map_of (pl_backlog_wrap (ro_plan ro)) (session_scan_key e s) = None
        then fr_cursor_key (pl_frontier (ro_plan ro)) else Some (session_scan_key e s))"
    "changes ro' = changes ro + (if c then 1 else 0)" "outcomes ro' = outcomes ro + 1"
    "ro_scanned ro' = ro_scanned ro + 1" "lane_changes ro' l = lane_changes ro l"
    "ro_first_changed_lane ro' = (if c \<and> ro_first_changed_lane ro = None
       then Some (lane_for e (ro_plan ro) s) else ro_first_changed_lane ro)"
    "ro_ledger ro' = snd (sync s (ro_ledger ro))"
    using assms r by (auto simp: sync_one_def Let_def changes_def outcomes_def lane_changes_def
        split: sum.splits sync_action.splits lane.split)
  show "fr_retry_sources (pl_frontier (ro_plan ro')) = []"
    if "never_raises sync" "fr_retry_sources (pl_frontier (ro_plan ro)) = []"
    using assms r that \<open>never_raises sync \<Longrightarrow> is_ok r\<close>
    by (auto simp: sync_one_def Let_def split: sum.splits sync_action.splits)
qed


section \<open>A sequence of sessions\<close>

definition keeps_frame :: "scan_round \<Rightarrow> scan_round \<Rightarrow> bool" where
  "keeps_frame ro ro' \<longleftrightarrow> pl_lanes (ro_plan ro') = pl_lanes (ro_plan ro) \<and>
     pl_sessions (ro_plan ro') = pl_sessions (ro_plan ro) \<and>
     pl_backlog_wrap (ro_plan ro') = pl_backlog_wrap (ro_plan ro) \<and>
     pl_primary_lane (ro_plan ro') = pl_primary_lane (ro_plan ro) \<and>
     fr_next_lane (pl_frontier (ro_plan ro')) = fr_next_lane (pl_frontier (ro_plan ro)) \<and>
     fr_key (pl_frontier (ro_plan ro')) = fr_key (pl_frontier (ro_plan ro))"

definition in_backlog :: "scan_env \<Rightarrow> scan_round \<Rightarrow> session \<Rightarrow> bool" where
  "in_backlog e ro s \<longleftrightarrow> map_of (pl_backlog_wrap (ro_plan ro)) (session_scan_key e s) \<noteq> None"

text \<open>\<open>scans e zs ro ro'\<close>: the round moved from \<open>ro\<close> to \<open>ro'\<close> by scanning \<open>zs\<close> in this order.\<close>

definition scans :: "scan_env \<Rightarrow> session list \<Rightarrow> scan_round \<Rightarrow> scan_round \<Rightarrow> bool" where
  "scans e zs ro ro' \<longleftrightarrow> keeps_frame ro ro' \<and>
     pl_scanned_keys (ro_plan ro') = pl_scanned_keys (ro_plan ro) @ map (session_scan_key e) zs \<and>
     fr_cursor_key (pl_frontier (ro_plan ro')) =
       (if filter (in_backlog e ro) zs = [] then fr_cursor_key (pl_frontier (ro_plan ro))
        else Some (session_scan_key e (last (filter (in_backlog e ro) zs)))) \<and>
     ro_scanned ro' = ro_scanned ro + int (length zs) \<and> outcomes ro' = outcomes ro + int (length zs) \<and>
     changes ro \<le> changes ro'"

lemma scans_refl [simp]: "scans e [] ro ro"
  by (simp add: scans_def keeps_frame_def)

lemma scans_trans:
  assumes "scans e ys a b" and "scans e zs b c"
  shows "scans e (ys @ zs) a c"
proof -
  have "in_backlog e b = in_backlog e a" using assms(1) by (auto simp: scans_def keeps_frame_def in_backlog_def)
  then show ?thesis using assms unfolding scans_def keeps_frame_def by auto
qed

lemma scans_lane: "scans e zs ro ro' \<Longrightarrow> lane_for e (ro_plan ro') = lane_for e (ro_plan ro)"
  by (auto simp: scans_def keeps_frame_def lane_for_def)

lemma scans_sync_one:
  assumes "sync_one e clock sync s ro = (c, ro')"
  shows "scans e [s] ro ro'"
  using sync_one_facts(1-14)[OF assms] by (auto simp: scans_def keeps_frame_def in_backlog_def)

lemma scans_bump: "scans e zs ro ro' \<Longrightarrow> scans e zs ro (bump_lane l ro')"
  by (simp add: scans_def keeps_frame_def changes_def outcomes_def)

text \<open>The step relation of a round; a changed session may also be charged to a lane.\<close>

inductive scan_steps ::
  "scan_env \<Rightarrow> (nat \<Rightarrow> time) \<Rightarrow> adapter \<Rightarrow> session list \<Rightarrow> scan_round \<Rightarrow> scan_round \<Rightarrow> bool"
  for e clock sync where
  none: "scan_steps e clock sync [] ro ro"
| one: "scan_steps e clock sync (s # zs) ro ro'"
    if "sync_one e clock sync s ro = (c, ro1)" and "ro2 = ro1 \<or> ro2 = bump_lane l ro1"
      and "scan_steps e clock sync zs ro2 ro'"

inductive_cases scan_steps_ConsE: "scan_steps e clock sync (s # zs) ro ro'"

lemma scan_steps_append:
  "scan_steps e clock sync ys a b \<Longrightarrow> scan_steps e clock sync zs b c \<Longrightarrow> scan_steps e clock sync (ys @ zs) a c"
  by (induction rule: scan_steps.induct) (auto intro: scan_steps.intros)

lemma scan_steps_scans: "scan_steps e clock sync zs ro ro' \<Longrightarrow> scans e zs ro ro'"
proof (induction rule: scan_steps.induct)
  case (one s ro c ro1 ro2 l zs ro')
  then have "scans e [s] ro ro2" using scans_sync_one scans_bump by blast
  from scans_trans[OF this one.IH] show ?case by simp
qed simp

text \<open>The lists are related to the plan: what is scanned or deferred comes from it, each at most once, and
  within the backlog the order is the plan's, nothing being skipped.\<close>

definition selects :: "(session \<Rightarrow> bool) \<Rightarrow> session list \<Rightarrow> session list \<Rightarrow> session list \<Rightarrow> bool" where
  "selects P ss zs ds \<longleftrightarrow> set zs \<union> set ds \<subseteq> set ss \<and> (distinct ss \<longrightarrow> distinct (zs @ ds)) \<and>
     prefix (filter P zs @ filter P ds) (filter P ss)"

lemma selects_Nil [simp]: "selects P ss [] []"
  by (simp add: selects_def)

lemma selects_scan: "selects P ss zs ds \<Longrightarrow> selects P (s # ss) (s # zs) ds"
  by (auto simp: selects_def)

lemma selects_defer: "selects P ss zs ds \<Longrightarrow> P s \<longrightarrow> filter P zs = [] \<Longrightarrow> selects P (s # ss) zs (s # ds)"
  by (auto simp: selects_def)

lemma first_pass_scans:
  assumes "first_pass e clock sync lim limits ss ro = (ds, ro')"
    and "\<And>s. s \<in> set ss \<Longrightarrow> P s \<longleftrightarrow> lane_for e (ro_plan ro) s = Backlog"
  shows "\<exists>zs. scan_steps e clock sync zs ro ro' \<and> selects P ss zs ds \<and> changes ro' \<le> max (changes ro) lim \<and>
    (limits Backlog \<le> lane_changes ro Backlog \<longrightarrow> filter P zs = [])"
  using assms
proof (induction ss arbitrary: ro ds)
  case Nil
  then show ?case by (intro exI[of _ "[]"]) (simp add: scan_steps.none)
next
  case (Cons s ss)
  let ?l = "lane_for e (ro_plan ro) s"
  consider (spent) "budget_spent lim ro" | (skipped) "\<not> budget_spent lim ro" "limits ?l \<le> lane_changes ro ?l"
    | (scan) "\<not> budget_spent lim ro" "\<not> limits ?l \<le> lane_changes ro ?l" by blast
  then show ?case
  proof cases
    case spent
    then show ?thesis using Cons.prems by (intro exI[of _ "[]"]) (simp add: scan_steps.none)
  next
    case skipped
    then obtain ds' where ds: "ds = s # ds'" "first_pass e clock sync lim limits ss ro = (ds', ro')"
      using Cons.prems(1) by (auto simp: Let_def split: prod.splits)
    obtain zs where "scan_steps e clock sync zs ro ro'" "selects P ss zs ds'" "changes ro' \<le> max (changes ro) lim"
      "limits Backlog \<le> lane_changes ro Backlog \<longrightarrow> filter P zs = []"
      using Cons.IH[OF ds(2)] Cons.prems(2) by auto
    moreover have "P s \<longrightarrow> filter P zs = []" using skipped(2) Cons.prems(2)[of s] calculation(4) by auto
    ultimately show ?thesis using selects_defer unfolding ds(1) by blast
  next
    case scan
    obtain c ro1 where one: "sync_one e clock sync s ro = (c, ro1)" by fastforce
    define ro2 where "ro2 = (if c then bump_lane ?l ro1 else ro1)"
    have step: "scans e [s] ro ro2" using scans_sync_one[OF one] by (simp add: ro2_def scans_bump)
    have ch: "changes ro2 \<le> max (changes ro) lim"
      using sync_one_facts(9)[OF one] scan(1) by (auto simp: ro2_def changes_def budget_spent_def)
    have bl: "lane_changes ro Backlog \<le> lane_changes ro2 Backlog"
      using sync_one_facts(12)[OF one] by (simp add: ro2_def)
    have "first_pass e clock sync lim limits ss ro2 = (ds, ro')"
      using Cons.prems(1) scan one by (simp add: Let_def ro2_def)
    then obtain zs where Z: "scan_steps e clock sync zs ro2 ro'" "selects P ss zs ds" "changes ro' \<le> max (changes ro2) lim"
      "limits Backlog \<le> lane_changes ro2 Backlog \<longrightarrow> filter P zs = []"
      using Cons.IH[of ro2 ds] Cons.prems(2) scans_lane[OF step] by auto
    have "scan_steps e clock sync (s # zs) ro ro'"
      by (rule scan_steps.one[where l = ?l, OF one _ Z(1)]) (simp add: ro2_def)
    moreover have "limits Backlog \<le> lane_changes ro Backlog \<longrightarrow> filter P (s # zs) = []"
      using scan(2) Cons.prems(2)[of s] bl Z(4) by (cases ?l) auto
    ultimately show ?thesis using selects_scan[OF Z(2)] Z(3) ch by (intro exI[of _ "s # zs"]) auto
  qed
qed

lemma second_pass_scans:
  "\<exists>k. scan_steps e clock sync (take k ss) ro (second_pass e clock sync lim ss ro) \<and>
     changes (second_pass e clock sync lim ss ro) \<le> max (changes ro) lim \<and>
     (changes ro < lim \<longrightarrow> ss \<noteq> [] \<longrightarrow> 0 < k)"
proof (induction ss arbitrary: ro)
  case (Cons s ss)
  show ?case
  proof (cases "budget_spent lim ro")
    case True
    then show ?thesis by (intro exI[of _ 0]) (auto simp: budget_spent_def changes_def scan_steps.none)
  next
    case False
    obtain c ro1 where one: "sync_one e clock sync s ro = (c, ro1)" by fastforce
    obtain k where k: "scan_steps e clock sync (take k ss) ro1 (second_pass e clock sync lim ss ro1)"
      "changes (second_pass e clock sync lim ss ro1) \<le> max (changes ro1) lim"
      using Cons.IH by blast
    have "changes ro1 \<le> max (changes ro) lim"
      using sync_one_facts(9)[OF one] False by (auto simp: changes_def budget_spent_def)
    moreover have "scan_steps e clock sync (s # take k ss) ro (second_pass e clock sync lim ss ro1)"
      by (rule scan_steps.one[OF one disjI1[OF refl] k(1)])
    ultimately show ?thesis using False one k(2)
      by (intro exI[of _ "Suc k"]) auto
  qed
qed (auto simp: scan_steps.none)

lemma selects_take:
  "selects P ss zs ds \<Longrightarrow> prefix (filter P (zs @ take k ds)) (filter P ss)"
proof -
  assume "selects P ss zs ds"
  moreover have "filter P ds = filter P (take k ds) @ filter P (drop k ds)"
    by (metis append_take_drop_id filter_append)
  ultimately show ?thesis by (auto simp: selects_def prefix_def)
qed

section \<open>A round stays within its budget\<close>

lemma scan_sessions_scans:
  assumes "0 \<le> lim" and P: "\<And>s. s \<in> set (pl_sessions p) \<Longrightarrow> P s \<longleftrightarrow> lane_for e p s = Backlog"
  obtains zs where "scan_steps e clock sync zs (start_round p l) (scan_sessions e clock sync lim p l)"
    "changes (scan_sessions e clock sync lim p l) \<le> lim"
    "set zs \<subseteq> set (pl_sessions p)" "distinct (pl_sessions p) \<Longrightarrow> distinct zs"
    "prefix (filter P zs) (filter P (pl_sessions p))"
proof -
  let ?r0 = "start_round p l"
  have c0: "changes ?r0 = 0" by (simp add: changes_def start_round_def)
  obtain ds ro where fp: "first_pass e clock sync lim (lane_change_limit e p lim) (pl_sessions p) ?r0 = (ds, ro)"
    by fastforce
  obtain ys where ys: "scan_steps e clock sync ys ?r0 ro" "selects P (pl_sessions p) ys ds" "changes ro \<le> max 0 lim"
    using first_pass_scans[OF fp, of P] P c0 by (auto simp: start_round_def)
  obtain k where k: "scan_steps e clock sync (take k ds) ro (second_pass e clock sync lim ds ro)"
    "changes (second_pass e clock sync lim ds ro) \<le> max (changes ro) lim"
    using second_pass_scans[where ss = ds] by blast
  have eq: "scan_sessions e clock sync lim p l = second_pass e clock sync lim ds ro"
    by (simp add: scan_sessions_def fp)
  show ?thesis
  proof (rule that[of "ys @ take k ds"])
    show "scan_steps e clock sync (ys @ take k ds) ?r0 (scan_sessions e clock sync lim p l)"
      unfolding eq by (rule scan_steps_append[OF ys(1) k(1)])
    show "changes (scan_sessions e clock sync lim p l) \<le> lim" using k(2) ys(3) assms(1) by (simp add: eq)
    show "set (ys @ take k ds) \<subseteq> set (pl_sessions p)"
      using ys(2) by (auto simp: selects_def dest: in_set_takeD)
    show "distinct (ys @ take k ds)" if "distinct (pl_sessions p)"
      using ys(2) that by (auto simp: selects_def dest: in_set_takeD)
    show "prefix (filter P (ys @ take k ds)) (filter P (pl_sessions p))" by (rule selects_take[OF ys(2)])
  qed
qed

lemma change_budget_idem [simp]: "change_budget ss (Some (change_budget ss lim)) = change_budget ss lim"
  by (simp add: change_budget_def split: option.split)

lemma fair_round:
  assumes "sync_sessions_fairly e clock sync pn cl root ss lim st = (Inr r, st')"
    and "b = change_budget ss lim" and "p = plan_session_scan e (clock 0) pn cl root ss (Some b) st"
    and "ro = scan_sessions e clock sync b p (sc_ledger st)"
  shows "fs_ingested r + fs_updated r = changes ro" "fs_sessions_scanned r = ro_scanned ro"
    "fs_ingested r + fs_updated r + fs_unchanged r + int (length (fs_failures r)) = outcomes ro"
    "sc_frontiers st' = put_row fr_key (fs_frontier r) (sc_frontiers st)"
    "\<exists>t. fs_frontier r = (pl_frontier (advance_lane_turn e (ro_first_changed_lane ro) b (ro_plan ro)))\<lparr>fr_updated_at := t\<rparr>"
  using assms by (auto simp: sync_sessions_fairly_def Let_def changes_def outcomes_def save_scan_frontier_def
      put_scan_frontier_def split: sum.splits prod.splits)


section \<open>Waiting out a backoff\<close>

definition attempts_of :: "(string \<times> scan_retry) list \<Rightarrow> string \<Rightarrow> int" where
  "attempts_of rs k = (case map_of rs k of Some r \<Rightarrow> rt_attempts r | None \<Rightarrow> 0)"

lemma retry_delay_bounds: "seconds 30 \<le> retry_delay k" "retry_delay k \<le> seconds 3600"
proof -
  have "(1::int) \<le> 2 ^ nat (max 0 (k - 1))" by simp
  then show "seconds 30 \<le> retry_delay k" "retry_delay k \<le> seconds 3600"
    by (simp_all add: retry_delay_def seconds_def)
qed

abbreviation retries :: "scan_round \<Rightarrow> (string \<times> scan_retry) list" where
  "retries ro \<equiv> fr_retry_sources (pl_frontier (ro_plan ro))"

lemma mark_failed_retries:
  "\<exists>r. fr_retry_sources (pl_frontier (mark_failed e t u s x p)) =
       AList.update (session_scan_key e s) r (fr_retry_sources (pl_frontier p)) \<and>
     rt_next_retry_at r = Some (t + retry_delay (attempts_of (fr_retry_sources (pl_frontier p)) (session_scan_key e s) + 1))"
  by (rule exI, rule conjI, simp add: mark_failed_def Let_def)
    (simp add: attempts_of_def new_retry_def split: option.split)

lemma sync_one_retries:
  assumes "sync_one e clock sync s ro = (c, ro')"
  shows "ro_failures ro' = ro_failures ro \<and> retries ro' = AList.delete (session_scan_key e s) (retries ro) \<or>
    (\<exists>err r n. ro_failures ro' = ro_failures ro @ [(s, err)] \<and>
       retries ro' = AList.update (session_scan_key e s) r (retries ro) \<and>
       rt_next_retry_at r = Some (clock n + retry_delay (attempts_of (retries ro) (session_scan_key e s) + 1)))"
proof -
  obtain x l' where x: "sync s (ro_ledger ro) = (x, l')" by fastforce
  show ?thesis
  proof (cases x)
    case (Inl err)
    let ?n = "2 * nat (ro_scanned ro + 1)"
    have "ro_failures ro' = ro_failures ro @ [(s, err)]"
      "ro_plan ro' = mark_failed e (clock ?n) (clock (?n + 1)) s err (ro_plan ro)"
      using Inl assms x by (auto simp: sync_one_def Let_def)
    then show ?thesis using mark_failed_retries[of e "clock ?n" "clock (?n + 1)" s err "ro_plan ro"] by metis
  next
    case (Inr a)
    then show ?thesis using assms x
      by (cases a) (auto simp: sync_one_def Let_def)
  qed
qed

text \<open>What has been recorded about the failed sessions, none of which is scanned twice.\<close>

definition failures_recorded :: "scan_env \<Rightarrow> time \<Rightarrow> (string \<times> scan_retry) list \<Rightarrow> scan_round \<Rightarrow> bool" where
  "failures_recorded e t0 rs ro \<longleftrightarrow> distinct (map fst (retries ro)) \<and>
     (\<forall>k. k \<notin> set (pl_scanned_keys (ro_plan ro)) \<longrightarrow> map_of (retries ro) k = map_of rs k) \<and>
     (\<forall>s err. (s, err) \<in> set (ro_failures ro) \<longrightarrow> session_scan_key e s \<in> set (pl_scanned_keys (ro_plan ro)) \<and>
        (\<exists>r t. map_of (retries ro) (session_scan_key e s) = Some r \<and> rt_next_retry_at r = Some t \<and>
           t0 + retry_delay (attempts_of rs (session_scan_key e s) + 1) \<le> t))"

lemma failures_recorded_bump: "failures_recorded e t0 rs (bump_lane l ro) = failures_recorded e t0 rs ro"
  by (simp only: failures_recorded_def bump_lane_round)

lemma failures_recorded_step:
  assumes one: "sync_one e clock sync s ro = (c, ro')" and inv: "failures_recorded e t0 rs ro"
    and new: "session_scan_key e s \<notin> set (pl_scanned_keys (ro_plan ro))" and t0: "\<And>n. t0 \<le> clock n"
  shows "failures_recorded e t0 rs ro'"
proof -
  let ?k = "session_scan_key e s"
  have ks: "set (pl_scanned_keys (ro_plan ro')) = insert ?k (set (pl_scanned_keys (ro_plan ro)))"
    using sync_one_facts(5)[OF one] by simp
  have att: "attempts_of (retries ro) ?k = attempts_of rs ?k"
    using inv new by (simp add: failures_recorded_def attempts_of_def)
  have other: "session_scan_key e u \<noteq> ?k" if "(u, x) \<in> set (ro_failures ro)" for u x
    using inv new that unfolding failures_recorded_def by metis
  from sync_one_retries[OF one] show ?thesis
  proof
    assume *: "ro_failures ro' = ro_failures ro \<and> retries ro' = AList.delete ?k (retries ro)"
    show ?thesis using inv other unfolding failures_recorded_def ks
      by (auto simp: * distinct_delete AList.delete_conv' simp del: map_of_eq_Some_iff)
  next
    assume "\<exists>err r n. ro_failures ro' = ro_failures ro @ [(s, err)] \<and>
       retries ro' = AList.update ?k r (retries ro) \<and>
       rt_next_retry_at r = Some (clock n + retry_delay (attempts_of (retries ro) ?k + 1))"
    then obtain err r n where *: "ro_failures ro' = ro_failures ro @ [(s, err)]"
      "retries ro' = AList.update ?k r (retries ro)"
      "rt_next_retry_at r = Some (clock n + retry_delay (attempts_of rs ?k + 1))" unfolding att by blast
    show ?thesis using inv other t0[of n] *(3) unfolding failures_recorded_def ks
      by (auto simp: *(1,2) distinct_update AList.update_conv' simp del: map_of_eq_Some_iff)
  qed
qed

lemma failures_recorded_steps:
  assumes "scan_steps e clock sync zs ro ro'" and "\<And>n. t0 \<le> clock n"
  shows "failures_recorded e t0 rs ro \<Longrightarrow> distinct (pl_scanned_keys (ro_plan ro) @ map (session_scan_key e) zs) \<Longrightarrow>
    failures_recorded e t0 rs ro'"
  using assms(1)
proof (induction rule: scan_steps.induct)
  case (one s ro c ro1 ro2 l zs ro')
  have "failures_recorded e t0 rs ro1"
    by (rule failures_recorded_step[OF one(1) one.prems(1)]) (use one.prems(2) assms(2) in auto)
  then have "failures_recorded e t0 rs ro2" using one(2)
    by (elim disjE) (simp_all only: failures_recorded_bump)
  moreover have "pl_scanned_keys (ro_plan ro2) = pl_scanned_keys (ro_plan ro) @ [session_scan_key e s]"
    using sync_one_facts(5)[OF one(1)] one(2) by auto
  ultimately show ?case using one.IH one.prems(2) by simp
qed

lemma advance_lane_turn_frontier [simp]:
  "fr_retry_sources (pl_frontier (advance_lane_turn e x b p)) = fr_retry_sources (pl_frontier p)"
  "fr_cursor_key (pl_frontier (advance_lane_turn e x b p)) = fr_cursor_key (pl_frontier p)"
  "fr_key (pl_frontier (advance_lane_turn e x b p)) = fr_key (pl_frontier p)"
  by (auto simp: advance_lane_turn_def fr_key_def split: option.split)

lemma planned_frontier_key: "fr_key (planned_frontier e now pn cl root st) = (pn, cl, normalize_source_root e root)"
  by (auto simp: planned_frontier_def Let_def get_scan_frontier_def new_frontier_def fr_key_def
      split: option.split dest: get_row_key)

lemma fr_key_stamp [simp]: "fr_key (f\<lparr>fr_updated_at := t\<rparr>) = fr_key f"
  by (simp add: fr_key_def)

section \<open>The store as a machine\<close>

record round_call =
  rc_clock :: "nat \<Rightarrow> time"
  rc_sync :: adapter
  rc_project_name :: string
  rc_client :: string
  rc_source_root :: string
  rc_sessions :: "session list"
  rc_change_limit :: "int option"

definition scan_step :: "scan_env \<Rightarrow> round_call \<Rightarrow> scan_store \<Rightarrow> scan_store" where
  "scan_step e c st = snd (sync_sessions_fairly e (rc_clock c) (rc_sync c) (rc_project_name c) (rc_client c)
     (rc_source_root c) (rc_sessions c) (rc_change_limit c) st)"

definition retries_ok :: "scan_store \<Rightarrow> bool" where
  "retries_ok st \<longleftrightarrow> (\<forall>f\<in>set (sc_frontiers st). distinct (map fst (fr_retry_sources f)))"

lemma scan_steps_distinct_retries:
  assumes "scan_steps e clock sync zs ro ro'"
  shows "distinct (map fst (retries ro)) \<Longrightarrow> distinct (map fst (retries ro'))"
  using assms
proof (induction rule: scan_steps.induct)
  case (one s ro c ro1 ro2 l zs ro')
  have "distinct (map fst (retries ro1))"
    using sync_one_retries[OF one(1)] one.prems by (auto simp: distinct_delete distinct_update)
  then show ?case using one(2) one.IH by auto
qed

lemma planned_retries_ok:
  "retries_ok st \<Longrightarrow> distinct (map fst (fr_retry_sources (planned_frontier e now pn cl root st)))"
  by (auto simp: retries_ok_def planned_frontier_def Let_def new_frontier_def get_scan_frontier_def
      split: option.split dest: get_row_in)

lemma scan_step_retries_ok: "retries_ok st \<Longrightarrow> retries_ok (scan_step e c st)"
proof -
  assume ok: "retries_ok st"
  define b where "b = change_budget (rc_sessions c) (rc_change_limit c)"
  define p where "p = plan_session_scan e (rc_clock c 0) (rc_project_name c) (rc_client c) (rc_source_root c)
    (rc_sessions c) (Some b) st"
  define ro where "ro = scan_sessions e (rc_clock c) (rc_sync c) b p (sc_ledger st)"
  have b0: "0 \<le> b" using budget_positive[of "rc_sessions c" "rc_change_limit c"] by (simp add: b_def)
  obtain zs where "scan_steps e (rc_clock c) (rc_sync c) zs (start_round p (sc_ledger st)) ro"
    using scan_sessions_scans[OF b0, where p = p and P = "\<lambda>s. lane_for e p s = Backlog" and l = "sc_ledger st"]
    unfolding ro_def by metis
  moreover have "distinct (map fst (retries (start_round p (sc_ledger st))))"
    using planned_retries_ok[OF ok] by (simp add: start_round_def p_def)
  ultimately have d: "distinct (map fst (retries ro))" by (rule scan_steps_distinct_retries)
  obtain f l where f: "scan_step e c st = put_scan_frontier f (st\<lparr>sc_ledger := l\<rparr>)" "fr_retry_sources f = retries ro"
  proof -
    let ?n = "2 * nat (ro_scanned ro) + 2"
    show ?thesis
    proof (cases "mark_sources_missing_from_inventory (rc_clock c ?n) (rc_project_name c) (rc_client c)
        (ss_session_id ` set (rc_sessions c)) (ro_ledger ro)")
      case (Inl x)
      then show ?thesis
        using that[of "(pl_frontier (ro_plan ro))\<lparr>fr_updated_at := rc_clock c (?n + 1)\<rparr>" "ro_ledger ro"]
        unfolding scan_step_def sync_sessions_fairly_def Let_def b_def[symmetric] p_def[symmetric] ro_def[symmetric]
        by (simp add: save_scan_frontier_def)
    next
      case (Inr y)
      then show ?thesis
        using that[of "(pl_frontier (advance_lane_turn e (ro_first_changed_lane ro) b (ro_plan ro)))\<lparr>fr_updated_at :=
          rc_clock c (?n + 1)\<rparr>" "snd y"]
        unfolding scan_step_def sync_sessions_fairly_def Let_def b_def[symmetric] p_def[symmetric] ro_def[symmetric]
        by (cases y) (simp add: save_scan_frontier_def)
    qed
  qed
  show ?thesis
    using ok set_put_row_subset[of fr_key f "sc_frontiers st"] d f(2)
    unfolding retries_ok_def f(1) put_scan_frontier_def by auto
qed

interpretation scan_rounds: guarded_machine "scan_step e" retries_ok
  by unfold_locales (rule scan_step_retries_ok)

definition empty_scan_store :: "ledger \<Rightarrow> scan_store" where
  "empty_scan_store l = \<lparr> sc_ledger = l, sc_frontiers = [] \<rparr>"

lemma reachable_retries_ok: "retries_ok (fold (scan_step e) calls (empty_scan_store l))"
  using scan_rounds.run_inv[of "empty_scan_store l" e calls]
  by (simp add: scan_rounds.run_def retries_ok_def empty_scan_store_def)

text \<open>A failed session waits out its backoff.  In any store reached by rounds, after a round in which the
  session failed no plan, for whatever inventory and limit, contains it before the delay for its number of
  attempts has passed since the round began; the delay is between thirty seconds and an hour.\<close>

theorem failed_sessions_wait:
  assumes r: "sync_sessions_fairly e clock sync pn cl root ss lim st = (Inr r, st')"
    and d: "distinct (map (session_scan_key e) ss)" and t0: "\<And>n. t0 \<le> clock n"
    and reach: "st = fold (scan_step e) calls (empty_scan_store l)"
    and rs: "rs = fr_retry_sources (planned_frontier e (clock 0) pn cl root st)"
    and f: "(s, err) \<in> set (fs_failures r)"
    and later: "later < t0 + retry_delay (attempts_of rs (session_scan_key e s) + 1)"
  shows "seconds 30 \<le> retry_delay (attempts_of rs (session_scan_key e s) + 1) \<and>
    s \<notin> set (pl_sessions (plan_session_scan e later pn cl root ss' lim' st'))"
proof -
  have drs: "distinct (map fst rs)" unfolding rs reach by (intro planned_retries_ok reachable_retries_ok)
  define b where "b = change_budget ss lim"
  define p where "p = plan_session_scan e (clock 0) pn cl root ss (Some b) st"
  define ro where "ro = scan_sessions e clock sync b p (sc_ledger st)"
  note R = fair_round[OF r b_def p_def ro_def]
  have b1: "0 \<le> b" "1 \<le> b" using budget_positive[of ss lim] by (simp_all add: b_def)
  have p: "distinct (map (session_scan_key e) (pl_sessions p))" "pl_scanned_keys p = []" "fr_retry_sources (pl_frontier p) = rs"
    using plan_from_bounded(3)[OF b1(2) d]
    by (auto simp: p_def plan_session_scan_def empty_plan_def Let_def b_def rs plan_from_def)
  obtain zs where zs: "scan_steps e clock sync zs (start_round p (sc_ledger st)) ro" "set zs \<subseteq> set (pl_sessions p)"
    "distinct (pl_sessions p) \<Longrightarrow> distinct zs"
    using scan_sessions_scans[OF b1(1), where p = p and P = "\<lambda>s. lane_for e p s = Backlog" and l = "sc_ledger st"]
    unfolding ro_def by metis
  have "distinct (map (session_scan_key e) zs)" using p(1) zs(2,3) by (meson distinct_map inj_on_subset)
  moreover have "failures_recorded e t0 rs (start_round p (sc_ledger st))"
    using drs by (simp add: failures_recorded_def start_round_def p)
  ultimately have inv: "failures_recorded e t0 rs ro"
    using failures_recorded_steps[OF zs(1) t0] by (simp add: start_round_def p(2))
  have fail: "fs_failures r = ro_failures ro"
    using r by (auto simp: sync_sessions_fairly_def Let_def ro_def p_def b_def split: sum.splits prod.splits)
  obtain q t where q: "map_of (retries ro) (session_scan_key e s) = Some q" "rt_next_retry_at q = Some t" "later < t"
    using inv f later unfolding fail failures_recorded_def by (metis order_less_le_trans)
  have keys: "fr_retry_sources (fs_frontier r) = retries ro" "fr_key (fs_frontier r) = (pn, cl, normalize_source_root e root)"
  proof -
    have "fr_key (pl_frontier (ro_plan ro)) = fr_key (pl_frontier p)"
      using scan_steps_scans[OF zs(1)] by (simp add: scans_def keeps_frame_def start_round_def)
    then show "fr_retry_sources (fs_frontier r) = retries ro" "fr_key (fs_frontier r) = (pn, cl, normalize_source_root e root)"
      using R(5) by (auto simp: p_def planned_frontier_key)
  qed
  then have pf: "planned_frontier e later pn cl root st' = fs_frontier r"
    by (simp add: planned_frontier_def Let_def get_scan_frontier_def R(4) get_put_row)
  have "s \<notin> set (pl_sessions (plan_from e later (fs_frontier r) c ss'))" for c
  proof
    assume "s \<in> set (pl_sessions (plan_from e later (fs_frontier r) c ss'))"
    then have "s \<in> set (plan_due e later (fs_frontier r) c ss') \<or> s \<in> set (map fst (plan_turns e (fs_frontier r) c ss'))"
      unfolding plan_from_sessions set_append using in_set_takeD by (metis Un_iff)
    then consider "s \<in> set (plan_due e later (fs_frontier r) c ss')"
      | "s \<in> set (plan_recent e (fs_frontier r) c ss') \<union> set (plan_backlog e (fs_frontier r) c ss')"
      unfolding set_turns by blast
    then show False
    proof cases
      case 1
      obtain x where "(session_scan_key e s, x) \<in> set (retries ro)" "retry_due_at later x"
        using plan_due_from[OF 1] unfolding keys by blast
      moreover have "x = q" using calculation(1) q(1) inv by (auto simp: failures_recorded_def)
      ultimately show False using q(2,3) by (simp add: retry_due_at_def)
    next
      case 2
      have "session_scan_key e s \<notin> fst ` set (retries ro)" using plan_lane_from[OF 2] unfolding keys by blast
      then show False using q(1) by (metis map_of_eq_None_iff option.distinct(1))
    qed
  qed
  then show ?thesis using retry_delay_bounds(1)
    by (simp add: plan_session_scan_def Let_def pf empty_plan_def)
qed

section \<open>A small inventory\<close>

definition demo_scan_env :: scan_env where
  "demo_scan_env = \<lparr> se_path_key = (\<lambda>p. p), se_casefold = (\<lambda>s. s) \<rparr>"

definition demo_sessions :: "session list" where
  "demo_sessions = [\<lparr>ss_path = ''/c'', ss_session_id = ''3''\<rparr>, \<lparr>ss_path = ''/a'', ss_session_id = ''1''\<rparr>,
     \<lparr>ss_path = ''/b'', ss_session_id = ''2''\<rparr>]"

lemma demo_distinct: "distinct (map (session_scan_key demo_scan_env) demo_sessions)"
  by code_simp

definition demo_broken :: session where
  "demo_broken = \<lparr>ss_path = ''/a'', ss_session_id = ''1''\<rparr>"

definition demo_sync :: adapter where
  "demo_sync s l = (Inl (''OSError'', ''gone''), l)"

definition demo_round :: "(py_error + fair_result) \<times> scan_store" where
  "demo_round = sync_sessions_fairly demo_scan_env (\<lambda>n. 7) demo_sync ''p'' ''c'' ''/'' [demo_broken] (Some 2)
     (empty_scan_store empty_ledger)"

lemma demo_round_outcome:
  "\<exists>r st'. demo_round = (Inr r, st') \<and> fs_sessions_scanned r = 1 \<and> fs_failures r = [(demo_broken, (''OSError'', ''gone''))]"
proof -
  let ?st = "empty_scan_store empty_ledger"
  let ?f = "planned_frontier demo_scan_env 7 ''p'' ''c'' ''/'' ?st"
  have f: "?f = new_frontier 7 ''p'' ''c'' ''/''" by code_simp
  define p where "p = plan_from demo_scan_env 7 (new_frontier 7 ''p'' ''c'' ''/'') 2 [demo_broken]"
  have p: "plan_session_scan demo_scan_env 7 ''p'' ''c'' ''/'' [demo_broken] (Some 2) ?st = p"
    by (simp add: plan_session_scan_def f p_def change_budget_def)
  have ps: "pl_sessions p = [demo_broken]" and lim: "lane_change_limit demo_scan_env p 2 (lane_for demo_scan_env p demo_broken) = 2"
    unfolding p_def by code_simp+
  have "snd (sync_one demo_scan_env (\<lambda>n. 7) demo_sync demo_broken (start_round p empty_ledger)) =
      scan_sessions demo_scan_env (\<lambda>n. 7) demo_sync 2 p empty_ledger"
    using lim by (simp add: scan_sessions_def ps budget_spent_def start_round_def lane_changes_def Let_def
        sync_one_def demo_sync_def split: lane.split)
  then have ro: "scan_sessions demo_scan_env (\<lambda>n. 7) demo_sync 2 p empty_ledger =
      (start_round p empty_ledger)\<lparr>ro_scanned := 1, ro_failures := [(demo_broken, (''OSError'', ''gone''))],
        ro_plan := mark_failed demo_scan_env 7 7 demo_broken (''OSError'', ''gone'') p\<rparr>"
    by (simp add: sync_one_def demo_sync_def start_round_def Let_def)
  have m: "mark_sources_missing_from_inventory 7 ''p'' ''c'' obs empty_ledger = Inr ([], empty_ledger)" for obs
    by (simp add: mark_sources_missing_from_inventory_def list_sources_def newest_first_def empty_ledger_def)
  have ls: "sc_ledger ?st = empty_ledger" by (simp add: empty_scan_store_def)
  show ?thesis
    unfolding demo_round_def sync_sessions_fairly_def
    by (simp add: change_budget_def p ro m Let_def ls start_round_def)
qed


theorem failed_sessions_wait_witness:
  "\<exists>r st'. demo_round = (Inr r, st') \<and>
     demo_broken \<notin> set (pl_sessions (plan_session_scan demo_scan_env (7 + seconds 29) ''p'' ''c'' ''/'' [demo_broken] None st'))"
proof -
  obtain r st' where r: "demo_round = (Inr r, st')" "fs_failures r = [(demo_broken, (''OSError'', ''gone''))]"
    using demo_round_outcome by auto
  have d: "distinct (map (session_scan_key demo_scan_env) [demo_broken])" by simp
  have z: "empty_scan_store empty_ledger = fold (scan_step demo_scan_env) [] (empty_scan_store empty_ledger)" by simp
  have nr: "[] = fr_retry_sources (planned_frontier demo_scan_env 7 ''p'' ''c'' ''/'' (empty_scan_store empty_ledger))"
    by code_simp
  have f: "(demo_broken, (''OSError'', ''gone'')) \<in> set (fs_failures r)" using r(2) by simp
  have "7 + seconds 29 < 7 + retry_delay (attempts_of [] k + 1)" for k
    by (simp add: attempts_of_def retry_delay_def seconds_def)
  from failed_sessions_wait[OF r(1)[unfolded demo_round_def] d order_refl z nr f this]
  show ?thesis using r(1) by blast
qed

end
