(* ===== verification/ScanReach.thy ===== *)
theory ScanReach
  imports ScanRounds
begin

text \<open>
  Fairness: while nothing fails, every round scans the front of the backlog or hands the next turn to it, the
  traversal resumes after the last session scanned, and so every session outside the recent window is reached.
\<close>

section \<open>Marking missing sources cannot fail\<close>

text \<open>The constraints of the table: ids and locators are unique.\<close>

definition sources_ok :: "ledger \<Rightarrow> bool" where
  "sources_ok l \<longleftrightarrow> distinct (map s_id (l_sources l)) \<and> distinct (map locator (l_sources l))"

definition same_sources :: "ledger \<Rightarrow> ledger \<Rightarrow> bool" where
  "same_sources l l' \<longleftrightarrow> map s_id (l_sources l') = map s_id (l_sources l) \<and>
     map locator (l_sources l') = map locator (l_sources l)"

definition known_source :: "ledger \<Rightarrow> tsource \<Rightarrow> bool" where
  "known_source l s \<longleftrightarrow> (s_id s, locator s) \<in> set (zip (map s_id (l_sources l)) (map locator (l_sources l)))"

lemma known_sourceI: "q \<in> set (l_sources l) \<Longrightarrow> s_id s = s_id q \<Longrightarrow> locator s = locator q \<Longrightarrow> known_source l s"
  by (force simp: known_source_def zip_map_map zip_same_conv_map)

lemma put_row_known:
  assumes "q \<in> set xs" "s_id q = s_id s" "locator q = locator s" "distinct (map s_id xs)"
  shows "map s_id (put_row s_id s xs) = map s_id xs \<and> map locator (put_row s_id s xs) = map locator xs"
  using assms
proof (induction xs)
  case (Cons x xs)
  then show ?case by (cases "x = q") (auto dest: image_ne)
qed simp

lemma upsert_known:
  assumes ok: "sources_ok l" and "known_source l s"
  shows "\<exists>l'. upsert_source s l = Inr l' \<and> same_sources l l'"
proof -
  obtain q where q: "q \<in> set (l_sources l)" "s_id q = s_id s" "locator q = locator s"
    using assms(2) by (auto simp: known_source_def zip_map_map zip_same_conv_map)
  have "x = q" if "x \<in> set (l_sources l)" "locator x = locator s" for x
    using ok q that unfolding sources_ok_def distinct_map by (metis inj_onD)
  then have "upsert_source s l = Inr (l\<lparr>l_sources := put_row s_id s (l_sources l)\<rparr>)"
    using q unfolding upsert_source_def list_ex_iff by metis
  then show ?thesis using put_row_known[OF q] ok by (simp add: same_sources_def sources_ok_def)
qed

lemma upserts_known:
  assumes "sources_ok l" and "list_all (known_source l) ss"
  shows "\<exists>l'. fold (\<lambda>s r. bind_res r (upsert_source s)) ss (Inr l) = Inr l' \<and> same_sources l l'"
  using assms
proof (induction ss arbitrary: l)
  case Nil
  then show ?case by (simp add: same_sources_def)
next
  case (Cons s ss)
  then obtain l1 where l1: "upsert_source s l = Inr l1" "same_sources l l1" using upsert_known by fastforce
  then have "sources_ok l1" "list_all (known_source l1) ss"
    using Cons.prems by (auto simp: same_sources_def sources_ok_def known_source_def list_all_iff)
  from Cons.IH[OF this] l1 show ?case by (auto simp: same_sources_def)
qed

lemma mark_missing_total:
  assumes "sources_ok l"
  shows "\<exists>ms l'. mark_sources_missing_from_inventory now pn cl obs l = Inr (ms, l') \<and> sources_ok l'"
proof -
  define ms where "ms = map (\<lambda>s. s\<lparr>s_status := Missing, s_error := None, s_updated_at := now,
               s_metadata := AList.update ''missing_reason'' (JStr ''absent_from_complete_host_inventory'')
                 (AList.update ''missing_since'' (JStr (isoformat now)) (s_metadata s))\<rparr>)
            (filter (\<lambda>s. s_session_id s \<notin> obs \<and> s_status s \<noteq> Missing)
               (list_sources (Some pn) (Some cl) None (Some 100000) l))"
  have "s \<in> set (l_sources l)" if "s \<in> set (list_sources (Some pn) (Some cl) None (Some 100000) l)" for s
    using that by (auto simp: list_sources_def newest_first_def Let_def dest!: in_set_takeD)
  then have "list_all (known_source l) ms"
    by (auto simp: ms_def list_all_iff intro!: known_sourceI simp: locator_def)
  from upserts_known[OF assms this] obtain l' where
    "fold (\<lambda>s r. bind_res r (upsert_source s)) ms (Inr l) = Inr l'" "same_sources l l'" by blast
  then show ?thesis using assms
    unfolding mark_sources_missing_from_inventory_def Let_def ms_def[symmetric]
    by (auto simp: same_sources_def sources_ok_def)
qed

section \<open>Lanes of a plan without retries\<close>

lemma map_of_fold_update:
  "map_of (fold (\<lambda>(s, v). AList.update (g s) v) xs ys) = map_of (rev (map (\<lambda>(s, v). (g s, v)) xs) @ ys)"
  by (induction xs arbitrary: ys) (auto simp: AList.update_conv' map_add_assoc[symmetric] simp del: map_add_assoc)

lemma map_of_fold_update_in:
  assumes "distinct (map g (map fst xs))" and "(s, v) \<in> set xs"
  shows "map_of (fold (\<lambda>(s, v). AList.update (g s) v) xs []) (g s) = Some v"
  unfolding map_of_fold_update
proof (rule map_of_is_SomeI)
  have "map fst (map (\<lambda>(s, v). (g s, v)) xs) = map g (map fst xs)" by (induction xs) auto
  then show "distinct (map fst (rev (map (\<lambda>(s, v). (g s, v)) xs) @ []))"
    using assms(1) by (simp only: append_Nil2 rev_map[symmetric] distinct_rev)
  show "(g s, v) \<in> set (rev (map (\<lambda>(s, v). (g s, v)) xs) @ [])" using assms(2) by force
qed

lemma map_of_fold_update_None:
  "g s \<notin> g ` fst ` set xs \<Longrightarrow> map_of (fold (\<lambda>(s, v). AList.update (g s) v) xs []) (g s) = None"
  unfolding map_of_fold_update by (force simp: map_of_eq_None_iff)


text \<open>A plan made from a frontier that has no retries and leaves something in the backlog lane.\<close>

definition calm :: "scan_env \<Rightarrow> frontier \<Rightarrow> int \<Rightarrow> session list \<Rightarrow> bool" where
  "calm e f b ss \<longleftrightarrow> 1 \<le> b \<and> distinct (map (session_scan_key e) ss) \<and> fr_retry_sources f = [] \<and>
     plan_backlog e f b ss \<noteq> []"

lemma plan_due_none: "fr_retry_sources f = [] \<Longrightarrow> plan_due e now f b ss = []"
  by (simp add: plan_due_def due_retries_def List.map_filter_simps)

lemma plan_lanes_none:
  assumes "fr_retry_sources f = []"
  shows "plan_recent e f b ss = recent_lane b ss"
    and "plan_backlog e f b ss = map fst (backlog_lane e (fr_cursor_key f) b ss)"
  using assms by (simp_all add: plan_recent_def plan_backlog_def waiting_out_def)

lemma calm_nonempty: "calm e f b ss \<Longrightarrow> ss \<noteq> [] \<and> plan_recent e f b ss \<noteq> []"
  by (auto simp: calm_def plan_lanes_none backlog_lane_def traversal_def recent_lane_def)

lemma calm_sessions:
  assumes "calm e f b ss"
  shows "pl_sessions (plan_from e now f b ss) = map fst (take (nat (probe_budget b)) (plan_turns e f b ss))"
  using assms by (simp add: calm_def plan_from_def Let_def plan_due_none)

lemma calm_lane:
  assumes c: "calm e f b ss" and s: "s \<in> set (pl_sessions (plan_from e now f b ss))"
  shows "lane_for e (plan_from e now f b ss) s = Backlog \<longleftrightarrow> s \<in> set (plan_backlog e f b ss)"
proof -
  let ?t = "take (nat (probe_budget b)) (plan_turns e f b ss)"
  obtain l where l: "(s, l) \<in> set ?t" using s unfolding calm_sessions[OF c] by auto
  have "distinct (map (session_scan_key e) (map fst ?t))"
    unfolding take_map[symmetric] using distinct_turns c by (intro distinct_take) (simp add: calm_def)
  from map_of_fold_update_in[OF this l] have lane: "lane_for e (plan_from e now f b ss) s = l"
    using c by (simp add: lane_for_def plan_from_def Let_def plan_due_none calm_def tag_lane_def)
  have "(s, l) \<in> set (plan_turns e f b ss)" by (rule in_set_takeD[OF l])
  then have "(l = Recent \<and> s \<in> set (plan_recent e f b ss)) \<or> (l = Backlog \<and> s \<in> set (plan_backlog e f b ss))"
    by (auto simp: plan_turns_def Let_def tag_lane_def split: lane.splits)
  moreover have "s \<notin> set (plan_backlog e f b ss)" if "s \<in> set (plan_recent e f b ss)"
    using plan_lanes_disjoint[of e f b ss] that by blast
  ultimately show ?thesis using lane by auto
qed

lemma calm_in_backlog:
  assumes c: "calm e f b ss" and s: "s \<in> set ss"
  shows "map_of (pl_backlog_wrap (plan_from e now f b ss)) (session_scan_key e s) \<noteq> None \<longleftrightarrow>
     s \<in> set (plan_backlog e f b ss)"
proof -
  let ?bl = "backlog_lane e (fr_cursor_key f) b ss"
  have set: "set (plan_backlog e f b ss) = fst ` set ?bl" using c by (simp add: calm_def plan_lanes_none)
  have d: "distinct (map (session_scan_key e) (map fst ?bl))"
    using distinct_lanes(2)[of e ss f b] c by (simp add: calm_def plan_lanes_none)
  have w: "pl_backlog_wrap (plan_from e now f b ss) =
      fold (\<lambda>(s, w). AList.update (session_scan_key e s) w) ?bl []"
    by (simp add: plan_from_def Let_def)
  show ?thesis
  proof (cases "s \<in> fst ` set ?bl")
    case True
    then obtain v where "(s, v) \<in> set ?bl" by auto
    then show ?thesis using map_of_fold_update_in[OF d] True unfolding w set by fastforce
  next
    case False
    have "session_scan_key e s \<notin> session_scan_key e ` fst ` set ?bl"
    proof
      assume "session_scan_key e s \<in> session_scan_key e ` fst ` set ?bl"
      then obtain u where "u \<in> fst ` set ?bl" "session_scan_key e s = session_scan_key e u" by blast
      moreover have "u \<in> set ss" using backlog_from calculation(1) by blast
      ultimately show False using False s c unfolding calm_def distinct_map by (metis inj_onD)
    qed
    from map_of_fold_update_None[OF this] False show ?thesis unfolding w set by simp
  qed
qed

lemma calm_backlog_order:
  assumes "calm e f b ss"
  shows "prefix (filter (\<lambda>s. s \<in> set (plan_backlog e f b ss)) (pl_sessions (plan_from e now f b ss))) (plan_backlog e f b ss)"
proof -
  let ?P = "\<lambda>s. s \<in> set (plan_backlog e f b ss)"
  have "\<not> ?P s" if "s \<in> set (plan_recent e f b ss)" for s
    using plan_lanes_disjoint[of e f b ss] that by blast
  then have "filter ?P (map fst (plan_turns e f b ss)) = plan_backlog e f b ss"
    unfolding map_fst_turns by (cases "plan_primary e f b ss") (simp_all add: filter_interleave)
  moreover have "prefix (filter ?P (take n xs)) (filter ?P xs)" for n xs
    by (metis append_take_drop_id filter_append prefixI)
  ultimately show ?thesis unfolding calm_sessions[OF assms] take_map[symmetric] by metis
qed

lemma calm_first_two:
  assumes c: "calm e f b ss"
  shows "\<exists>rest. pl_sessions (plan_from e now f b ss) =
    (case fr_next_lane f of Recent \<Rightarrow> hd (plan_recent e f b ss) # hd (plan_backlog e f b ss) # rest
     | Backlog \<Rightarrow> hd (plan_backlog e f b ss) # hd (plan_recent e f b ss) # rest)"
proof -
  have "plan_primary e f b ss = fr_next_lane f"
    using c calm_nonempty[OF c] by (simp add: plan_primary_def calm_def Let_def)
  moreover have "\<exists>rest. take (nat (probe_budget b)) (interleave xs ys) = hd xs # hd ys # rest"
    if "xs \<noteq> []" "ys \<noteq> []" for xs ys :: "session list"
  proof -
    have "2 \<le> nat (probe_budget b)" by (simp add: probe_budget_def le_nat_iff)
    then obtain n where "nat (probe_budget b) = Suc (Suc n)" by (metis add_2_eq_Suc le_add_diff_inverse)
    then show ?thesis using that by (cases xs; cases ys) auto
  qed
  ultimately show ?thesis using c calm_nonempty[OF c]
    unfolding calm_sessions[OF c] take_map[symmetric] map_fst_turns by (cases "fr_next_lane f") (auto simp: calm_def)
qed


section \<open>Every round reaches the backlog, or the next one does\<close>

lemma scan_steps_keys: "scan_steps e clock sync zs ro ro' \<Longrightarrow>
   set (pl_scanned_keys (ro_plan ro)) \<subseteq> set (pl_scanned_keys (ro_plan ro'))"
  using scan_steps_scans by (fastforce simp: scans_def)

lemma first_pass_keys:
  "set (pl_scanned_keys (ro_plan ro)) \<subseteq> set (pl_scanned_keys (ro_plan (snd (first_pass e clock sync lim limits ss ro))))"
  using first_pass_scans[of e clock sync lim limits ss ro _ _ "\<lambda>s. lane_for e (ro_plan ro) s = Backlog"]
    scan_steps_keys by (metis prod.collapse)

lemma second_pass_keys:
  "set (pl_scanned_keys (ro_plan ro)) \<subseteq> set (pl_scanned_keys (ro_plan (second_pass e clock sync lim ss ro)))"
  using second_pass_scans[of e clock sync ss ro lim] scan_steps_keys by blast

lemma scan_sessions_keys:
  "set (pl_scanned_keys (ro_plan (snd (first_pass e clock sync lim (lane_change_limit e p lim) (pl_sessions p) (start_round p l)))))
     \<subseteq> set (pl_scanned_keys (ro_plan (scan_sessions e clock sync lim p l)))"
  using second_pass_keys by (simp add: scan_sessions_def split: prod.split)

lemma first_pass_hd:
  assumes "changes ro < lim" and "lane_for e (ro_plan ro) s = l" and "lane_changes ro l < limits l"
    and "sync_one e clock sync s ro = (c, ro1)"
  shows "first_pass e clock sync lim limits (s # ss) ro =
    first_pass e clock sync lim limits ss (if c then bump_lane l ro1 else ro1)"
  using assms by (simp add: Let_def budget_spent_def changes_def)

lemma calm_limits:
  assumes c: "calm e f b ss" and p: "p = plan_from e now f b ss"
  shows "lane_change_limit e p b Recent = (if b = 1 then if fr_next_lane f = Recent then 1 else 0 else (b + 1) div 2)"
    and "lane_change_limit e p b Backlog = (if b = 1 then if fr_next_lane f = Backlog then 1 else 0 else b - (b + 1) div 2)"
    and "list_ex (\<lambda>s. lane_for e p s = Recent) (pl_sessions p)" "list_ex (\<lambda>s. lane_for e p s = Backlog) (pl_sessions p)"
    and "lane_for e p (hd (plan_recent e f b ss)) = Recent" "lane_for e p (hd (plan_backlog e f b ss)) = Backlog"
proof -
  let ?r = "hd (plan_recent e f b ss)" and ?h = "hd (plan_backlog e f b ss)"
  have ne: "plan_recent e f b ss \<noteq> []" "plan_backlog e f b ss \<noteq> []"
    using calm_nonempty[OF c] c by (auto simp: calm_def)
  have ins: "?r \<in> set (pl_sessions p)" "?h \<in> set (pl_sessions p)"
  proof -
    obtain rest where rest: "pl_sessions p = (case fr_next_lane f of Recent \<Rightarrow> ?r # ?h # rest | Backlog \<Rightarrow> ?h # ?r # rest)"
      using calm_first_two[OF c, of now] unfolding p by blast
    show "?r \<in> set (pl_sessions p)" "?h \<in> set (pl_sessions p)"
      unfolding rest by (cases "fr_next_lane f"; simp)+
  qed
  have "?r \<notin> set (plan_backlog e f b ss)"
    using plan_lanes_disjoint[of e f b ss] hd_in_set[OF ne(1)] by blast
  have lanes: "lane_for e p ?r = Recent" "lane_for e p ?h = Backlog"
  proof -
    have "lane_for e p ?r \<noteq> Backlog" "lane_for e p ?h = Backlog"
      using calm_lane[OF c] ins hd_in_set[OF ne(2)] \<open>?r \<notin> _\<close> unfolding p by blast+
    then show "lane_for e p ?r = Recent" "lane_for e p ?h = Backlog" by (metis lane.exhaust)+
  qed
  then show "lane_for e p ?r = Recent" "lane_for e p ?h = Backlog" .
  from lanes ins show both: "list_ex (\<lambda>s. lane_for e p s = Recent) (pl_sessions p)"
    "list_ex (\<lambda>s. lane_for e p s = Backlog) (pl_sessions p)" unfolding list_ex_iff by blast+
  have pr: "pl_primary_lane p = Some (fr_next_lane f)"
    using c ne by (simp add: p plan_from_def Let_def plan_primary_def)
  have b: "1 \<le> b" using c by (simp add: calm_def)
  show "lane_change_limit e p b Recent = (if b = 1 then if fr_next_lane f = Recent then 1 else 0 else (b + 1) div 2)"
    "lane_change_limit e p b Backlog = (if b = 1 then if fr_next_lane f = Backlog then 1 else 0 else b - (b + 1) div 2)"
    using both pr b by (auto simp: lane_change_limit_def Let_def)
qed

lemma backlog_reached:
  assumes c: "calm e f b ss" and p: "p = plan_from e now f b ss"
    and ro: "ro = scan_sessions e clock sync b p l"
  shows "session_scan_key e (hd (plan_backlog e f b ss)) \<in> set (pl_scanned_keys (ro_plan ro)) \<or>
    fr_next_lane f = Recent \<and>
    fr_next_lane (pl_frontier (advance_lane_turn e (ro_first_changed_lane ro) b (ro_plan ro))) = Backlog"
proof -
  let ?r = "hd (plan_recent e f b ss)" and ?h = "hd (plan_backlog e f b ss)"
  let ?L = "lane_change_limit e p b" and ?start = "start_round p l"
  let ?goal = "session_scan_key e ?h \<in> set (pl_scanned_keys (ro_plan ro))"
  note lim = calm_limits[OF c p]
  have b: "1 \<le> b" using c by (simp add: calm_def)
  have r0: "changes ?start = 0" "lane_changes ?start m = 0" "ro_plan ?start = p" "ro_first_changed_lane ?start = None" for m
    by (simp_all add: start_round_def changes_def lane_changes_def split: lane.split)
  obtain rest where rest: "pl_sessions p =
    (case fr_next_lane f of Recent \<Rightarrow> ?r # ?h # rest | Backlog \<Rightarrow> ?h # ?r # rest)"
    using calm_first_two[OF c, of now] unfolding p by blast
  note up = scan_sessions_keys[of e clock sync b p l, folded ro]
  show ?thesis
  proof (cases "fr_next_lane f")
    case Backlog
    obtain c1 ro1 where one: "sync_one e clock sync ?h ?start = (c1, ro1)" by fastforce
    have "0 < ?L Backlog" using b Backlog lim(2) by auto
    then have "first_pass e clock sync b ?L (pl_sessions p) ?start =
        first_pass e clock sync b ?L (?r # rest) (if c1 then bump_lane Backlog ro1 else ro1)"
      unfolding rest Backlog lane.case using one
      by (intro first_pass_hd) (use b lim(6) r0 in simp_all)
    moreover have "session_scan_key e ?h \<in> set (pl_scanned_keys (ro_plan (if c1 then bump_lane Backlog ro1 else ro1)))"
      using sync_one_facts(5)[OF one] by simp
    ultimately show ?thesis using up first_pass_keys by (metis subsetD)
  next
    case Recent
    obtain c1 ro1 where one: "sync_one e clock sync ?r ?start = (c1, ro1)" by fastforce
    define ro2 where "ro2 = (if c1 then bump_lane Recent ro1 else ro1)"
    have "0 < ?L Recent" using b Recent lim(1) by auto
    then have fp: "first_pass e clock sync b ?L (pl_sessions p) ?start = first_pass e clock sync b ?L (?h # rest) ro2"
      unfolding rest Recent lane.case ro2_def using one
      by (intro first_pass_hd) (use b lim(5) r0 in simp_all)
    note F = sync_one_facts[OF one]
    have ro2: "changes ro2 = (if c1 then 1 else 0)" "lane_changes ro2 Backlog = 0"
      "lane_for e (ro_plan ro2) = lane_for e p" "ro_first_changed_lane ro2 = (if c1 then Some Recent else None)"
      using F(1,9,12,13) r0 lim(5) by (auto simp: ro2_def lane_for_def)
    show ?thesis
    proof (cases "b = 1")
      case False
      obtain c3 ro3 where two: "sync_one e clock sync ?h ro2 = (c3, ro3)" by fastforce
      have "0 < ?L Backlog" using b False lim(2) by simp
      then have "first_pass e clock sync b ?L (?h # rest) ro2 =
          first_pass e clock sync b ?L rest (if c3 then bump_lane Backlog ro3 else ro3)"
        using two by (intro first_pass_hd) (use b False lim(6) ro2 in simp_all)
      moreover have "session_scan_key e ?h \<in> set (pl_scanned_keys (ro_plan (if c3 then bump_lane Backlog ro3 else ro3)))"
        using sync_one_facts(5)[OF two] by simp
      ultimately have ?goal using up first_pass_keys fp by (metis subsetD)
      then show ?thesis ..
    next
      case True
      show ?thesis
      proof (cases c1)
        case True
        then have "ro = ro2" using ro2(1) \<open>b = 1\<close> unfolding ro scan_sessions_def fp
          by (simp add: budget_spent_def changes_def)
        then have "advance_lane_turn e (ro_first_changed_lane ro) b (ro_plan ro) =
            (ro_plan ro2)\<lparr>pl_frontier := (pl_frontier (ro_plan ro2))\<lparr>fr_next_lane := Backlog\<rparr>\<rparr>"
          using True ro2(3,4) lim(3,4) \<open>b = 1\<close> F(2) r0(3) by (simp add: advance_lane_turn_def ro2_def)
        then show ?thesis using Recent by simp
      next
        case False
        have zero: "?L Backlog = 0" using lim(2) \<open>b = 1\<close> Recent by simp
        obtain ds ro3 where fp2: "first_pass e clock sync b ?L rest ro2 = (ds, ro3)" by fastforce
        have P: "lane_for e (ro_plan ro2) s = Backlog" if s: "s \<in> set rest" for s
        proof -
          have sess: "pl_sessions p = ?r # ?h # rest" using rest Recent by simp
          have "distinct (pl_sessions p)"
            using plan_from_bounded(3)[OF b, of e ss now f] c unfolding p calm_def by (simp add: distinct_map)
          then have "s \<noteq> ?r" using s unfolding sess by auto
          moreover have "set (plan_recent e f b ss) \<subseteq> {?r}"
            using c \<open>b = 1\<close> by (cases ss) (auto simp: plan_lanes_none calm_def recent_lane_def)
          moreover have "s \<in> set (plan_recent e f b ss) \<union> set (plan_backlog e f b ss)"
          proof -
            have "s \<in> set (pl_sessions p)" using s sess by simp
            then have "s \<in> set (map fst (plan_turns e f b ss))"
              unfolding p calm_sessions[OF c] take_map[symmetric] by (rule in_set_takeD)
            then show ?thesis unfolding set_turns .
          qed
          ultimately have "s \<in> set (plan_backlog e f b ss)" by blast
          then show ?thesis using calm_lane[OF c, of s now] s sess unfolding ro2(3) p by simp
        qed
        obtain zs where zs: "scan_steps e clock sync zs ro2 ro3" "selects (\<lambda>s. True) rest zs ds"
          "filter (\<lambda>s. True) zs = []"
          using first_pass_scans[OF fp2, of "\<lambda>s. True"] P zero ro2(2) by auto
        then have "ro3 = ro2" by (auto elim: scan_steps.cases)
        then have "ro = second_pass e clock sync b (?h # ds) ro2"
          unfolding ro scan_sessions_def fp using False ro2 zero fp2 lim(6) \<open>b = 1\<close>
          by (simp add: budget_spent_def changes_def Let_def)
        moreover obtain c3 ro4 where two: "sync_one e clock sync ?h ro2 = (c3, ro4)" by fastforce
        ultimately have "ro = second_pass e clock sync b ds ro4"
          using False ro2(1) \<open>b = 1\<close> by (simp add: budget_spent_def changes_def)
        then have ?goal using second_pass_keys[of ro4 e clock sync b ds] sync_one_facts(5)[OF two] by auto
        then show ?thesis ..
      qed
    qed
  qed
qed

section \<open>The traversal resumes after the cursor\<close>

lemma traversal_after:
  assumes d: "distinct (map (session_scan_key e) ss)" and j: "j < length ss"
    and c: "map fst (traversal cur e ss) ! j = c"
  shows "map fst (traversal (Some (session_scan_key e c)) e ss) =
    drop (Suc j) (map fst (traversal cur e ss)) @ take (Suc j) (map fst (traversal cur e ss))"
proof -
  define xs where "xs = sort_key (session_scan_key e) ss"
  have dk: "distinct (map (session_scan_key e) xs)"
    using d unfolding xs_def distinct_map by simp
  have dx: "distinct xs" and lx: "length xs = length ss"
    using dk by (simp_all add: distinct_map xs_def)
  obtain a where a: "map fst (traversal cur e ss) = rotate a xs"
    using map_fst_traversal[of cur e ss] unfolding xs_def by blast
  have "c \<in> set xs" using c j lx unfolding a by (metis length_rotate nth_mem set_rotate)
  then obtain i where i: "i < length xs" "xs ! i = c" by (auto simp: in_set_conv_nth)
  have "index_of (session_scan_key e c) (map (session_scan_key e) xs) = Some i"
    using index_of_distinct[OF dk, of i] i by simp
  moreover have "session_scan_key e c \<noteq> []" by (simp add: session_scan_key_def)
  moreover have "rotate (Suc i) xs = xs" if "length xs \<le> Suc i"
    using that i(1) by (intro rotate_id) (metis Suc_leI le_antisym mod_self)
  ultimately have "map fst (traversal (Some (session_scan_key e c)) e ss) = rotate (Suc i) xs"
    unfolding map_fst_traversal xs_def[symmetric] using i(1)
    by (auto simp: traversal_start_def simp del: rotate_Suc)
  also have "\<dots> = drop (Suc j) (rotate a xs) @ take (Suc j) (rotate a xs)"
    using rotate_after[OF dx i(1), of j a] j lx c i(2) unfolding a by simp
  finally show ?thesis unfolding a .
qed

lemma backlog_after:
  assumes d: "distinct (map (session_scan_key e) ss)"
    and bl: "bl = map fst (backlog_lane e cur b ss)" and k: "0 < k" "k \<le> length bl"
  shows "map fst (backlog_lane e (Some (session_scan_key e (bl ! (k - 1)))) b ss) = drop k bl @ take k bl"
proof -
  let ?Q = "\<lambda>s. session_scan_key e s \<notin> session_scan_key e ` set (recent_lane b ss)"
  define tr where "tr = map fst (traversal cur e ss)"
  have bl_tr: "map fst (backlog_lane e cu b ss) = filter ?Q (map fst (traversal cu e ss))" for cu
    unfolding backlog_lane_def filter_map by (simp add: o_def case_prod_unfold)
  let ?c = "bl ! (k - 1)"
  have dt: "distinct tr" using distinct_traversal[OF d, of cur] unfolding tr_def by (simp only: distinct_map)
  have lt: "length tr = length ss" using arg_cong[OF map_fst_traversal[of cur e ss], of length] by (simp add: tr_def)
  have split_bl: "bl = take (k - 1) bl @ ?c # drop k bl"
    using k by (metis One_nat_def Suc_diff_1 diff_less id_take_nth_drop le_less_trans less_le_trans lessI zero_less_one)
  have beq: "bl = filter ?Q tr" by (simp only: bl bl_tr tr_def)
  have "?c \<in> set bl" using k by simp
  then have cin: "?c \<in> set (filter ?Q tr)" using beq by simp
  then have "?c \<in> set tr" by simp
  then obtain j where j: "j < length tr" "tr ! j = ?c" by (auto simp: in_set_conv_nth)
  have split_tr: "tr = take j tr @ ?c # drop (Suc j) tr" using j id_take_nth_drop[OF j(1)] by simp
  have Qc: "?Q ?c" using cin unfolding set_filter by blast
  have "filter ?Q tr = filter ?Q (take j tr) @ ?c # filter ?Q (drop (Suc j) tr)"
    using Qc by (subst split_tr) simp
  then have eq: "take (k - 1) bl @ ?c # drop k bl = filter ?Q (take j tr) @ ?c # filter ?Q (drop (Suc j) tr)"
    using split_bl beq by simp
  have "distinct (take (k - 1) bl @ ?c # drop k bl)"
    using dt split_bl beq by (metis distinct_filter)
  then have nin: "?c \<notin> set (take (k - 1) bl)" "?c \<notin> set (drop k bl)" by simp_all
  from eq have parts: "take (k - 1) bl = filter ?Q (take j tr)" "drop k bl = filter ?Q (drop (Suc j) tr)"
    using append_Cons_eq_iff[OF nin] by blast+
  have "take k bl = take (k - 1) bl @ [?c]"
    using k by (metis One_nat_def Suc_diff_1 Suc_le_eq take_Suc_conv_app_nth less_le_trans)
  also have "\<dots> = filter ?Q (take (Suc j) tr)"
    using Qc j unfolding parts(1) by (simp add: take_Suc_conv_app_nth)
  finally have "take k bl = filter ?Q (take (Suc j) tr)" .
  then show ?thesis unfolding bl_tr traversal_after[OF d j(1)[unfolded lt] j(2)[unfolded tr_def]]
    unfolding tr_def[symmetric] parts(2) filter_append by simp
qed


section \<open>Every session outside the recent window is reached\<close>

text \<open>An adapter that never raises and respects the constraints of the source table.\<close>

definition adapter_ok :: "adapter \<Rightarrow> bool" where
  "adapter_ok sync \<longleftrightarrow> never_raises sync \<and> (\<forall>s l. sources_ok l \<longrightarrow> sources_ok (snd (sync s l)))"

type_synonym round_input = "(nat \<Rightarrow> time) \<times> adapter"

definition after_round ::
  "scan_env \<Rightarrow> string \<Rightarrow> string \<Rightarrow> string \<Rightarrow> session list \<Rightarrow> int option \<Rightarrow> round_input \<Rightarrow> scan_store \<Rightarrow> scan_store" where
  "after_round e pn cl root ss lim i st = snd (sync_sessions_fairly e (fst i) (snd i) pn cl root ss lim st)"

definition keys_scanned ::
  "scan_env \<Rightarrow> string \<Rightarrow> string \<Rightarrow> string \<Rightarrow> session list \<Rightarrow> int option \<Rightarrow> round_input \<Rightarrow> scan_store \<Rightarrow> string set" where
  "keys_scanned e pn cl root ss lim i st =
     set (pl_scanned_keys (ro_plan (scan_sessions e (fst i) (snd i) (change_budget ss lim)
       (plan_session_scan e (fst i 0) pn cl root ss (Some (change_budget ss lim)) st) (sc_ledger st))))"

fun scanned_in_rounds ::
  "scan_env \<Rightarrow> string \<Rightarrow> string \<Rightarrow> string \<Rightarrow> session list \<Rightarrow> int option \<Rightarrow> round_input list \<Rightarrow> scan_store \<Rightarrow> string set" where
  "scanned_in_rounds e pn cl root ss lim [] st = {}"
| "scanned_in_rounds e pn cl root ss lim (i # is) st =
     keys_scanned e pn cl root ss lim i st \<union>
     scanned_in_rounds e pn cl root ss lim is (after_round e pn cl root ss lim i st)"

lemma steps_calm:
  assumes "scan_steps e clock sync zs ro ro'" and "adapter_ok sync"
  shows "sources_ok (ro_ledger ro) \<Longrightarrow> retries ro = [] \<Longrightarrow> sources_ok (ro_ledger ro') \<and> retries ro' = []"
  using assms(1)
proof (induction rule: scan_steps.induct)
  case (one s ro c ro1 ro2 l zs ro')
  have "sources_ok (ro_ledger ro1)" "retries ro1 = []"
    using sync_one_facts(14,15)[OF one(1)] one.prems assms(2) by (auto simp: adapter_ok_def)
  then show ?case using one(2) one.IH by auto
qed simp

text \<open>One calm round: it returns, and the backlog is rotated by the part of it that was scanned.\<close>

lemma calm_round:
  assumes f_def: "f = planned_frontier e (fst i 0) pn cl root st" and b_def: "b = change_budget ss lim"
    and st'_def: "st' = after_round e pn cl root ss lim i st"
    and c: "calm e f b ss" and ad: "adapter_ok (snd i)" and ok: "sources_ok (sc_ledger st)"
  shows "\<exists>k f'. (\<forall>t. planned_frontier e t pn cl root st' = f') \<and> sources_ok (sc_ledger st') \<and> calm e f' b ss \<and>
    k \<le> length (plan_backlog e f b ss) \<and>
    session_scan_key e ` set (take k (plan_backlog e f b ss)) \<subseteq> keys_scanned e pn cl root ss lim i st \<and>
    plan_backlog e f' b ss = drop k (plan_backlog e f b ss) @ take k (plan_backlog e f b ss) \<and>
    (k = 0 \<longrightarrow> fr_next_lane f = Recent \<and> fr_next_lane f' = Backlog)"
proof -
  define bl where "bl = plan_backlog e f b ss"
  define p where "p = plan_session_scan e (fst i 0) pn cl root ss (Some b) st"
  define ro where "ro = scan_sessions e (fst i) (snd i) b p (sc_ledger st)"
  have b1: "1 \<le> b" and d: "distinct (map (session_scan_key e) ss)" and ne: "bl \<noteq> []" and nr: "fr_retry_sources f = []"
    using c by (simp_all add: calm_def bl_def)
  have p: "p = plan_from e (fst i 0) f b ss"
    using calm_nonempty[OF c] by (simp add: p_def plan_session_scan_def Let_def f_def b_def)
  have pf: "pl_frontier p = f" by (simp add: p plan_from_def Let_def)
  have keys: "keys_scanned e pn cl root ss lim i st = set (pl_scanned_keys (ro_plan ro))"
    by (simp add: keys_scanned_def ro_def p_def b_def)
  let ?P = "\<lambda>s. s \<in> set bl"
  have P: "?P s \<longleftrightarrow> lane_for e p s = Backlog" if "s \<in> set (pl_sessions p)" for s
    using calm_lane[OF c, of s "fst i 0"] that unfolding p bl_def by simp
  obtain zs where zs: "scan_steps e (fst i) (snd i) zs (start_round p (sc_ledger st)) ro"
    "set zs \<subseteq> set (pl_sessions p)" "prefix (filter ?P zs) (filter ?P (pl_sessions p))"
    using scan_sessions_scans[of b p ?P, OF _ P] b1 unfolding ro_def by (metis (no_types, lifting) order_trans zero_le_one)
  have sub: "set (pl_sessions p) \<subseteq> set ss" using plan_from_bounded(2)[OF b1 d] unfolding p by blast
  have "prefix (filter ?P zs) bl"
    using zs(3) calm_backlog_order[OF c, of "fst i 0"] unfolding p bl_def by (rule prefix_order.trans)
  then obtain k where k: "k \<le> length bl" "filter ?P zs = take k bl"
    by (metis prefix_def append_eq_conv_conj prefix_length_le)
  note S = scan_steps_scans[OF zs(1), unfolded scans_def]
  have start: "pl_scanned_keys (ro_plan (start_round p (sc_ledger st))) = []" "ro_plan (start_round p (sc_ledger st)) = p"
    "ro_ledger (start_round p (sc_ledger st)) = sc_ledger st"
    by (simp_all add: start_round_def p plan_from_def Let_def)
  have scanned: "set (pl_scanned_keys (ro_plan ro)) = session_scan_key e ` set zs" using S start by simp
  have "in_backlog e (start_round p (sc_ledger st)) s \<longleftrightarrow> ?P s" if "s \<in> set zs" for s
    using calm_in_backlog[OF c, of s "fst i 0"] that zs(2) sub
    unfolding in_backlog_def start(2) bl_def p[symmetric] by blast
  then have "filter (in_backlog e (start_round p (sc_ledger st))) zs = filter ?P zs"
    by (intro filter_cong refl)
  then have cursor: "fr_cursor_key (pl_frontier (ro_plan ro)) =
      (if k = 0 then fr_cursor_key f else Some (session_scan_key e (bl ! (k - 1))))"
    using S k ne unfolding start pf by (auto simp: last_conv_nth)
  have calm': "sources_ok (ro_ledger ro)" "retries ro = []"
    using steps_calm[OF zs(1) ad] ok nr unfolding start pf by simp_all
  define f1 where "f1 = pl_frontier (advance_lane_turn e (ro_first_changed_lane ro) b (ro_plan ro))"
  obtain t l where st': "st' = save_scan_frontier t f1 (st\<lparr>sc_ledger := l\<rparr>)" "sources_ok (sc_ledger st')"
  proof -
    let ?after = "2 * nat (ro_scanned ro) + 2"
    obtain ms l' where m: "mark_sources_missing_from_inventory (fst i ?after) pn cl (ss_session_id ` set ss) (ro_ledger ro) =
        Inr (ms, l')" "sources_ok l'" using mark_missing_total[OF calm'(1)] by blast
    have "st' = save_scan_frontier (fst i (?after + 1)) f1 (st\<lparr>sc_ledger := l'\<rparr>)"
      using m unfolding st'_def after_round_def sync_sessions_fairly_def Let_def
      by (simp add: p_def[symmetric] ro_def[symmetric] f1_def b_def[symmetric])
    with m that show ?thesis by (simp add: save_scan_frontier_def put_scan_frontier_def)
  qed
  define f' where "f' = f1\<lparr>fr_updated_at := t\<rparr>"
  have "fr_key f1 = fr_key f" using S by (simp add: f1_def keeps_frame_def start pf)
  then have "fr_key f' = (pn, cl, normalize_source_root e root)" by (simp add: f'_def f_def planned_frontier_key)
  then have planned: "\<forall>u. planned_frontier e u pn cl root st' = f'"
    unfolding st'(1) f'_def
    by (simp add: planned_frontier_def Let_def get_scan_frontier_def save_scan_frontier_def put_scan_frontier_def get_put_row)
  have f': "fr_retry_sources f' = []" "fr_cursor_key f' = fr_cursor_key (pl_frontier (ro_plan ro))"
    using calm' by (simp_all add: f'_def f1_def)
  have blf: "bl = map fst (backlog_lane e (fr_cursor_key f) b ss)" by (simp add: bl_def plan_lanes_none nr)
  have rot: "plan_backlog e f' b ss = drop k bl @ take k bl"
    using backlog_after[OF d blf] k(1) unfolding plan_lanes_none(2)[OF f'(1)] f'(2) cursor
    by (cases "k = 0") (auto simp: blf)
  have "plan_backlog e f' b ss \<noteq> []" unfolding rot using ne by (metis append_Nil2 append_is_Nil_conv append_take_drop_id)
  then have "calm e f' b ss" using b1 d f'(1) by (simp add: calm_def)
  moreover have "session_scan_key e ` set (take k bl) \<subseteq> keys_scanned e pn cl root ss lim i st"
    unfolding keys scanned k(2)[symmetric] by auto
  moreover have "fr_next_lane f = Recent \<and> fr_next_lane f' = Backlog" if "k = 0"
  proof -
    have "session_scan_key e (hd bl) \<notin> session_scan_key e ` set zs"
    proof
      assume "session_scan_key e (hd bl) \<in> session_scan_key e ` set zs"
      then obtain u where u: "u \<in> set zs" "session_scan_key e (hd bl) = session_scan_key e u" by blast
      have "hd bl \<in> set ss"
        using hd_in_set[OF ne] plan_lane_from[of "hd bl" e f b ss] unfolding bl_def by blast
      moreover have "u \<in> set ss" using u(1) zs(2) sub by blast
      ultimately have "hd bl = u" using d u(2) by (metis distinct_map inj_onD)
      then have "u \<in> set (filter ?P zs)" using u(1) hd_in_set[OF ne] by simp
      then show False using k(2) that by simp
    qed
    then show ?thesis using backlog_reached[OF c p ro_def] unfolding scanned bl_def by (simp add: f'_def f1_def)
  qed
  ultimately show ?thesis using planned st'(2) k(1) rot unfolding bl_def by blast
qed


text \<open>Where a frontier stands: the sessions of its backlog in order, and the lane that goes first.\<close>

definition stands_at ::
  "scan_env \<Rightarrow> string \<Rightarrow> string \<Rightarrow> string \<Rightarrow> session list \<Rightarrow> int option \<Rightarrow> scan_store \<Rightarrow> session list \<Rightarrow> lane \<Rightarrow> bool" where
  "stands_at e pn cl root ss lim st bl nl \<longleftrightarrow> (\<forall>t. calm e (planned_frontier e t pn cl root st) (change_budget ss lim) ss \<and>
     plan_backlog e (planned_frontier e t pn cl root st) (change_budget ss lim) ss = bl \<and>
     fr_next_lane (planned_frontier e t pn cl root st) = nl)"

text \<open>The distance of a session from the front of the backlog, plus one while the recent lane goes first.\<close>

lemma reached_within:
  assumes "stands_at e pn cl root ss lim st bl nl"
    and "sources_ok (sc_ledger st)" and "\<And>i. i \<in> set is \<Longrightarrow> adapter_ok (snd i)"
    and "j < length bl" and "2 * j + (if nl = Recent then 1 else 0) < length is"
  shows "session_scan_key e (bl ! j) \<in> scanned_in_rounds e pn cl root ss lim is st"
  using assms
proof (induction "is" arbitrary: st bl nl j)
  case (Cons i "is")
  let ?b = "change_budget ss lim" and ?f = "planned_frontier e (fst i 0) pn cl root st"
  let ?st' = "after_round e pn cl root ss lim i st"
  have at: "calm e ?f ?b ss" "plan_backlog e ?f ?b ss = bl" "fr_next_lane ?f = nl"
    using Cons.prems(1) by (auto simp: stands_at_def)
  have ad: "adapter_ok (snd i)" using Cons.prems(3) by simp
  obtain k f' where R: "\<forall>t. planned_frontier e t pn cl root ?st' = f'" "sources_ok (sc_ledger ?st')" "calm e f' ?b ss"
    "k \<le> length bl" "session_scan_key e ` set (take k bl) \<subseteq> keys_scanned e pn cl root ss lim i st"
    "plan_backlog e f' ?b ss = drop k bl @ take k bl"
    "k = 0 \<longrightarrow> nl = Recent \<and> fr_next_lane f' = Backlog"
    using calm_round[OF refl refl refl at(1) ad Cons.prems(2)] unfolding at(2,3) by blast
  show ?case
  proof (cases "j < k")
    case True
    then have "bl ! j \<in> set (take k bl)"
      using Cons.prems(4) by (metis in_set_conv_nth length_take min_less_iff_conj nth_take)
    then show ?thesis using R(5) by auto
  next
    case False
    define bl' where "bl' = drop k bl @ take k bl"
    have same: "bl' ! (j - k) = bl ! j" "j - k < length bl'"
      using R(4) Cons.prems(4) False by (simp_all add: nth_append bl'_def)
    have "stands_at e pn cl root ss lim ?st' bl' (fr_next_lane f')"
      using R(1,3,6) by (simp add: stands_at_def bl'_def)
    moreover have "2 * (j - k) + (if fr_next_lane f' = Recent then 1 else 0) < length is"
      using R(7) Cons.prems(5) False by (cases "k = 0") (auto split: if_splits)
    ultimately have "session_scan_key e (bl' ! (j - k)) \<in> scanned_in_rounds e pn cl root ss lim is ?st'"
      using Cons.IH[OF _ R(2)] Cons.prems(3) same(2) by simp
    then show ?thesis using same(1) by simp
  qed
qed simp

lemma planned_frontier_clock:
  "fr_retry_sources (planned_frontier e t pn cl root st) = fr_retry_sources (planned_frontier e 0 pn cl root st)"
  "fr_cursor_key (planned_frontier e t pn cl root st) = fr_cursor_key (planned_frontier e 0 pn cl root st)"
  "fr_next_lane (planned_frontier e t pn cl root st) = fr_next_lane (planned_frontier e 0 pn cl root st)"
  by (simp_all add: planned_frontier_def Let_def new_frontier_def split: option.split)

text \<open>C38: Every session is reached.  Over an inventory that stays the same, with adapters that do not raise and a
  frontier without pending retries, every session outside the recent window is scanned within two rounds per
  session of the inventory, whatever the change limit and whichever sessions keep changing.\<close>

theorem every_session_is_scanned:
  assumes d: "distinct (map (session_scan_key e) ss)" and s: "s \<in> set ss"
    and old: "s \<notin> set (recent_lane (change_budget ss lim) ss)"
    and nr: "fr_retry_sources (planned_frontier e 0 pn cl root st) = []" and ok: "sources_ok (sc_ledger st)"
    and ad: "\<And>i. i \<in> set is \<Longrightarrow> adapter_ok (snd i)" and len: "2 * length ss \<le> length is"
  shows "session_scan_key e s \<in> scanned_in_rounds e pn cl root ss lim is st"
proof -
  let ?b = "change_budget ss lim"
  define f where "f = planned_frontier e 0 pn cl root st"
  define bl where "bl = plan_backlog e f ?b ss"
  have blf: "plan_backlog e (planned_frontier e t pn cl root st) ?b ss = bl" for t
    unfolding bl_def f_def plan_backlog_def
    by (subst planned_frontier_clock(1), subst planned_frontier_clock(2)) (rule refl)
  have bleq: "bl = filter (\<lambda>s. session_scan_key e s \<notin> session_scan_key e ` set (recent_lane ?b ss))
      (map fst (traversal (fr_cursor_key f) e ss))"
    using nr unfolding bl_def plan_lanes_none(2)[OF nr[folded f_def]] backlog_lane_def filter_map
    by (simp add: o_def case_prod_unfold)
  have "session_scan_key e s \<notin> session_scan_key e ` set (recent_lane ?b ss)"
  proof
    assume "session_scan_key e s \<in> session_scan_key e ` set (recent_lane ?b ss)"
    then obtain u where "u \<in> set (recent_lane ?b ss)" "session_scan_key e s = session_scan_key e u" by blast
    then show False using d s old recent_from by (metis distinct_map inj_onD)
  qed
  moreover have "s \<in> set (map fst (traversal (fr_cursor_key f) e ss))" using s by simp
  ultimately have sbl: "s \<in> set bl" unfolding bleq set_filter by blast
  then obtain j where j: "j < length bl" "bl ! j = s" by (auto simp: in_set_conv_nth)
  have "length bl \<le> length (map fst (traversal (fr_cursor_key f) e ss))" unfolding bleq by (rule length_filter_le)
  also have "\<dots> = length ss" using arg_cong[OF map_fst_traversal, of length] by simp
  finally have "length bl \<le> length ss" .
  moreover have "stands_at e pn cl root ss lim st bl (fr_next_lane f)"
    unfolding stands_at_def calm_def blf f_def
    using d sbl budget_positive[of ss lim] planned_frontier_clock(1,3) nr by (metis list.set_cases empty_iff list.set(1))
  ultimately show ?thesis using reached_within[OF _ ok ad, of e pn cl root ss lim bl "fr_next_lane f" "is" j] j len
    by simp
qed

lemma quiet_adapter_ok: "adapter_ok (\<lambda>s l. (Inr Unchanged, l))"
  by (simp add: adapter_ok_def never_raises_def)

theorem every_session_is_scanned_witness:
  "''/b#2'' \<in> scanned_in_rounds demo_scan_env ''p'' ''c'' ''/'' demo_sessions (Some 1)
     (replicate 6 (\<lambda>n. 7, \<lambda>s l. (Inr Unchanged, l))) (empty_scan_store empty_ledger)"
proof -
  have "demo_sessions ! 2 \<in> set demo_sessions" "demo_sessions ! 2 \<notin> set (recent_lane 1 demo_sessions)"
    "session_scan_key demo_scan_env (demo_sessions ! 2) = ''/b#2''" by code_simp+
  moreover have "fr_retry_sources (planned_frontier demo_scan_env 0 ''p'' ''c'' ''/'' (empty_scan_store empty_ledger)) = []"
    by code_simp
  ultimately show ?thesis
    using every_session_is_scanned[OF demo_distinct, of "demo_sessions ! 2" "Some 1" "''p''" "''c''" "''/''"
        "empty_scan_store empty_ledger" "replicate 6 (\<lambda>n. 7, \<lambda>s l. (Inr Unchanged, l))"] quiet_adapter_ok
    by (auto simp: change_budget_def sources_ok_def empty_scan_store_def empty_ledger_def demo_sessions_def)
qed

end
