(* ===== verification/CanonicalStore.thy ===== *)
theory CanonicalStore
  imports JsonText DistillSchema Chunking
begin

text \<open>
  The canonical store: the runtime half of \<^verbatim>\<open>harness_mem/storage/canonical_store.py\<close>.

  A \<open>canonical\<close> is the database: the rows of all entity tables, each with its table, and the receipts of
  committed transactions.  The column \<^verbatim>\<open>payload_json\<close> holds the stable text of a payload; a row carries the
  payload that text decodes to, in sorted key order.  A mutation request is the raw dictionary a caller builds.
  Converting a value to a float or an integer and printing a container (\<open>canon_env\<close>) is Python's.  An \<open>Inl\<close>
  leaves the database as it was: the code rolls back.  The migration from file blobs, snapshots and health
  reports are not part of this theory.
\<close>

section \<open>Rows\<close>

record canonical_row =
  cr_row_key :: string
  cr_table :: string
  cr_collection :: string
  cr_entity_id :: string
  cr_project_id :: "string option"
  cr_corpus_id :: string
  cr_type :: string
  cr_truth_status :: string
  cr_confidence :: "string option"
  cr_created_at :: "string option"
  cr_valid_from :: "string option"
  cr_valid_to :: "string option"
  cr_tier :: string
  cr_last_accessed_at :: "string option"
  cr_access_count :: int
  cr_decay_score :: string
  cr_source_relpath :: string
  cr_payload :: jdict
  cr_payload_sha256 :: string
  cr_size_bytes :: int
  cr_migrated_at :: string

record transaction_record =
  tx_idempotency_key :: string
  tx_request_sha256 :: string
  tx_result :: jdict
  tx_committed_at :: string

record canonical =
  ca_rows :: "canonical_row list"
  ca_transactions :: "transaction_record list"

record canon_env =
  cv_float :: "json \<Rightarrow> py_error + string" \<comment> \<open>\<^verbatim>\<open>float(x)\<close>, by its printed form\<close>
  cv_int :: "json \<Rightarrow> py_error + int" \<comment> \<open>\<^verbatim>\<open>int(x)\<close>\<close>
  cv_repr :: "json \<Rightarrow> string" \<comment> \<open>\<^verbatim>\<open>str(x)\<close> of a list or a dictionary\<close>

definition empty_canonical :: canonical where
  "empty_canonical = \<lparr> ca_rows = [], ca_transactions = [] \<rparr>"

definition collection_to_table :: "(string \<times> string) list" where
  "collection_to_table =
     [(''observations'', ''observations''), (''memory_entries'', ''memory_entries''),
      (''knowledge_entries'', ''knowledge_entries''), (''knowledge_sources'', ''knowledge_sources''),
      (''confirmed_rules'', ''rules''), (''skills'', ''skills''), (''relation_facts'', ''relations''),
      (''retrieval_signals'', ''signals''), (''task_handoffs'', ''task_handoffs''),
      (''rule_candidates'', ''candidates''), (''supersede_candidates'', ''candidates''),
      (''merge_suggestion_candidates'', ''candidates''),
      (''stale_truth_suggestion_candidates'', ''candidates''), (''procedural_candidates'', ''candidates''),
      (''metabolism_runs'', ''metabolism_runs''), (''dream_runs'', ''dream_runs'')]"

definition canonical_table_for_collection :: "string \<Rightarrow> string" where
  "canonical_table_for_collection collection =
     (case map_of collection_to_table collection of
        Some t \<Rightarrow> t
      | None \<Rightarrow> if ends_with ''_candidates'' collection \<or> contains ''candidate'' collection
                then ''candidates'' else ''memory_entries'')"

section \<open>From a payload to a row\<close>

definition payload_project_id :: "jdict \<Rightarrow> string option" where
  "payload_project_id payload =
     (case json_get payload ''project_name'' of
        JStr p \<Rightarrow> if p \<noteq> [] then Some p
                   else (case json_get (json_dict (json_get payload ''metadata'')) ''project_name'' of
                           JStr q \<Rightarrow> if q \<noteq> [] then Some q else None | _ \<Rightarrow> None)
      | _ \<Rightarrow> (case json_get (json_dict (json_get payload ''metadata'')) ''project_name'' of
                JStr q \<Rightarrow> if q \<noteq> [] then Some q else None | _ \<Rightarrow> None))"

definition nul :: char where "nul = CHR 0x00"

definition row_key :: "digests \<Rightarrow> string \<Rightarrow> string option \<Rightarrow> string \<Rightarrow> string" where
  "row_key h collection project_name entity_id =
     sha256_text h (collection @ [nul] @ (case project_name of Some p \<Rightarrow> p | None \<Rightarrow> []) @ [nul] @ entity_id)"

definition default_source_relpath :: "string \<Rightarrow> string \<Rightarrow> string" where
  "default_source_relpath collection entity_id =
     (if collection = ''observations'' then ''verbatim/'' @ entity_id @ ''.json''
      else ''structured/'' @ collection @ ''/'' @ entity_id @ ''.json'')"

definition string_or_none :: "canon_env \<Rightarrow> json \<Rightarrow> string option" where
  "string_or_none v j =
     (if j = JNull then None else let t = json_str (cv_repr v) j in if t = [] then None else Some t)"

definition float_or_none :: "canon_env \<Rightarrow> json \<Rightarrow> py_error + string option" where
  "float_or_none v j =
     (case j of
        JNull \<Rightarrow> Inr None
      | JList _ \<Rightarrow> Inr None
      | JObj _ \<Rightarrow> Inr None
      | _ \<Rightarrow>
          if j = JStr [] then Inr None
          else (case cv_float v j of
                  Inr s \<Rightarrow> Inr (Some s)
                | Inl (TypeError _) \<Rightarrow> Inr None
                | Inl (ValueError _) \<Rightarrow> Inr None
                | Inl e \<Rightarrow> Inl e))"

definition entity_type :: "canon_env \<Rightarrow> string \<Rightarrow> jdict \<Rightarrow> string" where
  "entity_type v collection payload =
     (let named = (\<lambda>ks d. json_str (cv_repr v) (first_truthy (map (json_get payload) ks @ [JStr d]))) in
      if collection = ''knowledge_entries'' then ''knowledge_entry''
      else if collection = ''knowledge_sources'' then ''knowledge_source''
      else if collection = ''memory_entries'' then named [''memory_type'', ''category''] ''memory_entry''
      else if collection = ''observations'' then named [''content_type''] ''observation''
      else if collection = ''confirmed_rules'' then ''confirmed_rule''
      else if collection = ''relation_facts'' then named [''relation_type''] ''relation_fact''
      else if collection = ''skills'' then ''skill''
      else if collection = ''task_handoffs'' then ''task_handoff''
      else if collection = ''retrieval_signals'' then named [''signal_type''] ''retrieval_signal''
      else if collection = ''metabolism_runs'' then named [''kind''] ''metabolism_run''
      else if collection = ''dream_runs'' then ''dream_run''
      else collection)"

definition truth_status :: "canon_env \<Rightarrow> string \<Rightarrow> jdict \<Rightarrow> string" where
  "truth_status v collection payload =
     (let status = lower (strip (text_or_empty (cv_repr v) payload ''status'')) in
      if json_truthy (json_get payload ''valid_to'') then ''historical''
      else if status \<in> set [''pending'', ''deferred'', ''rejected''] then status
      else if status \<in> set [''auto_confirmed'', ''provisional'', ''user_confirmed'', ''active'']
      then ''confirmed_current''
      else if status = ''superseded'' then ''historical''
      else if collection = ''knowledge_entries'' then ''confirmed_current''
      else if collection = ''knowledge_sources'' then ''supporting''
      else if collection \<in> set [''memory_entries'', ''confirmed_rules'', ''relation_facts'', ''skills'']
      then ''confirmed_current''
      else if collection \<in> set [''task_handoffs'', ''metabolism_runs'', ''dream_runs'']
      then json_str (cv_repr v) (first_truthy [json_get payload ''status'', JStr ''ledger''])
      else if contains ''candidate'' collection then ''pending''
      else ''raw'')"

definition utc_now_text :: "time \<Rightarrow> string" where \<comment> \<open>\<^verbatim>\<open>isoformat(timespec="seconds")\<close>\<close>
  "utc_now_text now = isoformat (now - now mod 1000000)"

definition canonical_row_from_legacy ::
  "digests \<Rightarrow> canon_env \<Rightarrow> time \<Rightarrow> string \<Rightarrow> string \<Rightarrow> jdict \<Rightarrow> string option \<Rightarrow> py_error + canonical_row" where
  "canonical_row_from_legacy h v now collection entity_id payload source_relpath =
     (let project = payload_project_id payload;
          get = json_get payload;
          metadata = json_dict (get ''metadata'');
          lifecycle = json_dict (get ''lifecycle'');
          text = json_str (cv_repr v);
          tier = text (first_truthy [get ''tier'', json_get lifecycle ''tier'', JStr ''hot'']);
          payload_json = stable_json (JObj payload)
      in bind_res (float_or_none v (get ''confidence'')) (\<lambda>confidence.
         bind_res (cv_int v (first_truthy [get ''access_count'', get ''usage_count'',
                     json_get lifecycle ''access_count'', JInt 0])) (\<lambda>access_count.
         bind_res (cv_float v (first_truthy [get ''decay_score'', json_get lifecycle ''decay_score'',
                     JFloat ''0.0''])) (\<lambda>decay_score.
         Inr \<lparr> cr_row_key = row_key h collection project entity_id,
               cr_table = canonical_table_for_collection collection, cr_collection = collection,
               cr_entity_id = entity_id, cr_project_id = project,
               cr_corpus_id = text (first_truthy [get ''corpus_id'', json_get metadata ''corpus_id'', JStr ''default'']),
               cr_type = entity_type v collection payload, cr_truth_status = truth_status v collection payload,
               cr_confidence = confidence,
               cr_created_at = string_or_none v (first_truthy [get ''created_at'', get ''confirmed_at'',
                                 get ''timestamp'', get ''recorded_at'']),
               cr_valid_from = string_or_none v (get ''valid_from''),
               cr_valid_to = string_or_none v (get ''valid_to''),
               cr_tier = (if tier \<in> set [''hot'', ''warm'', ''cold'', ''archive''] then tier else ''hot''),
               cr_last_accessed_at = string_or_none v (first_truthy [get ''last_accessed_at'',
                                       get ''last_surfaced_at'', json_get lifecycle ''last_accessed_at'']),
               cr_access_count = access_count, cr_decay_score = decay_score,
               cr_source_relpath = (case source_relpath of
                   Some s \<Rightarrow> if s \<noteq> [] then s else default_source_relpath collection entity_id
                 | None \<Rightarrow> default_source_relpath collection entity_id),
               cr_payload = json_dict (sort_json (JObj payload)),
               cr_payload_sha256 = sha256_text h payload_json, cr_size_bytes = int (length payload_json),
               cr_migrated_at = utc_now_text now \<rparr>))))"

section \<open>Single rows\<close>

definition cr_key :: "canonical_row \<Rightarrow> string \<times> string" where
  "cr_key r = (cr_table r, cr_row_key r)"

definition row_at :: "string \<times> string \<Rightarrow> canonical \<Rightarrow> canonical_row option" where
  "row_at k st = get_row cr_key k (ca_rows st)"

definition upsert_canonical_row :: "canonical_row \<Rightarrow> canonical \<Rightarrow> canonical" where
  "upsert_canonical_row r st = st\<lparr>ca_rows := put_row cr_key r (ca_rows st)\<rparr>"

definition delete_row_at :: "string \<times> string \<Rightarrow> canonical \<Rightarrow> canonical" where
  "delete_row_at k st = st\<lparr>ca_rows := filter (\<lambda>r. cr_key r \<noteq> k) (ca_rows st)\<rparr>"

definition row_order :: "canonical_row \<Rightarrow> string \<times> string \<times> string" where
  "row_order r = (cr_collection r, (case cr_project_id r of Some p \<Rightarrow> p | None \<Rightarrow> []), cr_entity_id r)"

text \<open>Without a project the first row of the collection with that id, by project name.\<close>

definition find_row :: "digests \<Rightarrow> string \<Rightarrow> string \<Rightarrow> string option \<Rightarrow> canonical \<Rightarrow> canonical_row option" where
  "find_row h collection entity_id project_name st =
     (let t = canonical_table_for_collection collection in
      case project_name of
        None \<Rightarrow> (case sort_key row_order (filter (\<lambda>r. cr_table r = t \<and> cr_collection r = collection \<and>
                        cr_entity_id r = entity_id) (ca_rows st)) of
                   [] \<Rightarrow> None | r # _ \<Rightarrow> Some r)
      | Some p \<Rightarrow> row_at (t, row_key h collection (Some p) entity_id) st)"

definition payload_exists :: "digests \<Rightarrow> string \<Rightarrow> string \<Rightarrow> canonical \<Rightarrow> bool" where
  "payload_exists h collection entity_id st \<longleftrightarrow> find_row h collection entity_id None st \<noteq> None"

definition get_payload :: "digests \<Rightarrow> string \<Rightarrow> string \<Rightarrow> canonical \<Rightarrow> jdict option" where
  "get_payload h collection entity_id st = map_option cr_payload (find_row h collection entity_id None st)"

definition record_payload_sha256 ::
  "digests \<Rightarrow> string \<Rightarrow> string \<Rightarrow> string option \<Rightarrow> canonical \<Rightarrow> string option" where
  "record_payload_sha256 h collection entity_id project_name st =
     map_option cr_payload_sha256 (find_row h collection entity_id project_name st)"

definition list_rows :: "string \<Rightarrow> string option \<Rightarrow> canonical \<Rightarrow> canonical_row list" where
  "list_rows collection project_name st =
     filter (\<lambda>r. cr_collection r = collection)
       (sort_key row_order (filter (\<lambda>r. cr_table r = canonical_table_for_collection collection \<and>
          (case project_name of None \<Rightarrow> True | Some p \<Rightarrow> cr_project_id r = Some p)) (ca_rows st)))"

definition list_payloads :: "string \<Rightarrow> string option \<Rightarrow> canonical \<Rightarrow> jdict list" where
  "list_payloads collection project_name st = map cr_payload (list_rows collection project_name st)"

definition count_rows :: "string \<Rightarrow> string option \<Rightarrow> canonical \<Rightarrow> int" where
  "count_rows collection project_name st = int (length (list_rows collection project_name st))"

text \<open>The row written is read back by id alone.\<close>

definition upsert_payload ::
  "digests \<Rightarrow> canon_env \<Rightarrow> time \<Rightarrow> string \<Rightarrow> string \<Rightarrow> jdict \<Rightarrow> string option \<Rightarrow> canonical \<Rightarrow>
   py_error + canonical_row option \<times> canonical" where
  "upsert_payload h v now collection entity_id payload source_relpath st =
     bind_res (canonical_row_from_legacy h v now collection entity_id payload source_relpath) (\<lambda>r.
       let st' = upsert_canonical_row r st in Inr (find_row h collection entity_id None st', st'))"

definition delete_payload :: "string \<Rightarrow> string \<Rightarrow> canonical \<Rightarrow> bool \<times> canonical" where
  "delete_payload collection entity_id st =
     (let doomed = (\<lambda>r. cr_table r = canonical_table_for_collection collection \<and>
            cr_collection r = collection \<and> cr_entity_id r = entity_id)
      in (list_ex doomed (ca_rows st), st\<lparr>ca_rows := filter (\<lambda>r. \<not> doomed r) (ca_rows st)\<rparr>))"

section \<open>Mutation requests\<close>

datatype operation = Upsert | Delete | Assert

record mutation =
  mu_operation :: operation
  mu_collection :: string
  mu_entity_id :: string
  mu_project_name :: string
  mu_expected_sha256 :: "string option option" \<comment> \<open>absent, \<^verbatim>\<open>None\<close>, or a digest\<close>
  mu_payload :: jdict
  mu_source_relpath :: "string option"

definition operation_name :: "operation \<Rightarrow> string" where
  "operation_name p = (case p of Upsert \<Rightarrow> ''upsert'' | Delete \<Rightarrow> ''delete'' | Assert \<Rightarrow> ''assert'')"

definition parse_operation :: "string \<Rightarrow> operation option" where
  "parse_operation s = map_of [(''upsert'', Upsert), (''delete'', Delete), (''assert'', Assert)] s"

definition allowed_fields :: "operation \<Rightarrow> string list" where
  "allowed_fields p = [''operation'', ''collection'', ''entity_id'', ''expected_sha256''] @
     (if p = Upsert then [''payload'', ''source_relpath'', ''project_name''] else [''project_name''])"

definition normalize_expected :: "canon_env \<Rightarrow> jdict \<Rightarrow> py_error + string option option" where
  "normalize_expected v d =
     (case map_of d ''expected_sha256'' of
        None \<Rightarrow> Inr None
      | Some JNull \<Rightarrow> Inr (Some None)
      | Some j \<Rightarrow>
          let t = lower (strip (json_str (cv_repr v) j)) in
          if is_sha256_hex t then Inr (Some (Some t))
          else Inl (ValueError ''expected_sha256 must be a lowercase SHA-256 or None''))"

text \<open>The part of a request that depends on its operation: the project, the payload and the path.\<close>

definition normalize_target ::
  "canon_env \<Rightarrow> operation \<Rightarrow> jdict \<Rightarrow> py_error + string \<times> jdict \<times> string option" where
  "normalize_target v p d =
     (if p = Upsert
      then (case json_get d ''payload'' of
              JObj payload \<Rightarrow>
                (let project = (case payload_project_id payload of Some q \<Rightarrow> q | None \<Rightarrow> []);
                     supplied = json_get d ''project_name''
                 in if supplied \<noteq> JNull \<and> json_str (cv_repr v) supplied \<noteq> project
                    then Inl (ValueError ''upsert project_name must match its payload'')
                    else Inr (project, json_dict (sort_json (JObj payload)),
                           if json_get d ''source_relpath'' = JNull then None
                           else Some (json_str (cv_repr v) (json_get d ''source_relpath''))))
            | _ \<Rightarrow> Inl (TypeError ''upsert mutation payload must be a dictionary''))
      else
        (let project = strip (text_or_empty (cv_repr v) d ''project_name'') in
         if project = [] then Inl (ValueError ''delete mutation requires project_name'')
         else if map_of d ''payload'' \<noteq> None \<or> map_of d ''source_relpath'' \<noteq> None
         then Inl (ValueError ''delete mutation cannot include payload or source_relpath'')
         else Inr (project, [], None)))"

definition normalize_payload_mutation :: "canon_env \<Rightarrow> jdict \<Rightarrow> py_error + mutation" where
  "normalize_payload_mutation v d =
     (case parse_operation (lower (strip (text_or_empty (cv_repr v) d ''operation''))) of
        None \<Rightarrow> Inl (ValueError ''mutation operation must be upsert, delete or assert'')
      | Some p \<Rightarrow>
          let collection = strip (text_or_empty (cv_repr v) d ''collection'');
              entity_id = strip (text_or_empty (cv_repr v) d ''entity_id'')
          in if collection = [] \<or> entity_id = []
             then Inl (ValueError ''mutation collection and entity_id must be non-empty'')
             else if map_of collection_to_table collection = None
             then Inl (ValueError (''unsupported canonical collection: '' @ collection))
             else
               bind_res (normalize_expected v d) (\<lambda>expected.
               if p = Assert \<and> (expected = None \<or> expected = Some None)
               then Inl (ValueError ''assert operation requires an existing payload SHA-256'')
               else
                 bind_res (normalize_target v p d) (\<lambda>(project, payload, relpath).
                 let unexpected = filter (\<lambda>k. k \<notin> set (allowed_fields p)) (map fst d) in
                 if unexpected \<noteq> []
                 then Inl (ValueError (''unsupported mutation fields: '' @ join_words '', '' (sort unexpected)))
                 else Inr \<lparr> mu_operation = p, mu_collection = collection, mu_entity_id = entity_id,
                   mu_project_name = project, mu_expected_sha256 = expected, mu_payload = payload,
                   mu_source_relpath = relpath \<rparr>)))"

definition optional_text :: "string option \<Rightarrow> json" where
  "optional_text s = (case s of Some t \<Rightarrow> JStr t | None \<Rightarrow> JNull)"

text \<open>The normalized request as a dictionary, which is what its digest covers.\<close>

definition mutation_json :: "mutation \<Rightarrow> json" where
  "mutation_json m = JObj (
     [(''operation'', JStr (operation_name (mu_operation m))), (''collection'', JStr (mu_collection m)),
      (''entity_id'', JStr (mu_entity_id m))] @
     (case mu_expected_sha256 m of None \<Rightarrow> [] | Some x \<Rightarrow> [(''expected_sha256'', optional_text x)]) @
     (if mu_operation m = Upsert then [(''payload'', JObj (mu_payload m))] else []) @
     [(''project_name'', JStr (mu_project_name m))] @
     (case mu_source_relpath m of None \<Rightarrow> [] | Some s \<Rightarrow> [(''source_relpath'', JStr s)]))"

definition request_sha256 :: "digests \<Rightarrow> mutation list \<Rightarrow> string" where
  "request_sha256 h ms = sha256_text h (stable_json (JList (map mutation_json ms)))"

section \<open>Transactions\<close>

definition mutation_target :: "mutation \<Rightarrow> string \<times> string \<times> string" where
  "mutation_target m = (mu_collection m, mu_project_name m, mu_entity_id m)"

text \<open>Where the row of a target lives.\<close>

definition target_key :: "digests \<Rightarrow> mutation \<Rightarrow> string \<times> string" where
  "target_key h m = (canonical_table_for_collection (mu_collection m),
     row_key h (mu_collection m) (Some (mu_project_name m)) (mu_entity_id m))"

definition check_precondition :: "digests \<Rightarrow> canonical \<Rightarrow> mutation \<Rightarrow> py_error option" where
  "check_precondition h st m =
     (case mu_expected_sha256 m of
        None \<Rightarrow> None
      | Some expected \<Rightarrow>
          if map_option cr_payload_sha256
               (find_row h (mu_collection m) (mu_entity_id m) (Some (mu_project_name m)) st) \<noteq> expected
          then Some (PreconditionFailed (mu_collection m @ '':'' @ mu_entity_id m)) else None)"

definition apply_mutation ::
  "digests \<Rightarrow> canon_env \<Rightarrow> time \<Rightarrow> mutation \<Rightarrow> canonical \<Rightarrow> py_error + jdict list \<times> canonical" where
  "apply_mutation h v now m st =
     (case mu_operation m of
        Assert \<Rightarrow> Inr ([], st)
      | Delete \<Rightarrow>
          Inr ([[(''operation'', JStr ''delete''), (''collection'', JStr (mu_collection m)),
                 (''project_name'', JStr (mu_project_name m)), (''entity_id'', JStr (mu_entity_id m)),
                 (''deleted'', JBool (row_at (target_key h m) st \<noteq> None))]],
               delete_row_at (target_key h m) st)
      | Upsert \<Rightarrow>
          bind_res (canonical_row_from_legacy h v now (mu_collection m) (mu_entity_id m) (mu_payload m) (mu_source_relpath m))
            (\<lambda>r. Inr ([[(''operation'', JStr ''upsert''), (''collection'', JStr (mu_collection m)),
                        (''entity_id'', JStr (mu_entity_id m)),
                        (''payload_sha256'', JStr (cr_payload_sha256 r))]],
                      upsert_canonical_row r st)))"

text \<open>The \<open>n\<close>-th mutation of a transaction reads the clock at \<open>n\<close>.\<close>

fun apply_mutations ::
  "digests \<Rightarrow> canon_env \<Rightarrow> (nat \<Rightarrow> time) \<Rightarrow> nat \<Rightarrow> mutation list \<Rightarrow> canonical \<Rightarrow>
   py_error + jdict list \<times> canonical" where
  "apply_mutations h v clock n [] st = Inr ([], st)"
| "apply_mutations h v clock n (m # ms) st =
     bind_res (apply_mutation h v (clock n) m st) (\<lambda>(a, st1).
     bind_res (apply_mutations h v clock (Suc n) ms st1) (\<lambda>(as, st2). Inr (a @ as, st2)))"

definition find_transaction :: "string \<Rightarrow> canonical \<Rightarrow> transaction_record option" where
  "find_transaction k st = get_row tx_idempotency_key k (ca_transactions st)"

definition transaction_result :: "string \<Rightarrow> string \<Rightarrow> jdict list \<Rightarrow> jdict" where
  "transaction_result k request applied =
     [(''idempotency_key'', JStr k), (''request_sha256'', JStr request),
      (''mutation_count'', JInt (int (length applied))), (''mutations'', JList (map JObj applied)),
      (''replayed'', JBool False)]"

definition commit_mutations ::
  "digests \<Rightarrow> canon_env \<Rightarrow> (nat \<Rightarrow> time) \<Rightarrow> string \<Rightarrow> mutation list \<Rightarrow> canonical \<Rightarrow>
   py_error + jdict \<times> canonical" where
  "commit_mutations h v clock k ms st =
     (case check_all (check_precondition h st) ms of
        Some e \<Rightarrow> Inl e
      | None \<Rightarrow>
          bind_res (apply_mutations h v clock 0 ms st) (\<lambda>(applied, st').
          let result = transaction_result k (request_sha256 h ms) applied in
          Inr (result, st'\<lparr>ca_transactions := ca_transactions st' @
            [\<lparr> tx_idempotency_key = k, tx_request_sha256 = request_sha256 h ms,
               tx_result = json_dict (sort_json (JObj result)),
               tx_committed_at = utc_now_text (clock (length ms)) \<rparr>]\<rparr>)))"

definition apply_payload_transaction ::
  "digests \<Rightarrow> canon_env \<Rightarrow> (nat \<Rightarrow> time) \<Rightarrow> string \<Rightarrow> jdict list \<Rightarrow> canonical \<Rightarrow>
   py_error + jdict \<times> canonical" where
  "apply_payload_transaction h v clock idempotency_key mutations st =
     (let k = strip idempotency_key in
      if k = [] then Inl (ValueError ''idempotency_key must be non-empty'')
      else
        bind_res (map_res (normalize_payload_mutation v) mutations) (\<lambda>ms.
        if ms = [] then Inl (ValueError ''mutations must contain at least one operation'')
        else if \<not> distinct (map mutation_target ms)
        then Inl (ValueError ''one transaction cannot mutate the same target twice'')
        else
          case find_transaction k st of
            Some t \<Rightarrow>
              if tx_request_sha256 t \<noteq> request_sha256 h ms
              then Inl (IdempotencyConflict ''idempotency key was already committed for a different request'')
              else Inr (AList.update ''replayed'' (JBool True) (tx_result t), st)
          | None \<Rightarrow> commit_mutations h v clock k ms st))"

definition payload_transaction_result :: "string \<Rightarrow> canonical \<Rightarrow> py_error + jdict option" where
  "payload_transaction_result idempotency_key st =
     (let k = strip idempotency_key in
      if k = [] then Inl (ValueError ''idempotency_key must be non-empty'')
      else Inr (map_option tx_result (find_transaction k st)))"

section \<open>Interfaces\<close>

interpretation canonical_rows: row_store cr_key row_at upsert_canonical_row
  by unfold_locales (auto simp: row_at_def upsert_canonical_row_def row_simps dest: get_row_key)

end
