(* ===== verification/CanonicalProps.thy ===== *)
theory CanonicalProps
  imports CanonicalStore "HOL-Library.Sublist"
begin

text \<open>
  What the canonical store guarantees: its rows stay consistent with their payloads, a transaction is an
  atomic compare-and-set on the map of payloads, and it takes effect at most once.
\<close>

section \<open>Sorted payloads\<close>

lemma map_of_insort: "map_of (insort_key fst x xs) = map_of (x # xs)" if "sorted (map fst xs)" for x :: "string \<times> 'a"
  using that by (induction xs) (auto simp: fun_eq_iff split: prod.splits)

lemma map_of_sort: "map_of (sort_key fst xs) = map_of (xs :: (string \<times> 'a) list)"
proof (induction xs)
  case (Cons x xs)
  have "sorted (map fst (foldr (insort_key fst) xs []))" using sorted_sort_key[of fst xs] by (simp add: sort_key_def)
  then show ?case using Cons map_of_insort[of "foldr (insort_key fst) xs []" x]
    by (cases x) (auto simp: sort_key_def fun_eq_iff)
qed (simp add: sort_key_def)

lemma map_of_map_snd: "map_of (map (\<lambda>(k, v). (k, f v)) xs) k = map_option f (map_of xs k)"
  by (induction xs) auto

lemma sort_json_eq [simp]:
  "sort_json j = JNull \<longleftrightarrow> j = JNull" "sort_json j = JStr s \<longleftrightarrow> j = JStr s"
  by (cases j; simp)+

lemma sort_json_idem: "sort_json (sort_json j) = sort_json j"
proof (induction j rule: sort_json.induct)
  case (2 d)
  have "map (\<lambda>(k, v). (k, sort_json v)) (sort_key fst (map (\<lambda>(k, v). (k, sort_json v)) d)) =
      sort_key fst (map (\<lambda>(k, v). (k, sort_json v)) d)"
    by (rule map_idI) (use 2 in \<open>fastforce\<close>)
  then show ?case by (simp add: sort_key_id_if_sorted)
qed auto

lemma json_get_sorted: "json_get (json_dict (sort_json (JObj d))) k = sort_json (json_get d k)"
  by (simp add: json_get_def json_dict_def map_of_sort map_of_map_snd split: option.split)

lemma json_dict_sorted: "json_dict (sort_json j) = json_dict (sort_json (JObj (json_dict j)))"
  by (cases j) (simp_all add: json_dict_def sort_key_def)

lemma project_name_sorted:
  "payload_project_id (json_dict (sort_json (JObj d))) = payload_project_id d"
proof -
  have j: "(case sort_json x of JStr s \<Rightarrow> f s | _ \<Rightarrow> g) = (case x of JStr s \<Rightarrow> f s | _ \<Rightarrow> g)" for x and f :: "string \<Rightarrow> 'a" and g
    by (cases x) auto
  have m: "json_get (json_dict (json_get (json_dict (sort_json (JObj d))) ''metadata'')) k =
      sort_json (json_get (json_dict (json_get d ''metadata'')) k)" for k
    by (subst json_get_sorted, subst json_dict_sorted) (rule json_get_sorted)
  show ?thesis unfolding payload_project_id_def m unfolding json_get_sorted j ..
qed

lemma sorted_payload_idem: "json_dict (sort_json (JObj (json_dict (sort_json (JObj d))))) = json_dict (sort_json (JObj d))"
  by (metis (no_types) json_dict_sorted sort_json_idem)

lemma stable_json_sorted: "stable_json (JObj (json_dict (sort_json (JObj d)))) = stable_json (JObj d)"
proof -
  have "JObj (json_dict (sort_json (JObj d))) = sort_json (JObj d)" by (simp add: json_dict_def)
  then show ?thesis by (simp only: stable_json_def sort_json_idem)
qed

section \<open>Consistency of the rows\<close>

definition row_ok :: "digests \<Rightarrow> canonical_row \<Rightarrow> bool" where
  "row_ok h r \<longleftrightarrow> cr_table r = canonical_table_for_collection (cr_collection r) \<and>
     cr_row_key r = row_key h (cr_collection r) (cr_project_id r) (cr_entity_id r) \<and>
     cr_project_id r = payload_project_id (cr_payload r) \<and>
     cr_payload_sha256 r = sha256_text h (stable_json (JObj (cr_payload r)))"

definition canonical_ok :: "digests \<Rightarrow> canonical \<Rightarrow> bool" where
  "canonical_ok h st \<longleftrightarrow> distinct (map cr_key (ca_rows st)) \<and> list_all (row_ok h) (ca_rows st) \<and>
     distinct (map tx_idempotency_key (ca_transactions st))"

lemma canonical_row_ok:
  assumes "canonical_row_from_legacy h v now c i payload p = Inr r"
  shows "row_ok h r" "cr_collection r = c" "cr_entity_id r = i" "cr_project_id r = payload_project_id payload"
    "cr_payload r = json_dict (sort_json (JObj payload))"
  using assms by (auto simp: canonical_row_from_legacy_def Let_def bind_res_Inr row_ok_def project_name_sorted stable_json_sorted
      simp del: sort_json.simps first_truthy.simps)

lemma empty_canonical_ok: "canonical_ok h empty_canonical"
  by (simp add: canonical_ok_def empty_canonical_def)

lemma upsert_row_ok: "canonical_ok h st \<Longrightarrow> row_ok h r \<Longrightarrow> canonical_ok h (upsert_canonical_row r st)"
  using set_put_row_subset[of cr_key r "ca_rows st"]
  by (auto simp: canonical_ok_def upsert_canonical_row_def distinct_put_row list_all_iff)

lemma filter_rows_ok: "canonical_ok h st \<Longrightarrow> canonical_ok h (st\<lparr>ca_rows := filter P (ca_rows st)\<rparr>)"
  by (auto simp: canonical_ok_def list_all_iff distinct_map_filter)

lemma apply_mutation_ok:
  "apply_mutation h v now m st = Inr (a, st') \<Longrightarrow> canonical_ok h st \<Longrightarrow>
     canonical_ok h st' \<and> ca_transactions st' = ca_transactions st"
  by (auto simp: apply_mutation_def bind_res_Inr delete_row_at_def upsert_canonical_row_def[of _ st]
      intro: filter_rows_ok upsert_row_ok[unfolded upsert_canonical_row_def] canonical_row_ok(1)
      split: operation.splits)

lemma apply_mutations_ok:
  "apply_mutations h v clock n ms st = Inr (as, st') \<Longrightarrow> canonical_ok h st \<Longrightarrow>
     canonical_ok h st' \<and> ca_transactions st' = ca_transactions st"
proof (induction ms arbitrary: n st as)
  case (Cons m ms)
  then show ?case using apply_mutation_ok by (fastforce simp: bind_res_Inr)
qed simp

lemma commit_ok:
  assumes "commit_mutations h v clock k ms st = Inr (res, st')" and "canonical_ok h st" and "find_transaction k st = None"
  shows "canonical_ok h st'"
proof -
  obtain as st1 where "apply_mutations h v clock 0 ms st = Inr (as, st1)"
    and st': "st' = st1\<lparr>ca_transactions := ca_transactions st1 @
            [\<lparr> tx_idempotency_key = k, tx_request_sha256 = request_sha256 h ms,
               tx_result = json_dict (sort_json (JObj res)), tx_committed_at = utc_now_text (clock (length ms)) \<rparr>]\<rparr>"
    using assms(1) by (auto simp: commit_mutations_def bind_res_Inr Let_def split: option.splits prod.splits)
  from apply_mutations_ok[OF this(1) assms(2)] show ?thesis
    using assms(3) by (auto simp: st' canonical_ok_def find_transaction_def get_row_None)
qed

section \<open>Compare and set\<close>

text \<open>
  The abstract store: a map from the place of a target to its payload.  A transaction succeeds when every
  digest it expects is the one of the payload in place, and then writes its mutations in order.
\<close>

type_synonym contents = "string \<times> string \<Rightarrow> jdict option"

definition contents :: "canonical \<Rightarrow> contents" where
  "contents st k = map_option cr_payload (row_at k st)"

definition payload_digest :: "digests \<Rightarrow> jdict \<Rightarrow> string" where
  "payload_digest h p = sha256_text h (stable_json (JObj p))"

definition expectation_met :: "digests \<Rightarrow> contents \<Rightarrow> mutation \<Rightarrow> bool" where
  "expectation_met h C m \<longleftrightarrow> (case mu_expected_sha256 m of None \<Rightarrow> True
     | Some x \<Rightarrow> map_option (payload_digest h) (C (target_key h m)) = x)"

definition store_write :: "digests \<Rightarrow> mutation \<Rightarrow> contents \<Rightarrow> contents" where
  "store_write h m C = (case mu_operation m of
     Assert \<Rightarrow> C
   | Delete \<Rightarrow> C(target_key h m := None)
   | Upsert \<Rightarrow> C(target_key h m \<mapsto> mu_payload m))"

text \<open>What normalizing a request guarantees.\<close>

definition mutation_ok :: "mutation \<Rightarrow> bool" where
  "mutation_ok m \<longleftrightarrow> mu_entity_id m \<noteq> [] \<and> mu_collection m \<in> fst ` set collection_to_table \<and>
     (mu_operation m = Upsert \<longrightarrow>
        mu_project_name m = (case payload_project_id (mu_payload m) of Some q \<Rightarrow> q | None \<Rightarrow> []) \<and>
        mu_payload m = json_dict (sort_json (JObj (mu_payload m))))"

lemma normalize_target_ok:
  assumes "normalize_target v Upsert d = Inr (project, payload, p)"
  shows "project = (case payload_project_id payload of Some q \<Rightarrow> q | None \<Rightarrow> []) \<and>
    payload = json_dict (sort_json (JObj payload))"
proof (cases "json_get d ''payload''")
  case (JObj x)
  then have "payload = json_dict (sort_json (JObj x))" "project = (case payload_project_id x of Some q \<Rightarrow> q | None \<Rightarrow> [])"
    using assms unfolding normalize_target_def Let_def by (simp_all del: sort_json.simps split: if_splits)
  then show ?thesis using project_name_sorted[of x] sorted_payload_idem[of x] by (simp del: sort_json.simps)
qed (use assms in \<open>simp_all add: normalize_target_def\<close>)

lemma normalize_ok:
  assumes "normalize_payload_mutation v d = Inr m"
  shows "mutation_ok m"
proof -
  obtain p where p: "parse_operation (lower (strip (text_or_empty (cv_repr v) d ''operation''))) = Some p"
    using assms by (auto simp: normalize_payload_mutation_def split: option.splits)
  obtain e where e: "normalize_expected v d = Inr e"
    using assms by (auto simp: normalize_payload_mutation_def p Let_def bind_res_Inr split: if_splits)
  obtain project payload q where t: "normalize_target v p d = Inr (project, payload, q)"
    using assms by (auto simp: normalize_payload_mutation_def p e Let_def bind_res_Inr split: if_splits)
  have "normalize_target v (mu_operation m) d = Inr (mu_project_name m, mu_payload m, mu_source_relpath m)"
    and c: "mu_entity_id m \<noteq> []" "map_of collection_to_table (mu_collection m) \<noteq> None"
    using assms by (auto simp: normalize_payload_mutation_def p e t Let_def split: if_splits)
  then have "mu_operation m = Upsert \<Longrightarrow> normalize_target v Upsert d = Inr (mu_project_name m, mu_payload m, mu_source_relpath m)"
    by simp
  then show ?thesis using c normalize_target_ok unfolding mutation_ok_def map_of_eq_None_iff by blast
qed

lemma normalize_all_ok: "map_res (normalize_payload_mutation v) ds = Inr ms \<Longrightarrow> list_all mutation_ok ms"
proof (induction ds arbitrary: ms)
  case (Cons d ds)
  then show ?case using normalize_ok by (fastforce simp: bind_res_Inr simp del: map_res_Inr)
qed simp

lemma contents_upsert: "contents (upsert_canonical_row r st) = (contents st)(cr_key r \<mapsto> cr_payload r)"
  by (simp add: contents_def fun_eq_iff canonical_rows.get_put)

lemma contents_delete: "contents (delete_row_at k st) = (contents st)(k := None)"
proof
  fix q
  have "get_row cr_key k (filter (\<lambda>r. cr_key r \<noteq> k) (ca_rows st)) = None"
    unfolding get_row_None by auto
  then show "contents (delete_row_at k st) q = ((contents st)(k := None)) q"
    by (cases "q = k") (simp_all add: contents_def row_at_def delete_row_at_def get_row_filter)
qed

lemma digest_in_place:
  "canonical_ok h st \<Longrightarrow> map_option cr_payload_sha256 (row_at k st) = map_option (payload_digest h) (contents st k)"
  by (auto simp: contents_def payload_digest_def row_at_def canonical_ok_def list_all_iff row_ok_def option.map_comp
      intro!: option.map_cong0 dest: get_row_in)

lemma check_precondition_spec:
  "canonical_ok h st \<Longrightarrow> check_precondition h st m = None \<longleftrightarrow> expectation_met h (contents st) m"
  by (auto simp: check_precondition_def expectation_met_def find_row_def Let_def digest_in_place target_key_def
      split: option.splits)

lemma apply_mutation_write:
  assumes "apply_mutation h v now m st = Inr (a, st')" and "mutation_ok m"
  shows "contents st' = store_write h m (contents st)"
proof (cases "mu_operation m")
  case Upsert
  then obtain r where r: "canonical_row_from_legacy h v now (mu_collection m) (mu_entity_id m) (mu_payload m) (mu_source_relpath m) = Inr r"
    and st': "st' = upsert_canonical_row r st" using assms(1) by (auto simp: apply_mutation_def bind_res_Inr)
  note R = canonical_row_ok[OF r]
  have "cr_payload r = mu_payload m" using R(5) assms(2) Upsert by (simp add: mutation_ok_def del: sort_json.simps)
  moreover have "cr_key r = target_key h m"
    using R(1-4) assms(2) Upsert by (auto simp: cr_key_def row_ok_def target_key_def mutation_ok_def row_key_def split: option.splits)
  ultimately show ?thesis using Upsert by (simp add: st' contents_upsert store_write_def)
qed (use assms in \<open>auto simp: apply_mutation_def store_write_def contents_delete\<close>)

lemma apply_mutations_write:
  "apply_mutations h v clock n ms st = Inr (as, st') \<Longrightarrow> list_all mutation_ok ms \<Longrightarrow>
     contents st' = fold (store_write h) ms (contents st)"
proof (induction ms arbitrary: n st as)
  case (Cons m ms)
  then show ?case using apply_mutation_write by (fastforce simp: bind_res_Inr)
qed simp

lemma transaction_writes:
  assumes ok: "canonical_ok h st"
    and r: "apply_payload_transaction h v clock key mutations st = Inr (res, st')"
    and fresh: "find_transaction (strip key) st = None"
  shows "\<exists>ms. map_res (normalize_payload_mutation v) mutations = Inr ms \<and> distinct (map mutation_target ms) \<and>
    list_all (expectation_met h (contents st)) ms \<and> contents st' = fold (store_write h) ms (contents st) \<and>
    (\<exists>t. find_transaction (strip key) st' = Some t \<and> tx_request_sha256 t = request_sha256 h ms) \<and>
    (\<forall>k. k \<noteq> strip key \<longrightarrow> find_transaction k st' = find_transaction k st)"
proof -
  obtain ms where ms: "map_res (normalize_payload_mutation v) mutations = Inr ms" "distinct (map mutation_target ms)"
    and c: "commit_mutations h v clock (strip key) ms st = Inr (res, st')"
    using r fresh by (auto simp: apply_payload_transaction_def Let_def bind_res_Inr split: if_splits)
  obtain as st1 t where a: "apply_mutations h v clock 0 ms st = Inr (as, st1)"
    and st': "st' = st1\<lparr>ca_transactions := ca_transactions st1 @ [t]\<rparr>"
    and t: "tx_idempotency_key t = strip key" "tx_request_sha256 t = request_sha256 h ms"
    and pre: "check_all (check_precondition h st) ms = None"
    using c by (auto simp: commit_mutations_def bind_res_Inr Let_def split: option.splits prod.splits)
  have tx: "ca_transactions st1 = ca_transactions st" using apply_mutations_ok[OF a ok] by blast
  have look: "get_row tx_idempotency_key k (xs @ [t]) =
      (case get_row tx_idempotency_key k xs of Some q \<Rightarrow> Some q | None \<Rightarrow> if k = tx_idempotency_key t then Some t else None)" for k xs
    by (induction xs) auto
  have "list_all (expectation_met h (contents st)) ms"
    using pre check_precondition_spec[OF ok] by (auto simp: check_all_None list_all_iff)
  moreover have "contents st' = fold (store_write h) ms (contents st)"
    using apply_mutations_write[OF a normalize_all_ok[OF ms(1)]] by (simp add: st' contents_def row_at_def fun_eq_iff)
  moreover have "find_transaction (strip key) st' = Some t" "k \<noteq> strip key \<Longrightarrow> find_transaction k st' = find_transaction k st" for k
    using fresh t(1) by (simp_all add: st' tx find_transaction_def look split: option.split)
  ultimately show ?thesis using ms t(2) by blast
qed

section \<open>Runs of operations\<close>

datatype canonical_op =
    PutPayload time string string jdict "string option"
  | DropPayload string string
  | Transact "nat \<Rightarrow> time" string "jdict list"

definition state_after :: "canonical \<Rightarrow> py_error + 'a \<times> canonical \<Rightarrow> canonical" where
  "state_after st r = (case r of Inl e \<Rightarrow> st | Inr (_, st') \<Rightarrow> st')"

definition canonical_step :: "digests \<Rightarrow> canon_env \<Rightarrow> canonical_op \<Rightarrow> canonical \<Rightarrow> canonical" where
  "canonical_step h v op st =
     (case op of
        PutPayload now c i payload p \<Rightarrow> state_after st (upsert_payload h v now c i payload p st)
      | DropPayload c i \<Rightarrow> snd (delete_payload c i st)
      | Transact clock k ms \<Rightarrow> state_after st (apply_payload_transaction h v clock k ms st))"

lemma upsert_payload_ok:
  assumes "upsert_payload h v now c i payload p st = Inr (r, st')" and "canonical_ok h st"
  shows "canonical_ok h st' \<and> ca_transactions st' = ca_transactions st"
  using assms by (auto simp: upsert_payload_def bind_res_Inr Let_def upsert_canonical_row_def[of _ st]
      intro: upsert_row_ok[unfolded upsert_canonical_row_def] canonical_row_ok(1))

lemma delete_payload_ok:
  "canonical_ok h st \<Longrightarrow> canonical_ok h (snd (delete_payload c i st)) \<and>
     ca_transactions (snd (delete_payload c i st)) = ca_transactions st"
  by (auto simp: delete_payload_def Let_def intro: filter_rows_ok)

lemma transaction_cases:
  assumes "apply_payload_transaction h v clock key ms st = Inr (res, st')"
  obtains (replay) t where "find_transaction (strip key) st = Some t" "st' = st"
      "res = AList.update ''replayed'' (JBool True) (tx_result t)"
  | (commit) ns where "find_transaction (strip key) st = None" "map_res (normalize_payload_mutation v) ms = Inr ns"
      "commit_mutations h v clock (strip key) ns st = Inr (res, st')"
  using assms by (auto simp: apply_payload_transaction_def Let_def bind_res_Inr split: if_splits option.splits
      simp del: map_res_Inr)

lemma commit_appends:
  assumes "commit_mutations h v clock k ns st = Inr (res, st')" and "canonical_ok h st"
  shows "\<exists>t. ca_transactions st' = ca_transactions st @ [t] \<and> tx_idempotency_key t = k \<and>
    tx_request_sha256 t = request_sha256 h ns \<and> tx_result t = json_dict (sort_json (JObj res))"
proof -
  obtain as st1 where a: "apply_mutations h v clock 0 ns st = Inr (as, st1)"
    and st': "st' = st1\<lparr>ca_transactions := ca_transactions st1 @
      [\<lparr> tx_idempotency_key = k, tx_request_sha256 = request_sha256 h ns,
         tx_result = json_dict (sort_json (JObj res)), tx_committed_at = utc_now_text (clock (length ns)) \<rparr>]\<rparr>"
    using assms(1) by (auto simp: commit_mutations_def bind_res_Inr Let_def split: option.splits prod.splits
        simp del: sort_json.simps)
  show ?thesis using apply_mutations_ok[OF a assms(2)] by (simp add: st' del: sort_json.simps)
qed

lemma transaction_ok:
  assumes "apply_payload_transaction h v clock key ms st = Inr (res, st')" and "canonical_ok h st"
  shows "canonical_ok h st' \<and> prefix (ca_transactions st) (ca_transactions st')"
  using assms(1)
proof (cases rule: transaction_cases)
  case (commit ns)
  then show ?thesis using commit_ok[OF commit(3) assms(2)] commit_appends[OF commit(3) assms(2)] by auto
qed (use assms(2) in simp)

lemma canonical_step_ok:
  assumes "canonical_ok h st"
  shows "canonical_ok h (canonical_step h v op st) \<and>
    prefix (ca_transactions st) (ca_transactions (canonical_step h v op st))"
proof (cases op)
  case (PutPayload now c i payload p)
  then show ?thesis using upsert_payload_ok[OF _ assms] assms
    by (fastforce simp: canonical_step_def state_after_def split: sum.splits)
next
  case (DropPayload c i)
  then show ?thesis using delete_payload_ok[OF assms] by (simp add: canonical_step_def)
next
  case (Transact clock k ms)
  then show ?thesis using transaction_ok[OF _ assms] assms
    by (fastforce simp: canonical_step_def state_after_def split: sum.splits)
qed

interpretation canonical_runs: monotone_machine "canonical_step h v" "canonical_ok h"
    "\<lambda>s t. prefix (ca_transactions s) (ca_transactions t)" for h v
  by unfold_locales (auto simp: canonical_step_ok intro: prefix_order.trans)

lemma find_appended:
  assumes "find_transaction k s = None" and "ca_transactions t = ca_transactions s @ [x]" and "tx_idempotency_key x = k"
  shows "find_transaction k t = Some x"
proof -
  have "get_row tx_idempotency_key k (xs @ [x]) = Some x" if "get_row tx_idempotency_key k xs = None" for xs
    using that assms(3) by (induction xs) (auto split: if_splits)
  then show ?thesis using assms(1,2) by (simp add: find_transaction_def)
qed

lemma transaction_stays:
  assumes "prefix (ca_transactions s) (ca_transactions t)" and "find_transaction k s = Some x"
  shows "find_transaction k t = Some x"
proof -
  have "get_row tx_idempotency_key k (xs @ ys) = Some x" if "get_row tx_idempotency_key k xs = Some x" for xs ys
    using that by (induction xs) (auto split: if_splits)
  then show ?thesis using assms by (auto simp: prefix_def find_transaction_def)
qed

section \<open>At most once\<close>

text \<open>C6: A transaction takes effect at most once.  After it has committed under an idempotency key, and whatever
  operations on the store follow, sending the same request again returns the recorded result marked as
  replayed and changes nothing, every other valid request under that key is refused as a conflict, and no
  request under the key changes the store.\<close>

theorem transactions_apply_once:
  assumes ok: "canonical_ok h st" and fresh: "find_transaction (strip key) st = None"
    and r: "apply_payload_transaction h v clock key ms st = Inr (res, st1)"
    and later: "st2 = fold (canonical_step h v) ops st1" and same: "strip key' = strip key"
  shows "apply_payload_transaction h v clock' key' ms st2 =
      Inr (AList.update ''replayed'' (JBool True) (json_dict (sort_json (JObj res))), st2) \<and>
    state_after st2 (apply_payload_transaction h v clock' key' ms' st2) = st2 \<and>
    (\<forall>ns ns'. map_res (normalize_payload_mutation v) ms = Inr ns \<and>
       map_res (normalize_payload_mutation v) ms' = Inr ns' \<and> ns' \<noteq> [] \<and> distinct (map mutation_target ns') \<and>
       request_sha256 h ns' \<noteq> request_sha256 h ns \<longrightarrow>
       apply_payload_transaction h v clock' key' ms' st2 =
         Inl (IdempotencyConflict ''idempotency key was already committed for a different request''))"
proof -
  obtain ms0 where m: "map_res (normalize_payload_mutation v) ms = Inr ms0" "ms0 \<noteq> []" "distinct (map mutation_target ms0)"
    and k: "strip key \<noteq> []" and c: "commit_mutations h v clock (strip key) ms0 st = Inr (res, st1)"
    using r fresh by (auto simp: apply_payload_transaction_def Let_def bind_res_Inr split: if_splits simp del: map_res_Inr)
  obtain t where t: "ca_transactions st1 = ca_transactions st @ [t]" "tx_idempotency_key t = strip key"
      "tx_request_sha256 t = request_sha256 h ms0" "tx_result t = json_dict (sort_json (JObj res))"
    using commit_appends[OF c ok] by blast
  have "find_transaction (strip key) st1 = Some t" using fresh t(1,2) by (rule find_appended)
  moreover have "prefix (ca_transactions st1) (ca_transactions st2)"
    using canonical_runs.run_below[OF commit_ok[OF c ok fresh]] by (simp add: canonical_runs.run_def later)
  ultimately have f: "find_transaction (strip key) st2 = Some t" using transaction_stays by metis
  note hit = apply_payload_transaction_def Let_def same f
  have "apply_payload_transaction h v clock' key' ms st2 =
      Inr (AList.update ''replayed'' (JBool True) (json_dict (sort_json (JObj res))), st2)"
    using m k by (simp add: hit t(3,4) del: sort_json.simps map_res_Inr)
  moreover have "state_after st2 (apply_payload_transaction h v clock' key' ms' st2) = st2"
    by (auto simp: hit state_after_def bind_res_def split: sum.splits if_splits)
  moreover have "apply_payload_transaction h v clock' key' ms' st2 =
        Inl (IdempotencyConflict ''idempotency key was already committed for a different request'')"
    if "map_res (normalize_payload_mutation v) ms = Inr ns" "map_res (normalize_payload_mutation v) ms' = Inr ns'"
      "ns' \<noteq> []" "distinct (map mutation_target ns')" "request_sha256 h ns' \<noteq> request_sha256 h ns" for ns ns'
    using that m(1) k by (simp add: hit t(3) del: map_res_Inr)
  ultimately show ?thesis by blast
qed

section \<open>Stale writers\<close>

lemma fold_writes_other:
  "k \<notin> target_key h ` set ms \<Longrightarrow> fold (store_write h) ms C k = C k"
  by (induction ms arbitrary: C) (auto simp: store_write_def split: operation.split)

lemma fold_writes_at:
  assumes "inj_on (target_key h) (set ms)" and "distinct ms" and "m \<in> set ms" and "mu_operation m = Upsert"
  shows "fold (store_write h) ms C (target_key h m) = Some (mu_payload m)"
proof -
  obtain xs ys where ms: "ms = xs @ m # ys" using assms(3) by (meson split_list)
  then have "target_key h m \<notin> target_key h ` set ys" using assms(1,2) by (auto simp: inj_on_def)
  then show ?thesis using assms(4) by (simp add: ms fold_writes_other store_write_def)
qed

lemma check_all_error: "check_all f xs = Some e \<Longrightarrow> \<exists>x\<in>set xs. f x = Some e"
  by (induction xs) (auto split: option.splits)

lemma commit_refused:
  assumes "canonical_ok h st" and "\<not> list_all (expectation_met h (contents st)) ns"
  shows "\<exists>n\<in>set ns. \<not> expectation_met h (contents st) n \<and>
    commit_mutations h v clock k ns st = Inl (PreconditionFailed (mu_collection n @ '':'' @ mu_entity_id n))"
proof -
  have "check_all (check_precondition h st) ns \<noteq> None"
    using assms by (auto simp: list_all_iff check_all_None check_precondition_spec)
  then obtain e where e: "check_all (check_precondition h st) ns = Some e" by blast
  then obtain n where n: "n \<in> set ns" "check_precondition h st n = Some e" using check_all_error by meson
  then have "e = PreconditionFailed (mu_collection n @ '':'' @ mu_entity_id n)"
    by (auto simp: check_precondition_def split: option.splits if_splits)
  moreover have "\<not> expectation_met h (contents st) n"
    using n(2) check_precondition_spec[OF assms(1), of n] by simp
  ultimately show ?thesis using n(1) e by (auto simp: commit_mutations_def)
qed

text \<open>C7: A stale writer is refused.  Once a transaction has replaced the payload of a target by one of another
  digest, a transaction prepared against the earlier digest of that target fails its precondition and leaves
  the store as it is, whatever else it contains.\<close>

theorem stale_writers_are_refused:
  assumes ok: "canonical_ok h st" and fresh: "find_transaction (strip key) st = None"
    and r: "apply_payload_transaction h v clock key ms st = Inr (res, st1)"
    and ns: "map_res (normalize_payload_mutation v) ms = Inr ns" and m: "m \<in> set ns" "mu_operation m = Upsert"
    and apart: "inj_on (target_key h) (set ns)"
    and ns': "map_res (normalize_payload_mutation v) ms' = Inr ns'" "distinct (map mutation_target ns')"
    and m': "m' \<in> set ns'" "mutation_target m' = mutation_target m" "mu_expected_sha256 m' = Some (Some x)"
    and stale: "payload_digest h (mu_payload m) \<noteq> x"
    and key': "strip key' \<noteq> []" "find_transaction (strip key') st1 = None"
  shows "\<exists>n\<in>set ns'. apply_payload_transaction h v clock' key' ms' st1 =
      Inl (PreconditionFailed (mu_collection n @ '':'' @ mu_entity_id n))"
proof -
  obtain ns0 where "map_res (normalize_payload_mutation v) ms = Inr ns0" "distinct (map mutation_target ns0)"
    "contents st1 = fold (store_write h) ns0 (contents st)"
    using transaction_writes[OF ok r fresh] by blast
  then have d: "distinct ns" and c: "contents st1 = fold (store_write h) ns (contents st)"
    using ns by (simp_all add: distinct_map del: map_res_Inr)
  have "target_key h m' = target_key h m" using m'(2) by (simp add: target_key_def mutation_target_def)
  then have "\<not> expectation_met h (contents st1) m'"
    using fold_writes_at[OF apart d m] stale by (simp add: expectation_met_def m'(3) c)
  then have "\<not> list_all (expectation_met h (contents st1)) ns'" using m'(1) by (auto simp: list_all_iff)
  moreover have "canonical_ok h st1" using transaction_ok[OF r ok] by blast
  ultimately obtain n where "n \<in> set ns'" "commit_mutations h v clock' (strip key') ns' st1 =
      Inl (PreconditionFailed (mu_collection n @ '':'' @ mu_entity_id n))"
    using commit_refused by blast
  then show ?thesis
    using key' ns' by (auto simp: apply_payload_transaction_def Let_def simp del: map_res_Inr)
qed

lemma failed_row:
  "apply_mutations h v clock n ms st = Inl e \<Longrightarrow> \<exists>m\<in>set ms. \<exists>now. mu_operation m = Upsert \<and>
     canonical_row_from_legacy h v now (mu_collection m) (mu_entity_id m) (mu_payload m) (mu_source_relpath m) = Inl e"
proof (induction ms arbitrary: n st)
  case (Cons m ms)
  show ?case
  proof (cases "apply_mutation h v (clock n) m st")
    case (Inl x)
    then have "x = e" using Cons.prems by simp
    then show ?thesis using Inl by (auto simp: apply_mutation_def bind_res_def split: operation.splits sum.splits)
  next
    case (Inr y)
    then show ?thesis using Cons by (fastforce simp: bind_res_def split: sum.splits prod.splits)
  qed
qed simp

text \<open>C5: A transaction is an atomic compare-and-set on the map from the places of entities to their payloads.
  A new, well-formed request either finds some expected digest different from the one in place and is refused
  for that target, or meets all of them and then writes its upserts and deletes in order, keeps the rows
  consistent with their payloads and records its receipt; only a payload that does not convert to a row can
  still stop it.\<close>

theorem transaction_is_compare_and_set:
  assumes ok: "canonical_ok h st" and key: "strip key \<noteq> []" "find_transaction (strip key) st = None"
    and ns: "map_res (normalize_payload_mutation v) ms = Inr ns" "ns \<noteq> []" "distinct (map mutation_target ns)"
  shows "if list_all (expectation_met h (contents st)) ns
    then (case apply_payload_transaction h v clock key ms st of
        Inr (res, st') \<Rightarrow> canonical_ok h st' \<and> contents st' = fold (store_write h) ns (contents st) \<and>
          payload_transaction_result key st' = Inr (Some (json_dict (sort_json (JObj res))))
      | Inl e \<Rightarrow> \<exists>n\<in>set ns. \<exists>now. mu_operation n = Upsert \<and>
          canonical_row_from_legacy h v now (mu_collection n) (mu_entity_id n) (mu_payload n) (mu_source_relpath n) = Inl e)
    else \<exists>n\<in>set ns. \<not> expectation_met h (contents st) n \<and> apply_payload_transaction h v clock key ms st =
          Inl (PreconditionFailed (mu_collection n @ '':'' @ mu_entity_id n))"
proof -
  have a: "apply_payload_transaction h v clock key ms st = commit_mutations h v clock (strip key) ns st"
    using key ns by (simp add: apply_payload_transaction_def Let_def del: map_res_Inr)
  consider (unmet) "\<not> list_all (expectation_met h (contents st)) ns"
    | (error) e where "list_all (expectation_met h (contents st)) ns" "commit_mutations h v clock (strip key) ns st = Inl e"
    | (commit) res st' where "list_all (expectation_met h (contents st)) ns" "commit_mutations h v clock (strip key) ns st = Inr (res, st')"
    by (metis surj_pair sum.exhaust)
  then show ?thesis
  proof cases
    case unmet
    then show ?thesis using commit_refused[OF ok unmet] by (simp add: a)
  next
    case (error e)
    have "check_all (check_precondition h st) ns = None"
      using error(1) check_precondition_spec[OF ok] by (simp add: check_all_None list_all_iff)
    then have "apply_mutations h v clock 0 ns st = Inl e"
      using error(2) by (auto simp: commit_mutations_def bind_res_def Let_def split: sum.splits prod.splits)
    then show ?thesis using failed_row error by (force simp: a)
  next
    case (commit res st')
    obtain t where t: "ca_transactions st' = ca_transactions st @ [t]" "tx_idempotency_key t = strip key"
        "tx_result t = json_dict (sort_json (JObj res))"
      using commit_appends[OF commit(2) ok] by blast
    have f: "find_transaction (strip key) st' = Some t" using key(2) t(1,2) by (rule find_appended)
    have "contents st' = fold (store_write h) ns (contents st)"
      using transaction_writes[OF ok, of v clock key ms res st'] commit(2) key(2) ns(1) by (simp add: a del: map_res_Inr)
    then show ?thesis using commit commit_ok[OF commit(2) ok key(2)] key(1)
      by (simp add: a payload_transaction_result_def f t(3) del: sort_json.simps)
  qed
qed

section \<open>A small store\<close>

definition demo_canon :: canon_env where
  "demo_canon = \<lparr>
     cv_float = (\<lambda>j. case j of JFloat s \<Rightarrow> Inr s | JInt i \<Rightarrow> Inr (int_str i @ ''.0'') | _ \<Rightarrow> Inl (ValueError ''float'')),
     cv_int = (\<lambda>j. case j of JInt i \<Rightarrow> Inr i | _ \<Rightarrow> Inl (ValueError ''int'')), cv_repr = (\<lambda>j. ''{}'') \<rparr>"

definition demo_upsert :: "jdict \<Rightarrow> string \<Rightarrow> jdict" where
  "demo_upsert expected text = [(''operation'', JStr ''upsert''), (''collection'', JStr ''memory_entries''),
     (''entity_id'', JStr ''e1''),
     (''payload'', JObj [(''text'', JStr text), (''project_name'', JStr ''p'')])] @ expected"

definition demo_write :: "py_error + jdict \<times> canonical" where
  "demo_write = apply_payload_transaction demo_digests demo_canon (\<lambda>_. 0) ''k'' [demo_upsert [] ''a''] empty_canonical"

lemma demo_write_ok: "\<exists>res st1. apply_payload_transaction demo_digests demo_canon (\<lambda>_. 0) ''k'' [demo_upsert [] ''a'']
    empty_canonical = Inr (res, st1)"
proof -
  have "is_ok demo_write" by code_simp
  then show ?thesis by (auto simp: demo_write_def is_ok_iff)
qed

lemma demo_normal: "\<exists>n. map_res (normalize_payload_mutation demo_canon) [demo_upsert [] ''a''] = Inr [n] \<and>
    expectation_met demo_digests C n"
proof -
  have "case normalize_payload_mutation demo_canon (demo_upsert [] ''a'') of Inr n \<Rightarrow> mu_expected_sha256 n = None | Inl _ \<Rightarrow> False"
    by code_simp
  then show ?thesis by (auto simp: expectation_met_def bind_res_def split: sum.splits simp del: map_res_Inr)
qed

theorem transaction_is_compare_and_set_witness:
  "\<exists>st'. contents st' = (\<lambda>_. None)(target_key demo_digests \<lparr> mu_operation = Upsert, mu_collection = ''memory_entries'',
       mu_entity_id = ''e1'', mu_project_name = ''p'', mu_expected_sha256 = None,
       mu_payload = [(''project_name'', JStr ''p''), (''text'', JStr ''a'')], mu_source_relpath = None \<rparr> \<mapsto>
       [(''project_name'', JStr ''p''), (''text'', JStr ''a'')]) \<and>
     (\<exists>res. apply_payload_transaction demo_digests demo_canon (\<lambda>_. 0) ''k'' [demo_upsert [] ''a''] empty_canonical =
        Inr (res, st'))"
proof -
  let ?m = "\<lparr> mu_operation = Upsert, mu_collection = ''memory_entries'',
       mu_entity_id = ''e1'', mu_project_name = ''p'', mu_expected_sha256 = None,
       mu_payload = [(''project_name'', JStr ''p''), (''text'', JStr ''a'')], mu_source_relpath = None \<rparr>"
  have n: "map_res (normalize_payload_mutation demo_canon) [demo_upsert [] ''a''] = Inr [?m]" by code_simp
  have k: "strip ''k'' \<noteq> []" "find_transaction (strip ''k'') empty_canonical = None" by code_simp+
  have C: "contents empty_canonical = (\<lambda>_. None)" by (simp add: contents_def row_at_def empty_canonical_def fun_eq_iff)
  have met: "list_all (expectation_met demo_digests (contents empty_canonical)) [?m]" by (simp add: expectation_met_def)
  obtain res st' where r: "apply_payload_transaction demo_digests demo_canon (\<lambda>_. 0) ''k'' [demo_upsert [] ''a'']
    empty_canonical = Inr (res, st')" using demo_write_ok by blast
  have "contents st' = fold (store_write demo_digests) [?m] (contents empty_canonical)"
    using transaction_is_compare_and_set[OF empty_canonical_ok k n, where h = demo_digests and clock = "\<lambda>_. 0"] met
    by (simp add: r del: sort_json.simps map_res_Inr)
  then show ?thesis using r by (auto simp: store_write_def C)
qed

theorem transactions_apply_once_witness:
  "\<exists>res st1. apply_payload_transaction demo_digests demo_canon (\<lambda>_. 0) ''k'' [demo_upsert [] ''a''] empty_canonical =
       Inr (res, st1) \<and>
     apply_payload_transaction demo_digests demo_canon (\<lambda>_. 7) '' k '' [demo_upsert [] ''a'']
       (canonical_step demo_digests demo_canon (DropPayload ''memory_entries'' ''e1'') st1) =
     Inr (AList.update ''replayed'' (JBool True) (json_dict (sort_json (JObj res))),
       canonical_step demo_digests demo_canon (DropPayload ''memory_entries'' ''e1'') st1)"
proof -
  have k: "strip '' k '' = strip ''k''" "find_transaction (strip ''k'') empty_canonical = None" by code_simp+
  obtain res st1 where r: "apply_payload_transaction demo_digests demo_canon (\<lambda>_. 0) ''k'' [demo_upsert [] ''a'']
    empty_canonical = Inr (res, st1)" using demo_write_ok by blast
  have later: "canonical_step demo_digests demo_canon (DropPayload ''memory_entries'' ''e1'') st1 =
    fold (canonical_step demo_digests demo_canon) [DropPayload ''memory_entries'' ''e1''] st1" by simp
  show ?thesis using transactions_apply_once[OF empty_canonical_ok k(2) r later k(1)] r by blast
qed

theorem stale_writers_are_refused_witness:
  "\<exists>res st1. apply_payload_transaction demo_digests demo_canon (\<lambda>_. 0) ''k'' [demo_upsert [] ''a''] empty_canonical =
       Inr (res, st1) \<and>
     apply_payload_transaction demo_digests demo_canon (\<lambda>_. 7) ''q''
       [demo_upsert [(''expected_sha256'', JStr (replicate 64 CHR ''0''))] ''b''] st1 =
     Inl (PreconditionFailed ''memory_entries:e1'')"
proof -
  let ?m = "\<lambda>x t. \<lparr> mu_operation = Upsert, mu_collection = ''memory_entries'',
       mu_entity_id = ''e1'', mu_project_name = ''p'', mu_expected_sha256 = x,
       mu_payload = [(''project_name'', JStr ''p''), (''text'', JStr t)], mu_source_relpath = None \<rparr>"
  let ?x = "replicate 64 CHR ''0''"
  have n: "map_res (normalize_payload_mutation demo_canon) [demo_upsert [] ''a''] = Inr [?m None ''a'']" by code_simp
  have n': "map_res (normalize_payload_mutation demo_canon) [demo_upsert [(''expected_sha256'', JStr ?x)] ''b''] =
    Inr [?m (Some (Some ?x)) ''b'']" by code_simp
  have k: "find_transaction (strip ''k'') empty_canonical = None" "strip ''q'' \<noteq> []" by code_simp+
  obtain res st1 where r: "apply_payload_transaction demo_digests demo_canon (\<lambda>_. 0) ''k'' [demo_upsert [] ''a'']
    empty_canonical = Inr (res, st1)" using demo_write_ok by blast
  have "find_transaction (strip ''q'') (case demo_write of Inr (_, s) \<Rightarrow> s | Inl _ \<Rightarrow> empty_canonical) = None" by code_simp
  then have q: "find_transaction (strip ''q'') st1 = None" by (simp add: demo_write_def r)
  have stale: "payload_digest demo_digests (mu_payload (?m None ''a'')) \<noteq> ?x" by code_simp
  have "\<exists>n\<in>set [?m (Some (Some ?x)) ''b'']. apply_payload_transaction demo_digests demo_canon (\<lambda>_. 7) ''q''
       [demo_upsert [(''expected_sha256'', JStr ?x)] ''b''] st1 =
      Inl (PreconditionFailed (mu_collection n @ '':'' @ mu_entity_id n))"
    by (rule stale_writers_are_refused[OF empty_canonical_ok k(1) r n _ _ _ n' _ _ _ _ stale k(2) q, where m' = "?m (Some (Some ?x)) ''b''"])
      (simp_all add: mutation_target_def)
  then show ?thesis using r by auto
qed

end
