(* ===== verification/KnowledgeSchema.thy ===== *)
theory KnowledgeSchema
  imports CanonicalProps
begin

text \<open>
  Current knowledge and the material that leads to it: \<^verbatim>\<open>harness_mem/core/schemas/knowledge.py\<close>,
  \<^verbatim>\<open>source_report.py\<close> and \<^verbatim>\<open>project_knowledge_base.py\<close>.

  Each model has its validator and, where rows are stored, its two conversions to and from a dictionary.  What a
  datetime field accepts, the values of the default factories and the dash (U+2014, beyond the characters of
  HOL strings) in the texts of a report are arguments (\<open>know_env\<close>); a time is an instant, printed in UTC.  Every
  failure of a model is one \<open>ValidationError\<close>.
\<close>

section \<open>Environment\<close>

record know_env =
  kv_canon :: canon_env
  kv_datetime :: "json \<Rightarrow> py_error + time" \<comment> \<open>what a datetime field reads a value as\<close>
  kv_fresh_id :: string
  kv_now :: time
  kv_dash :: string
  kv_urlparse :: "string \<Rightarrow> string \<times> string" \<comment> \<open>scheme and fragment of \<^verbatim>\<open>urlparse(s)\<close>\<close>
  kv_parse_qs :: "string \<Rightarrow> (string \<times> string list) list"
  kv_int_field :: "json \<Rightarrow> py_error + int" \<comment> \<open>what an integer field reads a value as\<close>
  kv_int_text :: "string \<Rightarrow> py_error + int" \<comment> \<open>\<^verbatim>\<open>int(s)\<close>\<close>

section \<open>Fields\<close>

definition single_line :: "string \<Rightarrow> string \<Rightarrow> py_error + string" where
  "single_line v field_name =
     (let normalized = strip v in
      if normalized = [] then Inl (ValidationError (field_name @ '' must not be empty''))
      else if CHR 0x0A \<in> set normalized \<or> CHR 0x0D \<in> set normalized
      then Inl (ValidationError (field_name @ '' must be a single line''))
      else Inr normalized)"

definition str_field :: "jdict \<Rightarrow> string \<Rightarrow> py_error + string" where
  "str_field d k = (case map_of d k of Some (JStr s) \<Rightarrow> Inr s | _ \<Rightarrow> Inl (ValidationError k))"

definition optional_str_field :: "jdict \<Rightarrow> string \<Rightarrow> py_error + string option" where
  "optional_str_field d k =
     (case map_of d k of None \<Rightarrow> Inr None | Some JNull \<Rightarrow> Inr None | Some (JStr s) \<Rightarrow> Inr (Some s)
      | _ \<Rightarrow> Inl (ValidationError k))"

definition str_item :: "string \<Rightarrow> json \<Rightarrow> py_error + string" where
  "str_item k j = (case j of JStr s \<Rightarrow> Inr s | _ \<Rightarrow> Inl (ValidationError k))"

definition str_list_field :: "jdict \<Rightarrow> string \<Rightarrow> py_error + string list" where
  "str_list_field d k =
     (case map_of d k of Some (JList xs) \<Rightarrow> map_res (str_item k) xs | _ \<Rightarrow> Inl (ValidationError k))"

definition time_field :: "know_env \<Rightarrow> jdict \<Rightarrow> string \<Rightarrow> py_error + time" where
  "time_field e d k =
     (case map_of d k of Some v \<Rightarrow> kv_datetime e v | None \<Rightarrow> Inl (ValidationError k))"

definition stamp_field :: "know_env \<Rightarrow> jdict \<Rightarrow> string \<Rightarrow> py_error + time" where
  "stamp_field e d k = (case map_of d k of Some v \<Rightarrow> kv_datetime e v | None \<Rightarrow> Inr (kv_now e))"

definition optional_time_field :: "know_env \<Rightarrow> jdict \<Rightarrow> string \<Rightarrow> py_error + time option" where
  "optional_time_field e d k =
     (case map_of d k of None \<Rightarrow> Inr None | Some JNull \<Rightarrow> Inr None
      | Some v \<Rightarrow> bind_res (kv_datetime e v) (\<lambda>t. Inr (Some t)))"

definition only_fields :: "string list \<Rightarrow> jdict \<Rightarrow> py_error + unit" where
  "only_fields ks d =
     (if set (map fst d) \<subseteq> set ks then Inr () else Inl (ValidationError ''extra fields not permitted''))"

definition optional_iso :: "time option \<Rightarrow> json" where
  "optional_iso t = (case t of Some x \<Rightarrow> JStr (isoformat x) | None \<Rightarrow> JNull)"

section \<open>Source reports\<close>

record source_report =
  sr_speaker :: string
  sr_period :: string
  sr_session_id :: string
  sr_source_id :: string
  sr_source_revision :: string
  sr_exchange_indexes :: "int list"
  sr_text :: string

definition report_line :: "string \<Rightarrow> py_error + string" where
  "report_line v =
     (if strip v = [] \<or> CHR 0x0A \<in> set v \<or> CHR 0x0D \<in> set v
      then Inl (ValidationError ''source-report fields must be nonempty single lines'') else Inr (strip v))"

definition valid_exchanges :: "int list \<Rightarrow> py_error + int list" where
  "valid_exchanges xs =
     (if xs = [] \<or> list_ex (\<lambda>i. i < 1) xs \<or> \<not> distinct xs
      then Inl (ValidationError ''source-report exchanges must be distinct positive indexes'') else Inr (sort xs))"

definition validate_report :: "source_report \<Rightarrow> py_error + source_report" where
  "validate_report r =
     (if sr_speaker r \<notin> set [''user'', ''assistant''] then Inl (ValidationError ''speaker'')
      else
        bind_res (report_line (sr_period r)) (\<lambda>period.
        bind_res (report_line (sr_session_id r)) (\<lambda>session.
        bind_res (report_line (sr_source_id r)) (\<lambda>source.
        bind_res (report_line (sr_source_revision r)) (\<lambda>revision.
        bind_res (valid_exchanges (sr_exchange_indexes r)) (\<lambda>exchanges.
        bind_res (report_line (sr_text r)) (\<lambda>text.
        Inr \<lparr> sr_speaker = sr_speaker r, sr_period = period, sr_session_id = session, sr_source_id = source,
          sr_source_revision = revision, sr_exchange_indexes = exchanges, sr_text = text \<rparr>)))))))"

definition render_statement :: "know_env \<Rightarrow> source_report \<Rightarrow> string" where
  "render_statement e r =
     ''Source-scoped report '' @ kv_dash e @ '' '' @ sr_speaker r @ '', source-session timestamp: '' @ sr_period r @
     '', in that session'' @ [CHR 0x27] @ ''s cited exchanges: '' @ sr_text r @
     '' [Reports that speaker'' @ [CHR 0x27] @ ''s account only; not independently established current fact or user approval.]''"

definition render_title :: "know_env \<Rightarrow> source_report \<Rightarrow> string" where
  "render_title e r =
     ''Source report '' @ kv_dash e @ '' '' @ sr_speaker r @ '' account (source-session timestamp: '' @ sr_period r @ '')''"

definition same_account_source :: "source_report \<Rightarrow> source_report \<Rightarrow> bool" where
  "same_account_source a b \<longleftrightarrow> sr_speaker a = sr_speaker b \<and> sr_period a = sr_period b \<and>
     sr_session_id a = sr_session_id b \<and> sr_source_id a = sr_source_id b"

definition report_to_json :: "source_report \<Rightarrow> json" where \<comment> \<open>\<^verbatim>\<open>model_dump(mode="json")\<close>\<close>
  "report_to_json r = JObj
     [(''speaker'', JStr (sr_speaker r)), (''period'', JStr (sr_period r)), (''session_id'', JStr (sr_session_id r)),
      (''source_id'', JStr (sr_source_id r)), (''source_revision'', JStr (sr_source_revision r)),
      (''exchange_indexes'', JList (map JInt (sr_exchange_indexes r))), (''text'', JStr (sr_text r))]"

definition report_from_json :: "know_env \<Rightarrow> json \<Rightarrow> py_error + source_report option" where
  "report_from_json e j =
     (case j of
        JNull \<Rightarrow> Inr None
      | JObj d \<Rightarrow>
          bind_res (only_fields [''speaker'', ''period'', ''session_id'', ''source_id'', ''source_revision'',
                      ''exchange_indexes'', ''text''] d) (\<lambda>_.
          bind_res (str_field d ''speaker'') (\<lambda>speaker.
          bind_res (str_field d ''period'') (\<lambda>period.
          bind_res (str_field d ''session_id'') (\<lambda>session.
          bind_res (str_field d ''source_id'') (\<lambda>source.
          bind_res (str_field d ''source_revision'') (\<lambda>revision.
          bind_res (case map_of d ''exchange_indexes'' of Some (JList xs) \<Rightarrow> map_res (kv_int_field e) xs
                    | _ \<Rightarrow> Inl (ValidationError ''exchange_indexes'')) (\<lambda>exchanges.
          bind_res (str_field d ''text'') (\<lambda>text.
          bind_res (validate_report \<lparr> sr_speaker = speaker, sr_period = period, sr_session_id = session,
             sr_source_id = source, sr_source_revision = revision, sr_exchange_indexes = exchanges,
             sr_text = text \<rparr>) (\<lambda>r. Inr (Some r))))))))))
      | _ \<Rightarrow> Inl (ValidationError ''source_report''))"

section \<open>Entries\<close>

record knowledge_entry =
  ke_id :: string
  ke_project_name :: string
  ke_module_path :: "string list"
  ke_title :: string
  ke_statement :: string
  ke_source_report :: "source_report option"
  ke_verified_at :: "time option"
  ke_created_at :: time
  ke_updated_at :: time

definition retain_report_boundary :: "know_env \<Rightarrow> knowledge_entry \<Rightarrow> bool" where
  "retain_report_boundary e x \<longleftrightarrow>
     (case ke_source_report x of None \<Rightarrow> True
      | Some r \<Rightarrow> ke_statement x = render_statement e r \<and> ke_title x = render_title e r)"

definition validate_entry :: "know_env \<Rightarrow> knowledge_entry \<Rightarrow> py_error + knowledge_entry" where
  "validate_entry e x =
     bind_res (single_line (ke_project_name x) ''project_name'') (\<lambda>project.
     bind_res (if ke_module_path x = [] then Inl (ValidationError ''module_path'')
               else map_res (\<lambda>p. single_line p ''module_path'') (ke_module_path x)) (\<lambda>path.
     bind_res (single_line (ke_title x) ''title'') (\<lambda>title.
     bind_res (single_line (ke_statement x) ''statement'') (\<lambda>statement.
     let y = x\<lparr>ke_project_name := project, ke_module_path := path, ke_title := title, ke_statement := statement\<rparr> in
     if retain_report_boundary e y then Inr y
     else Inl (ValidationError ''source-report knowledge must retain its attribution boundary'')))))"

definition entry_to_dict :: "knowledge_entry \<Rightarrow> jdict" where
  "entry_to_dict x =
     [(''id'', JStr (ke_id x)), (''project_name'', JStr (ke_project_name x)),
      (''module_path'', JList (map JStr (ke_module_path x))), (''title'', JStr (ke_title x)),
      (''statement'', JStr (ke_statement x)), (''verified_at'', optional_iso (ke_verified_at x)),
      (''created_at'', JStr (isoformat (ke_created_at x))), (''updated_at'', JStr (isoformat (ke_updated_at x)))] @
     (case ke_source_report x of None \<Rightarrow> [] | Some r \<Rightarrow> [(''source_report'', report_to_json r)])"

definition entry_fields :: "string list" where
  "entry_fields = [''id'', ''project_name'', ''module_path'', ''title'', ''statement'', ''source_report'',
     ''verified_at'', ''created_at'', ''updated_at'']"

text \<open>The keys an older layout of the rows had.\<close>

definition obsolete_keys :: "string list" where
  "obsolete_keys = [''source_refs'', ''claim_kind'', ''validity'', ''revision'']"

definition migrate_entry_keys :: "jdict \<Rightarrow> jdict" where
  "migrate_entry_keys d =
     (let d1 = (if map_of d ''module_path'' = None \<and> map_of d ''topic_path'' \<noteq> None
                then map (\<lambda>(k, v). (if k = ''topic_path'' then ''module_path'' else k, v)) d else d)
      in filter (\<lambda>(k, v). k \<notin> set obsolete_keys) d1)"

definition entry_from_dict :: "know_env \<Rightarrow> jdict \<Rightarrow> py_error + knowledge_entry" where
  "entry_from_dict e data =
     (let d = migrate_entry_keys data in
      bind_res (only_fields entry_fields d) (\<lambda>_.
      bind_res (if map_of d ''id'' = None then Inr (kv_fresh_id e) else str_field d ''id'') (\<lambda>i.
      bind_res (str_field d ''project_name'') (\<lambda>project.
      bind_res (str_list_field d ''module_path'') (\<lambda>path.
      bind_res (str_field d ''title'') (\<lambda>title.
      bind_res (str_field d ''statement'') (\<lambda>statement.
      bind_res (report_from_json e (json_get d ''source_report'')) (\<lambda>report.
      bind_res (optional_time_field e d ''verified_at'') (\<lambda>verified.
      bind_res (stamp_field e d ''created_at'') (\<lambda>created.
      bind_res (stamp_field e d ''updated_at'') (\<lambda>updated.
      validate_entry e \<lparr> ke_id = i, ke_project_name = project, ke_module_path = path, ke_title = title,
        ke_statement = statement, ke_source_report = report, ke_verified_at = verified,
        ke_created_at = created, ke_updated_at = updated \<rparr>)))))))))))"

section \<open>Sources\<close>

record knowledge_source =
  ks_id :: string
  ks_knowledge_id :: string
  ks_project_name :: string
  ks_source_kind :: string
  ks_locator :: string
  ks_content_sha256 :: "string option"
  ks_verified_at :: time

definition normalize_digest :: "string option \<Rightarrow> py_error + string option" where
  "normalize_digest v =
     (case v of None \<Rightarrow> Inr None
      | Some s \<Rightarrow> let n = lower (strip s) in
          if is_sha256_hex n then Inr (Some n)
          else Inl (ValidationError ''content_sha256 must be 64 hexadecimal characters''))"

definition validate_source :: "knowledge_source \<Rightarrow> py_error + knowledge_source" where
  "validate_source s =
     bind_res (single_line (ks_knowledge_id s) ''knowledge_id'') (\<lambda>knowledge.
     bind_res (single_line (ks_project_name s) ''project_name'') (\<lambda>project.
     bind_res (single_line (ks_source_kind s) ''source_kind'') (\<lambda>kind.
     bind_res (single_line (ks_locator s) ''locator'') (\<lambda>locator.
     bind_res (normalize_digest (ks_content_sha256 s)) (\<lambda>digest.
     Inr (s\<lparr>ks_knowledge_id := knowledge, ks_project_name := project, ks_source_kind := kind,
       ks_locator := locator, ks_content_sha256 := digest\<rparr>))))))"

definition source_to_dict :: "knowledge_source \<Rightarrow> jdict" where
  "source_to_dict s =
     [(''id'', JStr (ks_id s)), (''knowledge_id'', JStr (ks_knowledge_id s)),
      (''project_name'', JStr (ks_project_name s)), (''source_kind'', JStr (ks_source_kind s)),
      (''locator'', JStr (ks_locator s)), (''content_sha256'', optional_text (ks_content_sha256 s)),
      (''verified_at'', JStr (isoformat (ks_verified_at s)))]"

definition source_fields :: "string list" where
  "source_fields = [''id'', ''knowledge_id'', ''project_name'', ''source_kind'', ''locator'', ''content_sha256'',
     ''verified_at'']"

definition source_from_dict :: "know_env \<Rightarrow> jdict \<Rightarrow> py_error + knowledge_source" where
  "source_from_dict e d =
     bind_res (only_fields source_fields d) (\<lambda>_.
     bind_res (if map_of d ''id'' = None then Inr (kv_fresh_id e) else str_field d ''id'') (\<lambda>i.
     bind_res (str_field d ''knowledge_id'') (\<lambda>knowledge.
     bind_res (str_field d ''project_name'') (\<lambda>project.
     bind_res (str_field d ''source_kind'') (\<lambda>kind.
     bind_res (str_field d ''locator'') (\<lambda>locator.
     bind_res (optional_str_field d ''content_sha256'') (\<lambda>digest.
     bind_res (time_field e d ''verified_at'') (\<lambda>verified.
     validate_source \<lparr> ks_id = i, ks_knowledge_id = knowledge, ks_project_name = project,
       ks_source_kind = kind, ks_locator = locator, ks_content_sha256 = digest,
       ks_verified_at = verified \<rparr>))))))))"

text \<open>The job's input before it becomes a source.\<close>

record source_ref =
  kr_label :: string
  kr_target :: string
  kr_kind :: "string option"
  kr_digest :: "string option"

definition validate_ref :: "source_ref \<Rightarrow> py_error + source_ref" where
  "validate_ref r =
     (let optional_line = (\<lambda>v f. case v of None \<Rightarrow> Inr None
             | Some s \<Rightarrow> bind_res (single_line s f) (\<lambda>t. Inr (Some t))) in
      bind_res (single_line (kr_label r) ''label'') (\<lambda>label.
      bind_res (single_line (kr_target r) ''target'') (\<lambda>target.
      bind_res (optional_line (kr_kind r) ''kind'') (\<lambda>kind.
      bind_res (optional_line (kr_digest r) ''digest'') (\<lambda>digest.
      Inr \<lparr> kr_label = label, kr_target = target, kr_kind = kind, kr_digest = digest \<rparr>)))))"

section \<open>Work of a job\<close>

datatype disposition =
  ToAdd | ToRefine | ToConfirm | ToReplace | ToNoWrite | ToHandoff | ToDefer | ToConflict | ToReject

datatype candidate_status = CandPending | CandDeferred | CandConflict | CandRejected | CandAssimilated

datatype candidate_type = CandMemory | CandRule | CandRelation

record knowledge_candidate =
  kc_id :: string
  kc_project_name :: string
  kc_candidate_type :: candidate_type
  kc_statement :: string
  kc_source_report :: "source_report option"
  kc_status :: candidate_status
  kc_assimilation_disposition :: "disposition option"
  kc_assimilation_reason :: "string option"
  kc_assimilation_target_ids :: "string list"
  kc_assimilation_targets :: "jdict list"
  kc_canonical_title :: "string option"
  kc_topic_path :: "string list"
  kc_created_at :: time
  kc_updated_at :: time

datatype evidence_kind = EvRepository | EvUserStatement | EvTranscript | EvSourceReport

datatype verification_outcome = Verified | Unverified | Contradicted | NotApplicable

record evidence_ref =
  er_kind :: evidence_kind
  er_locator :: "string option"
  er_locator_sha256 :: "string option"
  er_content_sha256 :: "string option"
  er_exchange_index :: "int option"
  er_chunk_index :: "int option"
  er_role :: "string option"

record knowledge_evidence =
  kx_id :: string
  kx_project_name :: string
  kx_candidate_id :: string
  kx_distill_job_id :: "string option"
  kx_evidence_basis :: evidence_kind
  kx_verification_outcome :: verification_outcome
  kx_verification_refs :: "evidence_ref list"
  kx_verification_reason_codes :: "string list"
  kx_verified_at :: "time option"
  kx_created_at :: time

record knowledge_decision =
  kd_id :: string
  kd_project_name :: string
  kd_candidate_id :: string
  kd_disposition :: disposition
  kd_canonical_truth_ids :: "string list"
  kd_predecessor_truth_ids :: "string list"
  kd_predecessor_entries :: "knowledge_entry list"
  kd_reason :: string
  kd_decided_at :: time

section \<open>Rows read back\<close>

text \<open>A row holds the dictionary with sorted keys; what the models read of it is the same.\<close>

definition stored :: "jdict \<Rightarrow> jdict" where
  "stored d = json_dict (sort_json (JObj d))"

lemma map_of_stored: "map_of (stored d) k = map_option sort_json (map_of d k)"
  by (simp add: stored_def json_dict_def map_of_sort map_of_map_snd)

lemma keys_stored: "fst ` set (stored d) = fst ` set d"
  by (force simp: stored_def json_dict_def)

lemma migrate_current: "fst ` set d \<subseteq> set entry_fields \<Longrightarrow> migrate_entry_keys d = d"
proof -
  assume d: "fst ` set d \<subseteq> set entry_fields"
  have apart: "''topic_path'' \<notin> set entry_fields"
    "set entry_fields \<inter> set obsolete_keys = {}"
    by code_simp+
  then have "map_of d ''topic_path'' = None" using d unfolding map_of_eq_None_iff by blast
  moreover have "filter (\<lambda>(k, v). k \<notin> set obsolete_keys) d = d"
    unfolding filter_id_conv
  proof
    fix x assume "x \<in> set d"
    then have "fst x \<in> set entry_fields" using d by blast
    then have "fst x \<notin> set obsolete_keys" using apart(2) by (meson disjoint_iff)
    then show "case x of (k, v) \<Rightarrow> k \<notin> set obsolete_keys" by (simp only: case_prod_beta not_False_eq_True)
  qed
  ultimately show ?thesis unfolding migrate_entry_keys_def Let_def by (simp only: simp_thms if_False)
qed

lemma map_res_id: "map_res f (map g xs) = Inr ys \<longleftrightarrow> list_all2 (\<lambda>x y. f (g x) = Inr y) xs ys"
  by (simp add: map_res_Inr list_all2_map1)

text \<open>What writing and reading a time must agree on.\<close>

definition reads_time :: "know_env \<Rightarrow> time \<Rightarrow> bool" where
  "reads_time e t \<longleftrightarrow> kv_datetime e (JStr (isoformat t)) = Inr t"

lemma optional_time_back:
  "(case t of Some x \<Rightarrow> reads_time e x | None \<Rightarrow> True) \<Longrightarrow> map_of d k = Some (optional_iso t) \<Longrightarrow>
     optional_time_field e d k = Inr t"
  by (auto simp: optional_time_field_def optional_iso_def reads_time_def split: option.splits)

text \<open>A record rebuilt from its own fields.\<close>

lemma rebuilt_models:
  "\<lparr>sr_speaker = sr_speaker r, sr_period = sr_period r, sr_session_id = sr_session_id r, sr_source_id = sr_source_id r,
     sr_source_revision = sr_source_revision r, sr_exchange_indexes = sr_exchange_indexes r, sr_text = sr_text r\<rparr> = r"
  "\<lparr>ke_id = ke_id x, ke_project_name = ke_project_name x, ke_module_path = ke_module_path x, ke_title = ke_title x,
     ke_statement = ke_statement x, ke_source_report = ke_source_report x, ke_verified_at = ke_verified_at x,
     ke_created_at = ke_created_at x, ke_updated_at = ke_updated_at x\<rparr> = x"
  "\<lparr>ks_id = ks_id s, ks_knowledge_id = ks_knowledge_id s, ks_project_name = ks_project_name s,
     ks_source_kind = ks_source_kind s, ks_locator = ks_locator s, ks_content_sha256 = ks_content_sha256 s,
     ks_verified_at = ks_verified_at s\<rparr> = s"
  by simp_all

lemma report_from_sorted:
  "validate_report r = Inr r \<Longrightarrow> (\<And>i. kv_int_field e (JInt i) = Inr i) \<Longrightarrow>
     report_from_json e (sort_json (report_to_json r)) = Inr (Some r)"
proof -
  let ?d = "[(''speaker'', JStr (sr_speaker r)), (''period'', JStr (sr_period r)), (''session_id'', JStr (sr_session_id r)),
      (''source_id'', JStr (sr_source_id r)), (''source_revision'', JStr (sr_source_revision r)),
      (''exchange_indexes'', JList (map JInt (sr_exchange_indexes r))), (''text'', JStr (sr_text r))]"
  assume v: "validate_report r = Inr r" and i: "\<And>i. kv_int_field e (JInt i) = Inr i"
  have j: "sort_json (report_to_json r) = JObj (stored ?d)"
    unfolding report_to_json_def stored_def json_dict_def by (simp only: sort_json.simps json.case)
  have k: "only_fields [''speaker'', ''period'', ''session_id'', ''source_id'', ''source_revision'',
     ''exchange_indexes'', ''text''] (stored ?d) = Inr ()"
    by (simp add: only_fields_def keys_stored)
  have m: "map_of (stored ?d) ''exchange_indexes'' = Some (JList (map JInt (sr_exchange_indexes r)))"
    by (simp add: map_of_stored comp_def)
  have x: "map_res (kv_int_field e) (map JInt (sr_exchange_indexes r)) = Inr (sr_exchange_indexes r)"
    unfolding map_res_id by (simp add: i list_all2_same)
  show ?thesis unfolding j report_from_json_def
    by (simp only: json.case k bind_res_simps m option.case x) (simp add: str_field_def map_of_stored v rebuilt_models)
qed

text \<open>What reading a stored entry comes to.\<close>

lemma entry_from_stored:
  "entry_from_dict e (stored (entry_to_dict x)) =
     bind_res (report_from_json e (json_get (stored (entry_to_dict x)) ''source_report'')) (\<lambda>report.
     bind_res (optional_time_field e (stored (entry_to_dict x)) ''verified_at'') (\<lambda>verified.
     bind_res (kv_datetime e (JStr (isoformat (ke_created_at x)))) (\<lambda>created.
     bind_res (kv_datetime e (JStr (isoformat (ke_updated_at x)))) (\<lambda>updated.
     validate_entry e (x\<lparr>ke_source_report := report, ke_verified_at := verified, ke_created_at := created,
       ke_updated_at := updated\<rparr>)))))"
proof -
  let ?d = "stored (entry_to_dict x)"
  have keys: "fst ` set (entry_to_dict x) \<subseteq> set entry_fields"
    by (auto simp: entry_to_dict_def entry_fields_def split: option.splits)
  have k: "only_fields entry_fields ?d = Inr ()" and g: "migrate_entry_keys ?d = ?d"
    using keys migrate_current by (auto simp: only_fields_def keys_stored)
  have path: "map_res (str_item f) (map JStr (ke_module_path x)) = Inr (ke_module_path x)" for f
    unfolding map_res_id by (simp add: str_item_def list_all2_same)
  have m: "map_of ?d ''id'' = Some (JStr (ke_id x))" "map_of ?d ''project_name'' = Some (JStr (ke_project_name x))"
    "map_of ?d ''module_path'' = Some (JList (map JStr (ke_module_path x)))" "map_of ?d ''title'' = Some (JStr (ke_title x))"
    "map_of ?d ''statement'' = Some (JStr (ke_statement x))"
    "map_of ?d ''created_at'' = Some (JStr (isoformat (ke_created_at x)))"
    "map_of ?d ''updated_at'' = Some (JStr (isoformat (ke_updated_at x)))"
    by (simp_all add: map_of_stored entry_to_dict_def comp_def)
  have rec: "\<lparr>ke_id = ke_id x, ke_project_name = ke_project_name x, ke_module_path = ke_module_path x, ke_title = ke_title x,
     ke_statement = ke_statement x, ke_source_report = r, ke_verified_at = v, ke_created_at = c, ke_updated_at = u\<rparr> =
     x\<lparr>ke_source_report := r, ke_verified_at := v, ke_created_at := c, ke_updated_at := u\<rparr>" for r v c u
    by (cases x) simp
  show ?thesis by (simp add: entry_from_dict_def Let_def g k str_field_def str_list_field_def stamp_field_def m path rec)
qed

lemma entry_reads_back:
  assumes v: "validate_entry e x = Inr x"
    and r: "\<And>r. ke_source_report x = Some r \<Longrightarrow> validate_report r = Inr r"
    and t: "reads_time e (ke_created_at x)" "reads_time e (ke_updated_at x)"
      "\<And>y. ke_verified_at x = Some y \<Longrightarrow> reads_time e y"
    and i: "\<And>i. kv_int_field e (JInt i) = Inr i"
  shows "entry_from_dict e (stored (entry_to_dict x)) = Inr x"
proof -
  let ?d = "stored (entry_to_dict x)"
  have ver: "optional_time_field e ?d ''verified_at'' = Inr (ke_verified_at x)"
    by (rule optional_time_back)
      (use t(3) in \<open>auto simp: map_of_stored entry_to_dict_def optional_iso_def split: option.splits\<close>)
  have rep: "report_from_json e (json_get ?d ''source_report'') = Inr (ke_source_report x)"
  proof (cases "ke_source_report x")
    case None
    then have "map_of ?d ''source_report'' = None" by (simp add: map_of_stored entry_to_dict_def)
    then show ?thesis using None by (simp add: json_get_def report_from_json_def)
  next
    case (Some y)
    then have "map_of ?d ''source_report'' = Some (sort_json (report_to_json y))" by (simp add: map_of_stored entry_to_dict_def)
    then show ?thesis using Some report_from_sorted[OF r[OF Some] i] by (simp add: json_get_def)
  qed
  show ?thesis using t(1,2) v by (simp add: entry_from_stored ver rep reads_time_def rebuilt_models)
qed

lemma source_reads_back:
  assumes v: "validate_source s = Inr s" and t: "reads_time e (ks_verified_at s)"
  shows "source_from_dict e (stored (source_to_dict s)) = Inr s"
proof -
  let ?d = "stored (source_to_dict s)"
  have k: "only_fields source_fields ?d = Inr ()"
    by (simp add: only_fields_def keys_stored source_to_dict_def source_fields_def)
  have f: "map_of ?d ''id'' = Some (JStr (ks_id s))" "map_of ?d ''knowledge_id'' = Some (JStr (ks_knowledge_id s))"
    "map_of ?d ''project_name'' = Some (JStr (ks_project_name s))" "map_of ?d ''source_kind'' = Some (JStr (ks_source_kind s))"
    "map_of ?d ''locator'' = Some (JStr (ks_locator s))" "map_of ?d ''verified_at'' = Some (JStr (isoformat (ks_verified_at s)))"
    by (simp_all add: map_of_stored source_to_dict_def)
  have o: "optional_str_field ?d ''content_sha256'' = Inr (ks_content_sha256 s)"
    by (auto simp: optional_str_field_def map_of_stored source_to_dict_def optional_text_def split: option.split)
  show ?thesis using t v
    by (simp add: source_from_dict_def k o f str_field_def time_field_def reads_time_def rebuilt_models)
qed

end
