(* ===== verification/KnowledgeStore.thy ===== *)
theory KnowledgeStore
  imports KnowledgeSchema
begin

text \<open>
  The store of current knowledge: \<^verbatim>\<open>harness_mem/storage/knowledge_store.py\<close>.

  Every operation reads and writes the canonical store through the payload boundary of
  \<^verbatim>\<open>LocalStructuredStore\<close> in canonical mode, and every write is one payload transaction whose requests carry the
  digests the operation has read.  The calls are coroutines that never yield between their reads and the
  transaction, so an operation is one function of the store.  Splitting a locator into scheme, fragment and query
  (\<^verbatim>\<open>urllib\<close>) is an argument.
\<close>

section \<open>Reading\<close>

definition get_entry :: "digests \<Rightarrow> know_env \<Rightarrow> string \<Rightarrow> string \<Rightarrow> canonical \<Rightarrow> py_error + knowledge_entry option" where
  "get_entry h e entry_id project_name st =
     (case get_payload h ''knowledge_entries'' entry_id st of
        None \<Rightarrow> Inr None
      | Some d \<Rightarrow> bind_res (entry_from_dict e d) (\<lambda>x.
          Inr (if ke_project_name x = project_name then Some x else None)))"

definition entry_order :: "knowledge_entry \<Rightarrow> string list \<times> string \<times> string" where
  "entry_order x = (ke_module_path x, ke_title x, ke_id x)"

definition list_entries :: "know_env \<Rightarrow> string \<Rightarrow> canonical \<Rightarrow> py_error + knowledge_entry list" where
  "list_entries e project_name st =
     bind_res (map_res (entry_from_dict e) (list_payloads ''knowledge_entries'' (Some project_name) st))
       (\<lambda>xs. Inr (sort_key entry_order xs))"

definition known_projects :: "know_env \<Rightarrow> canonical \<Rightarrow> string list" where
  "known_projects e st =
     sort (dedup (filter (\<lambda>p. p \<noteq> []) (map (\<lambda>d. strip (text_or_empty (cv_repr (kv_canon e)) d ''project_name''))
       (list_payloads ''knowledge_entries'' None st))))"

definition source_order :: "knowledge_source \<Rightarrow> string \<times> string \<times> string" where
  "source_order s = (ks_source_kind s, ks_locator s, ks_id s)"

definition list_knowledge_sources :: "know_env \<Rightarrow> string \<Rightarrow> canonical \<Rightarrow> py_error + knowledge_source list" where
  "list_knowledge_sources e knowledge_id st =
     bind_res (map_res (source_from_dict e)
         (filter (\<lambda>d. text_or_empty (cv_repr (kv_canon e)) d ''knowledge_id'' = knowledge_id)
           (list_payloads ''knowledge_sources'' None st)))
       (\<lambda>ss. Inr (sort_key source_order ss))"

section \<open>Requests\<close>

definition new_operation :: "string \<Rightarrow> string \<Rightarrow> jdict \<Rightarrow> jdict" where
  "new_operation collection entity_id payload =
     [(''operation'', JStr ''upsert''), (''collection'', JStr collection), (''entity_id'', JStr entity_id),
      (''payload'', JObj payload), (''expected_sha256'', JNull)]"

definition replace_operation ::
  "digests \<Rightarrow> canonical \<Rightarrow> string \<Rightarrow> string \<Rightarrow> jdict \<Rightarrow> string \<Rightarrow> py_error + jdict" where
  "replace_operation h st collection entity_id payload project_name =
     (case record_payload_sha256 h collection entity_id (Some project_name) st of
        None \<Rightarrow> Inl (ValueError (''current '' @ collection @ '' record is missing: '' @ entity_id))
      | Some expected \<Rightarrow> Inr
          [(''operation'', JStr ''upsert''), (''collection'', JStr collection), (''entity_id'', JStr entity_id),
           (''payload'', JObj payload), (''project_name'', JStr project_name), (''expected_sha256'', JStr expected)])"

definition delete_operation :: "digests \<Rightarrow> canonical \<Rightarrow> string \<Rightarrow> string \<Rightarrow> string \<Rightarrow> py_error + jdict" where
  "delete_operation h st collection entity_id project_name =
     (case record_payload_sha256 h collection entity_id (Some project_name) st of
        None \<Rightarrow> Inl (ValueError (''current '' @ collection @ '' record is missing: '' @ entity_id))
      | Some digest \<Rightarrow> Inr
          [(''operation'', JStr ''delete''), (''collection'', JStr collection), (''entity_id'', JStr entity_id),
           (''project_name'', JStr project_name), (''expected_sha256'', JStr digest)])"

text \<open>\<^verbatim>\<open>operation["expected_sha256"] = sha\<close>\<close>

definition expect_sha :: "string option \<Rightarrow> jdict \<Rightarrow> jdict" where
  "expect_sha sha d = AList.update ''expected_sha256'' (optional_text sha) d"

section \<open>Sources of an entry\<close>

definition ref_source_kind :: "know_env \<Rightarrow> source_ref \<Rightarrow> string" where
  "ref_source_kind e r =
     (let kind = (case kr_kind r of Some k \<Rightarrow> strip k | None \<Rightarrow> []) in
      if kind \<noteq> [] then kind
      else case kv_urlparse e (kr_target r) of (scheme, fragment) \<Rightarrow>
        if scheme = ''file'' \<and> fragment = [] then ''repository'' else ''transcript'')"

definition source_id_of :: "digests \<Rightarrow> string \<Rightarrow> string \<Rightarrow> string \<Rightarrow> string" where
  "source_id_of h entry_id kind target =
     uuid5_url h (''harness-mem:knowledge-source:'' @ entry_id @ [nul] @ kind @ [nul] @ target)"

fun knowledge_sources_from ::
  "digests \<Rightarrow> know_env \<Rightarrow> knowledge_entry \<Rightarrow> (string \<times> string) set \<Rightarrow> source_ref list \<Rightarrow> py_error + knowledge_source list" where
  "knowledge_sources_from h e x seen [] = Inr []"
| "knowledge_sources_from h e x seen (r # refs) =
     (let kind = ref_source_kind e r in
      if (kind, kr_target r) \<in> seen then knowledge_sources_from h e x seen refs
      else
        bind_res (validate_source \<lparr> ks_id = source_id_of h (ke_id x) kind (kr_target r), ks_knowledge_id = ke_id x,
            ks_project_name = ke_project_name x, ks_source_kind = kind, ks_locator = kr_target r,
            ks_content_sha256 = kr_digest r,
            ks_verified_at = (case ke_verified_at x of Some t \<Rightarrow> t | None \<Rightarrow> ke_updated_at x) \<rparr>) (\<lambda>s.
        bind_res (knowledge_sources_from h e x (insert (kind, kr_target r) seen) refs) (\<lambda>ss. Inr (s # ss))))"

definition knowledge_sources :: "digests \<Rightarrow> know_env \<Rightarrow> knowledge_entry \<Rightarrow> source_ref list \<Rightarrow> py_error + knowledge_source list" where
  "knowledge_sources h e x refs = knowledge_sources_from h e x {} refs"

section \<open>Refreshing a verification\<close>

definition sources_by_id :: "knowledge_source list \<Rightarrow> string \<Rightarrow> knowledge_source option" where
  "sources_by_id ss = map_of (rev (map (\<lambda>s. (ks_id s, s)) ss))"

definition same_source_identity :: "string \<Rightarrow> string \<Rightarrow> knowledge_source \<Rightarrow> knowledge_source \<Rightarrow> bool" where
  "same_source_identity project_name entry_id current proposed \<longleftrightarrow>
     ks_project_name proposed = project_name \<and> ks_knowledge_id proposed = entry_id \<and>
     ks_source_kind proposed = ks_source_kind current \<and> ks_locator proposed = ks_locator current"

definition refreshed_rows ::
  "string \<Rightarrow> string \<Rightarrow> time \<Rightarrow> knowledge_source list option \<Rightarrow> knowledge_source list \<Rightarrow>
   py_error + knowledge_source list" where
  "refreshed_rows project_name entry_id verified_at refreshed sources =
     (case refreshed of
        None \<Rightarrow> Inr (map (\<lambda>s. s\<lparr>ks_verified_at := verified_at\<rparr>) sources)
      | Some ps \<Rightarrow>
          let proposed = sources_by_id ps; current = sources_by_id sources in
          if set (map ks_id ps) \<noteq> set (map ks_id sources)
          then Inl (ValueError ''knowledge verification refresh source set changed'')
          else if \<not> list_all (\<lambda>p. case (current (ks_id p), proposed (ks_id p)) of
                (Some c, Some q) \<Rightarrow> same_source_identity project_name entry_id c q | _ \<Rightarrow> False) ps
          then Inl (ValueError ''knowledge verification refresh source identity changed'')
          else Inr (map (\<lambda>s. (case proposed (ks_id s) of Some q \<Rightarrow> q | None \<Rightarrow> s)\<lparr>ks_verified_at := verified_at\<rparr>) sources))"

definition changed_since :: "knowledge_entry option \<Rightarrow> knowledge_entry option \<Rightarrow> bool" where
  "changed_since expected current \<longleftrightarrow>
     (case expected of None \<Rightarrow> False
      | Some x \<Rightarrow> (case current of None \<Rightarrow> True | Some c \<Rightarrow> entry_to_dict c \<noteq> entry_to_dict x))"

definition refresh_entry_verification ::
  "digests \<Rightarrow> know_env \<Rightarrow> (nat \<Rightarrow> time) \<Rightarrow> string \<Rightarrow> string \<Rightarrow> time \<Rightarrow> string \<Rightarrow> knowledge_source list option \<Rightarrow>
   knowledge_entry option \<Rightarrow> canonical \<Rightarrow> py_error + jdict \<times> canonical" where
  "refresh_entry_verification h e clock project_name entry_id verified_at refresh_id refreshed expected st =
     (let expected_sha = record_payload_sha256 h ''knowledge_entries'' entry_id None st in
      bind_res (get_entry h e entry_id project_name st) (\<lambda>current.
      if changed_since expected current
      then Inl (PreconditionFailed ''confirmation target changed after verification'')
      else case current of
        None \<Rightarrow> Inl (ValueError ''knowledge verification target is not current'')
      | Some x \<Rightarrow>
          bind_res (list_knowledge_sources e entry_id st) (\<lambda>sources.
          if sources = [] then Inl (ValueError ''knowledge verification refresh requires sources'')
          else
            bind_res (refreshed_rows project_name entry_id verified_at refreshed sources) (\<lambda>rows.
            bind_res (replace_operation h st ''knowledge_entries'' (ke_id x)
                (entry_to_dict (x\<lparr>ke_verified_at := Some verified_at, ke_updated_at := verified_at\<rparr>)) project_name) (\<lambda>op.
            bind_res (map_res (\<lambda>s. replace_operation h st ''knowledge_sources'' (ks_id s) (source_to_dict s) project_name)
                rows) (\<lambda>ops.
            apply_payload_transaction h (kv_canon e) clock (''knowledge-verification-refresh:'' @ refresh_id)
              (expect_sha expected_sha op # ops) st))))))"

section \<open>Changing knowledge\<close>

definition writing_dispositions :: "disposition list" where
  "writing_dispositions = [ToAdd, ToRefine, ToReplace]"

definition check_decision ::
  "knowledge_candidate \<Rightarrow> knowledge_candidate \<Rightarrow> knowledge_decision \<Rightarrow> knowledge_entry list \<Rightarrow>
   knowledge_entry list \<Rightarrow> py_error + unit" where
  "check_decision before after decision added predecessors =
     (if kd_disposition decision \<notin> set writing_dispositions
      then Inl (ValueError ''knowledge change requires add, refine, or replace'')
      else if kd_candidate_id decision \<noteq> kc_id before
      then Inl (ValueError ''knowledge change candidate does not match decision'')
      else if kc_project_name before \<noteq> kc_project_name after
      then Inl (ValueError ''knowledge change candidate crosses projects'')
      else if kd_project_name decision \<noteq> kc_project_name before
      then Inl (ValueError ''knowledge change decision crosses projects'')
      else if set (map ke_id added) \<noteq> set (kd_canonical_truth_ids decision)
      then Inl (ValueError ''knowledge change output ids do not match decision'')
      else if set (map ke_id predecessors) \<noteq> set (kd_predecessor_truth_ids decision)
      then Inl (ValueError ''knowledge change predecessor ids do not match decision'')
      else if kd_disposition decision = ToAdd \<and> predecessors \<noteq> []
      then Inl (ValueError ''add cannot retire current knowledge'')
      else if kd_disposition decision \<in> set [ToRefine, ToReplace] \<and> predecessors = []
      then Inl (ValueError ''change requires at least one current knowledge target'')
      else Inr ())"

text \<open>A predecessor as it is now, with its sources.\<close>

definition current_predecessor ::
  "digests \<Rightarrow> know_env \<Rightarrow> string \<Rightarrow> canonical \<Rightarrow> knowledge_entry \<Rightarrow>
   py_error + knowledge_entry \<times> knowledge_source list" where
  "current_predecessor h e project_name st expected =
     bind_res (get_entry h e (ke_id expected) project_name st) (\<lambda>current.
     case current of
       None \<Rightarrow> Inl (ValueError ''knowledge change predecessor is not current'')
     | Some x \<Rightarrow>
         if entry_to_dict x \<noteq> entry_to_dict expected
         then Inl (ValueError ''knowledge change predecessor changed before commit'')
         else bind_res (list_knowledge_sources e (ke_id x) st) (\<lambda>ss. Inr (x, ss)))"

definition report_ref_index :: "know_env \<Rightarrow> source_report \<Rightarrow> source_ref \<Rightarrow> py_error + int" where
  "report_ref_index e report r =
     (let query = map_of (kv_parse_qs e (snd (kv_urlparse e (kr_target r)))) in
      if kr_kind r \<noteq> Some ''source_report'' \<or> query ''source_id'' \<noteq> Some [sr_source_id report] \<or>
         query ''source_revision'' \<noteq> Some [sr_source_revision report] \<or> query ''role'' \<noteq> Some [sr_speaker report]
      then Inl (ValueError ''source-report authority does not match retained source scope'')
      else case query ''exchange'' of
        Some [i] \<Rightarrow> (case kv_int_text e i of Inr n \<Rightarrow> Inr n | Inl (ValueError _) \<Rightarrow> Inl (ValueError ''source-report exchange is invalid'')
                     | Inl err \<Rightarrow> Inl err)
      | _ \<Rightarrow> Inl (ValueError ''source-report authority does not match retained source scope''))"

definition check_report ::
  "know_env \<Rightarrow> knowledge_candidate \<Rightarrow> knowledge_entry list \<Rightarrow> source_ref list \<Rightarrow> source_report \<Rightarrow> py_error + unit" where
  "check_report e before predecessors refs report =
     (if kc_source_report before \<noteq> Some report
      then Inl (ValueError ''source-report write must retain its verified candidate account'')
      else if list_ex (\<lambda>old. case ke_source_report old of None \<Rightarrow> True | Some r \<Rightarrow> \<not> same_account_source report r)
                predecessors
      then Inl (ValueError ''source-report replacement cannot cross source, speaker or period'')
      else
        bind_res (map_res (report_ref_index e report) refs) (\<lambda>indexes.
        if set indexes \<noteq> set (sr_exchange_indexes report)
        then Inl (ValueError ''source-report exchanges do not match retained source scope'') else Inr ()))"

definition check_output ::
  "know_env \<Rightarrow> knowledge_candidate \<Rightarrow> string \<Rightarrow> knowledge_entry list \<Rightarrow> (string \<times> source_ref list) list \<Rightarrow>
   knowledge_entry \<Rightarrow> py_error + unit" where
  "check_output e before project_name predecessors refs_by_entry x =
     (if ke_project_name x \<noteq> project_name then Inl (ValueError ''knowledge change output crosses projects'')
      else case map_of refs_by_entry (ke_id x) of
        None \<Rightarrow> Inl (ValueError ''knowledge write requires a real source reference'')
      | Some [] \<Rightarrow> Inl (ValueError ''knowledge write requires a real source reference'')
      | Some refs \<Rightarrow>
          let report = ke_source_report x;
              boundary = ValueError ''source-report and fact authority boundary cannot be crossed'' in
          if list_ex (\<lambda>r. kr_kind r = Some ''source_report'') refs \<noteq> (report \<noteq> None) then Inl boundary
          else
            bind_res (case report of None \<Rightarrow> Inr () | Some r \<Rightarrow> check_report e before predecessors refs r) (\<lambda>_.
            if list_ex (\<lambda>p. (ke_source_report p = None) \<noteq> (report = None)) predecessors
            then Inl boundary else Inr ()))"

definition retire_operations ::
  "digests \<Rightarrow> canonical \<Rightarrow> knowledge_entry \<times> knowledge_source list \<Rightarrow> py_error + jdict list" where
  "retire_operations h st p =
     bind_res (map_res (\<lambda>s. delete_operation h st ''knowledge_sources'' (ks_id s) (ks_project_name s)) (snd p)) (\<lambda>ops.
     bind_res (delete_operation h st ''knowledge_entries'' (ke_id (fst p)) (ke_project_name (fst p))) (\<lambda>op.
     Inr (ops @ [op])))"

definition entry_operation :: "knowledge_entry \<Rightarrow> jdict" where
  "entry_operation x = new_operation ''knowledge_entries'' (ke_id x) (entry_to_dict x)"

definition source_operation :: "knowledge_source \<Rightarrow> jdict" where
  "source_operation s = new_operation ''knowledge_sources'' (ks_id s) (source_to_dict s)"

definition refs_of :: "(string \<times> source_ref list) list \<Rightarrow> knowledge_entry \<Rightarrow> source_ref list" where
  "refs_of refs_by_entry x = (case map_of refs_by_entry (ke_id x) of Some refs \<Rightarrow> refs | None \<Rightarrow> [])"

definition apply_current_change ::
  "digests \<Rightarrow> know_env \<Rightarrow> (nat \<Rightarrow> time) \<Rightarrow> knowledge_candidate \<Rightarrow> knowledge_candidate \<Rightarrow> knowledge_decision \<Rightarrow>
   knowledge_entry list \<Rightarrow> knowledge_entry list \<Rightarrow> (string \<times> source_ref list) list \<Rightarrow> canonical \<Rightarrow>
   py_error + jdict \<times> canonical" where
  "apply_current_change h e clock before after decision added predecessors refs_by_entry st =
     bind_res (check_decision before after decision added predecessors) (\<lambda>_.
     bind_res (map_res (current_predecessor h e (kd_project_name decision) st) predecessors) (\<lambda>current.
     bind_res (map_res (check_output e before (kd_project_name decision) predecessors refs_by_entry) added) (\<lambda>_.
     bind_res (map_res (\<lambda>x. knowledge_sources h e x (refs_of refs_by_entry x)) added) (\<lambda>new_sources.
     bind_res (map_res (retire_operations h st) current) (\<lambda>retired.
     apply_payload_transaction h (kv_canon e) clock (''knowledge-change:'' @ kd_id decision)
       (concat retired @ map entry_operation added @ map source_operation (concat new_sources)) st)))))"

definition current_change_committed :: "string \<Rightarrow> canonical \<Rightarrow> py_error + bool" where
  "current_change_committed decision_id st =
     bind_res (payload_transaction_result (''knowledge-change:'' @ decision_id) st) (\<lambda>r. Inr (r \<noteq> None))"

section \<open>Deleting knowledge\<close>

definition assert_retained ::
  "digests \<Rightarrow> know_env \<Rightarrow> string \<Rightarrow> canonical \<Rightarrow> knowledge_entry \<Rightarrow> py_error + jdict" where
  "assert_retained h e project_name st retained =
     bind_res (get_entry h e (ke_id retained) project_name st) (\<lambda>current.
     if changed_since (Some retained) current
     then Inl (PreconditionFailed ''retained knowledge changed after verification'')
     else Inr [(''operation'', JStr ''assert''), (''collection'', JStr ''knowledge_entries''),
       (''entity_id'', JStr (ke_id retained)), (''project_name'', JStr (ke_project_name retained)),
       (''expected_sha256'', optional_text (record_payload_sha256 h ''knowledge_entries'' (ke_id retained) None st))])"

definition delete_transaction_key :: "string \<Rightarrow> knowledge_entry \<Rightarrow> string \<Rightarrow> string" where
  "delete_transaction_key project_name x entry_id =
     ''knowledge-delete:'' @ project_name @ '':'' @ entry_id @ '':'' @ isoformat (ke_updated_at x)"

definition delete_current_entry ::
  "digests \<Rightarrow> know_env \<Rightarrow> (nat \<Rightarrow> time) \<Rightarrow> string \<Rightarrow> string \<Rightarrow> knowledge_entry option \<Rightarrow> knowledge_entry list \<Rightarrow>
   canonical \<Rightarrow> py_error + jdict \<times> canonical" where
  "delete_current_entry h e clock project_name entry_id expected retained st =
     (let expected_sha = record_payload_sha256 h ''knowledge_entries'' entry_id None st in
      bind_res (get_entry h e entry_id project_name st) (\<lambda>current.
      if changed_since expected current
      then Inl (PreconditionFailed ''delete target changed after verification'')
      else case current of
        None \<Rightarrow> Inr ([(''deleted'', JBool False), (''knowledge_id'', JStr entry_id)], st)
      | Some x \<Rightarrow>
          bind_res (list_knowledge_sources e (ke_id x) st) (\<lambda>sources.
          bind_res (map_res (assert_retained h e project_name st) retained) (\<lambda>asserts.
          bind_res (map_res (\<lambda>s. delete_operation h st ''knowledge_sources'' (ks_id s) (ks_project_name s)) sources) (\<lambda>ops.
          bind_res (delete_operation h st ''knowledge_entries'' (ke_id x) (ke_project_name x)) (\<lambda>op.
          bind_res (apply_payload_transaction h (kv_canon e) clock (delete_transaction_key project_name x entry_id)
              (asserts @ ops @ [expect_sha expected_sha op]) st) (\<lambda>(result, st').
          Inr (AList.update ''knowledge_id'' (JStr entry_id) (AList.update ''deleted'' (JBool True) result), st'))))))))"

end
