(* ===== verification/KnowledgeWrites.thy ===== *)
theory KnowledgeWrites
  imports KnowledgeStore
begin

text \<open>
  What the transactions of the knowledge store write: the place of a row, the rows that read back as the models
  they were written from, and the effect of each kind of request on the map of payloads.
\<close>

section \<open>Places\<close>

type_synonym target = "string \<times> string \<times> string"

definition place :: "digests \<Rightarrow> target \<Rightarrow> string \<times> string" where
  "place h t = (case t of (c, p, i) \<Rightarrow> (canonical_table_for_collection c, row_key h c (Some p) i))"

definition entry_target :: "knowledge_entry \<Rightarrow> target" where
  "entry_target x = (''knowledge_entries'', ke_project_name x, ke_id x)"

definition source_target :: "knowledge_source \<Rightarrow> target" where
  "source_target s = (''knowledge_sources'', ks_project_name s, ks_id s)"

lemma target_key_place: "target_key h m = place h (mutation_target m)"
  by (simp add: target_key_def place_def mutation_target_def)

lemma table_known [simp]:
  "canonical_table_for_collection ''knowledge_entries'' = ''knowledge_entries''"
  "canonical_table_for_collection ''knowledge_sources'' = ''knowledge_sources''"
  by (simp_all add: canonical_table_for_collection_def collection_to_table_def)

lemma table_only:
  "canonical_table_for_collection c = ''knowledge_entries'' \<longleftrightarrow> c = ''knowledge_entries''"
  "canonical_table_for_collection c = ''knowledge_sources'' \<longleftrightarrow> c = ''knowledge_sources''"
  by (simp_all add: canonical_table_for_collection_def collection_to_table_def)

lemma knowledge_places [simp]:
  "fst (place h (entry_target x)) = ''knowledge_entries''" "fst (place h (source_target s)) = ''knowledge_sources''"
  by (simp_all add: place_def entry_target_def source_target_def)

section \<open>Valid rows\<close>

definition good_entry :: "know_env \<Rightarrow> knowledge_entry \<Rightarrow> bool" where
  "good_entry e x \<longleftrightarrow> entry_from_dict e (stored (entry_to_dict x)) = Inr x \<and> ke_id x \<noteq> [] \<and> strip (ke_id x) = ke_id x"

definition good_source :: "know_env \<Rightarrow> knowledge_source \<Rightarrow> bool" where
  "good_source e s \<longleftrightarrow> source_from_dict e (stored (source_to_dict s)) = Inr s \<and> ks_id s \<noteq> [] \<and> strip (ks_id s) = ks_id s"

lemma single_line_ok: "single_line v f = Inr w \<Longrightarrow> w \<noteq> [] \<and> strip w = w \<and> single_line w f = Inr w"
  by (auto simp: single_line_def Let_def split: if_splits)

lemma entry_from_dict_valid: "entry_from_dict e d = Inr x \<Longrightarrow> \<exists>y. validate_entry e y = Inr x"
  unfolding entry_from_dict_def Let_def bind_res_Inr by (elim exE conjE) (rule exI)

lemma source_from_dict_valid: "source_from_dict e d = Inr x \<Longrightarrow> \<exists>y. validate_source y = Inr x"
  unfolding source_from_dict_def Let_def bind_res_Inr by (elim exE conjE) (rule exI)

lemma valid_entry_lines:
  assumes "validate_entry e y = Inr x"
  shows "\<exists>v. single_line v ''project_name'' = Inr (ke_project_name x)"
  using assms unfolding validate_entry_def Let_def bind_res_Inr by (elim exE conjE) (auto split: if_splits)

lemma valid_source_lines:
  assumes "validate_source y = Inr s"
  shows "\<exists>v. single_line v ''project_name'' = Inr (ks_project_name s)" "\<exists>v. single_line v ''knowledge_id'' = Inr (ks_knowledge_id s)"
  using assms unfolding validate_source_def Let_def bind_res_Inr by (elim exE conjE; auto)+

lemma good_entry_project: "good_entry e x \<Longrightarrow> ke_project_name x \<noteq> [] \<and> strip (ke_project_name x) = ke_project_name x"
  unfolding good_entry_def using entry_from_dict_valid valid_entry_lines single_line_ok by meson

lemma good_source_lines:
  assumes "good_source e s"
  shows "ks_project_name s \<noteq> []" "strip (ks_project_name s) = ks_project_name s" "ks_knowledge_id s \<noteq> []"
  using assms source_from_dict_valid valid_source_lines single_line_ok unfolding good_source_def by meson+

lemma stored_entry_inj: "good_entry e x \<Longrightarrow> good_entry e y \<Longrightarrow> stored (entry_to_dict x) = stored (entry_to_dict y) \<Longrightarrow> x = y"
  unfolding good_entry_def by (metis sum.inject(2))

lemma stored_source_inj: "good_source e x \<Longrightarrow> good_source e y \<Longrightarrow> stored (source_to_dict x) = stored (source_to_dict y) \<Longrightarrow> x = y"
  unfolding good_source_def by (metis sum.inject(2))

lemma payload_project:
  "ke_project_name x \<noteq> [] \<Longrightarrow> payload_project_id (entry_to_dict x) = Some (ke_project_name x)"
  "ks_project_name s \<noteq> [] \<Longrightarrow> payload_project_id (source_to_dict s) = Some (ks_project_name s)"
  by (simp_all add: payload_project_id_def json_get_def entry_to_dict_def source_to_dict_def)

lemma stored_project:
  "ke_project_name x \<noteq> [] \<Longrightarrow> payload_project_id (stored (entry_to_dict x)) = Some (ke_project_name x)"
  "ks_project_name s \<noteq> [] \<Longrightarrow> payload_project_id (stored (source_to_dict s)) = Some (ks_project_name s)"
  by (simp_all add: stored_def project_name_sorted payload_project del: sort_json.simps)

section \<open>What a request writes\<close>

definition write_of :: "digests \<Rightarrow> mutation \<Rightarrow> ((string \<times> string) \<times> jdict option) list" where
  "write_of h m = (case mu_operation m of
     Assert \<Rightarrow> [] | Delete \<Rightarrow> [(target_key h m, None)] | Upsert \<Rightarrow> [(target_key h m, Some (mu_payload m))])"

definition rewrite :: "((string \<times> string) \<times> jdict option) list \<Rightarrow> contents \<Rightarrow> contents" where
  "rewrite ws C k = (case map_of ws k of Some v \<Rightarrow> v | None \<Rightarrow> C k)"

lemma fold_rewrite:
  assumes "distinct (map (target_key h) ns)"
  shows "fold (store_write h) ns C = rewrite (concat (map (write_of h) ns)) C"
  using assms
proof (induction ns arbitrary: C)
  case (Cons m ns)
  have "map_of (concat (map (write_of h) ns)) (target_key h m) = None"
    using Cons.prems by (force simp: map_of_eq_None_iff write_of_def split: operation.splits)
  then have "rewrite (concat (map (write_of h) ns)) (store_write h m C) =
      rewrite (write_of h m @ concat (map (write_of h) ns)) C"
    by (cases "mu_operation m") (auto simp: fun_eq_iff rewrite_def write_of_def[of h m] store_write_def split: option.splits)
  then show ?case using Cons by simp
qed (simp add: fun_eq_iff rewrite_def)

definition apart :: "digests \<Rightarrow> target set \<Rightarrow> bool" where \<comment> \<open>no two of these rows share a digest\<close>
  "apart h K \<longleftrightarrow> inj_on (place h) K"

lemma distinct_targets:
  "distinct (map mutation_target ns) \<Longrightarrow> apart h K \<Longrightarrow> mutation_target ` set ns \<subseteq> K \<Longrightarrow> distinct (map (target_key h) ns)"
proof -
  assume d: "distinct (map mutation_target ns)" and K: "apart h K" "mutation_target ` set ns \<subseteq> K"
  have "map (target_key h) ns = map (place h) (map mutation_target ns)" by (simp add: target_key_place)
  moreover have "inj_on (place h) (set (map mutation_target ns))"
    using K unfolding apart_def set_map by (rule inj_on_subset)
  ultimately show ?thesis using d by (simp only: distinct_map[of "place h"])
qed

lemma stripped_names [simp]: "strip ''knowledge_entries'' = ''knowledge_entries''" "strip ''knowledge_sources'' = ''knowledge_sources''"
  "strip ''upsert'' = ''upsert''" "strip ''delete'' = ''delete''" "strip ''assert'' = ''assert''"
  "lower ''upsert'' = ''upsert''" "lower ''delete'' = ''delete''" "lower ''assert'' = ''assert''"
  by code_simp+

lemma text_given [simp]: "map_of d k = Some (JStr s) \<Longrightarrow> text_or_empty r d k = s"
  by (simp add: text_or_empty_def json_get_def)

text \<open>The requests of the knowledge store, normalized.\<close>

lemma normalize_upsert:
  assumes "normalize_payload_mutation v d = Inr m" and "map_of d ''operation'' = Some (JStr ''upsert'')"
    and "map_of d ''collection'' = Some (JStr c)" and "map_of d ''entity_id'' = Some (JStr i)"
    and "map_of d ''payload'' = Some (JObj p)" and "payload_project_id p = Some q" and "strip i = i" "strip c = c"
  shows "write_of h m = [(place h (c, q, i), Some (stored p))]" "mutation_target m = (c, q, i)"
proof -
  have p: "json_get d ''payload'' = JObj p" by (simp add: json_get_def assms(5))
  have o: "parse_operation ''upsert'' = Some Upsert" by (simp add: parse_operation_def)
  from assms(1) have "m = \<lparr> mu_operation = Upsert, mu_collection = c, mu_entity_id = i, mu_project_name = q,
      mu_expected_sha256 = mu_expected_sha256 m, mu_payload = stored p, mu_source_relpath = mu_source_relpath m \<rparr>"
    unfolding normalize_payload_mutation_def Let_def
    by (auto simp: assms(2-4,6-8) p o normalize_target_def Let_def bind_res_Inr stored_def simp del: sort_json.simps split: if_splits)
  then show "write_of h m = [(place h (c, q, i), Some (stored p))]" "mutation_target m = (c, q, i)"
    by (cases m; simp add: write_of_def target_key_place mutation_target_def)+
qed

lemma normalize_other:
  assumes "normalize_payload_mutation v d = Inr m" and "map_of d ''operation'' = Some (JStr op)"
    and "map_of d ''collection'' = Some (JStr c)" and "map_of d ''entity_id'' = Some (JStr i)"
    and "map_of d ''project_name'' = Some (JStr q)" and "strip i = i" "strip q = q" "strip c = c"
    and "(op, w) \<in> {(''delete'', [(place h (c, q, i), None)]), (''assert'', [])}"
  shows "write_of h m = w" "mutation_target m = (c, q, i)"
proof -
  have o: "parse_operation ''delete'' = Some Delete" "parse_operation ''assert'' = Some Assert"
    by (simp_all add: parse_operation_def)
  from assms(1,9) have "m = \<lparr> mu_operation = (if op = ''delete'' then Delete else Assert), mu_collection = c, mu_entity_id = i,
      mu_project_name = q, mu_expected_sha256 = mu_expected_sha256 m, mu_payload = [], mu_source_relpath = None \<rparr>"
    unfolding normalize_payload_mutation_def Let_def
    by (auto simp: assms(2-8) o normalize_target_def Let_def bind_res_Inr split: if_splits)
  then show "write_of h m = w" "mutation_target m = (c, q, i)"
    using assms(9) by (cases m; auto simp add: write_of_def target_key_place mutation_target_def)+
qed

lemma expect_sha_fields: "k \<noteq> ''expected_sha256'' \<Longrightarrow> map_of (expect_sha sha d) k = map_of d k"
  by (simp add: expect_sha_def update_conv')

definition writes :: "digests \<Rightarrow> mutation \<Rightarrow> target \<Rightarrow> jdict option \<Rightarrow> bool" where
  "writes h m t v \<longleftrightarrow> write_of h m = [(place h t, v)] \<and> mutation_target m = t"

lemma normalize_entry:
  assumes "normalize_payload_mutation v (entry_operation x) = Inr m" and "good_entry e x"
  shows "writes h m (entry_target x) (Some (stored (entry_to_dict x)))"
proof -
  have "payload_project_id (entry_to_dict x) = Some (ke_project_name x)" "strip (ke_id x) = ke_id x"
    using assms(2) good_entry_project[OF assms(2)] by (simp_all add: payload_project good_entry_def)
  then show ?thesis unfolding writes_def entry_target_def using normalize_upsert[OF assms(1)]
    by (simp add: entry_operation_def new_operation_def)
qed

lemma normalize_source:
  assumes "normalize_payload_mutation v (source_operation s) = Inr m" and "good_source e s"
  shows "writes h m (source_target s) (Some (stored (source_to_dict s)))"
proof -
  have "payload_project_id (source_to_dict s) = Some (ks_project_name s)" "strip (ks_id s) = ks_id s"
    using assms(2) good_source_lines[OF assms(2)] by (simp_all add: payload_project good_source_def)
  then show ?thesis unfolding writes_def source_target_def using normalize_upsert[OF assms(1)]
    by (simp add: source_operation_def new_operation_def)
qed

lemma replace_fields:
  assumes "replace_operation g st c i p q = Inr d" and "f = (\<lambda>d. d) \<or> f = expect_sha sha"
  shows "map_of (f d) ''operation'' = Some (JStr ''upsert'') \<and> map_of (f d) ''collection'' = Some (JStr c) \<and>
    map_of (f d) ''entity_id'' = Some (JStr i) \<and> map_of (f d) ''payload'' = Some (JObj p)"
  using assms by (auto simp: replace_operation_def expect_sha_fields split: option.splits)

lemma delete_fields:
  assumes "delete_operation g st c i q = Inr d" and "f = (\<lambda>d. d) \<or> f = expect_sha sha"
  shows "map_of (f d) ''operation'' = Some (JStr ''delete'') \<and> map_of (f d) ''collection'' = Some (JStr c) \<and>
    map_of (f d) ''entity_id'' = Some (JStr i) \<and> map_of (f d) ''project_name'' = Some (JStr q)"
  using assms by (auto simp: delete_operation_def expect_sha_fields split: option.splits)

lemma normalize_replaced_entry:
  assumes "normalize_payload_mutation v (expect_sha sha d) = Inr m" and "good_entry e x"
    and "replace_operation g st ''knowledge_entries'' (ke_id x) (entry_to_dict x) q = Inr d"
  shows "writes h m (entry_target x) (Some (stored (entry_to_dict x)))"
proof -
  have "payload_project_id (entry_to_dict x) = Some (ke_project_name x)" "strip (ke_id x) = ke_id x"
    using assms(2) good_entry_project[OF assms(2)] by (simp_all add: payload_project good_entry_def)
  then show ?thesis unfolding writes_def entry_target_def
    using normalize_upsert[OF assms(1)] replace_fields[OF assms(3), where f = "expect_sha sha" and sha = sha] by simp
qed

lemma normalize_replaced_source:
  assumes "normalize_payload_mutation v d = Inr m" and "good_source e s"
    and "replace_operation g st ''knowledge_sources'' (ks_id s) (source_to_dict s) q = Inr d"
  shows "writes h m (source_target s) (Some (stored (source_to_dict s)))"
proof -
  have "payload_project_id (source_to_dict s) = Some (ks_project_name s)" "strip (ks_id s) = ks_id s"
    using assms(2) good_source_lines[OF assms(2)] by (simp_all add: payload_project good_source_def)
  then show ?thesis unfolding writes_def source_target_def
    using normalize_upsert[OF assms(1)] replace_fields[OF assms(3), of "\<lambda>d. d"] by simp
qed

lemma normalize_deleted_entry:
  assumes "normalize_payload_mutation v (f d) = Inr m" and "good_entry e x" and "f = (\<lambda>d. d) \<or> f = expect_sha sha"
    and "delete_operation g st ''knowledge_entries'' (ke_id x) (ke_project_name x) = Inr d"
  shows "writes h m (entry_target x) None"
  unfolding writes_def entry_target_def
  using normalize_other[OF assms(1), of "''delete''"] delete_fields[OF assms(4,3)] assms(2) good_entry_project[OF assms(2)]
  by (simp add: good_entry_def)

lemma normalize_deleted_source:
  assumes "normalize_payload_mutation v d = Inr m" and "good_source e s"
    and "delete_operation g st ''knowledge_sources'' (ks_id s) (ks_project_name s) = Inr d"
  shows "writes h m (source_target s) None"
  unfolding writes_def source_target_def
  using normalize_other[OF assms(1), of "''delete''"] delete_fields[OF assms(3), of "\<lambda>d. d"] assms(2) good_source_lines[OF assms(2)]
  by (simp add: good_source_def)

lemma normalize_assert:
  assumes "normalize_payload_mutation v d = Inr m" and "assert_retained g e q st x = Inr d" and "good_entry e x"
  shows "write_of h m = [] \<and> mutation_target m = entry_target x"
proof -
  have "map_of d ''operation'' = Some (JStr ''assert'') \<and> map_of d ''collection'' = Some (JStr ''knowledge_entries'') \<and>
    map_of d ''entity_id'' = Some (JStr (ke_id x)) \<and> map_of d ''project_name'' = Some (JStr (ke_project_name x))"
    using assms(2) by (auto simp: assert_retained_def bind_res_Inr split: if_splits)
  then show ?thesis unfolding entry_target_def
    using normalize_other[OF assms(1), of "''assert''" _ _ _ "[]"] assms(3) good_entry_project[OF assms(3)]
    by (simp add: good_entry_def)
qed

end
