(* ===== verification/KnowledgeRows.thy ===== *)
theory KnowledgeRows
  imports KnowledgeWrites
begin

text \<open>
  The knowledge a canonical store holds: the entries and sources its payloads stand for, when they are
  consistent, and what the readers of the knowledge store return of them.  The locale \<open>row_kind\<close> is the
  interface of one kind of rows; entries and sources both are one.
\<close>

section \<open>Consistent knowledge\<close>

definition rows_of ::
  "('r \<Rightarrow> bool) \<Rightarrow> ('r \<Rightarrow> target) \<Rightarrow> ('r \<Rightarrow> jdict) \<Rightarrow> digests \<Rightarrow> contents \<Rightarrow> 'r set" where
  "rows_of good tgt dict h C = {x. good x \<and> C (place h (tgt x)) = Some (stored (dict x))}"

definition entries_of :: "digests \<Rightarrow> know_env \<Rightarrow> contents \<Rightarrow> knowledge_entry set" where
  "entries_of h e C = rows_of (good_entry e) entry_target entry_to_dict h C"

definition sources_of :: "digests \<Rightarrow> know_env \<Rightarrow> contents \<Rightarrow> knowledge_source set" where
  "sources_of h e C = rows_of (good_source e) source_target source_to_dict h C"

definition about :: "knowledge_source \<Rightarrow> knowledge_entry \<Rightarrow> bool" where
  "about s x \<longleftrightarrow> ks_knowledge_id s = ke_id x \<and> ks_project_name s = ke_project_name x"

text \<open>
  Every knowledge row is a valid model at its own place, ids are unique, every entry has a source, and
  every source an entry.  \<open>K\<close> are the targets ever used, whose row keys are taken to be apart.
\<close>

definition rows_readable :: "digests \<Rightarrow> know_env \<Rightarrow> contents \<Rightarrow> bool" where
  "rows_readable h e C \<longleftrightarrow>
     (\<forall>k p. C k = Some p \<longrightarrow> fst k = ''knowledge_entries'' \<longrightarrow>
        (\<exists>x\<in>entries_of h e C. k = place h (entry_target x) \<and> p = stored (entry_to_dict x))) \<and>
     (\<forall>k p. C k = Some p \<longrightarrow> fst k = ''knowledge_sources'' \<longrightarrow>
        (\<exists>s\<in>sources_of h e C. k = place h (source_target s) \<and> p = stored (source_to_dict s)))"

definition knowledge_ok :: "digests \<Rightarrow> know_env \<Rightarrow> target set \<Rightarrow> contents \<Rightarrow> bool" where
  "knowledge_ok h e K C \<longleftrightarrow> rows_readable h e C \<and>
     entry_target ` entries_of h e C \<subseteq> K \<and> source_target ` sources_of h e C \<subseteq> K \<and>
     (\<forall>x\<in>entries_of h e C. \<forall>y\<in>entries_of h e C. ke_id x = ke_id y \<longrightarrow> x = y) \<and>
     (\<forall>x\<in>entries_of h e C. \<exists>s\<in>sources_of h e C. about s x) \<and>
     (\<forall>s\<in>sources_of h e C. \<exists>x\<in>entries_of h e C. about s x)"

lemma knowledge_okD:
  assumes "knowledge_ok h e K C"
  shows "rows_readable h e C" "x \<in> entries_of h e C \<Longrightarrow> entry_target x \<in> K" "s \<in> sources_of h e C \<Longrightarrow> source_target s \<in> K"
    "x \<in> entries_of h e C \<Longrightarrow> y \<in> entries_of h e C \<Longrightarrow> ke_id x = ke_id y \<Longrightarrow> x = y"
    "x \<in> entries_of h e C \<Longrightarrow> \<exists>s\<in>sources_of h e C. about s x"
    "s \<in> sources_of h e C \<Longrightarrow> \<exists>x\<in>entries_of h e C. about s x"
  using assms unfolding knowledge_ok_def by blast+

lemma good_members:
  "x \<in> entries_of h e C \<Longrightarrow> good_entry e x" "s \<in> sources_of h e C \<Longrightarrow> good_source e s"
  by (simp_all add: entries_of_def rows_of_def sources_of_def rows_of_def)

section \<open>Reading the store\<close>

lemma row_contents:
  "canonical_ok h st \<Longrightarrow> r \<in> set (ca_rows st) \<Longrightarrow> contents st (cr_key r) = Some (cr_payload r)"
  by (simp add: canonical_ok_def contents_def row_at_def in_get_row)

lemma contents_row:
  assumes "contents st k = Some p"
  obtains r where "r \<in> set (ca_rows st)" "cr_key r = k" "cr_payload r = p"
proof -
  obtain r where r: "get_row cr_key k (ca_rows st) = Some r" "cr_payload r = p"
    using assms by (auto simp: contents_def row_at_def)
  then show thesis using that get_row_in get_row_key by metis
qed

lemma find_row_in:
  assumes "find_row h c i None st = Some r"
  shows "r \<in> set (ca_rows st)" "cr_table r = canonical_table_for_collection c" "cr_collection r = c" "cr_entity_id r = i"
proof -
  let ?P = "\<lambda>r. cr_table r = canonical_table_for_collection c \<and> cr_collection r = c \<and> cr_entity_id r = i"
  have "r \<in> set (sort_key row_order (filter ?P (ca_rows st)))"
    using assms by (auto simp: find_row_def Let_def simp del: set_sort set_filter split: list.splits)
  then show "r \<in> set (ca_rows st)" "cr_table r = canonical_table_for_collection c" "cr_collection r = c" "cr_entity_id r = i"
    by simp_all
qed

lemma listed_row:
  "p \<in> set (list_payloads c None st) \<longleftrightarrow>
     (\<exists>r\<in>set (ca_rows st). cr_collection r = c \<and> cr_table r = canonical_table_for_collection c \<and> cr_payload r = p)"
  unfolding list_payloads_def list_rows_def set_map set_filter set_sort option.case by blast

lemma set_list_payloads:
  assumes "canonical_ok h st" and "c \<in> {''knowledge_entries'', ''knowledge_sources''}"
  shows "p \<in> set (list_payloads c None st) \<longleftrightarrow> (\<exists>k. contents st k = Some p \<and> fst k = c)"
proof -
  have t: "canonical_table_for_collection q = c \<longleftrightarrow> q = c" for q
    using assms(2) table_only[of q] by (elim insertE) simp_all
  have tc: "canonical_table_for_collection c = c" by (simp add: t)
  have row: "cr_table r = canonical_table_for_collection (cr_collection r)" if "r \<in> set (ca_rows st)" for r
    using assms(1) that by (auto simp: canonical_ok_def list_all_iff row_ok_def)
  show ?thesis unfolding listed_row tc
  proof
    assume "\<exists>r\<in>set (ca_rows st). cr_collection r = c \<and> cr_table r = c \<and> cr_payload r = p"
    then obtain r where r: "r \<in> set (ca_rows st)" "cr_table r = c" "cr_payload r = p" by blast
    then have "contents st (cr_key r) = Some p" "fst (cr_key r) = c"
      using row_contents[OF assms(1) r(1)] by (simp_all add: cr_key_def)
    then show "\<exists>k. contents st k = Some p \<and> fst k = c" by blast
  next
    assume "\<exists>k. contents st k = Some p \<and> fst k = c"
    then obtain k where k: "contents st k = Some p" "fst k = c" by blast
    obtain r where r: "r \<in> set (ca_rows st)" "cr_key r = k" "cr_payload r = p" using contents_row[OF k(1)] by metis
    then have "cr_table r = c" using k(2) by (auto simp: cr_key_def)
    moreover from this have "cr_collection r = c" using row[OF r(1)] t by simp
    ultimately show "\<exists>r\<in>set (ca_rows st). cr_collection r = c \<and> cr_table r = c \<and> cr_payload r = p" using r by blast
  qed
qed

lemma results_from: "list_all2 (\<lambda>x y. f x = Inr y) xs ys \<Longrightarrow> y \<in> set ys \<longleftrightarrow> (\<exists>x\<in>set xs. f x = Inr y)"
  by (induction rule: list_all2_induct) auto

lemma listed_sources:
  assumes ok: "canonical_ok h st" and R: "rows_readable h e (contents st)"
    and l: "list_knowledge_sources e i st = Inr ss"
  shows "set ss = {s \<in> sources_of h e (contents st). ks_knowledge_id s = i}"
proof -
  let ?C = "contents st"
  let ?ps = "filter (\<lambda>d. text_or_empty (cv_repr (kv_canon e)) d ''knowledge_id'' = i) (list_payloads ''knowledge_sources'' None st)"
  obtain qs where q: "list_all2 (\<lambda>p s. source_from_dict e p = Inr s) ?ps qs" and ss: "set ss = set qs"
    using l by (auto simp: list_knowledge_sources_def bind_res_Inr map_res_Inr)
  have payload: "\<exists>s\<in>sources_of h e ?C. p = stored (source_to_dict s)" if "p \<in> set (list_payloads ''knowledge_sources'' None st)" for p
  proof -
    have "\<exists>k. contents st k = Some p \<and> fst k = ''knowledge_sources''"
      using that set_list_payloads[OF ok, of "''knowledge_sources''"] by simp
    then show ?thesis using R unfolding rows_readable_def by blast
  qed
  have kid: "text_or_empty f (stored (source_to_dict s)) ''knowledge_id'' = ks_knowledge_id s" for f s
    by (rule text_given) (simp add: map_of_stored source_to_dict_def)
  have self: "source_from_dict e (stored (source_to_dict s)) = Inr s" if "s \<in> sources_of h e ?C" for s
    using that by (simp add: sources_of_def rows_of_def good_source_def)
  have "s \<in> set qs \<longleftrightarrow> (\<exists>p\<in>set ?ps. source_from_dict e p = Inr s)" for s
    using q by (rule results_from)
  moreover have "(\<exists>p\<in>set ?ps. source_from_dict e p = Inr s) \<longleftrightarrow> s \<in> sources_of h e ?C \<and> ks_knowledge_id s = i" for s
  proof
    assume "\<exists>p\<in>set ?ps. source_from_dict e p = Inr s"
    then obtain p where p: "p \<in> set (list_payloads ''knowledge_sources'' None st)" "source_from_dict e p = Inr s"
      "text_or_empty (cv_repr (kv_canon e)) p ''knowledge_id'' = i" by auto
    then obtain t where t: "t \<in> sources_of h e ?C" "p = stored (source_to_dict t)" using payload by blast
    then have "s = t" using p(2) self by simp
    then show "s \<in> sources_of h e ?C \<and> ks_knowledge_id s = i" using p(3) t by (simp add: kid)
  next
    assume s: "s \<in> sources_of h e ?C \<and> ks_knowledge_id s = i"
    then have "?C (place h (source_target s)) = Some (stored (source_to_dict s))" by (simp add: sources_of_def rows_of_def)
    then have "\<exists>k. contents st k = Some (stored (source_to_dict s)) \<and> fst k = ''knowledge_sources''"
      using knowledge_places(2) by blast
    then have "stored (source_to_dict s) \<in> set (list_payloads ''knowledge_sources'' None st)"
      using set_list_payloads[OF ok, of "''knowledge_sources''"] by simp
    then show "\<exists>p\<in>set ?ps. source_from_dict e p = Inr s" using s self by (intro bexI) (auto simp: kid)
  qed
  ultimately show ?thesis using ss by blast
qed

lemma place_inj:
  assumes "apart h K" and "s \<in> K" and "t \<in> K" and "place h s = place h t"
  shows "s = t"
  using assms by (meson apart_def inj_onD)

text \<open>An entry that is found is a current one.\<close>

lemma found_entry:
  assumes ok: "canonical_ok h st" and R: "rows_readable h e (contents st)"
    and g: "get_entry h e i p st = Inr (Some x)"
  shows "x \<in> entries_of h e (contents st)" "ke_project_name x = p"
    "apart h K \<Longrightarrow> entry_target x \<in> K \<Longrightarrow> (''knowledge_entries'', p, i) \<in> K \<Longrightarrow> ke_id x = i"
proof -
  obtain r where r: "find_row h ''knowledge_entries'' i None st = Some r" "entry_from_dict e (cr_payload r) = Inr x"
    and p: "ke_project_name x = p"
    using g by (auto simp: get_entry_def get_payload_def bind_res_Inr split: option.splits if_splits)
  note in_st = find_row_in[OF r(1)]
  have "contents st (cr_key r) = Some (cr_payload r)" "fst (cr_key r) = ''knowledge_entries''"
    using row_contents[OF ok in_st(1)] in_st(2) by (simp_all add: cr_key_def)
  then obtain y where "y \<in> entries_of h e (contents st)" "cr_payload r = stored (entry_to_dict y)"
      "cr_key r = place h (entry_target y)"
    using R unfolding rows_readable_def by blast
  moreover then have "y = x" using r(2) by (simp add: entries_of_def rows_of_def good_entry_def)
  ultimately have x: "x \<in> entries_of h e (contents st)" "cr_payload r = stored (entry_to_dict x)" "cr_key r = place h (entry_target x)"
    by simp_all
  then show "x \<in> entries_of h e (contents st)" "ke_project_name x = p" using p by simp_all
  have "cr_project_id r = Some p"
    using ok in_st(1) x(2) p stored_project(1) good_entry_project[OF good_members(1)[OF x(1)]]
    by (auto simp: canonical_ok_def list_all_iff row_ok_def)
  then have "cr_key r = place h (''knowledge_entries'', p, i)"
    using ok in_st by (auto simp: canonical_ok_def list_all_iff row_ok_def cr_key_def place_def)
  then show "ke_id x = i" if "apart h K" "entry_target x \<in> K" "(''knowledge_entries'', p, i) \<in> K"
    using place_inj[OF that] x(3) by (simp add: entry_target_def)
qed

section \<open>The effect of a transaction\<close>

lemma result_of: "list_all2 P xs ys \<Longrightarrow> x \<in> set xs \<Longrightarrow> \<exists>y\<in>set ys. P x y"
  by (induction rule: list_all2_induct) auto

lemma result_for: "list_all2 P xs ys \<Longrightarrow> y \<in> set ys \<Longrightarrow> \<exists>x\<in>set xs. P x y"
  by (induction rule: list_all2_induct) auto

lemma transaction_effect:
  assumes ok: "canonical_ok h st" and K: "apart h K" and fresh: "find_transaction (strip key) st = None"
    and r: "apply_payload_transaction h v clock key ops st = Inr (res, st')"
    and ws: "\<forall>d\<in>set ops. \<forall>m. normalize_payload_mutation v d = Inr m \<longrightarrow>
      mutation_target m \<in> K \<and> (write_of h m = [] \<or> (\<exists>(t, p)\<in>Ws. writes h m t p))"
    and cs: "\<forall>(t, p)\<in>Ws. \<exists>d\<in>set ops. \<forall>m. normalize_payload_mutation v d = Inr m \<longrightarrow> writes h m t p"
  shows "(t, p) \<in> Ws \<Longrightarrow> contents st' (place h t) = p"
    and "k \<notin> place h ` fst ` Ws \<Longrightarrow> contents st' k = contents st k"
    and "d \<in> set ops \<Longrightarrow> \<exists>m. normalize_payload_mutation v d = Inr m \<and> expectation_met h (contents st) m"
proof -
  have w: "mutation_target m \<in> K \<and> (write_of h m = [] \<or> (\<exists>(t, p)\<in>Ws. writes h m t p))"
    if "d \<in> set ops" "normalize_payload_mutation v d = Inr m" for d m using ws that by blast
  have c: "\<exists>d\<in>set ops. \<forall>m. normalize_payload_mutation v d = Inr m \<longrightarrow> writes h m t p" if "(t, p) \<in> Ws" for t p
    using cs that by blast
  obtain ns where ns: "map_res (normalize_payload_mutation v) ops = Inr ns" "distinct (map mutation_target ns)"
    and C: "contents st' = fold (store_write h) ns (contents st)" and met: "list_all (expectation_met h (contents st)) ns"
    using transaction_writes[OF ok r fresh] by blast
  have l: "list_all2 (\<lambda>d m. normalize_payload_mutation v d = Inr m) ops ns" using ns(1) by (simp add: map_res_Inr)
  have from_op: "\<exists>d\<in>set ops. normalize_payload_mutation v d = Inr m" if "m \<in> set ns" for m
    using results_from[OF l] that by blast
  have to_mutation: "\<exists>m\<in>set ns. normalize_payload_mutation v d = Inr m" if "d \<in> set ops" for d
    using l that by (rule result_of)
  show "\<exists>m. normalize_payload_mutation v d = Inr m \<and> expectation_met h (contents st) m" if d: "d \<in> set ops"
    using to_mutation[OF d] met by (auto simp: list_all_iff)
  have "mutation_target ` set ns \<subseteq> K" using from_op w by blast
  then have d: "distinct (map (target_key h) ns)" using distinct_targets[OF ns(2) K] by blast
  let ?ws = "concat (map (write_of h) ns)"
  have C': "contents st' = rewrite ?ws (contents st)" using C fold_rewrite[OF d] by simp
  have keys: "fst x = target_key h m" if "x \<in> set (write_of h m)" for x m
    using that by (auto simp: write_of_def split: operation.splits)
  have in_ws: "x \<in> set ?ws \<longleftrightarrow> (\<exists>m\<in>set ns. x \<in> set (write_of h m))" for x by auto
  have uniq: "distinct (map fst ?ws)"
    using d
  proof (induction ns)
    case (Cons m ns)
    have "distinct (map fst (write_of h m))" by (auto simp: write_of_def split: operation.split)
    moreover have "fst ` set (write_of h m) \<inter> fst ` set (concat (map (write_of h) ns)) = {}"
    proof (rule equals0I)
      fix q assume q: "q \<in> fst ` set (write_of h m) \<inter> fst ` set (concat (map (write_of h) ns))"
      obtain x where x: "x \<in> set (write_of h m)" "q = fst x" using q by blast
      obtain y where y: "y \<in> set (concat (map (write_of h) ns))" "q = fst y" using q by blast
      obtain n where n: "n \<in> set ns" "y \<in> set (write_of h n)" using y(1) by auto
      have "target_key h m = target_key h n" using keys[OF x(1)] keys[OF n(2)] x(2) y(2) by simp
      then show False using Cons.prems n(1) by simp
    qed
    ultimately show ?case using Cons by auto
  qed simp
  show "contents st' (place h t) = p" if t: "(t, p) \<in> Ws"
  proof -
    obtain d m where "m \<in> set ns" "writes h m t p" using c[OF t] to_mutation by blast
    then have "(place h t, p) \<in> set (write_of h m)" by (simp add: writes_def)
    then have "(place h t, p) \<in> set ?ws" unfolding in_ws using \<open>m \<in> set ns\<close> by blast
    then show ?thesis using uniq by (simp add: C' rewrite_def map_of_eq_Some_iff)
  qed
  show "contents st' k = contents st k" if k: "k \<notin> place h ` fst ` Ws"
  proof -
    have "k \<notin> fst ` set ?ws"
    proof
      assume "k \<in> fst ` set ?ws"
      then obtain x where x: "x \<in> set ?ws" "k = fst x" by blast
      then obtain m where m: "m \<in> set ns" "x \<in> set (write_of h m)" "k = fst x" unfolding in_ws by blast
      then obtain t p where "(t, p) \<in> Ws" "writes h m t p" using from_op w[of _ m] by fastforce
      then have "k = place h t" using m(2,3) by (simp add: writes_def)
      then show False using k \<open>(t, p) \<in> Ws\<close> by force
    qed
    then show ?thesis by (simp add: C' rewrite_def map_of_eq_None_iff[THEN iffD2])
  qed
qed

text \<open>
  One kind of rows: a table, the valid rows and where each of them is stored.  After some rows of the table have
  been put and others removed, exactly the rows put and the untouched old ones are there.
\<close>

locale row_kind =
  fixes table :: string
    and good :: "'r \<Rightarrow> bool"
    and tgt :: "'r \<Rightarrow> target"
    and dict :: "'r \<Rightarrow> jdict"
  assumes in_table: "fst (place h (tgt x)) = table"
    and reads: "good x \<Longrightarrow> good y \<Longrightarrow> stored (dict x) = stored (dict y) \<Longrightarrow> x = y"
begin

lemma rows_after:
  assumes R: "\<And>k p. C k = Some p \<Longrightarrow> fst k = table \<Longrightarrow>
      \<exists>x\<in>rows_of good tgt dict h C. k = place h (tgt x) \<and> p = stored (dict x)"
    and K: "apart h K" "tgt ` (rows_of good tgt dict h C \<union> N \<union> P) \<subseteq> K"
    and good: "\<And>x. x \<in> N \<Longrightarrow> good x"
    and put: "\<And>x. x \<in> N \<Longrightarrow> C' (place h (tgt x)) = Some (stored (dict x))"
    and gone: "\<And>x. x \<in> P \<Longrightarrow> C' (place h (tgt x)) = None"
    and frame: "\<And>k. fst k = table \<Longrightarrow> k \<notin> place h ` tgt ` (N \<union> P) \<Longrightarrow> C' k = C k"
  shows "rows_of good tgt dict h C' = N \<union> {x \<in> rows_of good tgt dict h C. tgt x \<notin> tgt ` (N \<union> P)}"
    and "C' k = Some p \<Longrightarrow> fst k = table \<Longrightarrow>
      \<exists>x\<in>rows_of good tgt dict h C'. k = place h (tgt x) \<and> p = stored (dict x)"
proof -
  let ?old = "rows_of good tgt dict h C" and ?new = "rows_of good tgt dict h C'" and ?W = "tgt ` (N \<union> P)"
  have hit: "\<exists>y\<in>N. k = place h (tgt y) \<and> p = stored (dict y)" if a: "C' k = Some p" "k \<in> place h ` ?W" for k p
  proof -
    obtain y where y: "y \<in> N \<union> P" "k = place h (tgt y)" using a(2) by blast
    have "y \<notin> P" using gone[of y] a(1) y(2) by auto
    then show ?thesis using y put[of y] a(1) by auto
  qed
  have "?new \<subseteq> N \<union> {x \<in> ?old. tgt x \<notin> ?W}"
  proof
    fix x assume "x \<in> ?new"
    then have p: "C' (place h (tgt x)) = Some (stored (dict x))" and g: "good x" by (simp_all add: rows_of_def)
    show "x \<in> N \<union> {x \<in> ?old. tgt x \<notin> ?W}"
    proof (cases "place h (tgt x) \<in> place h ` ?W")
      case True
      then obtain y where y: "y \<in> N" "stored (dict x) = stored (dict y)" using hit[OF p] by auto
      then show ?thesis using reads[OF g good[OF y(1)] y(2)] by simp
    next
      case False
      then have "tgt x \<notin> ?W" "x \<in> ?old" using frame[OF in_table False] p g by (auto simp: rows_of_def)
      then show ?thesis by blast
    qed
  qed
  moreover have "x \<in> ?new" if "x \<in> N" for x using that good put by (simp add: rows_of_def)
  moreover have "x \<in> ?new" if "x \<in> ?old" "tgt x \<notin> ?W" for x
  proof -
    have "place h (tgt x) \<notin> place h ` ?W" using that K place_inj[OF K(1), of "tgt x"] by blast
    then show ?thesis using frame[OF in_table] that(1) by (simp add: rows_of_def)
  qed
  ultimately show new: "?new = N \<union> {x \<in> ?old. tgt x \<notin> ?W}" by blast
  show "\<exists>x\<in>?new. k = place h (tgt x) \<and> p = stored (dict x)" if k: "C' k = Some p" "fst k = table"
  proof (cases "k \<in> place h ` ?W")
    case True
    then show ?thesis using hit[OF k(1)] new by blast
  next
    case False
    then obtain x where x: "x \<in> ?old" "k = place h (tgt x)" "p = stored (dict x)"
      using R[of k p] k frame[OF k(2) False] by auto
    then have "x \<in> ?new" using k(1) by (simp add: rows_of_def)
    then show ?thesis using x by blast
  qed
qed

end

interpretation entry_rows: row_kind "''knowledge_entries''" "good_entry e" entry_target entry_to_dict for e
  by unfold_locales (auto intro: stored_entry_inj)

interpretation source_rows: row_kind "''knowledge_sources''" "good_source e" source_target source_to_dict for e
  by unfold_locales (auto intro: stored_source_inj)

lemmas entries_after = entry_rows.rows_after[folded entries_of_def]
lemmas sources_after = source_rows.rows_after[folded sources_of_def]

end
