(* ===== verification/KnowledgeChanges.thy ===== *)
theory KnowledgeChanges
  imports KnowledgeRows
begin

text \<open>
  What one transaction of the knowledge store does to the entries and sources: first for any list of requests
  that put, drop and assert rows, then for a change and for a deletion.
\<close>

section \<open>Requests of one transaction\<close>

definition puts_entry :: "digests \<Rightarrow> canonical \<Rightarrow> knowledge_entry \<Rightarrow> jdict \<Rightarrow> bool" where
  "puts_entry h st x d \<longleftrightarrow> d = entry_operation x \<or>
     (\<exists>q d' sha. replace_operation h st ''knowledge_entries'' (ke_id x) (entry_to_dict x) q = Inr d' \<and> d = expect_sha sha d')"

definition puts_source :: "digests \<Rightarrow> canonical \<Rightarrow> knowledge_source \<Rightarrow> jdict \<Rightarrow> bool" where
  "puts_source h st s d \<longleftrightarrow> d = source_operation s \<or>
     (\<exists>q. replace_operation h st ''knowledge_sources'' (ks_id s) (source_to_dict s) q = Inr d)"

definition drops_entry :: "digests \<Rightarrow> canonical \<Rightarrow> knowledge_entry \<Rightarrow> jdict \<Rightarrow> bool" where
  "drops_entry h st x d \<longleftrightarrow> (\<exists>d'. delete_operation h st ''knowledge_entries'' (ke_id x) (ke_project_name x) = Inr d' \<and>
     (d = d' \<or> (\<exists>sha. d = expect_sha sha d')))"

definition drops_source :: "digests \<Rightarrow> canonical \<Rightarrow> knowledge_source \<Rightarrow> jdict \<Rightarrow> bool" where
  "drops_source h st s d \<longleftrightarrow> delete_operation h st ''knowledge_sources'' (ks_id s) (ks_project_name s) = Inr d"

lemma request_writes:
  assumes "normalize_payload_mutation v d = Inr m"
  shows "puts_entry h st x d \<Longrightarrow> good_entry e x \<Longrightarrow> writes h m (entry_target x) (Some (stored (entry_to_dict x)))"
    and "puts_source h st s d \<Longrightarrow> good_source e s \<Longrightarrow> writes h m (source_target s) (Some (stored (source_to_dict s)))"
    and "drops_entry h st x d \<Longrightarrow> good_entry e x \<Longrightarrow> writes h m (entry_target x) None"
    and "drops_source h st s d \<Longrightarrow> good_source e s \<Longrightarrow> writes h m (source_target s) None"
proof -
  show "puts_entry h st x d \<Longrightarrow> good_entry e x \<Longrightarrow> writes h m (entry_target x) (Some (stored (entry_to_dict x)))"
    using assms normalize_entry normalize_replaced_entry unfolding puts_entry_def by blast
  show "puts_source h st s d \<Longrightarrow> good_source e s \<Longrightarrow> writes h m (source_target s) (Some (stored (source_to_dict s)))"
    using assms normalize_source normalize_replaced_source unfolding puts_source_def by blast
  show "drops_entry h st x d \<Longrightarrow> good_entry e x \<Longrightarrow> writes h m (entry_target x) None"
    using assms normalize_deleted_entry[where f = "\<lambda>d. d", of v _ m e x] normalize_deleted_entry[where f = "expect_sha sha" for sha]
    unfolding drops_entry_def by blast
  show "drops_source h st s d \<Longrightarrow> good_source e s \<Longrightarrow> writes h m (source_target s) None"
    using assms normalize_deleted_source unfolding drops_source_def by blast
qed

lemma new_expects: "normalize_payload_mutation v (new_operation c i p) = Inr m \<Longrightarrow> mu_expected_sha256 m = Some None"
  by (auto simp: normalize_payload_mutation_def normalize_expected_def new_operation_def Let_def bind_res_Inr
      split: option.splits if_splits)

text \<open>
  The requests of a transaction: they put the entries \<open>N\<close> and the sources \<open>S\<close>, drop \<open>P\<close> and \<open>Q\<close>, and assert that
  \<open>A\<close> has not changed.
\<close>

definition requests ::
  "digests \<Rightarrow> know_env \<Rightarrow> canonical \<Rightarrow> jdict list \<Rightarrow> knowledge_entry set \<Rightarrow> knowledge_source set \<Rightarrow>
   knowledge_entry set \<Rightarrow> knowledge_source set \<Rightarrow> knowledge_entry set \<Rightarrow> bool" where
  "requests h e st ops N S P Q A \<longleftrightarrow>
     (\<forall>d\<in>set ops. (\<exists>x\<in>N. puts_entry h st x d) \<or> (\<exists>s\<in>S. puts_source h st s d) \<or> (\<exists>x\<in>P. drops_entry h st x d) \<or>
        (\<exists>s\<in>Q. drops_source h st s d) \<or> (\<exists>x\<in>A. \<exists>q. assert_retained h e q st x = Inr d)) \<and>
     (\<forall>x\<in>N. \<exists>d\<in>set ops. puts_entry h st x d) \<and> (\<forall>s\<in>S. \<exists>d\<in>set ops. puts_source h st s d) \<and>
     (\<forall>x\<in>P. \<exists>d\<in>set ops. drops_entry h st x d) \<and> (\<forall>s\<in>Q. \<exists>d\<in>set ops. drops_source h st s d)"

definition written ::
  "knowledge_entry set \<Rightarrow> knowledge_source set \<Rightarrow> knowledge_entry set \<Rightarrow> knowledge_source set \<Rightarrow> (target \<times> jdict option) set" where
  "written N S P Q = (\<lambda>x. (entry_target x, Some (stored (entry_to_dict x)))) ` N \<union>
    (\<lambda>s. (source_target s, Some (stored (source_to_dict s)))) ` S \<union>
    (\<lambda>p. (entry_target p, None)) ` P \<union> (\<lambda>s. (source_target s, None)) ` Q"

lemma in_written:
  "x \<in> N \<Longrightarrow> (entry_target x, Some (stored (entry_to_dict x))) \<in> written N S P Q"
  "s \<in> S \<Longrightarrow> (source_target s, Some (stored (source_to_dict s))) \<in> written N S P Q"
  "x \<in> P \<Longrightarrow> (entry_target x, None) \<in> written N S P Q" "s \<in> Q \<Longrightarrow> (source_target s, None) \<in> written N S P Q"
  unfolding written_def by blast+

lemma fst_written: "fst ` written N S P Q = entry_target ` (N \<union> P) \<union> source_target ` (S \<union> Q)"
  by (simp add: written_def image_Un image_image Un_ac)

lemma requests_write:
  assumes q: "requests h e st ops N S P Q A"
    and good: "\<forall>x\<in>N \<union> P \<union> A. good_entry e x" "\<forall>s\<in>S \<union> Q. good_source e s"
    and K: "entry_target ` (N \<union> P \<union> A) \<subseteq> K" "source_target ` (S \<union> Q) \<subseteq> K"
  shows "\<forall>d\<in>set ops. \<forall>m. normalize_payload_mutation v d = Inr m \<longrightarrow>
      mutation_target m \<in> K \<and> (write_of h m = [] \<or> (\<exists>(t, p)\<in>written N S P Q. writes h m t p))"
    and "\<forall>(t, p)\<in>written N S P Q. \<exists>d\<in>set ops. \<forall>m. normalize_payload_mutation v d = Inr m \<longrightarrow> writes h m t p"
proof -
  note w = request_writes
  have one: "mutation_target m \<in> K \<and> (write_of h m = [] \<or> (\<exists>(t, p)\<in>written N S P Q. writes h m t p))"
    if "(t, p) \<in> written N S P Q" "writes h m t p" for m t p
  proof -
    have "t \<in> fst ` written N S P Q" using image_eqI[OF _ that(1), of t fst] by simp
    then have "t \<in> K" using K unfolding fst_written by blast
    moreover have "mutation_target m = t" using that(2) by (simp add: writes_def)
    ultimately show ?thesis using that by blast
  qed
  show "\<forall>d\<in>set ops. \<forall>m. normalize_payload_mutation v d = Inr m \<longrightarrow>
      mutation_target m \<in> K \<and> (write_of h m = [] \<or> (\<exists>(t, p)\<in>written N S P Q. writes h m t p))"
  proof (intro ballI allI impI)
    fix d m assume d: "d \<in> set ops" and m: "normalize_payload_mutation v d = Inr m"
    from q d consider x where "x \<in> N" "puts_entry h st x d" | s where "s \<in> S" "puts_source h st s d"
      | x where "x \<in> P" "drops_entry h st x d" | s where "s \<in> Q" "drops_source h st s d"
      | x q where "x \<in> A" "assert_retained h e q st x = Inr d"
      unfolding requests_def by blast
    then show "mutation_target m \<in> K \<and> (write_of h m = [] \<or> (\<exists>(t, p)\<in>written N S P Q. writes h m t p))"
    proof cases
      case 1 then show ?thesis using one[OF in_written(1)] w(1)[OF m 1(2)] good(1) by blast
    next
      case 2 then show ?thesis using one[OF in_written(2)] w(2)[OF m 2(2)] good(2) by blast
    next
      case 3 then show ?thesis using one[OF in_written(3)] w(3)[OF m 3(2)] good(1) by blast
    next
      case 4 then show ?thesis using one[OF in_written(4)] w(4)[OF m 4(2)] good(2) by blast
    next
      case 5
      then have "good_entry e x" "entry_target x \<in> K" using good(1) K(1) by blast+
      then show ?thesis using normalize_assert[OF m 5(2)] by simp
    qed
  qed
  show "\<forall>(t, p)\<in>written N S P Q. \<exists>d\<in>set ops. \<forall>m. normalize_payload_mutation v d = Inr m \<longrightarrow> writes h m t p"
  proof (intro ballI, clarify)
    fix c i j p assume "((c, i, j), p) \<in> written N S P Q"
    then consider x where "x \<in> N" "(c, i, j) = entry_target x" "p = Some (stored (entry_to_dict x))"
      | s where "s \<in> S" "(c, i, j) = source_target s" "p = Some (stored (source_to_dict s))"
      | x where "x \<in> P" "(c, i, j) = entry_target x" "p = None"
      | s where "s \<in> Q" "(c, i, j) = source_target s" "p = None" unfolding written_def by blast
    then show "\<exists>d\<in>set ops. \<forall>m. normalize_payload_mutation v d = Inr m \<longrightarrow> writes h m (c, i, j) p"
    proof cases
      case 1 then show ?thesis using q w(1) good(1) unfolding requests_def by (metis UnCI)
    next
      case 2 then show ?thesis using q w(2) good(2) unfolding requests_def by (metis UnCI)
    next
      case 3 then show ?thesis using q w(3) good(1) unfolding requests_def by (metis UnCI)
    next
      case 4 then show ?thesis using q w(4) good(2) unfolding requests_def by (metis UnCI)
    qed
  qed
qed

text \<open>What the store holds afterwards.\<close>

lemma requests_effect:
  assumes ok: "canonical_ok h st" and R: "rows_readable h e (contents st)" and K: "apart h K"
    and fresh: "find_transaction (strip key) st = None"
    and t: "apply_payload_transaction h v clock key ops st = Inr (res, st')"
    and q: "requests h e st ops N S P Q A"
    and good: "\<forall>x\<in>N \<union> P \<union> A. good_entry e x" "\<forall>s\<in>S \<union> Q. good_source e s"
    and sub: "entry_target ` (entries_of h e (contents st) \<union> N \<union> P \<union> A) \<subseteq> K"
      "source_target ` (sources_of h e (contents st) \<union> S \<union> Q) \<subseteq> K"
  shows "entries_of h e (contents st') = N \<union> {x \<in> entries_of h e (contents st). entry_target x \<notin> entry_target ` (N \<union> P)}"
    and "sources_of h e (contents st') = S \<union> {s \<in> sources_of h e (contents st). source_target s \<notin> source_target ` (S \<union> Q)}"
    and "rows_readable h e (contents st')"
    and "fst k \<noteq> ''knowledge_entries'' \<Longrightarrow> fst k \<noteq> ''knowledge_sources'' \<Longrightarrow> contents st' k = contents st k"
    and "x \<in> N \<Longrightarrow> entry_operation x \<in> set ops \<Longrightarrow> contents st (place h (entry_target x)) = None"
    and "s \<in> S \<Longrightarrow> source_operation s \<in> set ops \<Longrightarrow> contents st (place h (source_target s)) = None"
proof -
  let ?C = "contents st" and ?C' = "contents st'"
  have sub': "entry_target ` (N \<union> P \<union> A) \<subseteq> K" "source_target ` (S \<union> Q) \<subseteq> K" using sub by blast+
  note eff = transaction_effect[OF ok K fresh t requests_write[OF q good sub']]
  have off: "?C' k = ?C k" if "k \<notin> place h ` (entry_target ` (N \<union> P) \<union> source_target ` (S \<union> Q))" for k
    by (rule eff(2)) (use that in \<open>simp only: fst_written not_False_eq_True\<close>)
  have offE: "?C' k = ?C k" if "fst k = ''knowledge_entries''" "k \<notin> place h ` entry_target ` (N \<union> P)" for k
  proof (rule off)
    have "k \<notin> place h ` source_target ` (S \<union> Q)" using that(1) by auto
    then show "k \<notin> place h ` (entry_target ` (N \<union> P) \<union> source_target ` (S \<union> Q))"
      using that(2) unfolding image_Un[of "place h"] by blast
  qed
  have offS: "?C' k = ?C k" if "fst k = ''knowledge_sources''" "k \<notin> place h ` source_target ` (S \<union> Q)" for k
  proof (rule off)
    have "k \<notin> place h ` entry_target ` (N \<union> P)" using that(1) by auto
    then show "k \<notin> place h ` (entry_target ` (N \<union> P) \<union> source_target ` (S \<union> Q))"
      using that(2) unfolding image_Un[of "place h"] by blast
  qed
  note R' = R[unfolded rows_readable_def]
  have subE: "entry_target ` (entries_of h e ?C \<union> N \<union> P) \<subseteq> K" using sub(1) by blast
  have gN: "\<And>x. x \<in> N \<Longrightarrow> good_entry e x" and gS: "\<And>s. s \<in> S \<Longrightarrow> good_source e s" using good by blast+
  have E: "entries_of h e ?C' = N \<union> {x \<in> entries_of h e ?C. entry_target x \<notin> entry_target ` (N \<union> P)}"
    "?C' k = Some p \<Longrightarrow> fst k = ''knowledge_entries'' \<Longrightarrow>
      \<exists>x\<in>entries_of h e ?C'. k = place h (entry_target x) \<and> p = stored (entry_to_dict x)" for k p
    by (rule entries_after[OF R'[THEN conjunct1, rule_format] K subE gN eff(1)[OF in_written(1)] eff(1)[OF in_written(3)] offE]; assumption)+
  have F: "sources_of h e ?C' = S \<union> {s \<in> sources_of h e ?C. source_target s \<notin> source_target ` (S \<union> Q)}"
    "?C' k = Some p \<Longrightarrow> fst k = ''knowledge_sources'' \<Longrightarrow>
      \<exists>s\<in>sources_of h e ?C'. k = place h (source_target s) \<and> p = stored (source_to_dict s)" for k p
    by (rule sources_after[OF R'[THEN conjunct2, rule_format] K sub(2) gS eff(1)[OF in_written(2)] eff(1)[OF in_written(4)] offS]; assumption)+
  show "entries_of h e ?C' = N \<union> {x \<in> entries_of h e ?C. entry_target x \<notin> entry_target ` (N \<union> P)}"
    "sources_of h e ?C' = S \<union> {s \<in> sources_of h e ?C. source_target s \<notin> source_target ` (S \<union> Q)}"
    by (rule E(1), rule F(1))
  show "rows_readable h e ?C'" unfolding rows_readable_def by (intro conjI allI impI) (rule E(2) F(2); assumption)+
  show "?C' k = ?C k" if "fst k \<noteq> ''knowledge_entries''" "fst k \<noteq> ''knowledge_sources''"
    by (rule off) (use that in auto)
  have free: "?C (place h u) = None"
    if "new_operation c i p \<in> set ops" and "\<And>m. normalize_payload_mutation v (new_operation c i p) = Inr m \<Longrightarrow> writes h m u w" for c i p u w
    using eff(3)[OF that(1)] that(2) new_expects by (fastforce simp: expectation_met_def writes_def target_key_place)
  show "?C (place h (entry_target x)) = None" if "x \<in> N" "entry_operation x \<in> set ops"
    using that free[of _ _ _ "entry_target x"] normalize_entry[OF _ gN[OF that(1)]] unfolding entry_operation_def by blast
  show "?C (place h (source_target s)) = None" if "s \<in> S" "source_operation s \<in> set ops"
    using that free[of _ _ _ "source_target s"] normalize_source[OF _ gS[OF that(1)]] unfolding source_operation_def by blast
qed

section \<open>A change\<close>

text \<open>A predecessor of a change is current, and its sources are the ones about it.\<close>

lemma sources_about:
  assumes "knowledge_ok h e K C" and "x \<in> entries_of h e C"
  shows "{s \<in> sources_of h e C. ks_knowledge_id s = ke_id x} = {s \<in> sources_of h e C. about s x}"
proof -
  have "about s x" if a: "s \<in> sources_of h e C" "ks_knowledge_id s = ke_id x" for s
  proof -
    obtain y where y: "y \<in> entries_of h e C" "about s y" using knowledge_okD(6)[OF assms(1) a(1)] by blast
    then have "x = y" using knowledge_okD(4)[OF assms(1) assms(2) y(1)] a(2) by (simp add: about_def)
    then show ?thesis using y(2) by simp
  qed
  then show ?thesis by (auto simp: about_def)
qed

lemma current_predecessor_is:
  assumes ok: "canonical_ok h st" and KO: "knowledge_ok h e K (contents st)"
    and p: "current_predecessor h e q st p = Inr (x, ss)" and g: "good_entry e p"
  shows "x = p" "p \<in> entries_of h e (contents st)" "ke_project_name p = q"
    "set ss = {s \<in> sources_of h e (contents st). about s p}"
proof -
  note R = knowledge_okD(1)[OF KO]
  have f: "get_entry h e (ke_id p) q st = Inr (Some x)" and d: "entry_to_dict x = entry_to_dict p"
    and l: "list_knowledge_sources e (ke_id x) st = Inr ss"
    using p by (auto simp: current_predecessor_def bind_res_Inr split: option.splits if_splits)
  note x = found_entry(1,2)[OF ok R f]
  show xp: "x = p" using stored_entry_inj[OF good_members(1)[OF x(1)] g] d by simp
  then show "p \<in> entries_of h e (contents st)" "ke_project_name p = q" using x by simp_all
  show "set ss = {s \<in> sources_of h e (contents st). about s p}"
    using listed_sources[OF ok R l] sources_about[OF KO x(1)] xp by simp
qed

lemma knowledge_sources_about:
  "knowledge_sources_from h e x seen refs = Inr ss \<Longrightarrow> s \<in> set ss \<Longrightarrow> strip (ke_id x) = ke_id x \<Longrightarrow>
     strip (ke_project_name x) = ke_project_name x \<Longrightarrow> about s x"
proof (induction refs arbitrary: seen ss)
  case (Cons r refs)
  then show ?case
    by (auto simp: Let_def bind_res_Inr validate_source_def single_line_def about_def split: if_splits)
qed simp

lemma knowledge_sources_some: "knowledge_sources h e x refs = Inr ss \<Longrightarrow> refs \<noteq> [] \<Longrightarrow> ss \<noteq> []"
  by (cases refs) (auto simp: knowledge_sources_def Let_def bind_res_Inr)

definition change_inputs ::
  "digests \<Rightarrow> know_env \<Rightarrow> target set \<Rightarrow> knowledge_entry list \<Rightarrow> knowledge_entry list \<Rightarrow> (string \<times> source_ref list) list \<Rightarrow> bool" where
  "change_inputs h e K added predecessors refs_by_entry \<longleftrightarrow>
     (\<forall>x\<in>set added. good_entry e x \<and> entry_target x \<in> K) \<and> (\<forall>p\<in>set predecessors. good_entry e p) \<and>
     (\<forall>x\<in>set added. \<forall>ss. knowledge_sources h e x (refs_of refs_by_entry x) = Inr ss \<longrightarrow>
        (\<forall>s\<in>set ss. good_source e s \<and> source_target s \<in> K))"

definition new_sources :: "digests \<Rightarrow> know_env \<Rightarrow> knowledge_entry list \<Rightarrow> (string \<times> source_ref list) list \<Rightarrow> knowledge_source set" where
  "new_sources h e added refs_by_entry =
     {s. \<exists>x\<in>set added. \<exists>ss. knowledge_sources h e x (refs_of refs_by_entry x) = Inr ss \<and> s \<in> set ss}"

text \<open>The parts of a change that succeeded.\<close>

lemma change_parts:
  assumes ok: "canonical_ok h st" and KO: "knowledge_ok h e K (contents st)" and inp: "change_inputs h e K added predecessors refs_by_entry"
    and r: "apply_current_change h e clock before after decision added predecessors refs_by_entry st = Inr (res, st')"
  obtains ops where
    "apply_payload_transaction h (kv_canon e) clock (''knowledge-change:'' @ kd_id decision) ops st = Inr (res, st')"
    "requests h e st ops (set added) (new_sources h e added refs_by_entry) (set predecessors)
      {s \<in> sources_of h e (contents st). \<exists>p\<in>set predecessors. about s p} {}"
    "entry_operation ` set added \<subseteq> set ops" "source_operation ` new_sources h e added refs_by_entry \<subseteq> set ops"
    "\<forall>p\<in>set predecessors. p \<in> entries_of h e (contents st) \<and> ke_project_name p = kd_project_name decision"
    "\<forall>x\<in>set added. ke_project_name x = kd_project_name decision \<and> refs_of refs_by_entry x \<noteq> [] \<and>
      (\<exists>ss. knowledge_sources h e x (refs_of refs_by_entry x) = Inr ss)"
proof -
  let ?q = "kd_project_name decision" and ?S = "new_sources h e added refs_by_entry"
  let ?Q = "{s \<in> sources_of h e (contents st). \<exists>p\<in>set predecessors. about s p}"
  obtain cur us sss ret where cur: "list_all2 (\<lambda>p c. current_predecessor h e ?q st p = Inr c) predecessors cur"
    and us: "list_all2 (\<lambda>x u. check_output e before ?q predecessors refs_by_entry x = Inr u) added us"
    and sss: "list_all2 (\<lambda>x ss. knowledge_sources h e x (refs_of refs_by_entry x) = Inr ss) added sss"
    and ret: "list_all2 (\<lambda>c ops. retire_operations h st c = Inr ops) cur ret"
    and t: "apply_payload_transaction h (kv_canon e) clock (''knowledge-change:'' @ kd_id decision)
      (concat ret @ map entry_operation added @ map source_operation (concat sss)) st = Inr (res, st')"
    using r by (auto simp: apply_current_change_def bind_res_Inr map_res_Inr)
  let ?ops = "concat ret @ map entry_operation added @ map source_operation (concat sss)"
  have good: "\<And>p. p \<in> set predecessors \<Longrightarrow> good_entry e p" using inp by (simp add: change_inputs_def)
  have S: "?S = set (concat sss)"
    using results_from[OF sss] result_of[OF sss] by (fastforce simp: new_sources_def)
  have in_cur: "p \<in> set predecessors \<and> set ss = {s \<in> sources_of h e (contents st). about s p}" if c: "(p, ss) \<in> set cur" for p ss
  proof -
    obtain p' where p: "p' \<in> set predecessors" "current_predecessor h e ?q st p' = Inr (p, ss)"
      using results_from[OF cur] c by blast
    show ?thesis using current_predecessor_is[OF ok KO p(2) good[OF p(1)]] p(1) by simp
  qed
  have of_pred: "\<exists>ss. (p, ss) \<in> set cur \<and> p \<in> entries_of h e (contents st) \<and> ke_project_name p = ?q" if p: "p \<in> set predecessors" for p
  proof -
    obtain x ss where c: "(x, ss) \<in> set cur" "current_predecessor h e ?q st p = Inr (x, ss)"
      using result_of[OF cur p] by fastforce
    show ?thesis using current_predecessor_is[OF ok KO c(2) good[OF p]] c(1) by blast
  qed
  have drops: "(\<forall>d\<in>set l. (\<exists>s\<in>set ss. drops_source h st s d) \<or> drops_entry h st p d) \<and>
      (\<forall>s\<in>set ss. \<exists>d\<in>set l. drops_source h st s d) \<and> (\<exists>d\<in>set l. drops_entry h st p d)"
    if rt: "retire_operations h st (p, ss) = Inr l" for p ss l
  proof -
    obtain os o' where os: "list_all2 (\<lambda>s d. drops_source h st s d) ss os" "drops_entry h st p o'" "l = os @ [o']"
      using rt by (auto simp: retire_operations_def bind_res_Inr map_res_Inr drops_source_def drops_entry_def)
    have "\<exists>s\<in>set ss. drops_source h st s d" if "d \<in> set os" for d
      using os(1) that by (induction rule: list_all2_induct) auto
    then show ?thesis using os(2,3) result_of[OF os(1)] by auto
  qed
  have all: "\<exists>l\<in>set ret. (\<forall>s\<in>set ss. \<exists>d\<in>set l. drops_source h st s d) \<and> (\<exists>d\<in>set l. drops_entry h st p d)"
    if "(p, ss) \<in> set cur" for p ss
    using result_of[OF ret that] drops by blast
  have only: "(\<exists>s\<in>?Q. drops_source h st s d) \<or> (\<exists>p\<in>set predecessors. drops_entry h st p d)" if ld: "l \<in> set ret" "d \<in> set l" for l d
  proof -
    obtain p ss where c: "(p, ss) \<in> set cur" "retire_operations h st (p, ss) = Inr l"
      using results_from[OF ret] ld(1) by fastforce
    then show ?thesis using drops[OF c(2)] ld(2) in_cur[OF c(1)] by blast
  qed
  show thesis
  proof (rule that[OF t])
    have mem: "set ?ops = \<Union> (set ` set ret) \<union> entry_operation ` set added \<union> source_operation ` ?S" by (auto simp: S)
    have set_ret: "set l \<subseteq> set ?ops" if "l \<in> set ret" for l unfolding mem using that by blast
    show "requests h e st ?ops (set added) ?S (set predecessors) ?Q {}" unfolding requests_def
    proof (intro conjI ballI)
      fix d assume "d \<in> set ?ops"
      then consider l where "l \<in> set ret" "d \<in> set l" | x where "x \<in> set added" "puts_entry h st x d"
        | s where "s \<in> ?S" "puts_source h st s d"
        unfolding mem puts_entry_def puts_source_def by blast
      then show "(\<exists>x\<in>set added. puts_entry h st x d) \<or> (\<exists>s\<in>?S. puts_source h st s d) \<or> (\<exists>x\<in>set predecessors. drops_entry h st x d) \<or>
        (\<exists>s\<in>?Q. drops_source h st s d) \<or> (\<exists>x\<in>{}. \<exists>q. assert_retained h e q st x = Inr d)"
        by cases (use only in blast)+
    next
      fix p assume p: "p \<in> set predecessors"
      show "\<exists>d\<in>set ?ops. drops_entry h st p d" using of_pred[OF p] all set_ret by blast
    next
      fix s assume "s \<in> ?Q"
      then obtain p where p: "p \<in> set predecessors" "about s p" "s \<in> sources_of h e (contents st)" by blast
      obtain ss where "(p, ss) \<in> set cur" using of_pred[OF p(1)] by blast
      moreover then have "s \<in> set ss" using in_cur p(2,3) by blast
      ultimately show "\<exists>d\<in>set ?ops. drops_source h st s d" using all set_ret by blast
    qed (auto simp: puts_entry_def puts_source_def S)
    show "entry_operation ` set added \<subseteq> set ?ops" "source_operation ` ?S \<subseteq> set ?ops" by (auto simp: S)
    show "\<forall>p\<in>set predecessors. p \<in> entries_of h e (contents st) \<and> ke_project_name p = ?q" using of_pred by blast
    show "\<forall>x\<in>set added. ke_project_name x = ?q \<and> refs_of refs_by_entry x \<noteq> [] \<and>
        (\<exists>ss. knowledge_sources h e x (refs_of refs_by_entry x) = Inr ss)"
    proof
      fix x assume x: "x \<in> set added"
      obtain u where "check_output e before ?q predecessors refs_by_entry x = Inr u" using result_of[OF us x] by blast
      then show "ke_project_name x = ?q \<and> refs_of refs_by_entry x \<noteq> [] \<and>
          (\<exists>ss. knowledge_sources h e x (refs_of refs_by_entry x) = Inr ss)"
        using result_of[OF sss x] by (auto simp: check_output_def refs_of_def split: if_splits option.splits list.splits)
    qed
  qed
qed

lemma target_unique:
  "x \<in> entries_of h e C \<Longrightarrow> y \<in> entries_of h e C \<Longrightarrow> entry_target x = entry_target y \<Longrightarrow> x = y"
  "s \<in> sources_of h e C \<Longrightarrow> t \<in> sources_of h e C \<Longrightarrow> source_target s = source_target t \<Longrightarrow> s = t"
  unfolding entries_of_def sources_of_def rows_of_def
  by (auto intro: stored_entry_inj stored_source_inj)

lemma change_swaps:
  assumes ok: "canonical_ok h st" and KO: "knowledge_ok h e K (contents st)" and K: "apart h K"
    and fresh: "find_transaction (strip (''knowledge-change:'' @ kd_id decision)) st = None"
    and inp: "change_inputs h e K added predecessors refs_by_entry"
    and r: "apply_current_change h e clock before after decision added predecessors refs_by_entry st = Inr (res, st')"
  shows "entries_of h e (contents st') = set added \<union> (entries_of h e (contents st) - set predecessors)"
    and "sources_of h e (contents st') = new_sources h e added refs_by_entry \<union>
      {s \<in> sources_of h e (contents st). \<forall>p\<in>set predecessors. \<not> about s p}"
    and "rows_readable h e (contents st')" and "set predecessors \<subseteq> entries_of h e (contents st)"
    and "\<forall>x\<in>set added \<union> set predecessors. ke_project_name x = kd_project_name decision"
    and "\<forall>x\<in>set added. \<exists>s\<in>new_sources h e added refs_by_entry. about s x"
    and "\<forall>s\<in>new_sources h e added refs_by_entry. good_source e s \<and> source_target s \<in> K \<and> (\<exists>x\<in>set added. about s x)"
    and "fst k \<noteq> ''knowledge_entries'' \<Longrightarrow> fst k \<noteq> ''knowledge_sources'' \<Longrightarrow> contents st' k = contents st k"
proof -
  let ?C = "contents st" and ?S = "new_sources h e added refs_by_entry"
  let ?Q = "{s \<in> sources_of h e ?C. \<exists>p\<in>set predecessors. about s p}"
  obtain ops where t: "apply_payload_transaction h (kv_canon e) clock (''knowledge-change:'' @ kd_id decision) ops st = Inr (res, st')"
    and q: "requests h e st ops (set added) ?S (set predecessors) ?Q {}"
    and ops: "entry_operation ` set added \<subseteq> set ops" "source_operation ` ?S \<subseteq> set ops"
    and pred: "\<forall>p\<in>set predecessors. p \<in> entries_of h e ?C \<and> ke_project_name p = kd_project_name decision"
    and out: "\<forall>x\<in>set added. ke_project_name x = kd_project_name decision \<and> refs_of refs_by_entry x \<noteq> [] \<and>
      (\<exists>ss. knowledge_sources h e x (refs_of refs_by_entry x) = Inr ss)"
    by (rule change_parts[OF ok KO inp r])
  have good: "\<And>x. x \<in> set added \<Longrightarrow> good_entry e x \<and> entry_target x \<in> K" "\<And>p. p \<in> set predecessors \<Longrightarrow> good_entry e p"
    using inp by (auto simp: change_inputs_def)
  have ab: "about s x" if "x \<in> set added" "knowledge_sources h e x (refs_of refs_by_entry x) = Inr ss" "s \<in> set ss" for s x ss
  proof -
    have "good_entry e x" using good(1)[OF that(1)] by blast
    then show ?thesis using knowledge_sources_about that(2,3) good_entry_project unfolding knowledge_sources_def good_entry_def by blast
  qed
  show news: "\<forall>s\<in>?S. good_source e s \<and> source_target s \<in> K \<and> (\<exists>x\<in>set added. about s x)"
    using ab inp unfolding new_sources_def change_inputs_def by blast
  show "\<forall>x\<in>set added. \<exists>s\<in>?S. about s x"
  proof
    fix x assume x: "x \<in> set added"
    then obtain ss where ss: "knowledge_sources h e x (refs_of refs_by_entry x) = Inr ss" and n: "refs_of refs_by_entry x \<noteq> []" using out by blast
    then obtain s where s: "s \<in> set ss" using knowledge_sources_some[OF ss n] by (meson last_in_set)
    then show "\<exists>s\<in>?S. about s x" using ab[OF x ss s] ss x unfolding new_sources_def by blast
  qed
  have g: "\<forall>x\<in>set added \<union> set predecessors \<union> {}. good_entry e x" "\<forall>s\<in>?S \<union> ?Q. good_source e s"
    using good news good_members(2) by blast+
  have sub: "entry_target ` (entries_of h e ?C \<union> set added \<union> set predecessors \<union> {}) \<subseteq> K"
    "source_target ` (sources_of h e ?C \<union> ?S \<union> ?Q) \<subseteq> K"
    using good pred news knowledge_okD(2,3)[OF KO] by blast+
  note eff = requests_effect[OF ok knowledge_okD(1)[OF KO] K fresh t q g sub]
  have "entry_target x \<notin> entry_target ` (set added \<union> set predecessors) \<longleftrightarrow> x \<notin> set predecessors" if x: "x \<in> entries_of h e ?C" for x
  proof -
    have "entry_target x \<noteq> entry_target y" if "y \<in> set added" for y
      using eff(5)[of y] that ops(1) x by (auto simp: entries_of_def rows_of_def)
    then show ?thesis using pred target_unique(1)[OF x] by blast
  qed
  then show "entries_of h e (contents st') = set added \<union> (entries_of h e ?C - set predecessors)" unfolding eff(1) by blast
  have "source_target s \<notin> source_target ` (?S \<union> ?Q) \<longleftrightarrow> s \<notin> ?Q" if s: "s \<in> sources_of h e ?C" for s
  proof -
    have "source_target s \<noteq> source_target y" if "y \<in> ?S" for y
      using eff(6)[of y] that ops(2) s by (auto simp: sources_of_def rows_of_def)
    then show ?thesis using target_unique(2)[OF s] by blast
  qed
  then show "sources_of h e (contents st') = ?S \<union> {s \<in> sources_of h e ?C. \<forall>p\<in>set predecessors. \<not> about s p}"
    unfolding eff(2) by blast
  show "rows_readable h e (contents st')" by (rule eff(3))
  show "set predecessors \<subseteq> entries_of h e ?C" "\<forall>x\<in>set added \<union> set predecessors. ke_project_name x = kd_project_name decision"
    using pred out by blast+
  show "contents st' k = ?C k" if "fst k \<noteq> ''knowledge_entries''" "fst k \<noteq> ''knowledge_sources''" by (rule eff(4)[OF that])
qed

section \<open>A deletion\<close>

lemma delete_parts:
  assumes ok: "canonical_ok h st" and KO: "knowledge_ok h e K (contents st)"
    and g: "get_entry h e i p st = Inr (Some x)"
    and r: "delete_current_entry h e clock p i expected retained st = Inr (res, st')"
  obtains ops res0 where
    "apply_payload_transaction h (kv_canon e) clock (delete_transaction_key p x i) ops st = Inr (res0, st')"
    "requests h e st ops {} {} {x} {s \<in> sources_of h e (contents st). about s x} (set retained)"
    "res = AList.update ''knowledge_id'' (JStr i) (AList.update ''deleted'' (JBool True) res0)"
    "\<forall>y\<in>set retained. \<exists>z. get_entry h e (ke_id y) p st = Inr (Some z) \<and> entry_to_dict z = entry_to_dict y"
proof -
  note R = knowledge_okD(1)[OF KO]
  note x = found_entry(1,2)[OF ok R g]
  let ?sha = "record_payload_sha256 h ''knowledge_entries'' i None st"
  obtain ss as os d res0 where l: "list_knowledge_sources e (ke_id x) st = Inr ss"
    and as: "list_all2 (\<lambda>y a. assert_retained h e p st y = Inr a) retained as"
    and os: "list_all2 (\<lambda>s d. drops_source h st s d) ss os"
    and d: "delete_operation h st ''knowledge_entries'' (ke_id x) (ke_project_name x) = Inr d"
    and t: "apply_payload_transaction h (kv_canon e) clock (delete_transaction_key p x i) (as @ os @ [expect_sha ?sha d]) st = Inr (res0, st')"
    and res: "res = AList.update ''knowledge_id'' (JStr i) (AList.update ''deleted'' (JBool True) res0)"
    using r g by (auto simp: delete_current_entry_def Let_def bind_res_Inr map_res_Inr drops_source_def split: if_splits)
  have ss: "set ss = {s \<in> sources_of h e (contents st). about s x}"
    using listed_sources[OF ok R l] sources_about[OF KO x(1)] by simp
  have "\<exists>s\<in>set ss. drops_source h st s o'" if "o' \<in> set os" for o'
    using os that by (induction rule: list_all2_induct) auto
  moreover have "\<exists>y\<in>set retained. assert_retained h e p st y = Inr a" if "a \<in> set as" for a
    using results_from[OF as] that by blast
  moreover have "drops_entry h st x (expect_sha ?sha d)" using d by (auto simp: drops_entry_def)
  ultimately have "requests h e st (as @ os @ [expect_sha ?sha d]) {} {} {x} {s \<in> sources_of h e (contents st). about s x} (set retained)"
    using result_of[OF os] unfolding requests_def ss[symmetric] set_append by fastforce
  moreover have "\<exists>z. get_entry h e (ke_id y) p st = Inr (Some z) \<and> entry_to_dict z = entry_to_dict y" if y: "y \<in> set retained" for y
  proof -
    obtain a where "assert_retained h e p st y = Inr a" using result_of[OF as y] by blast
    then show ?thesis by (auto simp: assert_retained_def bind_res_Inr changed_since_def split: if_splits option.splits)
  qed
  ultimately show thesis using that t res by blast
qed

lemma delete_removes:
  assumes ok: "canonical_ok h st" and KO: "knowledge_ok h e K (contents st)" and K: "apart h K"
    and g: "get_entry h e i p st = Inr (Some x)"
    and fresh: "find_transaction (strip (delete_transaction_key p x i)) st = None"
    and retained: "\<forall>y\<in>set retained. good_entry e y"
    and r: "delete_current_entry h e clock p i expected retained st = Inr (res, st')"
  shows "entries_of h e (contents st') = entries_of h e (contents st) - {x}"
    and "sources_of h e (contents st') = {s \<in> sources_of h e (contents st). \<not> about s x}"
    and "rows_readable h e (contents st')" and "set retained \<subseteq> entries_of h e (contents st)"
    and "fst k \<noteq> ''knowledge_entries'' \<Longrightarrow> fst k \<noteq> ''knowledge_sources'' \<Longrightarrow> contents st' k = contents st k"
proof -
  let ?C = "contents st" and ?Q = "{s \<in> sources_of h e (contents st). about s x}"
  obtain ops res0 where t: "apply_payload_transaction h (kv_canon e) clock (delete_transaction_key p x i) ops st = Inr (res0, st')"
    and q: "requests h e st ops {} {} {x} ?Q (set retained)"
    and kept: "\<forall>y\<in>set retained. \<exists>z. get_entry h e (ke_id y) p st = Inr (Some z) \<and> entry_to_dict z = entry_to_dict y"
    by (rule delete_parts[OF ok KO g r])
  note R = knowledge_okD(1)[OF KO]
  note x = found_entry(1,2)[OF ok R g]
  show keep: "set retained \<subseteq> entries_of h e ?C"
  proof
    fix y assume y: "y \<in> set retained"
    then obtain z where z: "get_entry h e (ke_id y) p st = Inr (Some z)" "entry_to_dict z = entry_to_dict y" using kept by blast
    then have "z = y" using stored_entry_inj found_entry(1)[OF ok R z(1)] good_members(1) retained y by metis
    then show "y \<in> entries_of h e ?C" using found_entry(1)[OF ok R z(1)] by simp
  qed
  have good: "\<forall>y\<in>{} \<union> {x} \<union> set retained. good_entry e y" "\<forall>s\<in>{} \<union> ?Q. good_source e s"
    using x(1) retained good_members by blast+
  have sub: "entry_target ` (entries_of h e ?C \<union> {} \<union> {x} \<union> set retained) \<subseteq> K" "source_target ` (sources_of h e ?C \<union> {} \<union> ?Q) \<subseteq> K"
    using x(1) keep knowledge_okD(2,3)[OF KO] by blast+
  note eff = requests_effect[OF ok R K fresh t q good sub]
  show "entries_of h e (contents st') = entries_of h e ?C - {x}"
    unfolding eff(1) using target_unique(1)[OF _ x(1)] by blast
  show "sources_of h e (contents st') = {s \<in> sources_of h e ?C. \<not> about s x}"
    unfolding eff(2) using target_unique(2) by blast
  show "rows_readable h e (contents st')" by (rule eff(3))
  show "contents st' k = ?C k" if "fst k \<noteq> ''knowledge_entries''" "fst k \<noteq> ''knowledge_sources''" by (rule eff(4)[OF that])
qed

end
