(* ===== verification/KnowledgeRuns.thy ===== *)
theory KnowledgeRuns
  imports KnowledgeChanges
begin

text \<open>
  Refreshing a verification, and the states the operations of the knowledge store reach.
\<close>

section \<open>A refresh\<close>

lemma validate_entry_times:
  "validate_entry e (x\<lparr>ke_verified_at := a, ke_updated_at := b\<rparr>) =
     bind_res (validate_entry e x) (\<lambda>y. Inr (y\<lparr>ke_verified_at := a, ke_updated_at := b\<rparr>))"
  by (auto simp: validate_entry_def Let_def retain_report_boundary_def bind_res_def split: sum.split option.split)

lemma validate_source_time:
  "validate_source (s\<lparr>ks_verified_at := a\<rparr>) = bind_res (validate_source s) (\<lambda>y. Inr (y\<lparr>ks_verified_at := a\<rparr>))"
  by (auto simp: validate_source_def bind_res_def split: sum.split)

lemma validate_entry_keeps:
  assumes "validate_entry e x = Inr y"
  shows "ke_id y = ke_id x \<and> ke_source_report y = ke_source_report x \<and> ke_verified_at y = ke_verified_at x \<and>
    ke_created_at y = ke_created_at x \<and> ke_updated_at y = ke_updated_at x"
  using assms unfolding validate_entry_def Let_def bind_res_Inr by (elim exE conjE) (auto split: if_splits)

lemma refreshed_entry_good:
  assumes g: "good_entry e x" and t: "reads_time e t"
  shows "good_entry e (x\<lparr>ke_verified_at := Some t, ke_updated_at := t\<rparr>)"
proof -
  let ?x = "x\<lparr>ke_verified_at := Some t, ke_updated_at := t\<rparr>"
  obtain report verified created updated where r: "report_from_json e (json_get (stored (entry_to_dict x)) ''source_report'') = Inr report"
    and c: "kv_datetime e (JStr (isoformat (ke_created_at x))) = Inr created"
    and v: "validate_entry e (x\<lparr>ke_source_report := report, ke_verified_at := verified, ke_created_at := created,
       ke_updated_at := updated\<rparr>) = Inr x"
    using g unfolding good_entry_def entry_from_stored bind_res_Inr by blast
  have same: "report = ke_source_report x" "created = ke_created_at x" "verified = ke_verified_at x" "updated = ke_updated_at x"
    using validate_entry_keeps[OF v] by simp_all
  have x: "validate_entry e x = Inr x" using v unfolding same by simp
  have "map_of (stored (entry_to_dict ?x)) ''source_report'' = map_of (stored (entry_to_dict x)) ''source_report''"
    by (simp add: map_of_stored entry_to_dict_def split: option.split)
  then have r': "report_from_json e (json_get (stored (entry_to_dict ?x)) ''source_report'') = Inr (ke_source_report x)"
    using r by (simp add: json_get_def same)
  have v': "optional_time_field e (stored (entry_to_dict ?x)) ''verified_at'' = Inr (Some t)"
    by (rule optional_time_back) (use t in \<open>auto simp: map_of_stored entry_to_dict_def optional_iso_def\<close>)
  have "?x\<lparr>ke_source_report := ke_source_report x, ke_verified_at := Some t, ke_created_at := ke_created_at x, ke_updated_at := t\<rparr> = ?x"
    by (cases x) simp
  then have "entry_from_dict e (stored (entry_to_dict ?x)) = validate_entry e ?x"
    using r' v' c t by (simp add: entry_from_stored same reads_time_def)
  also have "\<dots> = Inr ?x" by (simp add: validate_entry_times x)
  finally show ?thesis using g by (simp add: good_entry_def)
qed

lemma strip_no_space: "(\<And>c. c \<in> set s \<Longrightarrow> \<not> py_space c) \<Longrightarrow> strip s = s"
proof -
  have d: "dropWhile py_space xs = xs" if "\<And>c. c \<in> set xs \<Longrightarrow> \<not> py_space c" for xs
    using that by (cases xs) auto
  assume s: "\<And>c. c \<in> set s \<Longrightarrow> \<not> py_space c"
  have "dropWhile py_space s = s" "dropWhile py_space (rev s) = rev s" by (rule d, simp add: s)+
  then show "strip s = s" by (simp add: strip_def lstrip_def)
qed

lemma hex_normal:
  assumes "is_sha256_hex s"
  shows "lower (strip s) = s"
proof -
  have h: "list_all (\<lambda>c. \<not> py_space c \<and> lower_char c = c) ''0123456789abcdef''" by code_simp
  have c: "\<not> py_space c \<and> lower_char c = c" if "c \<in> set s" for c
    using assms that h unfolding is_sha256_hex_def list_all_iff by blast
  then have "strip s = s" by (intro strip_no_space) blast
  then show ?thesis using c by (simp add: lower_def map_idI)
qed

lemma normalize_digest_again: "normalize_digest v = Inr w \<Longrightarrow> normalize_digest w = Inr w"
  by (auto simp: normalize_digest_def Let_def hex_normal split: option.splits if_splits)

lemma validate_source_again: "validate_source y = Inr s \<Longrightarrow> validate_source s = Inr s"
proof -
  assume "validate_source y = Inr s"
  then obtain k p a l d where f: "single_line (ks_knowledge_id y) ''knowledge_id'' = Inr k"
      "single_line (ks_project_name y) ''project_name'' = Inr p" "single_line (ks_source_kind y) ''source_kind'' = Inr a"
      "single_line (ks_locator y) ''locator'' = Inr l" "normalize_digest (ks_content_sha256 y) = Inr d"
    and s: "s = y\<lparr>ks_knowledge_id := k, ks_project_name := p, ks_source_kind := a, ks_locator := l, ks_content_sha256 := d\<rparr>"
    unfolding validate_source_def bind_res_Inr by blast
  show "validate_source s = Inr s"
    using f(1-4)[THEN single_line_ok] normalize_digest_again[OF f(5)] by (simp add: validate_source_def s)
qed

lemma refreshed_source_good:
  assumes g: "good_source e s" and t: "reads_time e t"
  shows "good_source e (s\<lparr>ks_verified_at := t\<rparr>)"
proof -
  obtain y where "validate_source y = Inr s" using g source_from_dict_valid unfolding good_source_def by blast
  then have "validate_source s = Inr s"
    by (rule validate_source_again)
  then have "validate_source (s\<lparr>ks_verified_at := t\<rparr>) = Inr (s\<lparr>ks_verified_at := t\<rparr>)" by (simp add: validate_source_time)
  then have "source_from_dict e (stored (source_to_dict (s\<lparr>ks_verified_at := t\<rparr>))) = Inr (s\<lparr>ks_verified_at := t\<rparr>)"
    by (rule source_reads_back) (simp add: t)
  then show ?thesis using g by (simp add: good_source_def)
qed

lemma sources_by_id_last:
  "sources_by_id ss i = Some q \<Longrightarrow> q \<in> set ss \<and> ks_id q = i" "i \<in> ks_id ` set ss \<Longrightarrow> sources_by_id ss i \<noteq> None"
proof -
  show "sources_by_id ss i = Some q \<Longrightarrow> q \<in> set ss \<and> ks_id q = i"
    unfolding sources_by_id_def by (drule map_of_SomeD) auto
  show "i \<in> ks_id ` set ss \<Longrightarrow> sources_by_id ss i \<noteq> None"
    unfolding sources_by_id_def map_of_eq_None_iff by force
qed

text \<open>The refreshed rows replace the sources of the entry one for one.\<close>

lemma refreshed_rows_identity:
  assumes "refreshed_rows p i t refreshed ss = Inr rows" and "\<forall>s\<in>set ss. ks_project_name s = p \<and> ks_knowledge_id s = i"
  and "inj_on ks_id (set ss)"
  shows "list_all2 (\<lambda>s r. source_target r = source_target s \<and> ks_project_name r = p \<and> ks_knowledge_id r = i \<and>
    ks_verified_at r = t \<and> ks_source_kind r = ks_source_kind s \<and> ks_locator r = ks_locator s \<and>
    (\<exists>q. r = q\<lparr>ks_verified_at := t\<rparr> \<and> (q = s \<or> (\<exists>ps. refreshed = Some ps \<and> q \<in> set ps)))) ss rows"
proof (cases refreshed)
  case None
  then have "rows = map (\<lambda>s. s\<lparr>ks_verified_at := t\<rparr>) ss" using assms(1) by (simp add: refreshed_rows_def)
  then show ?thesis using assms(2) by (auto simp: list_all2_map2 list_all2_same source_target_def)
next
  case (Some ps)
  let ?q = "\<lambda>s. case sources_by_id ps (ks_id s) of Some q \<Rightarrow> q | None \<Rightarrow> s"
  have rows: "rows = map (\<lambda>s. (?q s)\<lparr>ks_verified_at := t\<rparr>) ss" and ids: "set (map ks_id ps) = set (map ks_id ss)"
    and same: "\<forall>x\<in>set ps. case (sources_by_id ss (ks_id x), sources_by_id ps (ks_id x)) of
        (Some c, Some q) \<Rightarrow> same_source_identity p i c q | _ \<Rightarrow> False"
    using assms(1) Some by (auto simp: refreshed_rows_def Let_def list_all_iff split: if_splits)
  show ?thesis unfolding rows list_all2_map2 list_all2_same
  proof
    fix s assume s: "s \<in> set ss"
    then have "ks_id s \<in> ks_id ` set ps" using ids by auto
    then obtain q where q: "sources_by_id ps (ks_id s) = Some q" "q \<in> set ps" "ks_id q = ks_id s"
      using sources_by_id_last(2) sources_by_id_last(1) by blast
    then obtain c where c: "sources_by_id ss (ks_id s) = Some c" "same_source_identity p i c q"
      using same by (force split: option.splits)
    then have "c = s" using sources_by_id_last(1)[OF c(1)] s assms(3) by (auto dest: inj_onD)
    show "source_target ((?q s)\<lparr>ks_verified_at := t\<rparr>) = source_target s \<and> ks_project_name ((?q s)\<lparr>ks_verified_at := t\<rparr>) = p \<and>
        ks_knowledge_id ((?q s)\<lparr>ks_verified_at := t\<rparr>) = i \<and> ks_verified_at ((?q s)\<lparr>ks_verified_at := t\<rparr>) = t \<and>
        ks_source_kind ((?q s)\<lparr>ks_verified_at := t\<rparr>) = ks_source_kind s \<and> ks_locator ((?q s)\<lparr>ks_verified_at := t\<rparr>) = ks_locator s \<and>
        (\<exists>q. (?q s)\<lparr>ks_verified_at := t\<rparr> = q\<lparr>ks_verified_at := t\<rparr> \<and> (q = s \<or> (\<exists>qs. refreshed = Some qs \<and> q \<in> set qs)))"
      using q c \<open>c = s\<close> assms(2) s Some by (auto simp: same_source_identity_def source_target_def)
  qed
qed


definition refreshed_entry :: "time \<Rightarrow> knowledge_entry \<Rightarrow> knowledge_entry" where
  "refreshed_entry t x = x\<lparr>ke_verified_at := Some t, ke_updated_at := t\<rparr>"

lemma refreshed_entry_simps [simp]:
  "ke_id (refreshed_entry t x) = ke_id x" "ke_project_name (refreshed_entry t x) = ke_project_name x"
  "entry_target (refreshed_entry t x) = entry_target x" "about s (refreshed_entry t x) = about s x"
  by (simp_all add: refreshed_entry_def entry_target_def about_def)

text \<open>
  A refresh replaces the entry and each of its sources; only the time of verification and, where the caller
  passes new rows, the digest of a source change.
\<close>

lemma refresh_keeps:
  assumes ok: "canonical_ok h st" and KO: "knowledge_ok h e K (contents st)" and K: "apart h K"
    and g: "get_entry h e i p st = Inr (Some x)" and iK: "(''knowledge_entries'', p, i) \<in> K"
    and fresh: "find_transaction (strip (''knowledge-verification-refresh:'' @ refresh_id)) st = None"
    and inp: "reads_time e t" "\<forall>ps. refreshed = Some ps \<longrightarrow> (\<forall>q\<in>set ps. good_source e q)"
    and r: "refresh_entry_verification h e clock p i t refresh_id refreshed expected st = Inr (res, st')"
  shows "entries_of h e (contents st') = insert (refreshed_entry t x) (entries_of h e (contents st) - {x})"
    and "\<exists>S. sources_of h e (contents st') = S \<union> {s \<in> sources_of h e (contents st). \<not> about s x} \<and>
      (\<forall>s\<in>S. about s x \<and> ks_verified_at s = t \<and> (\<exists>s'\<in>sources_of h e (contents st). about s' x \<and>
        source_target s = source_target s' \<and> ks_source_kind s = ks_source_kind s' \<and> ks_locator s = ks_locator s')) \<and>
      source_target ` S = source_target ` {s \<in> sources_of h e (contents st). about s x}"
    and "rows_readable h e (contents st')"
    and "fst k \<noteq> ''knowledge_entries'' \<Longrightarrow> fst k \<noteq> ''knowledge_sources'' \<Longrightarrow> contents st' k = contents st k"
proof -
  let ?C = "contents st" and ?A = "{s \<in> sources_of h e (contents st). about s x}"
  note R = knowledge_okD(1)[OF KO]
  note x = found_entry(1,2)[OF ok R g] and xi = found_entry(3)[OF ok R g K knowledge_okD(2)[OF KO] iK]
  have xid: "ke_id x = i" using xi x(1) by blast
  let ?x = "refreshed_entry t x"
  obtain ss rows op ops where l: "list_knowledge_sources e i st = Inr ss"
    and rows: "refreshed_rows p i t refreshed ss = Inr rows"
    and op: "replace_operation h st ''knowledge_entries'' (ke_id x) (entry_to_dict ?x) p = Inr op"
    and ops: "list_all2 (\<lambda>s d. replace_operation h st ''knowledge_sources'' (ks_id s) (source_to_dict s) p = Inr d) rows ops"
    and tr: "apply_payload_transaction h (kv_canon e) clock (''knowledge-verification-refresh:'' @ refresh_id)
      (expect_sha (record_payload_sha256 h ''knowledge_entries'' i None st) op # ops) st = Inr (res, st')"
    using r g by (auto simp: refresh_entry_verification_def Let_def bind_res_Inr map_res_Inr refreshed_entry_def split: if_splits)
  let ?ops = "expect_sha (record_payload_sha256 h ''knowledge_entries'' i None st) op # ops"
  have ss: "set ss = ?A" using listed_sources[OF ok R l] sources_about[OF KO x(1)] xid by simp
  have "inj_on ks_id (set ss)"
    unfolding ss by (rule inj_onI) (auto intro: target_unique(2) simp: source_target_def about_def)
  moreover have "\<forall>s\<in>set ss. ks_project_name s = p \<and> ks_knowledge_id s = i"
    unfolding ss using x(2) xid by (auto simp: about_def)
  ultimately have id: "list_all2 (\<lambda>s r. source_target r = source_target s \<and> ks_project_name r = p \<and> ks_knowledge_id r = i \<and>
    ks_verified_at r = t \<and> ks_source_kind r = ks_source_kind s \<and> ks_locator r = ks_locator s \<and>
    (\<exists>q. r = q\<lparr>ks_verified_at := t\<rparr> \<and> (q = s \<or> (\<exists>ps. refreshed = Some ps \<and> q \<in> set ps)))) ss rows"
    by (intro refreshed_rows_identity[OF rows])
  have row: "good_source e r \<and> (\<exists>s\<in>?A. source_target r = source_target s \<and> about r x \<and> ks_verified_at r = t \<and>
      ks_source_kind r = ks_source_kind s \<and> ks_locator r = ks_locator s)" if r: "r \<in> set rows" for r
  proof -
    obtain s where s: "s \<in> ?A" "source_target r = source_target s" "ks_project_name r = p" "ks_knowledge_id r = i"
        "ks_verified_at r = t" "ks_source_kind r = ks_source_kind s" "ks_locator r = ks_locator s"
      and q: "\<exists>q. r = q\<lparr>ks_verified_at := t\<rparr> \<and> (q = s \<or> (\<exists>ps. refreshed = Some ps \<and> q \<in> set ps))"
      using result_for[OF id r] unfolding ss by blast
    have "good_source e r" using q refreshed_source_good[OF _ inp(1)] inp(2) good_members(2) s(1) by blast
    moreover have "about r x" using s(3,4) xid x(2) by (simp add: about_def)
    ultimately show ?thesis using s by blast
  qed
  have rows_A: "source_target ` set rows = source_target ` ?A"
    using row result_of[OF id] unfolding ss by (auto simp: image_iff) (metis+)
  have q: "requests h e st ?ops {?x} (set rows) {} {} {}"
  proof -
    have "puts_entry h st ?x (hd ?ops)" using op unfolding puts_entry_def by (simp, blast)
    moreover have "\<exists>s\<in>set rows. puts_source h st s d" if "d \<in> set ops" for d
      using result_for[OF ops that] unfolding puts_source_def by blast
    moreover have "\<exists>d\<in>set ops. puts_source h st s d" if "s \<in> set rows" for s
      using result_of[OF ops that] unfolding puts_source_def by blast
    ultimately show ?thesis unfolding requests_def by auto
  qed
  have good: "\<forall>y\<in>{?x} \<union> {} \<union> {}. good_entry e y" "\<forall>s\<in>set rows \<union> {}. good_source e s"
    using refreshed_entry_good[OF good_members(1)[OF x(1)] inp(1)] row by (auto simp: refreshed_entry_def)
  have sub: "entry_target ` (entries_of h e ?C \<union> {?x} \<union> {} \<union> {}) \<subseteq> K" "source_target ` (sources_of h e ?C \<union> set rows \<union> {}) \<subseteq> K"
  proof -
    show "entry_target ` (entries_of h e ?C \<union> {?x} \<union> {} \<union> {}) \<subseteq> K" using knowledge_okD(2)[OF KO] x(1) by auto
    have "source_target ` set rows \<subseteq> K" unfolding rows_A using knowledge_okD(3)[OF KO] by blast
    then show "source_target ` (sources_of h e ?C \<union> set rows \<union> {}) \<subseteq> K" using knowledge_okD(3)[OF KO] by blast
  qed
  note eff = requests_effect[OF ok R K fresh tr q good sub]
  show "entries_of h e (contents st') = insert ?x (entries_of h e ?C - {x})"
  proof -
    have "entry_target y \<notin> entry_target ` ({?x} \<union> {}) \<longleftrightarrow> y \<noteq> x" if "y \<in> entries_of h e ?C" for y
      using target_unique(1)[OF that x(1)] by auto
    then show ?thesis unfolding eff(1) by blast
  qed
  have "source_target s \<notin> source_target ` (set rows \<union> {}) \<longleftrightarrow> \<not> about s x" if s: "s \<in> sources_of h e ?C" for s
    unfolding Un_empty_right rows_A using target_unique(2)[OF s] s by blast
  then have S: "sources_of h e (contents st') = set rows \<union> {s \<in> sources_of h e ?C. \<not> about s x}" unfolding eff(2) by blast
  have replaced: "\<forall>s\<in>set rows. about s x \<and> ks_verified_at s = t \<and> (\<exists>s'\<in>sources_of h e ?C. about s' x \<and>
        source_target s = source_target s' \<and> ks_source_kind s = ks_source_kind s' \<and> ks_locator s = ks_locator s')"
  proof
    fix s assume "s \<in> set rows"
    from row[OF this] obtain s' where "s' \<in> ?A" "source_target s = source_target s'" "about s x" "ks_verified_at s = t"
      "ks_source_kind s = ks_source_kind s'" "ks_locator s = ks_locator s'" by blast
    then show "about s x \<and> ks_verified_at s = t \<and> (\<exists>s'\<in>sources_of h e ?C. about s' x \<and>
        source_target s = source_target s' \<and> ks_source_kind s = ks_source_kind s' \<and> ks_locator s = ks_locator s')" by blast
  qed
  show "\<exists>S. sources_of h e (contents st') = S \<union> {s \<in> sources_of h e ?C. \<not> about s x} \<and>
      (\<forall>s\<in>S. about s x \<and> ks_verified_at s = t \<and> (\<exists>s'\<in>sources_of h e ?C. about s' x \<and>
        source_target s = source_target s' \<and> ks_source_kind s = ks_source_kind s' \<and> ks_locator s = ks_locator s')) \<and>
      source_target ` S = source_target ` ?A"
    by (rule exI[of _ "set rows"], intro conjI S replaced rows_A)
  show "rows_readable h e (contents st')" by (rule eff(3))
  show "contents st' k = ?C k" if "fst k \<noteq> ''knowledge_entries''" "fst k \<noteq> ''knowledge_sources''" by (rule eff(4)[OF that])
qed

section \<open>Runs\<close>

definition fresh_ids :: "digests \<Rightarrow> know_env \<Rightarrow> canonical \<Rightarrow> knowledge_entry list \<Rightarrow> bool" where
  "fresh_ids h e st added \<longleftrightarrow> inj_on ke_id (set added) \<and>
     (\<forall>x\<in>set added. \<forall>y\<in>entries_of h e (contents st). ke_id y \<noteq> ke_id x)"

definition elsewhere :: "canonical \<Rightarrow> canonical \<Rightarrow> bool" where \<comment> \<open>no row of the two tables differs\<close>
  "elsewhere st st' \<longleftrightarrow> (\<forall>k. fst k = ''knowledge_entries'' \<or> fst k = ''knowledge_sources'' \<longrightarrow> contents st' k = contents st k)"

text \<open>
  The states reached from a store without knowledge by the operations of the knowledge store, with any writes to
  other collections between them.  Ids of new entries are fresh: they are digests of project, path, title and
  statement, and a transaction refuses to create an entry that exists.
\<close>

inductive knowledge_reach :: "digests \<Rightarrow> know_env \<Rightarrow> target set \<Rightarrow> canonical \<Rightarrow> bool" for h e K where
  start: "canonical_ok h st \<Longrightarrow> elsewhere empty_canonical st \<Longrightarrow> knowledge_reach h e K st"
| change: "knowledge_reach h e K st \<Longrightarrow> change_inputs h e K added predecessors refs \<Longrightarrow> fresh_ids h e st added \<Longrightarrow>
    apply_current_change h e clock before after decision added predecessors refs st = Inr (res, st') \<Longrightarrow>
    knowledge_reach h e K st'"
| refresh: "knowledge_reach h e K st \<Longrightarrow> (''knowledge_entries'', p, i) \<in> K \<Longrightarrow> reads_time e t \<Longrightarrow>
    \<forall>ps. refreshed = Some ps \<longrightarrow> (\<forall>q\<in>set ps. good_source e q) \<Longrightarrow>
    refresh_entry_verification h e clock p i t refresh_id refreshed expected st = Inr (res, st') \<Longrightarrow>
    knowledge_reach h e K st'"
| delete: "knowledge_reach h e K st \<Longrightarrow> \<forall>y\<in>set retained. good_entry e y \<Longrightarrow>
    delete_current_entry h e clock p i expected retained st = Inr (res, st') \<Longrightarrow> knowledge_reach h e K st'"
| other: "knowledge_reach h e K st \<Longrightarrow> canonical_ok h st' \<Longrightarrow> elsewhere st st' \<Longrightarrow> knowledge_reach h e K st'"

lemma replayed:
  "find_transaction (strip key) st = Some t \<Longrightarrow> apply_payload_transaction h v clock key ms st = Inr (res, st') \<Longrightarrow> st' = st"
  by (erule transaction_cases) simp_all

lemma change_knowledge_ok:
  assumes ok: "canonical_ok h st" and KO: "knowledge_ok h e K (contents st)" and K: "apart h K"
    and fresh: "find_transaction (strip (''knowledge-change:'' @ kd_id decision)) st = None"
    and inp: "change_inputs h e K added predecessors refs" and new: "fresh_ids h e st added"
    and r: "apply_current_change h e clock before after decision added predecessors refs st = Inr (res, st')"
  shows "knowledge_ok h e K (contents st')"
proof -
  note C = change_swaps[OF ok KO K fresh inp r]
  note D = knowledge_okD[OF KO]
  show ?thesis unfolding knowledge_ok_def
  proof (intro conjI ballI impI)
    show "rows_readable h e (contents st')" by (rule C(3))
    show "entry_target ` entries_of h e (contents st') \<subseteq> K" using C(1) D(2) inp unfolding change_inputs_def by blast
    show "source_target ` sources_of h e (contents st') \<subseteq> K" using C(2,7) D(3) by blast
    show "x = y" if xy: "x \<in> entries_of h e (contents st')" "y \<in> entries_of h e (contents st')" "ke_id x = ke_id y" for x y
    proof -
      have inj: "inj_on ke_id (set added)" and f: "\<And>a b. a \<in> set added \<Longrightarrow> b \<in> entries_of h e (contents st) \<Longrightarrow> ke_id b \<noteq> ke_id a"
        using new by (auto simp: fresh_ids_def)
      consider "x \<in> set added" "y \<in> set added" | "x \<in> entries_of h e (contents st)" "y \<in> entries_of h e (contents st)"
        using xy f unfolding C(1) by (metis DiffD1 UnE)
      then show ?thesis using xy(3) inj D(4) by cases (auto dest: inj_onD)
    qed
    show "\<exists>s\<in>sources_of h e (contents st'). about s x" if x: "x \<in> entries_of h e (contents st')" for x
    proof (cases "x \<in> set added")
      case True
      then show ?thesis using C(6) unfolding C(2) by blast
    next
      case False
      then have old: "x \<in> entries_of h e (contents st)" "x \<notin> set predecessors" using x unfolding C(1) by blast+
      then obtain s where s: "s \<in> sources_of h e (contents st)" "about s x" using D(5) by blast
      have "\<not> about s p" if "p \<in> set predecessors" for p
        using D(4)[OF old(1), of p] C(4) that old(2) s(2) by (auto simp: about_def)
      then show ?thesis using s unfolding C(2) by blast
    qed
    show "\<exists>x\<in>entries_of h e (contents st'). about s x" if s: "s \<in> sources_of h e (contents st')" for s
    proof (cases "s \<in> new_sources h e added refs")
      case True
      then show ?thesis using C(7) unfolding C(1) by blast
    next
      case False
      then have "s \<in> sources_of h e (contents st)" "\<forall>p\<in>set predecessors. \<not> about s p" using s unfolding C(2) by blast+
      then show ?thesis using D(6) unfolding C(1) by blast
    qed
  qed
qed

lemma change_keeps:
  assumes ok: "canonical_ok h st" and KO: "knowledge_ok h e K (contents st)" and K: "apart h K"
    and inp: "change_inputs h e K added predecessors refs" and new: "fresh_ids h e st added"
    and r: "apply_current_change h e clock before after decision added predecessors refs st = Inr (res, st')"
  shows "canonical_ok h st' \<and> knowledge_ok h e K (contents st')"
proof -
  obtain ops where t: "apply_payload_transaction h (kv_canon e) clock (''knowledge-change:'' @ kd_id decision) ops st = Inr (res, st')"
    by (rule change_parts[OF ok KO inp r])
  show ?thesis
  proof (cases "find_transaction (strip (''knowledge-change:'' @ kd_id decision)) st")
    case (Some u)
    then show ?thesis using replayed[OF Some t] ok KO by simp
  next
    case None
    then show ?thesis using transaction_ok[OF t ok] change_knowledge_ok[OF ok KO K None inp new r] by blast
  qed
qed

lemma refresh_keeps_ok:
  assumes ok: "canonical_ok h st" and KO: "knowledge_ok h e K (contents st)" and K: "apart h K"
    and iK: "(''knowledge_entries'', p, i) \<in> K"
    and inp: "reads_time e t" "\<forall>ps. refreshed = Some ps \<longrightarrow> (\<forall>q\<in>set ps. good_source e q)"
    and r: "refresh_entry_verification h e clock p i t refresh_id refreshed expected st = Inr (res, st')"
  shows "canonical_ok h st' \<and> knowledge_ok h e K (contents st')"
proof -
  obtain x where g: "get_entry h e i p st = Inr (Some x)"
    using r by (auto simp: refresh_entry_verification_def Let_def bind_res_Inr split: if_splits option.splits)
  obtain ops where t: "apply_payload_transaction h (kv_canon e) clock (''knowledge-verification-refresh:'' @ refresh_id) ops st = Inr (res, st')"
    using r g by (auto simp: refresh_entry_verification_def Let_def bind_res_Inr map_res_Inr split: if_splits)
  have ok': "canonical_ok h st'" using transaction_ok[OF t ok] by blast
  show ?thesis
  proof (cases "find_transaction (strip (''knowledge-verification-refresh:'' @ refresh_id)) st")
    case None
    note C = refresh_keeps[OF ok KO K g iK None inp r]
    note D = knowledge_okD[OF KO]
    note x = found_entry(1)[OF ok D(1) g]
    let ?A = "{s \<in> sources_of h e (contents st). about s x}"
    obtain S where S: "sources_of h e (contents st') = S \<union> {s \<in> sources_of h e (contents st). \<not> about s x}"
      and ab: "\<forall>s\<in>S. about s x" and tg: "source_target ` S = source_target ` ?A" using C(2) by blast
    have "knowledge_ok h e K (contents st')" unfolding knowledge_ok_def
    proof (intro conjI ballI impI)
      show "rows_readable h e (contents st')" by (rule C(3))
      show "entry_target ` entries_of h e (contents st') \<subseteq> K" using C(1) D(2) x by auto
      have "source_target ` S \<subseteq> K" unfolding tg using D(3) by blast
      then show "source_target ` sources_of h e (contents st') \<subseteq> K" unfolding S using D(3) by blast
      show "y = z" if yz: "y \<in> entries_of h e (contents st')" "z \<in> entries_of h e (contents st')" "ke_id y = ke_id z" for y z
        using yz D(4) x unfolding C(1) by (auto dest: D(4)[OF _ x] D(4)[OF x])
      show "\<exists>s\<in>sources_of h e (contents st'). about s y" if y: "y \<in> entries_of h e (contents st')" for y
      proof (cases "y = refreshed_entry t x")
        case True
        obtain s where "s \<in> ?A" using D(5)[OF x] by blast
        then have "S \<noteq> {}" using tg by blast
        then show ?thesis using ab True unfolding S by auto
      next
        case False
        then have old: "y \<in> entries_of h e (contents st)" "y \<noteq> x" using y unfolding C(1) by blast+
        then obtain s where s: "s \<in> sources_of h e (contents st)" "about s y" using D(5) by blast
        have "\<not> about s x" using D(4)[OF old(1) x] old(2) s(2) by (auto simp: about_def)
        then show ?thesis using s unfolding S by blast
      qed
      show "\<exists>y\<in>entries_of h e (contents st'). about s y" if s: "s \<in> sources_of h e (contents st')" for s
      proof (cases "about s x")
        case True
        then show ?thesis unfolding C(1) by auto
      next
        case False
        then have "s \<in> sources_of h e (contents st)" using s ab unfolding S by blast
        then show ?thesis using D(6) False unfolding C(1) by blast
      qed
    qed
    then show ?thesis using ok' by blast
  next
    case (Some u)
    then show ?thesis using replayed[OF Some t] ok KO by simp
  qed
qed

lemma delete_keeps_ok:
  assumes ok: "canonical_ok h st" and KO: "knowledge_ok h e K (contents st)" and K: "apart h K"
    and retained: "\<forall>y\<in>set retained. good_entry e y"
    and r: "delete_current_entry h e clock p i expected retained st = Inr (res, st')"
  shows "canonical_ok h st' \<and> knowledge_ok h e K (contents st')"
proof -
  obtain cur where g: "get_entry h e i p st = Inr cur" using r by (auto simp: delete_current_entry_def Let_def bind_res_Inr)
  show ?thesis
  proof (cases cur)
    case None
    then have "st' = st" using r g by (auto simp: delete_current_entry_def Let_def bind_res_Inr split: if_splits)
    then show ?thesis using ok KO by simp
  next
    case (Some x)
    note g = g[unfolded Some]
    obtain ops res0 where t: "apply_payload_transaction h (kv_canon e) clock (delete_transaction_key p x i) ops st = Inr (res0, st')"
      by (rule delete_parts[OF ok KO g r])
    have ok': "canonical_ok h st'" using transaction_ok[OF t ok] by blast
    show ?thesis
    proof (cases "find_transaction (strip (delete_transaction_key p x i)) st")
      case None
      note C = delete_removes[OF ok KO K g None retained r]
      note D = knowledge_okD[OF KO]
      note x = found_entry(1)[OF ok D(1) g]
      have "knowledge_ok h e K (contents st')" unfolding knowledge_ok_def
      proof (intro conjI ballI impI)
        show "rows_readable h e (contents st')" by (rule C(3))
        show "entry_target ` entries_of h e (contents st') \<subseteq> K" using C(1) D(2) by blast
        show "source_target ` sources_of h e (contents st') \<subseteq> K" using C(2) D(3) by blast
        show "y = z" if "y \<in> entries_of h e (contents st')" "z \<in> entries_of h e (contents st')" "ke_id y = ke_id z" for y z
          using that D(4) unfolding C(1) by blast
        show "\<exists>s\<in>sources_of h e (contents st'). about s y" if y: "y \<in> entries_of h e (contents st')" for y
        proof -
          have old: "y \<in> entries_of h e (contents st)" "y \<noteq> x" using y unfolding C(1) by blast+
          then obtain s where s: "s \<in> sources_of h e (contents st)" "about s y" using D(5) by blast
          have "\<not> about s x" using D(4)[OF old(1) x] old(2) s(2) by (auto simp: about_def)
          then show ?thesis using s unfolding C(2) by blast
        qed
        show "\<exists>y\<in>entries_of h e (contents st'). about s y" if s: "s \<in> sources_of h e (contents st')" for s
          using s D(6) unfolding C(1,2) by blast
      qed
      then show ?thesis using ok' by blast
    next
      case (Some u)
      then show ?thesis using replayed[OF Some t] ok KO by simp
    qed
  qed
qed

lemma knowledge_ok_cong:
  assumes "\<forall>k. fst k = ''knowledge_entries'' \<or> fst k = ''knowledge_sources'' \<longrightarrow> C' k = C k" and "knowledge_ok h e K C"
  shows "knowledge_ok h e K C'"
proof -
  have "entries_of h e C' = entries_of h e C" "sources_of h e C' = sources_of h e C"
    unfolding entries_of_def sources_of_def rows_of_def
    using assms(1)[rule_format, OF disjI1[OF knowledge_places(1)]] assms(1)[rule_format, OF disjI2[OF knowledge_places(2)]]
    by simp_all
  then show ?thesis using assms unfolding knowledge_ok_def rows_readable_def by simp
qed

lemma reached_ok:
  assumes "knowledge_reach h e K st" and K: "apart h K"
  shows "canonical_ok h st \<and> knowledge_ok h e K (contents st)"
  using assms(1)
proof (induction rule: knowledge_reach.induct)
  case (start st)
  have "contents empty_canonical = (\<lambda>_. None)" by (simp add: contents_def row_at_def empty_canonical_def fun_eq_iff)
  moreover have "knowledge_ok h e K (\<lambda>_. None)"
    by (simp add: knowledge_ok_def rows_readable_def entries_of_def sources_of_def rows_of_def)
  moreover have "knowledge_ok h e K (contents st)"
    by (rule knowledge_ok_cong[OF start(2)[unfolded elsewhere_def]]) (use calculation in simp)
  ultimately show ?case using start(1) by blast
next
  case (change st added predecessors refs clock before after decision res st')
  then show ?case using change_keeps[OF _ _ K] by blast
next
  case (refresh st p i t refreshed clock refresh_id expected res st')
  then show ?case using refresh_keeps_ok[OF _ _ K] by blast
next
  case (delete st retained clock p i expected res st')
  then show ?case using delete_keeps_ok[OF _ _ K] by blast
next
  case (other st st')
  have "knowledge_ok h e K (contents st')"
    by (rule knowledge_ok_cong[OF other(3)[unfolded elsewhere_def]]) (use other.IH in blast)
  then show ?case using other(2) by blast
qed

end
