(* ===== verification/KnowledgeProps.thy ===== *)
theory KnowledgeProps
  imports KnowledgeRuns
begin

text \<open>
  Properties of the knowledge store: every reachable state keeps entries with their sources, a change swaps
  knowledge, a deletion removes exactly one entry.  At the end a small knowledge base on which they are applied.
\<close>

section \<open>Properties\<close>

lemma map_res_total: "(\<And>x. x \<in> set xs \<Longrightarrow> \<exists>y. f x = Inr y) \<Longrightarrow> \<exists>ys. map_res f xs = Inr ys"
proof (induction xs)
  case (Cons x xs)
  obtain y where "f x = Inr y" using Cons.prems by force
  moreover obtain ys where "map_res f xs = Inr ys" using Cons by force
  ultimately show ?case by (simp del: map_res_Inr)
qed simp

lemma listed_entries:
  assumes ok: "canonical_ok h st" and R: "rows_readable h e (contents st)"
  shows "\<exists>xs. list_entries e p st = Inr xs \<and> set xs \<subseteq> entries_of h e (contents st)"
proof -
  let ?ps = "list_payloads ''knowledge_entries'' (Some p) st"
  have payload: "\<exists>x\<in>entries_of h e (contents st). d = stored (entry_to_dict x)" if "d \<in> set ?ps" for d
  proof -
    have "d \<in> set (list_payloads ''knowledge_entries'' None st)"
      using that unfolding list_payloads_def list_rows_def by auto
    then have "\<exists>k. contents st k = Some d \<and> fst k = ''knowledge_entries''"
      using set_list_payloads[OF ok, of "''knowledge_entries''"] by simp
    then show ?thesis using R unfolding rows_readable_def by blast
  qed
  have reads: "entry_from_dict e (stored (entry_to_dict x)) = Inr x" if "x \<in> entries_of h e (contents st)" for x
    using good_members(1)[OF that] by (simp add: good_entry_def)
  have "\<exists>ys. map_res (entry_from_dict e) ?ps = Inr ys"
    by (rule map_res_total) (use payload reads in metis)
  then obtain ys where ys: "map_res (entry_from_dict e) ?ps = Inr ys" by blast
  have "set ys \<subseteq> entries_of h e (contents st)"
  proof
    fix y assume "y \<in> set ys"
    then obtain d where d: "d \<in> set ?ps" "entry_from_dict e d = Inr y" using results_from[OF ys[unfolded map_res_Inr]] by blast
    obtain x where "x \<in> entries_of h e (contents st)" "d = stored (entry_to_dict x)" using payload[OF d(1)] by blast
    then show "y \<in> entries_of h e (contents st)" using reads d(2) by simp
  qed
  then show ?thesis using ys by (auto simp: list_entries_def simp del: map_res_Inr)
qed

lemma listed_sources_total:
  assumes ok: "canonical_ok h st" and R: "rows_readable h e (contents st)"
  shows "\<exists>ss. list_knowledge_sources e i st = Inr ss"
proof -
  let ?ps = "filter (\<lambda>d. text_or_empty (cv_repr (kv_canon e)) d ''knowledge_id'' = i) (list_payloads ''knowledge_sources'' None st)"
  have "\<exists>ss. map_res (source_from_dict e) ?ps = Inr ss"
  proof (rule map_res_total)
    fix d assume "d \<in> set ?ps"
    then have "\<exists>k. contents st k = Some d \<and> fst k = ''knowledge_sources''"
      using set_list_payloads[OF ok, of "''knowledge_sources''"] by simp
    then obtain s where "s \<in> sources_of h e (contents st)" "d = stored (source_to_dict s)" using R unfolding rows_readable_def by blast
    then show "\<exists>y. source_from_dict e d = Inr y" using good_members(2) by (auto simp: good_source_def)
  qed
  then show ?thesis by (auto simp: list_knowledge_sources_def simp del: map_res_Inr)
qed


text \<open>C9: A change swaps knowledge.  A change that commits under a new decision replaces exactly its predecessors by its
  added entries and exactly the sources of the predecessors by the sources made from the references of the added
  entries; each added entry has such a source, all of them belong to the project of the decision, and no row of
  another collection differs.\<close>

theorem change_swaps_knowledge:
  assumes reach: "knowledge_reach h e K st" and K: "apart h K"
    and inp: "change_inputs h e K added predecessors refs"
    and fresh: "find_transaction (strip (''knowledge-change:'' @ kd_id decision)) st = None"
    and r: "apply_current_change h e clock before after decision added predecessors refs st = Inr (res, st')"
  shows "set predecessors \<subseteq> entries_of h e (contents st) \<and>
    entries_of h e (contents st') = set added \<union> (entries_of h e (contents st) - set predecessors) \<and>
    sources_of h e (contents st') = new_sources h e added refs \<union>
      {s \<in> sources_of h e (contents st). \<forall>p\<in>set predecessors. \<not> about s p} \<and>
    (\<forall>x\<in>set added. ke_project_name x = kd_project_name decision \<and> (\<exists>s\<in>new_sources h e added refs. about s x)) \<and>
    (\<forall>k. fst k \<noteq> ''knowledge_entries'' \<and> fst k \<noteq> ''knowledge_sources'' \<longrightarrow> contents st' k = contents st k)"
proof -
  have ok: "canonical_ok h st" and KO: "knowledge_ok h e K (contents st)" using reached_ok[OF reach K] by blast+
  note C = change_swaps[OF ok KO K fresh inp r]
  show ?thesis using C(1,2,4,5,6,8) by blast
qed

text \<open>C10: A deletion removes one entry with its sources.  A deletion of a current entry that commits under a new key
  removes that entry and every source about it, and nothing else; the entries it was to retain are current and
  stay.\<close>

theorem deletion_removes_one_entry:
  assumes reach: "knowledge_reach h e K st" and K: "apart h K"
    and g: "get_entry h e i p st = Inr (Some x)" and retained: "\<forall>y\<in>set retained. good_entry e y" "x \<notin> set retained"
    and fresh: "find_transaction (strip (delete_transaction_key p x i)) st = None"
    and r: "delete_current_entry h e clock p i expected retained st = Inr (res, st')"
  shows "x \<in> entries_of h e (contents st) \<and> map_of res ''deleted'' = Some (JBool True) \<and>
    entries_of h e (contents st') = entries_of h e (contents st) - {x} \<and>
    sources_of h e (contents st') = {s \<in> sources_of h e (contents st). \<not> about s x} \<and>
    set retained \<subseteq> entries_of h e (contents st') \<and>
    (\<forall>k. fst k \<noteq> ''knowledge_entries'' \<and> fst k \<noteq> ''knowledge_sources'' \<longrightarrow> contents st' k = contents st k)"
proof -
  have ok: "canonical_ok h st" and KO: "knowledge_ok h e K (contents st)" using reached_ok[OF reach K] by blast+
  note C = delete_removes[OF ok KO K g fresh retained(1) r]
  obtain ops res0 where "res = AList.update ''knowledge_id'' (JStr i) (AList.update ''deleted'' (JBool True) res0)"
    by (rule delete_parts[OF ok KO g r])
  then have "map_of res ''deleted'' = Some (JBool True)" by (simp add: update_conv')
  then show ?thesis using C retained(2) found_entry(1)[OF ok knowledge_okD(1)[OF KO] g] by blast
qed

section \<open>A small knowledge base\<close>

definition know_digests :: digests where
  "know_digests = \<lparr> sha256_hex = (\<lambda>_. replicate 64 (CHR ''0'')), uuid5_url = (\<lambda>_. ''s1'') \<rparr>"

definition demo_know :: know_env where
  "demo_know = \<lparr> kv_canon = demo_canon,
     kv_datetime = (\<lambda>j. if j = JStr (isoformat 0) then Inr 0 else Inl (ValueError ''time'')),
     kv_fresh_id = ''u'', kv_now = 0, kv_dash = ''-'', kv_urlparse = (\<lambda>_. (''file'', [])), kv_parse_qs = (\<lambda>_. []),
     kv_int_field = (\<lambda>j. case j of JInt i \<Rightarrow> Inr i | _ \<Rightarrow> Inl (ValidationError ''int'')), kv_int_text = (\<lambda>_. Inl (ValueError ''int'')) \<rparr>"

definition demo_entry :: knowledge_entry where
  "demo_entry = \<lparr> ke_id = ''k1'', ke_project_name = ''p'', ke_module_path = [''m''], ke_title = ''t'', ke_statement = ''s'',
     ke_source_report = None, ke_verified_at = None, ke_created_at = 0, ke_updated_at = 0 \<rparr>"

definition demo_refs :: "(string \<times> source_ref list) list" where
  "demo_refs = [(''k1'', [\<lparr> kr_label = ''l'', kr_target = ''a.py'', kr_kind = None, kr_digest = None \<rparr>])]"

definition demo_source :: knowledge_source where
  "demo_source = \<lparr> ks_id = ''s1'', ks_knowledge_id = ''k1'', ks_project_name = ''p'', ks_source_kind = ''repository'',
     ks_locator = ''a.py'', ks_content_sha256 = None, ks_verified_at = 0 \<rparr>"

definition demo_candidate :: knowledge_candidate where
  "demo_candidate = \<lparr> kc_id = ''c'', kc_project_name = ''p'', kc_candidate_type = CandMemory, kc_statement = ''s'',
     kc_source_report = None, kc_status = CandPending, kc_assimilation_disposition = None, kc_assimilation_reason = None,
     kc_assimilation_target_ids = [], kc_assimilation_targets = [], kc_canonical_title = None, kc_topic_path = [],
     kc_created_at = 0, kc_updated_at = 0 \<rparr>"

definition demo_decision :: knowledge_decision where
  "demo_decision = \<lparr> kd_id = ''d'', kd_project_name = ''p'', kd_candidate_id = ''c'', kd_disposition = ToAdd,
     kd_canonical_truth_ids = [''k1''], kd_predecessor_truth_ids = [], kd_predecessor_entries = [], kd_reason = ''r'',
     kd_decided_at = 0 \<rparr>"

definition demo_targets :: "target set" where
  "demo_targets = {entry_target demo_entry, source_target demo_source}"

lemma demo_apart: "apart know_digests demo_targets"
  by (auto simp: apart_def demo_targets_def inj_on_def place_def entry_target_def source_target_def)

definition zeros :: string where "zeros = replicate 64 (CHR ''0'')"

definition epoch :: string where "epoch = ''1970-01-01T00:00:00+00:00''"

definition demo_result :: jdict where
  "demo_result =
     [(''idempotency_key'', JStr ''knowledge-change:d''), (''request_sha256'', JStr zeros), (''mutation_count'', JInt
     2), (''mutations'', JList [JObj [(''operation'', JStr ''upsert''), (''collection'', JStr ''knowledge_entries''),
     (''entity_id'', JStr ''k1''), (''payload_sha256'', JStr zeros)], JObj [(''operation'', JStr ''upsert''),
     (''collection'', JStr ''knowledge_sources''), (''entity_id'', JStr ''s1''), (''payload_sha256'', JStr zeros)]]),
     (''replayed'', JBool False)]"

definition demo_known :: canonical where
  "demo_known =
     \<lparr>ca_rows = [\<lparr>cr_row_key = zeros, cr_table = ''knowledge_entries'', cr_collection =
     ''knowledge_entries'', cr_entity_id = ''k1'', cr_project_id = Some ''p'', cr_corpus_id = ''default'', cr_type =
     ''knowledge_entry'', cr_truth_status = ''confirmed_current'', cr_confidence = None, cr_created_at = Some epoch,
     cr_valid_from = None, cr_valid_to = None, cr_tier = ''hot'', cr_last_accessed_at = None, cr_access_count = 0,
     cr_decay_score = ''0.0'', cr_source_relpath = ''structured/knowledge_entries/k1.json'', cr_payload =
     [(''created_at'', JStr epoch), (''id'', JStr ''k1''), (''module_path'', JList [JStr ''m'']), (''project_name'',
     JStr ''p''), (''statement'', JStr ''s''), (''title'', JStr ''t''), (''updated_at'', JStr epoch),
     (''verified_at'', JNull)], cr_payload_sha256 = zeros, cr_size_bytes = 179, cr_migrated_at = epoch\<rparr>,
     \<lparr>cr_row_key = zeros, cr_table = ''knowledge_sources'', cr_collection = ''knowledge_sources'', cr_entity_id
     = ''s1'', cr_project_id = Some ''p'', cr_corpus_id = ''default'', cr_type = ''knowledge_source'', cr_truth_status
     = ''supporting'', cr_confidence = None, cr_created_at = None, cr_valid_from = None, cr_valid_to = None, cr_tier =
     ''hot'', cr_last_accessed_at = None, cr_access_count = 0, cr_decay_score = ''0.0'', cr_source_relpath =
     ''structured/knowledge_sources/s1.json'', cr_payload = [(''content_sha256'', JNull), (''id'', JStr ''s1''),
     (''knowledge_id'', JStr ''k1''), (''locator'', JStr ''a.py''), (''project_name'', JStr ''p''), (''source_kind'',
     JStr ''repository''), (''verified_at'', JStr epoch)], cr_payload_sha256 = zeros, cr_size_bytes = 158,
     cr_migrated_at = epoch\<rparr>], ca_transactions = [\<lparr>tx_idempotency_key = ''knowledge-change:d'',
     tx_request_sha256 = zeros, tx_result = [(''idempotency_key'', JStr ''knowledge-change:d''), (''mutation_count'',
     JInt 2), (''mutations'', JList [JObj [(''collection'', JStr ''knowledge_entries''), (''entity_id'', JStr ''k1''),
     (''operation'', JStr ''upsert''), (''payload_sha256'', JStr zeros)], JObj [(''collection'', JStr
     ''knowledge_sources''), (''entity_id'', JStr ''s1''), (''operation'', JStr ''upsert''), (''payload_sha256'', JStr
     zeros)]]), (''replayed'', JBool False), (''request_sha256'', JStr zeros)], tx_committed_at =
     epoch\<rparr>]\<rparr>"

lemma demo_change_ok: "apply_current_change know_digests demo_know (\<lambda>_. 0) demo_candidate demo_candidate demo_decision
    [demo_entry] [] demo_refs empty_canonical = Inr (demo_result, demo_known)"
  by code_simp

lemma demo_facts:
  "get_entry know_digests demo_know ''k1'' ''p'' demo_known = Inr (Some demo_entry)"
  "find_transaction (strip (delete_transaction_key ''p'' demo_entry ''k1'')) demo_known = None"
  "is_ok (delete_current_entry know_digests demo_know (\<lambda>_. 0) ''p'' ''k1'' None [] demo_known)"
  by code_simp+

lemma demo_time: "reads_time demo_know 0"
  by (simp add: reads_time_def demo_know_def)

lemma demo_entry_good: "good_entry demo_know demo_entry"
proof -
  have v: "validate_entry demo_know demo_entry = Inr demo_entry" by code_simp
  have "entry_from_dict demo_know (stored (entry_to_dict demo_entry)) = Inr demo_entry"
    by (rule entry_reads_back[OF v]) (simp_all add: demo_entry_def demo_time, simp add: demo_know_def)
  moreover have "strip (ke_id demo_entry) = ke_id demo_entry" by code_simp
  ultimately show ?thesis by (simp add: good_entry_def demo_entry_def)
qed

lemma demo_source_good: "good_source demo_know demo_source"
proof -
  have v: "validate_source demo_source = Inr demo_source" by code_simp
  have "source_from_dict demo_know (stored (source_to_dict demo_source)) = Inr demo_source"
    by (rule source_reads_back[OF v]) (simp add: demo_source_def demo_time)
  moreover have "strip (ks_id demo_source) = ks_id demo_source" by code_simp
  ultimately show ?thesis by (simp add: good_source_def demo_source_def)
qed

lemma demo_sources: "knowledge_sources know_digests demo_know demo_entry (refs_of demo_refs demo_entry) = Inr [demo_source]"
  by code_simp

lemma demo_inputs: "change_inputs know_digests demo_know demo_targets [demo_entry] [] demo_refs"
  by (simp add: change_inputs_def demo_sources demo_entry_good demo_source_good demo_targets_def)

lemma demo_empty: "contents empty_canonical = (\<lambda>_. None)"
  by (simp add: contents_def row_at_def empty_canonical_def fun_eq_iff)

lemma demo_nothing: "entries_of h e (contents empty_canonical) = {}" "sources_of h e (contents empty_canonical) = {}"
  by (simp_all add: entries_of_def sources_of_def rows_of_def demo_empty)

lemma demo_start: "knowledge_reach know_digests demo_know demo_targets empty_canonical"
  by (rule knowledge_reach.start) (simp_all add: empty_canonical_ok elsewhere_def)

lemma demo_reach: "knowledge_reach know_digests demo_know demo_targets demo_known"
proof -
  obtain res where r: "apply_current_change know_digests demo_know (\<lambda>_. 0) demo_candidate demo_candidate demo_decision
    [demo_entry] [] demo_refs empty_canonical = Inr (res, demo_known)" using demo_change_ok by blast
  have f: "fresh_ids know_digests demo_know empty_canonical [demo_entry]" by (simp add: fresh_ids_def demo_nothing)
  show ?thesis by (rule knowledge_reach.change[OF demo_start demo_inputs f r])
qed


theorem change_swaps_knowledge_witness:
  "entries_of know_digests demo_know (contents demo_known) = {demo_entry} \<and>
   (\<exists>s\<in>sources_of know_digests demo_know (contents demo_known). about s demo_entry)"
proof -
  obtain res where r: "apply_current_change know_digests demo_know (\<lambda>_. 0) demo_candidate demo_candidate demo_decision
    [demo_entry] [] demo_refs empty_canonical = Inr (res, demo_known)" using demo_change_ok by blast
  have fresh: "find_transaction (strip (''knowledge-change:'' @ kd_id demo_decision)) empty_canonical = None"
    by (simp add: find_transaction_def empty_canonical_def)
  note C = change_swaps_knowledge[OF demo_start demo_apart demo_inputs fresh r]
  have "entries_of know_digests demo_know (contents demo_known) = {demo_entry}" using C by (simp add: demo_nothing)
  moreover have "\<exists>s\<in>sources_of know_digests demo_know (contents demo_known). about s demo_entry"
    using C unfolding list.set by blast
  ultimately show ?thesis by blast
qed

theorem deletion_removes_one_entry_witness:
  "\<exists>res st'. delete_current_entry know_digests demo_know (\<lambda>_. 0) ''p'' ''k1'' None [] demo_known = Inr (res, st') \<and>
     entries_of know_digests demo_know (contents demo_known) \<noteq> {} \<and> entries_of know_digests demo_know (contents st') =
       entries_of know_digests demo_know (contents demo_known) - {demo_entry}"
proof -
  note g = demo_facts(1) and fresh = demo_facts(2)
  from demo_facts(3) obtain res st' where r: "delete_current_entry know_digests demo_know (\<lambda>_. 0) ''p'' ''k1'' None [] demo_known = Inr (res, st')"
    unfolding is_ok_iff by (metis surj_pair)
  have "\<forall>y\<in>set []. good_entry demo_know y" "demo_entry \<notin> set []" by simp_all
  note C = deletion_removes_one_entry[OF demo_reach demo_apart g this fresh r]
  show ?thesis using C r by blast
qed

end
