(* ===== verification/WorkModels.thy ===== *)
theory WorkModels
  imports KnowledgeSchema
begin

text \<open>
  The work of a job as dictionaries: the conversions of \<^verbatim>\<open>KnowledgeCandidate\<close>, \<^verbatim>\<open>KnowledgeEvidence\<close> and
  \<^verbatim>\<open>AssimilationDecision\<close> in \<^verbatim>\<open>harness_mem/core/schemas/knowledge.py\<close> and of \<^verbatim>\<open>EvidenceRef\<close> in
  \<^verbatim>\<open>evidence.py\<close>.  A value of another JSON type than the writers produce is one validation error.
\<close>

section \<open>Literals\<close>

definition disposition_names :: "(string \<times> disposition) list" where
  "disposition_names = [(''add'', ToAdd), (''refine'', ToRefine), (''confirm'', ToConfirm), (''replace'', ToReplace),
     (''no_write'', ToNoWrite), (''handoff'', ToHandoff), (''defer'', ToDefer), (''conflict'', ToConflict),
     (''reject'', ToReject)]"

definition status_names :: "(string \<times> candidate_status) list" where
  "status_names = [(''pending'', CandPending), (''deferred'', CandDeferred), (''conflict'', CandConflict),
     (''rejected'', CandRejected), (''assimilated'', CandAssimilated)]"

definition type_names :: "(string \<times> candidate_type) list" where
  "type_names = [(''memory'', CandMemory), (''rule'', CandRule), (''relation'', CandRelation)]"

definition evidence_names :: "(string \<times> evidence_kind) list" where
  "evidence_names = [(''repository'', EvRepository), (''user_statement'', EvUserStatement), (''transcript'', EvTranscript),
     (''source_report'', EvSourceReport)]"

definition outcome_names :: "(string \<times> verification_outcome) list" where
  "outcome_names = [(''verified'', Verified), (''unverified'', Unverified), (''contradicted'', Contradicted),
     (''not_applicable'', NotApplicable)]"

fun literal_text :: "(string \<times> 'a) list \<Rightarrow> 'a \<Rightarrow> string" where
  "literal_text [] x = []"
| "literal_text ((s, y) # ns) x = (if x = y then s else literal_text ns x)"

definition literal_field :: "(string \<times> 'a) list \<Rightarrow> jdict \<Rightarrow> string \<Rightarrow> py_error + 'a" where
  "literal_field names d k =
     (case map_of d k of
        Some (JStr s) \<Rightarrow> (case map_of names s of Some x \<Rightarrow> Inr x | None \<Rightarrow> Inl (ValidationError k))
      | _ \<Rightarrow> Inl (ValidationError k))"

definition optional_literal_field :: "(string \<times> 'a) list \<Rightarrow> jdict \<Rightarrow> string \<Rightarrow> py_error + 'a option" where
  "optional_literal_field names d k =
     (case map_of d k of None \<Rightarrow> Inr None | Some JNull \<Rightarrow> Inr None
      | Some _ \<Rightarrow> bind_res (literal_field names d k) (\<lambda>x. Inr (Some x)))"

lemma literal_names:
  "map_of disposition_names (literal_text disposition_names a) = Some a"
  "map_of status_names (literal_text status_names b) = Some b"
  "map_of type_names (literal_text type_names c) = Some c"
  "map_of evidence_names (literal_text evidence_names k) = Some k"
  "map_of outcome_names (literal_text outcome_names v) = Some v"
  subgoal by (cases a) (simp_all add: disposition_names_def)
  subgoal by (cases b) (simp_all add: status_names_def)
  subgoal by (cases c) (simp_all add: type_names_def)
  subgoal by (cases k) (simp_all add: evidence_names_def)
  subgoal by (cases v) (simp_all add: outcome_names_def)
  done

section \<open>Fields with defaults\<close>

definition strings_or_empty :: "jdict \<Rightarrow> string \<Rightarrow> py_error + string list" where
  "strings_or_empty d k = (if map_of d k = None then Inr [] else str_list_field d k)"

definition nonempty_field :: "jdict \<Rightarrow> string \<Rightarrow> py_error + string" where
  "nonempty_field d k = bind_res (str_field d k) (\<lambda>s. if s = [] then Inl (ValidationError k) else Inr s)"

definition dict_item :: "string \<Rightarrow> json \<Rightarrow> py_error + jdict" where
  "dict_item k j = (case j of JObj d \<Rightarrow> Inr d | _ \<Rightarrow> Inl (ValidationError k))"

definition dicts_or_empty :: "jdict \<Rightarrow> string \<Rightarrow> py_error + jdict list" where
  "dicts_or_empty d k =
     (case map_of d k of None \<Rightarrow> Inr [] | Some (JList xs) \<Rightarrow> map_res (dict_item k) xs | _ \<Rightarrow> Inl (ValidationError k))"

definition id_field :: "know_env \<Rightarrow> jdict \<Rightarrow> py_error + string" where
  "id_field e d = (if map_of d ''id'' = None then Inr (kv_fresh_id e) else str_field d ''id'')"

definition bounded_int_field :: "know_env \<Rightarrow> int \<Rightarrow> jdict \<Rightarrow> string \<Rightarrow> py_error + int option" where
  "bounded_int_field e least d k =
     (case map_of d k of None \<Rightarrow> Inr None | Some JNull \<Rightarrow> Inr None
      | Some v \<Rightarrow> bind_res (kv_int_field e v) (\<lambda>i. if i < least then Inl (ValidationError k) else Inr (Some i)))"

definition optional_int :: "int option \<Rightarrow> json" where
  "optional_int i = (case i of Some x \<Rightarrow> JInt x | None \<Rightarrow> JNull)"

section \<open>Candidates\<close>

definition candidate_to_dict :: "knowledge_candidate \<Rightarrow> jdict" where
  "candidate_to_dict c =
     [(''id'', JStr (kc_id c)), (''project_name'', JStr (kc_project_name c)),
      (''candidate_type'', JStr (literal_text type_names (kc_candidate_type c))), (''statement'', JStr (kc_statement c))] @
     (case kc_source_report c of None \<Rightarrow> [] | Some r \<Rightarrow> [(''source_report'', report_to_json r)]) @
     [(''status'', JStr (literal_text status_names (kc_status c))),
      (''assimilation_disposition'',
         optional_text (map_option (literal_text disposition_names) (kc_assimilation_disposition c))),
      (''assimilation_reason'', optional_text (kc_assimilation_reason c)),
      (''assimilation_target_ids'', JList (map JStr (kc_assimilation_target_ids c))),
      (''assimilation_targets'', JList (map JObj (kc_assimilation_targets c))),
      (''canonical_title'', optional_text (kc_canonical_title c)),
      (''topic_path'', JList (map JStr (kc_topic_path c))),
      (''created_at'', JStr (isoformat (kc_created_at c))), (''updated_at'', JStr (isoformat (kc_updated_at c)))]"

definition candidate_fields :: "string list" where
  "candidate_fields = [''id'', ''project_name'', ''candidate_type'', ''statement'', ''source_report'', ''status'',
     ''assimilation_disposition'', ''assimilation_reason'', ''assimilation_target_ids'', ''assimilation_targets'',
     ''canonical_title'', ''topic_path'', ''created_at'', ''updated_at'']"

text \<open>The single target of an older record.\<close>

definition migrate_target :: "know_env \<Rightarrow> jdict \<Rightarrow> jdict" where
  "migrate_target e data =
     (let legacy = strip (text_or_empty (cv_repr (kv_canon e)) data ''assimilation_target_id'');
          d = AList.delete ''assimilation_target_id'' data
      in case map_of d ''assimilation_target_ids'' of
           None \<Rightarrow> AList.update ''assimilation_target_ids'' (JList (if legacy = [] then [] else [JStr legacy])) d
         | Some JNull \<Rightarrow> AList.update ''assimilation_target_ids'' (JList []) d
         | Some _ \<Rightarrow> d)"

definition candidate_from_dict :: "know_env \<Rightarrow> jdict \<Rightarrow> py_error + knowledge_candidate" where
  "candidate_from_dict e data =
     (let d = migrate_target e data in
      bind_res (only_fields candidate_fields d) (\<lambda>_.
      bind_res (id_field e d) (\<lambda>i.
      bind_res (str_field d ''project_name'') (\<lambda>project.
      bind_res (literal_field type_names d ''candidate_type'') (\<lambda>type.
      bind_res (nonempty_field d ''statement'') (\<lambda>statement.
      bind_res (report_from_json e (json_get d ''source_report'')) (\<lambda>report.
      bind_res (if map_of d ''status'' = None then Inr CandPending else literal_field status_names d ''status'') (\<lambda>status.
      bind_res (optional_literal_field disposition_names d ''assimilation_disposition'') (\<lambda>disposition.
      bind_res (optional_str_field d ''assimilation_reason'') (\<lambda>reason.
      bind_res (strings_or_empty d ''assimilation_target_ids'') (\<lambda>target_ids.
      bind_res (dicts_or_empty d ''assimilation_targets'') (\<lambda>targets.
      bind_res (optional_str_field d ''canonical_title'') (\<lambda>title.
      bind_res (strings_or_empty d ''topic_path'') (\<lambda>path.
      bind_res (stamp_field e d ''created_at'') (\<lambda>created.
      bind_res (stamp_field e d ''updated_at'') (\<lambda>updated.
      Inr \<lparr> kc_id = i, kc_project_name = project, kc_candidate_type = type, kc_statement = statement,
        kc_source_report = report, kc_status = status, kc_assimilation_disposition = disposition,
        kc_assimilation_reason = reason, kc_assimilation_target_ids = target_ids, kc_assimilation_targets = targets,
        kc_canonical_title = title, kc_topic_path = path, kc_created_at = created,
        kc_updated_at = updated \<rparr>))))))))))))))))"

section \<open>Evidence\<close>

definition ref_to_dict :: "evidence_ref \<Rightarrow> jdict" where
  "ref_to_dict r =
     [(''kind'', JStr (literal_text evidence_names (er_kind r))), (''locator'', optional_text (er_locator r)),
      (''locator_sha256'', optional_text (er_locator_sha256 r)), (''content_sha256'', optional_text (er_content_sha256 r)),
      (''exchange_index'', optional_int (er_exchange_index r)), (''chunk_index'', optional_int (er_chunk_index r)),
      (''role'', optional_text (er_role r))]"

definition ref_fields :: "string list" where
  "ref_fields = [''kind'', ''locator'', ''locator_sha256'', ''content_sha256'', ''exchange_index'', ''chunk_index'', ''role'']"

definition locator_digest :: "digests \<Rightarrow> evidence_ref \<Rightarrow> evidence_ref" where
  "locator_digest h r =
     (if truthy (er_locator r) \<and> \<not> truthy (er_locator_sha256 r)
      then r\<lparr>er_locator_sha256 := map_option (\<lambda>l. sha256_hex h (utf8_encode l)) (er_locator r)\<rparr> else r)"

definition role_names :: "(string \<times> string) list" where
  "role_names = map (\<lambda>r. (r, r)) [''user'', ''assistant'', ''tool'']"

definition ref_from_json :: "digests \<Rightarrow> know_env \<Rightarrow> json \<Rightarrow> py_error + evidence_ref" where
  "ref_from_json h e j =
     bind_res (dict_item ''verification_refs'' j) (\<lambda>d.
     bind_res (only_fields ref_fields d) (\<lambda>_.
     bind_res (literal_field evidence_names d ''kind'') (\<lambda>kind.
     bind_res (optional_str_field d ''locator'') (\<lambda>locator.
     bind_res (optional_str_field d ''locator_sha256'') (\<lambda>locator_sha.
     bind_res (optional_str_field d ''content_sha256'') (\<lambda>content_sha.
     bind_res (bounded_int_field e 1 d ''exchange_index'') (\<lambda>exchange.
     bind_res (bounded_int_field e 0 d ''chunk_index'') (\<lambda>chunk.
     bind_res (optional_literal_field role_names d ''role'') (\<lambda>role.
     Inr (locator_digest h \<lparr> er_kind = kind, er_locator = locator, er_locator_sha256 = locator_sha,
       er_content_sha256 = content_sha, er_exchange_index = exchange, er_chunk_index = chunk, er_role = role \<rparr>))))))))))"

text \<open>The items of \<^verbatim>\<open>d.get(k) or []\<close>.\<close>

definition items_or_empty :: "jdict \<Rightarrow> string \<Rightarrow> py_error + json list" where
  "items_or_empty d k =
     (case json_get d k of
        JList xs \<Rightarrow> Inr xs
      | j \<Rightarrow> if json_truthy j then Inl (ValidationError k) else Inr [])"

definition evidence_to_dict :: "knowledge_evidence \<Rightarrow> jdict" where
  "evidence_to_dict x =
     [(''id'', JStr (kx_id x)), (''project_name'', JStr (kx_project_name x)), (''candidate_id'', JStr (kx_candidate_id x)),
      (''distill_job_id'', optional_text (kx_distill_job_id x)),
      (''evidence_basis'', JStr (literal_text evidence_names (kx_evidence_basis x))),
      (''verification_outcome'', JStr (literal_text outcome_names (kx_verification_outcome x))),
      (''verification_refs'', JList (map (\<lambda>r. JObj (ref_to_dict r)) (kx_verification_refs x))),
      (''verification_reason_codes'', JList (map JStr (kx_verification_reason_codes x))),
      (''verified_at'', optional_iso (kx_verified_at x)), (''created_at'', JStr (isoformat (kx_created_at x)))]"

definition evidence_fields :: "string list" where
  "evidence_fields = [''id'', ''project_name'', ''candidate_id'', ''distill_job_id'', ''evidence_basis'',
     ''verification_outcome'', ''verification_refs'', ''verification_reason_codes'', ''verified_at'', ''created_at'']"

definition evidence_from_dict :: "digests \<Rightarrow> know_env \<Rightarrow> jdict \<Rightarrow> py_error + knowledge_evidence" where
  "evidence_from_dict h e d =
     bind_res (items_or_empty d ''verification_refs'') (\<lambda>items.
     bind_res (map_res (ref_from_json h e) items) (\<lambda>refs.
     bind_res (only_fields evidence_fields d) (\<lambda>_.
     bind_res (id_field e d) (\<lambda>i.
     bind_res (str_field d ''project_name'') (\<lambda>project.
     bind_res (str_field d ''candidate_id'') (\<lambda>candidate.
     bind_res (optional_str_field d ''distill_job_id'') (\<lambda>job.
     bind_res (literal_field evidence_names d ''evidence_basis'') (\<lambda>basis.
     bind_res (literal_field outcome_names d ''verification_outcome'') (\<lambda>outcome.
     bind_res (strings_or_empty d ''verification_reason_codes'') (\<lambda>codes.
     bind_res (optional_time_field e d ''verified_at'') (\<lambda>verified.
     bind_res (stamp_field e d ''created_at'') (\<lambda>created.
     Inr \<lparr> kx_id = i, kx_project_name = project, kx_candidate_id = candidate, kx_distill_job_id = job,
       kx_evidence_basis = basis, kx_verification_outcome = outcome, kx_verification_refs = refs,
       kx_verification_reason_codes = codes, kx_verified_at = verified, kx_created_at = created \<rparr>))))))))))))"

section \<open>Decisions\<close>

definition decision_to_dict :: "knowledge_decision \<Rightarrow> jdict" where
  "decision_to_dict x =
     [(''id'', JStr (kd_id x)), (''project_name'', JStr (kd_project_name x)), (''candidate_id'', JStr (kd_candidate_id x)),
      (''disposition'', JStr (literal_text disposition_names (kd_disposition x))),
      (''canonical_truth_ids'', JList (map JStr (kd_canonical_truth_ids x))),
      (''predecessor_truth_ids'', JList (map JStr (kd_predecessor_truth_ids x))),
      (''predecessor_entries'', JList (map (\<lambda>p. JObj (entry_to_dict p)) (kd_predecessor_entries x))),
      (''reason'', JStr (kd_reason x)), (''decided_at'', JStr (isoformat (kd_decided_at x)))]"

definition decision_fields :: "string list" where
  "decision_fields = [''id'', ''project_name'', ''candidate_id'', ''disposition'', ''canonical_truth_ids'',
     ''predecessor_truth_ids'', ''predecessor_entries'', ''reason'', ''decided_at'']"

definition decision_from_dict :: "know_env \<Rightarrow> jdict \<Rightarrow> py_error + knowledge_decision" where
  "decision_from_dict e d =
     bind_res (items_or_empty d ''predecessor_entries'') (\<lambda>items.
     bind_res (map_res (\<lambda>j. bind_res (dict_item ''predecessor_entries'' j) (entry_from_dict e)) items) (\<lambda>entries.
     bind_res (only_fields decision_fields d) (\<lambda>_.
     bind_res (id_field e d) (\<lambda>i.
     bind_res (str_field d ''project_name'') (\<lambda>project.
     bind_res (str_field d ''candidate_id'') (\<lambda>candidate.
     bind_res (literal_field disposition_names d ''disposition'') (\<lambda>disposition.
     bind_res (strings_or_empty d ''canonical_truth_ids'') (\<lambda>truths.
     bind_res (strings_or_empty d ''predecessor_truth_ids'') (\<lambda>predecessors.
     bind_res (nonempty_field d ''reason'') (\<lambda>reason.
     bind_res (stamp_field e d ''decided_at'') (\<lambda>decided.
     Inr \<lparr> kd_id = i, kd_project_name = project, kd_candidate_id = candidate, kd_disposition = disposition,
       kd_canonical_truth_ids = truths, kd_predecessor_truth_ids = predecessors, kd_predecessor_entries = entries,
       kd_reason = reason, kd_decided_at = decided \<rparr>)))))))))))"

section \<open>Written work reads back\<close>

lemma literal_back: "map_of d k = Some (JStr (literal_text ns x)) \<Longrightarrow> map_of ns (literal_text ns x) = Some x \<Longrightarrow>
    literal_field ns d k = Inr x"
  by (simp add: literal_field_def)

lemma optional_literal_back:
  "map_of d k = Some (optional_text (map_option (literal_text ns) v)) \<Longrightarrow>
     (\<And>x. v = Some x \<Longrightarrow> map_of ns (literal_text ns x) = Some x) \<Longrightarrow> optional_literal_field ns d k = Inr v"
  by (cases v) (simp_all add: optional_literal_field_def literal_field_def optional_text_def)

lemma optional_str_back: "map_of d k = Some (optional_text v) \<Longrightarrow> optional_str_field d k = Inr v"
  by (cases v) (simp_all add: optional_str_field_def optional_text_def)

lemma strings_back: "map_of d k = Some (JList (map JStr xs)) \<Longrightarrow> strings_or_empty d k = Inr xs"
  by (simp add: strings_or_empty_def str_list_field_def map_res_id str_item_def list_all2_same)

lemma sorted_optional [simp]: "sort_json (optional_text v) = optional_text v" "sort_json (optional_iso t) = optional_iso t"
  "sort_json (optional_int i) = optional_int i"
  by (simp_all add: optional_text_def optional_iso_def optional_int_def split: option.split)

lemma sorted_strings [simp]: "sort_json (JList (map JStr xs)) = JList (map JStr xs)"
  by (simp add: comp_def)

text \<open>A candidate the models accept: nothing in it the writer would change on the way.\<close>

definition valid_candidate :: "know_env \<Rightarrow> knowledge_candidate \<Rightarrow> bool" where
  "valid_candidate e c \<longleftrightarrow> kc_statement c \<noteq> [] \<and>
     (\<forall>r. kc_source_report c = Some r \<longrightarrow> validate_report r = Inr r) \<and>
     (\<forall>d\<in>set (kc_assimilation_targets c). sort_json (JObj d) = JObj d) \<and>
     reads_time e (kc_created_at c) \<and> reads_time e (kc_updated_at c)"

lemma candidate_rebuilt:
  "\<lparr>kc_id = kc_id c, kc_project_name = kc_project_name c, kc_candidate_type = kc_candidate_type c,
     kc_statement = kc_statement c, kc_source_report = kc_source_report c, kc_status = kc_status c,
     kc_assimilation_disposition = kc_assimilation_disposition c, kc_assimilation_reason = kc_assimilation_reason c,
     kc_assimilation_target_ids = kc_assimilation_target_ids c, kc_assimilation_targets = kc_assimilation_targets c,
     kc_canonical_title = kc_canonical_title c, kc_topic_path = kc_topic_path c, kc_created_at = kc_created_at c,
     kc_updated_at = kc_updated_at c\<rparr> = c"
  by simp

lemma candidate_stored:
  "map_of (stored (candidate_to_dict c)) k = map_option sort_json (map_of (candidate_to_dict c) k)"
  "fst ` set (stored (candidate_to_dict c)) \<subseteq> set candidate_fields"
  by (rule map_of_stored) (auto simp: keys_stored candidate_to_dict_def candidate_fields_def split: option.splits)

lemma candidate_reads_back:
  assumes v: "valid_candidate e c" and i: "\<And>i. kv_int_field e (JInt i) = Inr i"
  shows "candidate_from_dict e (stored (candidate_to_dict c)) = Inr c"
proof -
  let ?d = "stored (candidate_to_dict c)"
  note V = v[unfolded valid_candidate_def]
  have m: "map_of ?d ''id'' = Some (JStr (kc_id c))" "map_of ?d ''project_name'' = Some (JStr (kc_project_name c))"
    "map_of ?d ''candidate_type'' = Some (JStr (literal_text type_names (kc_candidate_type c)))"
    "map_of ?d ''statement'' = Some (JStr (kc_statement c))"
    "map_of ?d ''source_report'' = map_option (\<lambda>r. sort_json (report_to_json r)) (kc_source_report c)"
    "map_of ?d ''status'' = Some (JStr (literal_text status_names (kc_status c)))"
    "map_of ?d ''assimilation_disposition'' =
       Some (optional_text (map_option (literal_text disposition_names) (kc_assimilation_disposition c)))"
    "map_of ?d ''assimilation_reason'' = Some (optional_text (kc_assimilation_reason c))"
    "map_of ?d ''assimilation_target_ids'' = Some (JList (map JStr (kc_assimilation_target_ids c)))"
    "map_of ?d ''assimilation_targets'' = Some (JList (map (\<lambda>x. sort_json (JObj x)) (kc_assimilation_targets c)))"
    "map_of ?d ''canonical_title'' = Some (optional_text (kc_canonical_title c))"
    "map_of ?d ''topic_path'' = Some (JList (map JStr (kc_topic_path c)))"
    "map_of ?d ''created_at'' = Some (JStr (isoformat (kc_created_at c)))"
    "map_of ?d ''updated_at'' = Some (JStr (isoformat (kc_updated_at c)))"
    unfolding candidate_stored(1) by (cases "kc_source_report c"; simp add: candidate_to_dict_def comp_def)+
  have absent: "''assimilation_target_id'' \<notin> fst ` set ?d"
  proof
    assume "''assimilation_target_id'' \<in> fst ` set ?d"
    then have "''assimilation_target_id'' \<in> set candidate_fields" using candidate_stored(2) by blast
    then show False by (simp add: candidate_fields_def)
  qed
  then have g: "migrate_target e ?d = ?d" unfolding migrate_target_def Let_def by (simp add: m(9) delete_id)
  have k: "only_fields candidate_fields ?d = Inr ()" using candidate_stored(2) by (simp add: only_fields_def)
  have rep: "report_from_json e (json_get ?d ''source_report'') = Inr (kc_source_report c)"
  proof (cases "kc_source_report c")
    case None
    then show ?thesis using m(5) by (simp add: json_get_def report_from_json_def)
  next
    case (Some r)
    then have "validate_report r = Inr r" using V by blast
    then show ?thesis using Some m(5) report_from_sorted[OF _ i] by (simp add: json_get_def)
  qed
  have disp: "optional_literal_field disposition_names ?d ''assimilation_disposition'' = Inr (kc_assimilation_disposition c)"
    by (rule optional_literal_back[OF m(7)]) (simp add: literal_names)
  have targets: "dicts_or_empty ?d ''assimilation_targets'' = Inr (kc_assimilation_targets c)"
  proof -
    have "sort_json (JObj x) = JObj x" if "x \<in> set (kc_assimilation_targets c)" for x using V that by blast
    then have "map (\<lambda>x. sort_json (JObj x)) (kc_assimilation_targets c) = map JObj (kc_assimilation_targets c)"
      by (intro map_cong) simp_all
    then show ?thesis unfolding dicts_or_empty_def m(10)
      by (simp add: map_res_id dict_item_def list_all2_same del: sort_json.simps)
  qed
  have created: "stamp_field e ?d ''created_at'' = Inr (kc_created_at c)" and
    updated: "stamp_field e ?d ''updated_at'' = Inr (kc_updated_at c)"
    using V by (simp_all add: stamp_field_def m reads_time_def)
  have ident: "id_field e ?d = Inr (kc_id c)" "str_field ?d ''project_name'' = Inr (kc_project_name c)"
    by (simp_all add: id_field_def str_field_def m)
  have stm: "nonempty_field ?d ''statement'' = Inr (kc_statement c)" using V by (simp add: nonempty_field_def str_field_def m)
  have lits: "literal_field type_names ?d ''candidate_type'' = Inr (kc_candidate_type c)"
    "literal_field status_names ?d ''status'' = Inr (kc_status c)"
    by (rule literal_back[OF m(3)], simp add: literal_names) (rule literal_back[OF m(6)], simp add: literal_names)
  show ?thesis
    unfolding candidate_from_dict_def Let_def g k ident stm lits rep disp targets created updated bind_res_simps
      optional_str_back[OF m(8)] optional_str_back[OF m(11)] strings_back[OF m(9)] strings_back[OF m(12)] m(6)
    by simp
qed

definition valid_ref :: "digests \<Rightarrow> evidence_ref \<Rightarrow> bool" where
  "valid_ref h r \<longleftrightarrow> locator_digest h r = r \<and> (\<forall>i. er_exchange_index r = Some i \<longrightarrow> 1 \<le> i) \<and>
     (\<forall>i. er_chunk_index r = Some i \<longrightarrow> 0 \<le> i) \<and> (\<forall>s. er_role r = Some s \<longrightarrow> s \<in> {''user'', ''assistant'', ''tool''})"

definition valid_evidence :: "digests \<Rightarrow> know_env \<Rightarrow> knowledge_evidence \<Rightarrow> bool" where
  "valid_evidence h e x \<longleftrightarrow> (\<forall>r\<in>set (kx_verification_refs x). valid_ref h r) \<and> reads_time e (kx_created_at x) \<and>
     (\<forall>t. kx_verified_at x = Some t \<longrightarrow> reads_time e t)"

lemma bounded_int_back:
  "map_of d k = Some (optional_int v) \<Longrightarrow> (\<And>i. kv_int_field e (JInt i) = Inr i) \<Longrightarrow>
     (\<And>i. v = Some i \<Longrightarrow> least \<le> i) \<Longrightarrow> bounded_int_field e least d k = Inr v"
  by (cases v) (fastforce simp: bounded_int_field_def optional_int_def)+

lemma ref_reads_back:
  assumes v: "valid_ref h r" and i: "\<And>i. kv_int_field e (JInt i) = Inr i"
  shows "ref_from_json h e (sort_json (JObj (ref_to_dict r))) = Inr r"
proof -
  let ?d = "stored (ref_to_dict r)"
  note V = v[unfolded valid_ref_def]
  have d: "sort_json (JObj (ref_to_dict r)) = JObj ?d" by (simp add: stored_def json_dict_def)
  have m: "map_of ?d ''kind'' = Some (JStr (literal_text evidence_names (er_kind r)))"
    "map_of ?d ''locator'' = Some (optional_text (er_locator r))"
    "map_of ?d ''locator_sha256'' = Some (optional_text (er_locator_sha256 r))"
    "map_of ?d ''content_sha256'' = Some (optional_text (er_content_sha256 r))"
    "map_of ?d ''exchange_index'' = Some (optional_int (er_exchange_index r))"
    "map_of ?d ''chunk_index'' = Some (optional_int (er_chunk_index r))"
    "map_of ?d ''role'' = Some (optional_text (er_role r))"
    unfolding map_of_stored by (simp_all add: ref_to_dict_def)
  have k: "only_fields ref_fields ?d = Inr ()" by (simp add: only_fields_def keys_stored ref_to_dict_def ref_fields_def)
  have kind: "literal_field evidence_names ?d ''kind'' = Inr (er_kind r)"
    by (rule literal_back[OF m(1)]) (simp add: literal_names)
  have "bounded_int_field e 1 ?d ''exchange_index'' = Inr (er_exchange_index r)"
    by (rule bounded_int_back[OF m(5) i]) (use V in blast)
  moreover have "bounded_int_field e 0 ?d ''chunk_index'' = Inr (er_chunk_index r)"
    by (rule bounded_int_back[OF m(6) i]) (use V in blast)
  moreover have "optional_literal_field role_names ?d ''role'' = Inr (er_role r)"
    using V m(7) by (cases "er_role r") (auto simp: optional_literal_field_def literal_field_def optional_text_def role_names_def)
  moreover have eta: "\<lparr>er_kind = er_kind r, er_locator = er_locator r, er_locator_sha256 = er_locator_sha256 r,
     er_content_sha256 = er_content_sha256 r, er_exchange_index = er_exchange_index r, er_chunk_index = er_chunk_index r,
     er_role = er_role r\<rparr> = r" by simp
  ultimately show ?thesis using V
    by (simp only: ref_from_json_def d dict_item_def json.case bind_res_simps k kind optional_str_back[OF m(2)]
      optional_str_back[OF m(3)] optional_str_back[OF m(4)] eta)
qed

lemma items_back: "map_of d k = Some (JList xs) \<Longrightarrow> items_or_empty d k = Inr xs"
  by (simp add: items_or_empty_def json_get_def)

lemma map_res_back: "(\<And>x. x \<in> set xs \<Longrightarrow> f (g x) = Inr x) \<Longrightarrow> map_res f (map g xs) = Inr xs"
  unfolding map_res_id by (simp add: list_all2_same)

lemma evidence_reads_back:
  assumes v: "valid_evidence h e x" and i: "\<And>i. kv_int_field e (JInt i) = Inr i"
  shows "evidence_from_dict h e (stored (evidence_to_dict x)) = Inr x"
proof -
  let ?d = "stored (evidence_to_dict x)"
  note V = v[unfolded valid_evidence_def]
  have m: "map_of ?d ''id'' = Some (JStr (kx_id x))" "map_of ?d ''project_name'' = Some (JStr (kx_project_name x))"
    "map_of ?d ''candidate_id'' = Some (JStr (kx_candidate_id x))"
    "map_of ?d ''distill_job_id'' = Some (optional_text (kx_distill_job_id x))"
    "map_of ?d ''evidence_basis'' = Some (JStr (literal_text evidence_names (kx_evidence_basis x)))"
    "map_of ?d ''verification_outcome'' = Some (JStr (literal_text outcome_names (kx_verification_outcome x)))"
    "map_of ?d ''verification_refs'' = Some (JList (map (\<lambda>r. sort_json (JObj (ref_to_dict r))) (kx_verification_refs x)))"
    "map_of ?d ''verification_reason_codes'' = Some (JList (map JStr (kx_verification_reason_codes x)))"
    "map_of ?d ''verified_at'' = Some (optional_iso (kx_verified_at x))"
    "map_of ?d ''created_at'' = Some (JStr (isoformat (kx_created_at x)))"
    unfolding map_of_stored by (simp_all add: evidence_to_dict_def comp_def)
  have k: "only_fields evidence_fields ?d = Inr ()"
    by (simp add: only_fields_def keys_stored evidence_to_dict_def evidence_fields_def)
  have refs: "map_res (ref_from_json h e) (map (\<lambda>r. sort_json (JObj (ref_to_dict r))) (kx_verification_refs x)) =
     Inr (kx_verification_refs x)"
    by (rule map_res_back) (use V ref_reads_back[OF _ i] in blast)
  have ver: "optional_time_field e ?d ''verified_at'' = Inr (kx_verified_at x)"
    by (rule optional_time_back) (use V m(9) in \<open>auto split: option.splits\<close>)
  have created: "stamp_field e ?d ''created_at'' = Inr (kx_created_at x)"
    using V by (simp add: stamp_field_def m reads_time_def)
  have ident: "id_field e ?d = Inr (kx_id x)" "str_field ?d ''project_name'' = Inr (kx_project_name x)"
    "str_field ?d ''candidate_id'' = Inr (kx_candidate_id x)"
    by (simp_all add: id_field_def str_field_def m)
  have lits: "literal_field evidence_names ?d ''evidence_basis'' = Inr (kx_evidence_basis x)"
    "literal_field outcome_names ?d ''verification_outcome'' = Inr (kx_verification_outcome x)"
    by (rule literal_back[OF m(5)], simp add: literal_names) (rule literal_back[OF m(6)], simp add: literal_names)
  show ?thesis
    unfolding evidence_from_dict_def items_back[OF m(7)] bind_res_simps refs k ident lits ver created
      optional_str_back[OF m(4)] strings_back[OF m(8)] by simp
qed

definition valid_decision :: "know_env \<Rightarrow> knowledge_decision \<Rightarrow> bool" where
  "valid_decision e x \<longleftrightarrow> kd_reason x \<noteq> [] \<and> reads_time e (kd_decided_at x) \<and>
     (\<forall>p\<in>set (kd_predecessor_entries x). entry_from_dict e (stored (entry_to_dict p)) = Inr p)"

lemma decision_reads_back:
  assumes v: "valid_decision e x"
  shows "decision_from_dict e (stored (decision_to_dict x)) = Inr x"
proof -
  let ?d = "stored (decision_to_dict x)"
  note V = v[unfolded valid_decision_def]
  have m: "map_of ?d ''id'' = Some (JStr (kd_id x))" "map_of ?d ''project_name'' = Some (JStr (kd_project_name x))"
    "map_of ?d ''candidate_id'' = Some (JStr (kd_candidate_id x))"
    "map_of ?d ''disposition'' = Some (JStr (literal_text disposition_names (kd_disposition x)))"
    "map_of ?d ''canonical_truth_ids'' = Some (JList (map JStr (kd_canonical_truth_ids x)))"
    "map_of ?d ''predecessor_truth_ids'' = Some (JList (map JStr (kd_predecessor_truth_ids x)))"
    "map_of ?d ''predecessor_entries'' = Some (JList (map (\<lambda>p. sort_json (JObj (entry_to_dict p))) (kd_predecessor_entries x)))"
    "map_of ?d ''reason'' = Some (JStr (kd_reason x))" "map_of ?d ''decided_at'' = Some (JStr (isoformat (kd_decided_at x)))"
    unfolding map_of_stored by (simp_all add: decision_to_dict_def comp_def)
  have k: "only_fields decision_fields ?d = Inr ()"
    by (simp add: only_fields_def keys_stored decision_to_dict_def decision_fields_def)
  have one: "bind_res (dict_item ''predecessor_entries'' (sort_json (JObj (entry_to_dict p)))) (entry_from_dict e) = Inr p"
    if "p \<in> set (kd_predecessor_entries x)" for p
  proof -
    have "sort_json (JObj (entry_to_dict p)) = JObj (stored (entry_to_dict p))" by (simp add: stored_def json_dict_def)
    then show ?thesis using V that by (simp add: dict_item_def del: sort_json.simps)
  qed
  have entries: "map_res (\<lambda>j. bind_res (dict_item ''predecessor_entries'' j) (entry_from_dict e))
     (map (\<lambda>p. sort_json (JObj (entry_to_dict p))) (kd_predecessor_entries x)) = Inr (kd_predecessor_entries x)"
    by (rule map_res_back) (rule one)
  have ident: "id_field e ?d = Inr (kd_id x)" "str_field ?d ''project_name'' = Inr (kd_project_name x)"
    "str_field ?d ''candidate_id'' = Inr (kd_candidate_id x)"
    by (simp_all add: id_field_def str_field_def m)
  have disp: "literal_field disposition_names ?d ''disposition'' = Inr (kd_disposition x)"
    by (rule literal_back[OF m(4)]) (simp add: literal_names)
  have rest: "nonempty_field ?d ''reason'' = Inr (kd_reason x)" "stamp_field e ?d ''decided_at'' = Inr (kd_decided_at x)"
    using V by (simp_all add: nonempty_field_def str_field_def stamp_field_def m reads_time_def)
  show ?thesis
    unfolding decision_from_dict_def items_back[OF m(7)] bind_res_simps entries k ident disp rest strings_back[OF m(5)]
      strings_back[OF m(6)] by simp
qed

end
