(* ===== verification/KnowledgeWorkspace.thy ===== *)
theory KnowledgeWorkspace
  imports WorkModels
begin

text \<open>
  The finite-lifetime workspace of knowledge processing:
  \<^verbatim>\<open>harness_mem/storage/knowledge_job_workspace.py\<close> and the methods of
  \<^verbatim>\<open>harness_mem/storage/knowledge_store.py\<close> that hand work over to it.

  A \<open>workspace\<close> is the three directories of JSON records, each record under the digest of its identifiers, with
  the data the file holds (sorted keys).  Only this store writes the files, each by an atomic replacement, so a
  file always decodes; empty directories, which every operation tolerates, are not represented.  Files are removed
  one by one: the cleanups return what they raise together with the files that remain.  \<open>now\<close> is one clock
  reading per written file.
\<close>

section \<open>Files\<close>

record wrapper =
  wr_workspace_id :: string
  wr_updated_at :: time
  wr_data :: jdict

record workspace =
  ws_candidates :: "(string \<times> wrapper) list"
  ws_evidence :: "((string \<times> string) \<times> wrapper) list" \<comment> \<open>by candidate and evidence\<close>
  ws_decisions :: "(string \<times> wrapper) list"

definition empty_workspace :: workspace where
  "empty_workspace = \<lparr> ws_candidates = [], ws_evidence = [], ws_decisions = [] \<rparr>"

definition ws_key :: "digests \<Rightarrow> string \<Rightarrow> string" where
  "ws_key h v = sha256_hex h (utf8_encode v)"

definition evidence_key :: "digests \<Rightarrow> string \<Rightarrow> string \<Rightarrow> string \<times> string" where
  "evidence_key h candidate_id evidence_id = (ws_key h candidate_id, ws_key h evidence_id)"

definition check_wrapper :: "wrapper \<Rightarrow> py_error + wrapper" where
  "check_wrapper w =
     (if strip (wr_workspace_id w) = [] then Inl (ValueError ''invalid knowledge job record'') else Inr w)"

definition read_wrapper :: "'k \<Rightarrow> ('k \<times> wrapper) list \<Rightarrow> py_error + wrapper option" where
  "read_wrapper k files =
     (case map_of files k of None \<Rightarrow> Inr None | Some w \<Rightarrow> bind_res (check_wrapper w) (\<lambda>w. Inr (Some w)))"

definition write_wrapper :: "'k \<Rightarrow> string \<Rightarrow> time \<Rightarrow> jdict \<Rightarrow> ('k \<times> wrapper) list \<Rightarrow> ('k \<times> wrapper) list" where
  "write_wrapper k workspace_id now d files =
     AList.update k \<lparr> wr_workspace_id = workspace_id, wr_updated_at = now, wr_data = stored d \<rparr> files"

text \<open>\<^verbatim>\<open>_list_models\<close>: the records of a directory in the order of their names.\<close>

definition list_models :: "(jdict \<Rightarrow> py_error + 'm) \<Rightarrow> ('k::linorder \<times> wrapper) list \<Rightarrow> py_error + 'm list" where
  "list_models model files =
     map_res (\<lambda>f. bind_res (check_wrapper (snd f)) (\<lambda>w. model (wr_data w))) (sort_key fst files)"

section \<open>Candidates and evidence\<close>

definition get_candidate :: "digests \<Rightarrow> know_env \<Rightarrow> string \<Rightarrow> workspace \<Rightarrow> py_error + knowledge_candidate option" where
  "get_candidate h e candidate_id ws =
     bind_res (read_wrapper (ws_key h candidate_id) (ws_candidates ws)) (\<lambda>w.
     case w of None \<Rightarrow> Inr None | Some w \<Rightarrow> bind_res (candidate_from_dict e (wr_data w)) (\<lambda>c. Inr (Some c)))"

definition list_candidates :: "know_env \<Rightarrow> string \<Rightarrow> workspace \<Rightarrow> py_error + knowledge_candidate list" where
  "list_candidates e project_name ws =
     bind_res (list_models (candidate_from_dict e) (ws_candidates ws)) (\<lambda>cs.
     Inr (filter (\<lambda>c. kc_project_name c = project_name) cs))"

definition evidence_files :: "digests \<Rightarrow> string \<Rightarrow> workspace \<Rightarrow> ((string \<times> string) \<times> wrapper) list" where
  "evidence_files h candidate_id ws = filter (\<lambda>f. fst (fst f) = ws_key h candidate_id) (ws_evidence ws)"

definition list_evidence :: "digests \<Rightarrow> know_env \<Rightarrow> string \<Rightarrow> workspace \<Rightarrow> py_error + knowledge_evidence list" where
  "list_evidence h e candidate_id ws = list_models (evidence_from_dict h e) (evidence_files h candidate_id ws)"

definition workspace_id_for_candidate :: "digests \<Rightarrow> string \<Rightarrow> workspace \<Rightarrow> py_error + string option" where
  "workspace_id_for_candidate h candidate_id ws =
     bind_res (read_wrapper (ws_key h candidate_id) (ws_candidates ws)) (\<lambda>w. Inr (map_option wr_workspace_id w))"

definition workspace_from_evidence :: "digests \<Rightarrow> know_env \<Rightarrow> string \<Rightarrow> workspace \<Rightarrow> py_error + string option" where
  "workspace_from_evidence h e candidate_id ws =
     bind_res (list_evidence h e candidate_id ws) (\<lambda>xs.
     Inr (case filter (\<lambda>x. truthy (kx_distill_job_id x)) xs of [] \<Rightarrow> None | x # _ \<Rightarrow> kx_distill_job_id x))"

definition stripped :: "string option \<Rightarrow> string" where \<comment> \<open>\<^verbatim>\<open>str(v or "").strip()\<close>\<close>
  "stripped v = (case v of None \<Rightarrow> [] | Some s \<Rightarrow> strip s)"

definition candidate_scope :: "digests \<Rightarrow> know_env \<Rightarrow> string \<Rightarrow> string option \<Rightarrow> workspace \<Rightarrow> py_error + string" where
  "candidate_scope h e candidate_id workspace_id ws =
     (if stripped workspace_id \<noteq> [] then Inr (stripped workspace_id)
      else bind_res (workspace_from_evidence h e candidate_id ws) (\<lambda>w.
        Inr (case w of Some s \<Rightarrow> (if s \<noteq> [] then s else ''adhoc:'' @ candidate_id) | None \<Rightarrow> ''adhoc:'' @ candidate_id)))"

definition save_candidate ::
  "digests \<Rightarrow> know_env \<Rightarrow> time \<Rightarrow> string option \<Rightarrow> knowledge_candidate \<Rightarrow> workspace \<Rightarrow> py_error + string \<times> workspace" where
  "save_candidate h e now workspace_id c ws =
     bind_res (get_candidate h e (kc_id c) ws) (\<lambda>previous.
     if (case previous of None \<Rightarrow> False | Some p \<Rightarrow> kc_project_name p \<noteq> kc_project_name c)
     then Inl (ValueError ''knowledge candidate id crosses projects'')
     else bind_res (candidate_scope h e (kc_id c) workspace_id ws) (\<lambda>scope.
       Inr (kc_id c, ws\<lparr>ws_candidates :=
         write_wrapper (ws_key h (kc_id c)) scope now (candidate_to_dict c) (ws_candidates ws)\<rparr>)))"

definition save_evidence ::
  "digests \<Rightarrow> know_env \<Rightarrow> time \<Rightarrow> time \<Rightarrow> knowledge_evidence \<Rightarrow> workspace \<Rightarrow> py_error + string \<times> workspace" where
  "save_evidence h e now now' x ws =
     bind_res (get_candidate h e (kx_candidate_id x) ws) (\<lambda>candidate.
     case candidate of
       None \<Rightarrow> Inl (ValueError ''knowledge evidence requires an existing candidate'')
     | Some c \<Rightarrow>
         if kc_project_name c \<noteq> kx_project_name x
         then Inl (ValueError ''knowledge evidence must share the candidate project'')
         else
           bind_res (if stripped (kx_distill_job_id x) \<noteq> [] then Inr (stripped (kx_distill_job_id x))
               else bind_res (workspace_id_for_candidate h (kx_candidate_id x) ws) (\<lambda>w.
                 Inr (case w of Some s \<Rightarrow> (if s \<noteq> [] then s else ''adhoc:'' @ kx_candidate_id x)
                      | None \<Rightarrow> ''adhoc:'' @ kx_candidate_id x))) (\<lambda>workspace_id.
           bind_res (save_candidate h e now (Some workspace_id) c ws) (\<lambda>(_, ws1).
           Inr (kx_id x, ws1\<lparr>ws_evidence := write_wrapper (evidence_key h (kx_candidate_id x) (kx_id x)) workspace_id now'
             (evidence_to_dict x) (ws_evidence ws1)\<rparr>))))"

section \<open>Unresolved decisions\<close>

definition unresolved_dispositions :: "disposition list" where
  "unresolved_dispositions = [ToDefer, ToConflict]"

definition same_decision :: "jdict \<Rightarrow> jdict \<Rightarrow> bool" where
  "same_decision previous incoming \<longleftrightarrow>
     AList.delete ''decided_at'' previous = AList.delete ''decided_at'' (stored incoming)"

definition save_unresolved_decision ::
  "digests \<Rightarrow> know_env \<Rightarrow> time \<Rightarrow> knowledge_decision \<Rightarrow> workspace \<Rightarrow> py_error + string \<times> workspace" where
  "save_unresolved_decision h e now d ws =
     (if kd_disposition d \<notin> set unresolved_dispositions
      then Inl (ValueError ''only unresolved decisions belong in a job workspace'')
      else bind_res (get_candidate h e (kd_candidate_id d) ws) (\<lambda>candidate.
        case candidate of
          None \<Rightarrow> Inl (ValueError ''assimilation decision requires an existing candidate'')
        | Some c \<Rightarrow>
            if kc_project_name c \<noteq> kd_project_name d
            then Inl (ValueError ''assimilation decision must share the candidate project'')
            else bind_res (workspace_id_for_candidate h (kc_id c) ws) (\<lambda>w.
              let workspace_id = (case w of Some s \<Rightarrow> (if s \<noteq> [] then s else ''adhoc:'' @ kc_id c)
                    | None \<Rightarrow> ''adhoc:'' @ kc_id c)
              in bind_res (read_wrapper (ws_key h (kd_id d)) (ws_decisions ws)) (\<lambda>existing.
                case existing of
                  Some p \<Rightarrow>
                    if \<not> same_decision (wr_data p) (decision_to_dict d)
                    then Inl (ValueError ''assimilation decision id already has different data'')
                    else Inr (kd_id d, ws)
                | None \<Rightarrow> Inr (kd_id d, ws\<lparr>ws_decisions :=
                    write_wrapper (ws_key h (kd_id d)) workspace_id now (decision_to_dict d) (ws_decisions ws)\<rparr>)))))"

definition get_unresolved_decision ::
  "digests \<Rightarrow> know_env \<Rightarrow> string \<Rightarrow> workspace \<Rightarrow> py_error + knowledge_decision option" where
  "get_unresolved_decision h e decision_id ws =
     bind_res (read_wrapper (ws_key h decision_id) (ws_decisions ws)) (\<lambda>w.
     case w of None \<Rightarrow> Inr None | Some w \<Rightarrow> bind_res (decision_from_dict e (wr_data w)) (\<lambda>d. Inr (Some d)))"

definition list_unresolved_decisions :: "know_env \<Rightarrow> workspace \<Rightarrow> py_error + knowledge_decision list" where
  "list_unresolved_decisions e ws = list_models (decision_from_dict e) (ws_decisions ws)"

text \<open>\<^verbatim>\<open>KnowledgeStore.save_decision\<close>: a settled decision is not kept.\<close>

definition save_decision ::
  "digests \<Rightarrow> know_env \<Rightarrow> time \<Rightarrow> knowledge_decision \<Rightarrow> workspace \<Rightarrow> py_error + string \<times> workspace" where
  "save_decision h e now d ws =
     (if kd_disposition d \<in> set unresolved_dispositions then save_unresolved_decision h e now d ws
      else Inr (kd_id d, ws))"

definition list_decisions :: "know_env \<Rightarrow> string \<Rightarrow> workspace \<Rightarrow> py_error + knowledge_decision list" where
  "list_decisions e candidate_id ws =
     bind_res (list_unresolved_decisions e ws) (\<lambda>ds. Inr (filter (\<lambda>d. kd_candidate_id d = candidate_id) ds))"

section \<open>Cleaning up\<close>

definition belongs_to :: "know_env \<Rightarrow> string \<Rightarrow> wrapper \<Rightarrow> bool" where
  "belongs_to e candidate_id w \<longleftrightarrow> text_or_empty (cv_repr (kv_canon e)) (wr_data w) ''candidate_id'' = candidate_id"

fun drop_decisions ::
  "know_env \<Rightarrow> string \<Rightarrow> (string \<times> wrapper) list \<Rightarrow> (py_error + unit) \<times> (string \<times> wrapper) list" where
  "drop_decisions e candidate_id [] = (Inr (), [])"
| "drop_decisions e candidate_id (f # fs) =
     (case check_wrapper (snd f) of
        Inl err \<Rightarrow> (Inl err, f # fs)
      | Inr w \<Rightarrow> (case drop_decisions e candidate_id fs of
          (r, fs') \<Rightarrow> (r, if belongs_to e candidate_id w then fs' else f # fs')))"

definition cleanup_candidate :: "digests \<Rightarrow> know_env \<Rightarrow> string \<Rightarrow> workspace \<Rightarrow> (py_error + unit) \<times> workspace" where
  "cleanup_candidate h e candidate_id ws =
     (let ws1 = ws\<lparr>ws_candidates := AList.delete (ws_key h candidate_id) (ws_candidates ws),
                   ws_evidence := filter (\<lambda>f. fst (fst f) \<noteq> ws_key h candidate_id) (ws_evidence ws)\<rparr>
      in case drop_decisions e candidate_id (ws_decisions ws1) of (r, ds) \<Rightarrow> (r, ws1\<lparr>ws_decisions := ds\<rparr>))"

fun cleanup_candidates :: "digests \<Rightarrow> know_env \<Rightarrow> string list \<Rightarrow> workspace \<Rightarrow> (py_error + unit) \<times> workspace" where
  "cleanup_candidates h e [] ws = (Inr (), ws)"
| "cleanup_candidates h e (i # is) ws =
     (case cleanup_candidate h e i ws of
        (Inl err, ws') \<Rightarrow> (Inl err, ws')
      | (Inr _, ws') \<Rightarrow> cleanup_candidates h e is ws')"

definition settled_ids :: "know_env \<Rightarrow> string \<Rightarrow> (string \<times> wrapper) list \<Rightarrow> py_error + string list" where
  "settled_ids e workspace_id files =
     bind_res (map_res (\<lambda>f. bind_res (check_wrapper (snd f)) (\<lambda>w.
         if wr_workspace_id w \<noteq> workspace_id then Inr []
         else bind_res (candidate_from_dict e (wr_data w)) (\<lambda>c.
           Inr (if kc_status c \<in> {CandAssimilated, CandRejected} then [kc_id c] else [])))) files)
       (\<lambda>iss. Inr (concat iss))"

definition cleanup_all ::
  "digests \<Rightarrow> know_env \<Rightarrow> py_error + string list \<Rightarrow> workspace \<Rightarrow> (py_error + int) \<times> workspace" where
  "cleanup_all h e found ws =
     (case found of
        Inl err \<Rightarrow> (Inl err, ws)
      | Inr is \<Rightarrow> (case cleanup_candidates h e is ws of
          (r, ws') \<Rightarrow> (bind_res r (\<lambda>_. Inr (int (length is))), ws')))"

definition cleanup_workspace :: "digests \<Rightarrow> know_env \<Rightarrow> string \<Rightarrow> workspace \<Rightarrow> (py_error + int) \<times> workspace" where
  "cleanup_workspace h e workspace_id ws = cleanup_all h e (settled_ids e workspace_id (ws_candidates ws)) ws"

definition expired_ids :: "know_env \<Rightarrow> int \<Rightarrow> time \<Rightarrow> (string \<times> wrapper) list \<Rightarrow> py_error + string list" where
  "expired_ids e ttl now files =
     bind_res (map_res (\<lambda>f. bind_res (check_wrapper (snd f)) (\<lambda>w.
         if now - wr_updated_at w > seconds ttl
         then (case map_of (wr_data w) ''id'' of None \<Rightarrow> Inl (KeyError ''id'')
               | Some j \<Rightarrow> Inr [json_str (cv_repr (kv_canon e)) j])
         else Inr [])) files)
       (\<lambda>iss. Inr (concat iss))"

definition prune_expired :: "digests \<Rightarrow> know_env \<Rightarrow> int \<Rightarrow> time \<Rightarrow> workspace \<Rightarrow> (py_error + int) \<times> workspace" where
  "prune_expired h e ttl now ws =
     (if ttl < 0 then (Inl (ValueError ''ttl_seconds must be non-negative''), ws)
      else cleanup_all h e (expired_ids e ttl now (ws_candidates ws)) ws)"

end
