(* ===== verification/WorkspaceFiles.thy ===== *)
theory WorkspaceFiles
  imports KnowledgeWorkspace
begin

text \<open>
  The models the files of a workspace hold.  The locale \<open>model_files\<close> is the interface of one directory: records
  whose data reads back as the model it was written from, each under the key of its model.  Candidates, evidence and
  decisions all are such directories.
\<close>

section \<open>One directory\<close>

definition holds :: "('m \<Rightarrow> bool) \<Rightarrow> ('m \<Rightarrow> 'k) \<Rightarrow> ('m \<Rightarrow> jdict) \<Rightarrow> 'k \<times> wrapper \<Rightarrow> 'm \<Rightarrow> bool" where
  "holds good key dict f m \<longleftrightarrow> good m \<and> fst f = key m \<and> strip (wr_workspace_id (snd f)) \<noteq> [] \<and>
     wr_data (snd f) = stored (dict m)"

definition files_ok :: "('m \<Rightarrow> bool) \<Rightarrow> ('m \<Rightarrow> 'k) \<Rightarrow> ('m \<Rightarrow> jdict) \<Rightarrow> ('k \<times> wrapper) list \<Rightarrow> bool" where
  "files_ok good key dict files \<longleftrightarrow> distinct (map fst files) \<and> (\<forall>f\<in>set files. \<exists>m. holds good key dict f m)"

definition held :: "('m \<Rightarrow> bool) \<Rightarrow> ('m \<Rightarrow> 'k) \<Rightarrow> ('m \<Rightarrow> jdict) \<Rightarrow> ('k \<times> wrapper) list \<Rightarrow> 'm set" where
  "held good key dict files = {m. \<exists>f\<in>set files. holds good key dict f m}"

lemma files_ok_Nil [simp]: "files_ok good key dict []" and held_Nil [simp]: "held good key dict [] = {}"
  by (simp_all add: files_ok_def held_def)

lemma check_held: "holds good key dict f m \<Longrightarrow> check_wrapper (snd f) = Inr (snd f)"
  by (simp add: check_wrapper_def holds_def)

lemma delete_filter: "AList.delete k files = filter (\<lambda>f. fst f \<noteq> k) files"
  by (induction files) auto

lemma files_ok_filter: "files_ok good key dict files \<Longrightarrow> files_ok good key dict (filter P files)"
  by (simp add: files_ok_def distinct_map_filter)

lemma held_filter: "held good key dict (filter P files) = {m. \<exists>f\<in>set files. P f \<and> holds good key dict f m}"
  by (auto simp: held_def)

lemma held_filter_key: "held good key dict (filter (\<lambda>f. P (fst f)) files) = {m \<in> held good key dict files. P (key m)}"
  unfolding held_filter held_def holds_def by force

locale model_files =
  fixes good :: "'m \<Rightarrow> bool"
    and key :: "'m \<Rightarrow> 'k::linorder"
    and dict :: "'m \<Rightarrow> jdict"
    and model :: "jdict \<Rightarrow> py_error + 'm"
  assumes reads_back: "good m \<Longrightarrow> model (stored (dict m)) = Inr m"
begin

lemma model_of_file: "holds good key dict f m \<Longrightarrow> model (wr_data (snd f)) = Inr m"
  by (simp add: holds_def reads_back)

lemma holds_unique: "holds good key dict f m \<Longrightarrow> holds good key dict f n \<Longrightarrow> m = n"
proof -
  assume "holds good key dict f m" "holds good key dict f n"
  then have "model (wr_data (snd f)) = Inr m" "model (wr_data (snd f)) = Inr n" by (auto dest: model_of_file)
  then show "m = n" by simp
qed

lemma listed:
  assumes ok: "files_ok good key dict files"
  shows "\<exists>ms. list_models model files = Inr ms \<and> set ms = held good key dict files"
proof -
  let ?r = "\<lambda>f. bind_res (check_wrapper (snd f)) (\<lambda>w. model (wr_data w))"
  have one: "\<exists>m. holds good key dict f m \<and> ?r f = Inr m" if "f \<in> set files" for f
    using ok that by (fastforce simp: files_ok_def check_held model_of_file)
  have total: "\<exists>ms. map_res ?r fs = Inr ms \<and> set ms = held good key dict fs" if "set fs \<subseteq> set files" for fs
    using that
  proof (induction fs)
    case (Cons f fs)
    obtain m where m: "holds good key dict f m" "?r f = Inr m" using one Cons.prems by fastforce
    obtain ms where "map_res ?r fs = Inr ms" "set ms = held good key dict fs" using Cons by fastforce
    moreover have "held good key dict (f # fs) = insert m (held good key dict fs)"
    proof -
      have "holds good key dict f x \<longleftrightarrow> x = m" for x using m(1) holds_unique[of f] by blast
      then show ?thesis unfolding held_def by auto
    qed
    ultimately show ?case using m(2) by (simp del: map_res_Inr)
  qed simp
  have "held good key dict (sort_key fst files) = held good key dict files" by (simp add: held_def)
  then show ?thesis using total[of "sort_key fst files"] by (simp add: list_models_def del: map_res_Inr)
qed

lemma found:
  assumes ok: "files_ok good key dict files" and f: "map_of files k = Some w"
  shows "\<exists>m\<in>held good key dict files. key m = k \<and> holds good key dict (k, w) m \<and>
    read_wrapper k files = Inr (Some w) \<and> model (wr_data w) = Inr m"
proof -
  have i: "(k, w) \<in> set files" using f by (rule map_of_SomeD)
  then obtain m where m: "holds good key dict (k, w) m" using ok by (auto simp: files_ok_def)
  have "m \<in> held good key dict files" unfolding held_def using i m by blast
  moreover have "key m = k" using m by (simp add: holds_def)
  moreover have "read_wrapper k files = Inr (Some w)" using check_held[OF m] f by (simp add: read_wrapper_def)
  moreover have "model (wr_data w) = Inr m" using model_of_file[OF m] by simp
  ultimately show ?thesis using m by blast
qed

lemma absent:
  assumes "map_of files k = None"
  shows "read_wrapper k files = Inr None" "m \<in> held good key dict files \<Longrightarrow> key m \<noteq> k"
proof -
  show "read_wrapper k files = Inr None" using assms by (simp add: read_wrapper_def)
  show "key m \<noteq> k" if "m \<in> held good key dict files"
    using assms that unfolding map_of_eq_None_iff held_def holds_def by force
qed

lemma same_key:
  assumes ok: "files_ok good key dict files" and m: "m \<in> held good key dict files" and n: "n \<in> held good key dict files"
    and k: "key m = key n"
  shows "m = n"
proof -
  obtain f g where f: "f \<in> set files" "holds good key dict f m" and g: "g \<in> set files" "holds good key dict g n"
    using m n by (auto simp: held_def)
  have "f = g" using ok f g k by (auto simp: files_ok_def holds_def distinct_map inj_on_def)
  then show ?thesis using f(2) g(2) holds_unique by blast
qed

lemma written:
  assumes ok: "files_ok good key dict files" and g: "good m" and s: "strip scope \<noteq> []"
  shows "files_ok good key dict (write_wrapper (key m) scope now (dict m) files)"
    and "held good key dict (write_wrapper (key m) scope now (dict m) files) =
      insert m {n \<in> held good key dict files. key n \<noteq> key m}"
proof -
  let ?w = "\<lparr> wr_workspace_id = scope, wr_updated_at = now, wr_data = stored (dict m) \<rparr>"
  let ?files = "AList.update (key m) ?w files"
  have new: "holds good key dict (key m, ?w) m" using g s by (simp add: holds_def)
  have d: "distinct (map fst files)" using ok by (simp add: files_ok_def)
  have "distinct (map fst ?files)" using d by (simp add: distinct_update)
  moreover have mem: "f \<in> set ?files \<longleftrightarrow> f = (key m, ?w) \<or> f \<in> set files \<and> fst f \<noteq> key m" for f
  proof -
    have "f \<in> set ?files \<longleftrightarrow> map_of ?files (fst f) = Some (snd f)"
      using \<open>distinct (map fst ?files)\<close> by (metis map_of_eq_Some_iff prod.collapse)
    also have "\<dots> \<longleftrightarrow> f = (key m, ?w) \<or> f \<in> set files \<and> fst f \<noteq> key m"
      unfolding update_conv' using d by (cases f) (auto simp: map_of_eq_Some_iff)
    finally show ?thesis .
  qed
  ultimately show "files_ok good key dict (write_wrapper (key m) scope now (dict m) files)"
    using ok new by (auto simp: files_ok_def write_wrapper_def)
  show "held good key dict (write_wrapper (key m) scope now (dict m) files) =
      insert m {n \<in> held good key dict files. key n \<noteq> key m}"
  proof (rule set_eqI)
    fix n
    have one: "holds good key dict (key m, ?w) n \<longleftrightarrow> n = m" using new holds_unique by blast
    have k: "fst f = key n" if "holds good key dict f n" for f using that by (simp add: holds_def)
    have "n \<in> held good key dict ?files \<longleftrightarrow>
        holds good key dict (key m, ?w) n \<or> (\<exists>f\<in>set files. fst f \<noteq> key m \<and> holds good key dict f n)"
      unfolding held_def mem_Collect_eq Bex_def mem by blast
    also have "\<dots> \<longleftrightarrow> n = m \<or> (\<exists>f\<in>set files. holds good key dict f n) \<and> key n \<noteq> key m"
      unfolding one using k by metis
    finally show "n \<in> held good key dict (write_wrapper (key m) scope now (dict m) files) \<longleftrightarrow>
      n \<in> insert m {n \<in> held good key dict files. key n \<noteq> key m}"
      by (simp add: write_wrapper_def held_def)
  qed
qed

end

section \<open>The three directories\<close>

definition reads_ints :: "know_env \<Rightarrow> bool" where
  "reads_ints e \<longleftrightarrow> (\<forall>i. kv_int_field e (JInt i) = Inr i)"

definition named_job :: "knowledge_evidence \<Rightarrow> bool" where
  "named_job x \<longleftrightarrow> (case kx_distill_job_id x of None \<Rightarrow> True | Some s \<Rightarrow> strip s \<noteq> [])"

definition good_candidate :: "know_env \<Rightarrow> knowledge_candidate \<Rightarrow> bool" where
  "good_candidate e c \<longleftrightarrow> valid_candidate e c \<and> reads_ints e"

definition good_evidence :: "digests \<Rightarrow> know_env \<Rightarrow> knowledge_evidence \<Rightarrow> bool" where
  "good_evidence h e x \<longleftrightarrow> valid_evidence h e x \<and> named_job x \<and> reads_ints e"

definition good_decision :: "know_env \<Rightarrow> knowledge_decision \<Rightarrow> bool" where
  "good_decision e d \<longleftrightarrow> valid_decision e d \<and> kd_disposition d \<in> set unresolved_dispositions"

definition candidate_key :: "digests \<Rightarrow> knowledge_candidate \<Rightarrow> string" where
  "candidate_key h c = ws_key h (kc_id c)"

definition work_key :: "digests \<Rightarrow> knowledge_evidence \<Rightarrow> string \<times> string" where
  "work_key h x = evidence_key h (kx_candidate_id x) (kx_id x)"

definition decision_key :: "digests \<Rightarrow> knowledge_decision \<Rightarrow> string" where
  "decision_key h d = ws_key h (kd_id d)"

interpretation candidate_files: model_files "good_candidate e" "candidate_key h" candidate_to_dict "candidate_from_dict e"
  for h e
  by unfold_locales (auto simp: good_candidate_def reads_ints_def intro: candidate_reads_back)

interpretation evidence_files: model_files "good_evidence h e" "work_key h" evidence_to_dict "evidence_from_dict h e"
  for h e
  by unfold_locales (auto simp: good_evidence_def reads_ints_def intro: evidence_reads_back)

interpretation decision_files: model_files "good_decision e" "decision_key h" decision_to_dict "decision_from_dict e"
  for h e
  by unfold_locales (auto simp: good_decision_def intro: decision_reads_back)

end
