(* ===== verification/WorkspaceRuns.thy ===== *)
theory WorkspaceRuns
  imports WorkspaceFiles
begin

text \<open>
  What every operation of the workspace keeps: each evidence and each unresolved decision belongs to a stored
  candidate of its project.  Then the states the operations reach.
\<close>

section \<open>Sound workspaces\<close>

definition candidates_of :: "digests \<Rightarrow> know_env \<Rightarrow> workspace \<Rightarrow> knowledge_candidate set" where
  "candidates_of h e ws = held (good_candidate e) (candidate_key h) candidate_to_dict (ws_candidates ws)"

definition evidence_of :: "digests \<Rightarrow> know_env \<Rightarrow> workspace \<Rightarrow> knowledge_evidence set" where
  "evidence_of h e ws = held (good_evidence h e) (work_key h) evidence_to_dict (ws_evidence ws)"

definition decisions_of :: "digests \<Rightarrow> know_env \<Rightarrow> workspace \<Rightarrow> knowledge_decision set" where
  "decisions_of h e ws = held (good_decision e) (decision_key h) decision_to_dict (ws_decisions ws)"

definition readable :: "digests \<Rightarrow> know_env \<Rightarrow> workspace \<Rightarrow> bool" where
  "readable h e ws \<longleftrightarrow> files_ok (good_candidate e) (candidate_key h) candidate_to_dict (ws_candidates ws) \<and>
     files_ok (good_evidence h e) (work_key h) evidence_to_dict (ws_evidence ws) \<and>
     files_ok (good_decision e) (decision_key h) decision_to_dict (ws_decisions ws)"

definition owned :: "knowledge_candidate set \<Rightarrow> string \<Rightarrow> string \<Rightarrow> bool" where
  "owned C i p \<longleftrightarrow> (\<exists>c\<in>C. kc_id c = i \<and> kc_project_name c = p)"

text \<open>\<open>K\<close> are the candidate ids ever used, whose digests are taken to be apart.\<close>

definition workspace_ok :: "digests \<Rightarrow> know_env \<Rightarrow> string set \<Rightarrow> workspace \<Rightarrow> bool" where
  "workspace_ok h e K ws \<longleftrightarrow> readable h e ws \<and> kc_id ` candidates_of h e ws \<subseteq> K \<and>
     (\<forall>x\<in>evidence_of h e ws. owned (candidates_of h e ws) (kx_candidate_id x) (kx_project_name x)) \<and>
     (\<forall>d\<in>decisions_of h e ws. owned (candidates_of h e ws) (kd_candidate_id d) (kd_project_name d))"

lemma workspace_okD:
  assumes "workspace_ok h e K ws"
  shows "files_ok (good_candidate e) (candidate_key h) candidate_to_dict (ws_candidates ws)"
    and "files_ok (good_evidence h e) (work_key h) evidence_to_dict (ws_evidence ws)"
    and "files_ok (good_decision e) (decision_key h) decision_to_dict (ws_decisions ws)"
    and "\<And>c. c \<in> candidates_of h e ws \<Longrightarrow> kc_id c \<in> K"
    and "\<And>x. x \<in> evidence_of h e ws \<Longrightarrow> owned (candidates_of h e ws) (kx_candidate_id x) (kx_project_name x)"
    and "\<And>d. d \<in> decisions_of h e ws \<Longrightarrow> owned (candidates_of h e ws) (kd_candidate_id d) (kd_project_name d)"
  using assms by (auto simp: workspace_ok_def readable_def)

lemma owned_known:
  assumes "workspace_ok h e K ws" and "owned (candidates_of h e ws) i p"
  shows "i \<in> K"
proof -
  obtain c where c: "c \<in> candidates_of h e ws" "kc_id c = i" using assms(2) unfolding owned_def by blast
  show ?thesis using workspace_okD(4)[OF assms(1) c(1)] c(2) by simp
qed

lemma held_good: "m \<in> held good key dict files \<Longrightarrow> good m"
  by (auto simp: held_def holds_def)

lemma workspace_members:
  "c \<in> candidates_of h e ws \<Longrightarrow> good_candidate e c" "x \<in> evidence_of h e ws \<Longrightarrow> good_evidence h e x"
  "d \<in> decisions_of h e ws \<Longrightarrow> good_decision e d"
  unfolding candidates_of_def evidence_of_def decisions_of_def by (auto dest: held_good)

lemma empty_workspace_ok: "workspace_ok h e K empty_workspace"
  by (simp add: workspace_ok_def readable_def empty_workspace_def candidates_of_def evidence_of_def decisions_of_def)

section \<open>Reading\<close>

lemma found_candidate:
  assumes ok: "workspace_ok h e K ws" and K: "inj_on (ws_key h) K" and i: "i \<in> K"
  obtains c where "c \<in> candidates_of h e ws" "kc_id c = i" "get_candidate h e i ws = Inr (Some c)"
      "\<exists>s. workspace_id_for_candidate h i ws = Inr (Some s) \<and> strip s \<noteq> []"
    | "\<And>c. c \<in> candidates_of h e ws \<Longrightarrow> kc_id c \<noteq> i" "get_candidate h e i ws = Inr None"
      "workspace_id_for_candidate h i ws = Inr None"
proof (cases "map_of (ws_candidates ws) (ws_key h i)")
  case None
  note A = candidate_files.absent[OF None]
  have "kc_id c \<noteq> i" if "c \<in> candidates_of h e ws" for c
    using A(2)[of c e h] that unfolding candidates_of_def candidate_key_def by blast
  then show ?thesis using A(1) that(2) by (simp add: get_candidate_def workspace_id_for_candidate_def)
next
  case (Some w)
  obtain c where c: "c \<in> candidates_of h e ws" "candidate_key h c = ws_key h i" "candidate_from_dict e (wr_data w) = Inr c"
      "read_wrapper (ws_key h i) (ws_candidates ws) = Inr (Some w)"
      "holds (good_candidate e) (candidate_key h) candidate_to_dict (ws_key h i, w) c"
    using candidate_files.found[OF workspace_okD(1)[OF ok] Some] unfolding candidates_of_def by blast
  have "kc_id c = i" using inj_onD[OF K, of "kc_id c" i] c(1,2) workspace_okD(4)[OF ok] i by (simp add: candidate_key_def)
  then show ?thesis using c that(1)[of c] by (simp add: get_candidate_def workspace_id_for_candidate_def holds_def)
qed

lemma one_candidate:
  assumes "workspace_ok h e K ws" "c \<in> candidates_of h e ws" "c' \<in> candidates_of h e ws" "kc_id c = kc_id c'"
  shows "c = c'"
  using candidate_files.same_key[OF workspace_okD(1)[OF assms(1)]] assms(2-4)
  unfolding candidates_of_def by (simp add: candidate_key_def)

lemma listed_evidence:
  assumes ok: "workspace_ok h e K ws" and K: "inj_on (ws_key h) K" and i: "i \<in> K"
  shows "\<exists>xs. list_evidence h e i ws = Inr xs \<and> set xs = {x \<in> evidence_of h e ws. kx_candidate_id x = i}"
proof -
  have f: "files_ok (good_evidence h e) (work_key h) evidence_to_dict (evidence_files h i ws)"
    using files_ok_filter[OF workspace_okD(2)[OF ok]] by (simp add: evidence_files_def)
  have same: "fst (work_key h x) = ws_key h i \<longleftrightarrow> kx_candidate_id x = i" if x: "x \<in> evidence_of h e ws" for x
  proof -
    have "kx_candidate_id x \<in> K" by (rule owned_known[OF ok workspace_okD(5)[OF ok x]])
    then have "ws_key h (kx_candidate_id x) = ws_key h i \<longleftrightarrow> kx_candidate_id x = i" using inj_on_eq_iff[OF K] i by blast
    then show ?thesis by (simp add: work_key_def evidence_key_def)
  qed
  have "held (good_evidence h e) (work_key h) evidence_to_dict (evidence_files h i ws) =
      {x \<in> evidence_of h e ws. fst (work_key h x) = ws_key h i}"
    unfolding evidence_files_def evidence_of_def by (rule held_filter_key)
  also have "\<dots> = {x \<in> evidence_of h e ws. kx_candidate_id x = i}" using same by blast
  finally show ?thesis using evidence_files.listed[OF f] unfolding list_evidence_def by metis
qed

lemma listed_decisions:
  assumes "workspace_ok h e K ws"
  shows "\<exists>ds. list_unresolved_decisions e ws = Inr ds \<and> set ds = decisions_of h e ws"
  using decision_files.listed[OF workspace_okD(3)[OF assms]] unfolding list_unresolved_decisions_def decisions_of_def .

section \<open>Writing\<close>

lemma stripped_strip: "strip (stripped v) = stripped v"
proof (cases v)
  case None
  then show ?thesis by (simp add: stripped_def strip_def lstrip_def)
next
  case (Some s)
  then show ?thesis unfolding stripped_def by (simp only: option.case strip_strip)
qed

lemma strip_starts: "\<not> py_space c \<Longrightarrow> strip (c # s) \<noteq> []"
  by (simp add: strip_def lstrip_def dropWhile_append)

lemma strip_adhoc: "strip (''adhoc:'' @ s) \<noteq> []"
  unfolding append.simps by (rule strip_starts) code_simp

lemma scope_named:
  assumes ok: "workspace_ok h e K ws" and K: "inj_on (ws_key h) K" and i: "i \<in> K"
  shows "\<exists>s. candidate_scope h e i wid ws = Inr s \<and> strip s \<noteq> []"
proof (cases "stripped wid = []")
  case False
  then show ?thesis by (simp add: candidate_scope_def stripped_strip)
next
  case True
  obtain xs where xs: "list_evidence h e i ws = Inr xs" "set xs \<subseteq> evidence_of h e ws"
    using listed_evidence[OF ok K i] by blast
  show ?thesis
  proof (cases "filter (\<lambda>x. truthy (kx_distill_job_id x)) xs")
    case Nil
    then show ?thesis using True xs(1) strip_adhoc[of i] by (simp add: candidate_scope_def workspace_from_evidence_def)
  next
    case (Cons x ys)
    then have "x \<in> set (filter (\<lambda>x. truthy (kx_distill_job_id x)) xs)" by simp
    then have "x \<in> set xs" "truthy (kx_distill_job_id x)" by simp_all
    moreover from this have "named_job x" using workspace_members(2) xs(2) unfolding good_evidence_def by blast
    ultimately obtain s where "kx_distill_job_id x = Some s" "s \<noteq> []" "strip s \<noteq> []"
      by (auto simp: named_job_def truthy_def split: option.splits)
    then show ?thesis using True xs(1) Cons by (simp add: candidate_scope_def workspace_from_evidence_def)
  qed
qed

lemma candidate_saved:
  assumes ok: "workspace_ok h e K ws" and K: "inj_on (ws_key h) K" and c: "good_candidate e c" "kc_id c \<in> K"
    and r: "save_candidate h e now wid c ws = Inr (i, ws')"
  shows "workspace_ok h e K ws'" and "i = kc_id c"
    and "candidates_of h e ws' = insert c {x \<in> candidates_of h e ws. kc_id x \<noteq> kc_id c}"
    and "ws_evidence ws' = ws_evidence ws" "ws_decisions ws' = ws_decisions ws"
    and "x \<in> candidates_of h e ws \<Longrightarrow> kc_id x = kc_id c \<Longrightarrow> kc_project_name x = kc_project_name c"
proof -
  obtain s where s: "candidate_scope h e (kc_id c) wid ws = Inr s" "strip s \<noteq> []"
    using scope_named[OF ok K c(2)] by blast
  obtain p where p: "get_candidate h e (kc_id c) ws = Inr p" "\<And>x. p = Some x \<Longrightarrow> kc_project_name x = kc_project_name c"
    using r by (auto simp: save_candidate_def bind_res_Inr split: if_splits option.splits)
  have res: "i = kc_id c \<and> ws' = ws\<lparr>ws_candidates := write_wrapper (candidate_key h c) s now (candidate_to_dict c) (ws_candidates ws)\<rparr>"
    using r p s(1) by (auto simp: save_candidate_def candidate_key_def split: if_splits option.splits)
  show i: "i = kc_id c" and e: "ws_evidence ws' = ws_evidence ws" and d: "ws_decisions ws' = ws_decisions ws"
    using res by simp_all
  have f: "ws_candidates ws' = write_wrapper (candidate_key h c) s now (candidate_to_dict c) (ws_candidates ws)"
    using res by simp
  note W = candidate_files.written[OF workspace_okD(1)[OF ok] c(1) s(2), of now]
  have inj: "candidate_key h x = candidate_key h c \<longleftrightarrow> kc_id x = kc_id c" if "x \<in> candidates_of h e ws" for x
    using inj_onD[OF K] c(2) workspace_okD(4)[OF ok that] by (auto simp: candidate_key_def)
  show cs: "candidates_of h e ws' = insert c {x \<in> candidates_of h e ws. kc_id x \<noteq> kc_id c}"
    using W(2) inj unfolding candidates_of_def f by blast
  show same: "kc_project_name x = kc_project_name c" if "x \<in> candidates_of h e ws" "kc_id x = kc_id c" for x
    using found_candidate[OF ok K c(2)]
  proof cases
    case (1 y)
    then have "x = y" using one_candidate[OF ok] that by simp
    then show ?thesis using 1(3) p by auto
  next
    case 2
    then show ?thesis using that by blast
  qed
  have own: "owned (candidates_of h e ws') j q" if o: "owned (candidates_of h e ws) j q" for j q
  proof -
    obtain x where x: "x \<in> candidates_of h e ws" "kc_id x = j" "kc_project_name x = q" using o unfolding owned_def by blast
    show ?thesis
    proof (cases "kc_id x = kc_id c")
      case True
      then show ?thesis using same[OF x(1) True] x(2,3) unfolding owned_def cs by (intro bexI[of _ c]) simp_all
    next
      case False
      then show ?thesis using x unfolding owned_def cs by (intro bexI[of _ x]) simp_all
    qed
  qed
  have "readable h e ws'" using ok W(1) by (simp add: workspace_ok_def readable_def e d f)
  moreover have "kc_id ` candidates_of h e ws' \<subseteq> K" unfolding cs using workspace_okD(4)[OF ok] c(2) by blast
  moreover have "evidence_of h e ws' = evidence_of h e ws" "decisions_of h e ws' = decisions_of h e ws"
    by (simp_all add: evidence_of_def decisions_of_def e d)
  ultimately show "workspace_ok h e K ws'" using own workspace_okD(5,6)[OF ok] by (simp add: workspace_ok_def)
qed

lemma evidence_saved:
  assumes ok: "workspace_ok h e K ws" and K: "inj_on (ws_key h) K" and x: "good_evidence h e x" "kx_candidate_id x \<in> K"
    and r: "save_evidence h e now now' x ws = Inr (i, ws')"
  shows "workspace_ok h e K ws'" and "i = kx_id x" and "candidates_of h e ws' = candidates_of h e ws"
    and "evidence_of h e ws' = insert x {y \<in> evidence_of h e ws. work_key h y \<noteq> work_key h x}"
    and "ws_decisions ws' = ws_decisions ws"
proof -
  obtain c where c: "c \<in> candidates_of h e ws" "kc_id c = kx_candidate_id x" "kc_project_name c = kx_project_name x"
      "get_candidate h e (kx_candidate_id x) ws = Inr (Some c)"
      "\<exists>s. workspace_id_for_candidate h (kx_candidate_id x) ws = Inr (Some s) \<and> strip s \<noteq> []"
    using found_candidate[OF ok K x(2)]
  proof cases
    case (1 c)
    then show ?thesis using r that[of c] by (auto simp: save_evidence_def split: if_splits)
  next
    case 2
    then show ?thesis using r by (simp add: save_evidence_def)
  qed
  obtain t where t: "workspace_id_for_candidate h (kx_candidate_id x) ws = Inr (Some t)" "strip t \<noteq> []" using c(5) by blast
  have "t \<noteq> []" using t(2) by (auto simp: strip_def lstrip_def)
  define s where "s = (if stripped (kx_distill_job_id x) \<noteq> [] then stripped (kx_distill_job_id x) else t)"
  have s: "strip s \<noteq> []" using t(2) by (simp add: s_def stripped_strip)
  have "save_evidence h e now now' x ws = bind_res (save_candidate h e now (Some s) c ws) (\<lambda>(_, ws1).
      Inr (kx_id x, ws1\<lparr>ws_evidence := write_wrapper (work_key h x) s now' (evidence_to_dict x) (ws_evidence ws1)\<rparr>))"
    using c(3,4) t(1) \<open>t \<noteq> []\<close> by (simp add: save_evidence_def s_def work_key_def)
  then obtain j ws1 where w: "save_candidate h e now (Some s) c ws = Inr (j, ws1)" "i = kx_id x"
      "ws' = ws1\<lparr>ws_evidence := write_wrapper (work_key h x) s now' (evidence_to_dict x) (ws_evidence ws1)\<rparr>"
    using r by (cases "save_candidate h e now (Some s) c ws") auto
  have gc: "good_candidate e c" "kc_id c \<in> K" using workspace_members(1)[OF c(1)] c(2) x(2) by simp_all
  note S = candidate_saved[OF ok K gc w(1)]
  have cs: "candidates_of h e ws1 = candidates_of h e ws"
    unfolding S(3) using c(1) one_candidate[OF ok _ c(1)] by blast
  have f: "ws_evidence ws' = write_wrapper (work_key h x) s now' (evidence_to_dict x) (ws_evidence ws)"
    and d: "ws_decisions ws' = ws_decisions ws" and cf: "ws_candidates ws' = ws_candidates ws1"
    using w(3) S(4,5) by simp_all
  note W = evidence_files.written[OF workspace_okD(2)[OF ok] x(1) s, of now']
  show "i = kx_id x" "ws_decisions ws' = ws_decisions ws" by (fact w(2), fact d)
  show cs': "candidates_of h e ws' = candidates_of h e ws" using cs by (simp add: candidates_of_def cf)
  show ev: "evidence_of h e ws' = insert x {y \<in> evidence_of h e ws. work_key h y \<noteq> work_key h x}"
    using W(2) by (simp add: evidence_of_def f)
  have "readable h e ws'" using S(1) W(1) workspace_okD(3)[OF ok] by (simp add: workspace_ok_def readable_def cf f d)
  moreover have "decisions_of h e ws' = decisions_of h e ws" by (simp add: decisions_of_def d)
  moreover have "owned (candidates_of h e ws) (kx_candidate_id x) (kx_project_name x)" using c(1-3) unfolding owned_def by blast
  ultimately show "workspace_ok h e K ws'"
    using workspace_okD(4-6)[OF ok] unfolding workspace_ok_def cs' ev by blast
qed

lemma decision_saved:
  assumes ok: "workspace_ok h e K ws" and K: "inj_on (ws_key h) K" and d: "valid_decision e d" "kd_candidate_id d \<in> K"
    and r: "save_decision h e now d ws = Inr (i, ws')"
  shows "workspace_ok h e K ws'" and "i = kd_id d" and "ws_candidates ws' = ws_candidates ws" "ws_evidence ws' = ws_evidence ws"
    and "decisions_of h e ws \<subseteq> decisions_of h e ws'" "decisions_of h e ws' \<subseteq> insert d (decisions_of h e ws)"
proof -
  have "workspace_ok h e K ws' \<and> i = kd_id d \<and> ws_candidates ws' = ws_candidates ws \<and> ws_evidence ws' = ws_evidence ws \<and>
    decisions_of h e ws \<subseteq> decisions_of h e ws' \<and> decisions_of h e ws' \<subseteq> insert d (decisions_of h e ws)"
  proof (cases "i = kd_id d \<and> ws' = ws")
    case True
    then show ?thesis using ok by blast
  next
    case False
    have u: "kd_disposition d \<in> set unresolved_dispositions" using r False by (auto simp: save_decision_def split: if_splits)
    then have r': "save_unresolved_decision h e now d ws = Inr (i, ws')" using r by (simp add: save_decision_def)
    obtain c where c: "c \<in> candidates_of h e ws" "kc_id c = kd_candidate_id d" "kc_project_name c = kd_project_name d"
        "get_candidate h e (kd_candidate_id d) ws = Inr (Some c)"
        "\<exists>s. workspace_id_for_candidate h (kd_candidate_id d) ws = Inr (Some s) \<and> strip s \<noteq> []"
      using found_candidate[OF ok K d(2)]
    proof cases
      case (1 c)
      then show ?thesis using r' that[of c] by (auto simp: save_unresolved_decision_def split: if_splits)
    next
      case 2
      then show ?thesis using r' by (simp add: save_unresolved_decision_def split: if_splits)
    qed
    obtain t where t: "workspace_id_for_candidate h (kd_candidate_id d) ws = Inr (Some t)" "strip t \<noteq> []" using c(5) by blast
    have "t \<noteq> []" using t(2) by (auto simp: strip_def lstrip_def)
    obtain p where p: "read_wrapper (decision_key h d) (ws_decisions ws) = Inr p"
      using r' u c(2-4) t(1) by (auto simp: save_unresolved_decision_def decision_key_def bind_res_Inr)
    have step: "(case p of
          Some q \<Rightarrow> if \<not> same_decision (wr_data q) (decision_to_dict d)
            then Inl (ValueError ''assimilation decision id already has different data'') else Inr (kd_id d, ws)
        | None \<Rightarrow> Inr (kd_id d, ws\<lparr>ws_decisions := write_wrapper (decision_key h d) t now (decision_to_dict d) (ws_decisions ws)\<rparr>))
        = Inr (i, ws')"
      using r' u c(2-4) t(1) p \<open>t \<noteq> []\<close> by (cases p) (auto simp: save_unresolved_decision_def decision_key_def)
    have "p = None"
    proof (cases p)
      case (Some q)
      then have "i = kd_id d \<and> ws' = ws" using step by (simp split: if_splits)
      then show ?thesis using False by simp
    qed
    then have "i = kd_id d" and none: "read_wrapper (decision_key h d) (ws_decisions ws) = Inr None"
      and w: "ws' = ws\<lparr>ws_decisions := write_wrapper (decision_key h d) t now (decision_to_dict d) (ws_decisions ws)\<rparr>"
      using step p by simp_all
    have gd: "good_decision e d" using d(1) u by (simp add: good_decision_def)
    note W = decision_files.written[OF workspace_okD(3)[OF ok] gd t(2), of now]
    have "map_of (ws_decisions ws) (decision_key h d) = None"
      using none by (auto simp: read_wrapper_def bind_res_Inr split: option.splits)
    then have new: "decision_key h n \<noteq> decision_key h d" if "n \<in> decisions_of h e ws" for n
      using decision_files.absent(2) that unfolding decisions_of_def by blast
    then have ds: "decisions_of h e ws' = insert d (decisions_of h e ws)"
      using W(2) unfolding decisions_of_def w by auto
    have "readable h e ws'" using ok W(1) by (simp add: workspace_ok_def readable_def w)
    moreover have "candidates_of h e ws' = candidates_of h e ws" "evidence_of h e ws' = evidence_of h e ws"
      by (simp_all add: candidates_of_def evidence_of_def w)
    moreover have "owned (candidates_of h e ws) (kd_candidate_id d) (kd_project_name d)" using c(1-3) unfolding owned_def by blast
    ultimately have "workspace_ok h e K ws'" using workspace_okD(4-6)[OF ok] unfolding workspace_ok_def ds by auto
    then show ?thesis using \<open>i = kd_id d\<close> ds w by auto
  qed
  then show "workspace_ok h e K ws'" and "i = kd_id d" and "ws_candidates ws' = ws_candidates ws" "ws_evidence ws' = ws_evidence ws"
    and "decisions_of h e ws \<subseteq> decisions_of h e ws'" "decisions_of h e ws' \<subseteq> insert d (decisions_of h e ws)" by blast+
qed

section \<open>Removing\<close>

lemma drop_readable:
  "(\<And>f. f \<in> set fs \<Longrightarrow> check_wrapper (snd f) = Inr (snd f)) \<Longrightarrow>
     drop_decisions e i fs = (Inr (), filter (\<lambda>f. \<not> belongs_to e i (snd f)) fs)"
  by (induction fs) simp_all

lemma belongs_held:
  assumes "holds (good_decision e) (decision_key h) decision_to_dict f d"
  shows "belongs_to e i (snd f) \<longleftrightarrow> kd_candidate_id d = i"
proof -
  have "wr_data (snd f) = stored (decision_to_dict d)" using assms by (simp add: holds_def)
  then have "map_of (wr_data (snd f)) ''candidate_id'' = Some (JStr (kd_candidate_id d))"
    by (simp add: map_of_stored decision_to_dict_def)
  then show ?thesis by (simp add: belongs_to_def text_or_empty_def json_get_def)
qed

definition without :: "digests \<Rightarrow> know_env \<Rightarrow> string set \<Rightarrow> workspace \<Rightarrow> workspace \<Rightarrow> bool" where
  "without h e I ws ws' \<longleftrightarrow> candidates_of h e ws' = {c \<in> candidates_of h e ws. kc_id c \<notin> I} \<and>
     evidence_of h e ws' = {x \<in> evidence_of h e ws. kx_candidate_id x \<notin> I} \<and>
     decisions_of h e ws' = {d \<in> decisions_of h e ws. kd_candidate_id d \<notin> I}"

lemma candidate_removed:
  assumes ok: "workspace_ok h e K ws" and K: "inj_on (ws_key h) K" and i: "i \<in> K"
  obtains ws' where "cleanup_candidate h e i ws = (Inr (), ws')" "workspace_ok h e K ws'" "without h e {i} ws ws'"
proof -
  let ?k = "ws_key h i"
  let ?ws = "ws\<lparr>ws_candidates := filter (\<lambda>f. fst f \<noteq> ?k) (ws_candidates ws),
       ws_evidence := filter (\<lambda>f. fst (fst f) \<noteq> ?k) (ws_evidence ws),
       ws_decisions := filter (\<lambda>f. \<not> belongs_to e i (snd f)) (ws_decisions ws)\<rparr>"
  have F: "\<exists>d. holds (good_decision e) (decision_key h) decision_to_dict f d" if "f \<in> set (ws_decisions ws)" for f
    using workspace_okD(3)[OF ok] that by (auto simp: files_ok_def)
  have "drop_decisions e i (ws_decisions ws) = (Inr (), filter (\<lambda>f. \<not> belongs_to e i (snd f)) (ws_decisions ws))"
    by (rule drop_readable) (use F check_held in fast)
  then have r: "cleanup_candidate h e i ws = (Inr (), ?ws)" by (simp add: cleanup_candidate_def delete_filter)
  have key: "ws_key h j = ?k \<longleftrightarrow> j = i" if "j \<in> K" for j using inj_on_eq_iff[OF K that i] .
  have "candidates_of h e ?ws = {c \<in> candidates_of h e ws. candidate_key h c \<noteq> ?k}"
    unfolding candidates_of_def using held_filter_key[of _ _ _ "\<lambda>k. k \<noteq> ?k"] by simp
  then have c: "candidates_of h e ?ws = {c \<in> candidates_of h e ws. kc_id c \<notin> {i}}"
    using key workspace_okD(4)[OF ok] by (auto simp: candidate_key_def)
  have "evidence_of h e ?ws = {x \<in> evidence_of h e ws. fst (work_key h x) \<noteq> ?k}"
    unfolding evidence_of_def using held_filter_key[of _ _ _ "\<lambda>k. fst k \<noteq> ?k"] by simp
  then have x: "evidence_of h e ?ws = {x \<in> evidence_of h e ws. kx_candidate_id x \<notin> {i}}"
    using key owned_known[OF ok workspace_okD(5)[OF ok]] by (auto simp: work_key_def evidence_key_def)
  have d: "decisions_of h e ?ws = {d \<in> decisions_of h e ws. kd_candidate_id d \<notin> {i}}"
    unfolding decisions_of_def using belongs_held by (fastforce simp: held_def)
  have own: "owned (candidates_of h e ?ws) j p" if "owned (candidates_of h e ws) j p" "j \<noteq> i" for j p
    using that unfolding owned_def c by auto
  have "readable h e ?ws" using workspace_okD(1-3)[OF ok] by (simp add: readable_def files_ok_filter)
  moreover have "kc_id ` candidates_of h e ?ws \<subseteq> K" unfolding c using workspace_okD(4)[OF ok] by blast
  moreover have "\<forall>y\<in>evidence_of h e ?ws. owned (candidates_of h e ?ws) (kx_candidate_id y) (kx_project_name y)"
    unfolding x using own workspace_okD(5)[OF ok] by auto
  moreover have "\<forall>y\<in>decisions_of h e ?ws. owned (candidates_of h e ?ws) (kd_candidate_id y) (kd_project_name y)"
    unfolding d using own workspace_okD(6)[OF ok] by auto
  ultimately have "workspace_ok h e K ?ws" by (simp add: workspace_ok_def)
  then show ?thesis using that r c x d by (simp add: without_def)
qed

lemma candidates_removed:
  assumes ok: "workspace_ok h e K ws" and K: "inj_on (ws_key h) K" and "set ids \<subseteq> K"
  shows "\<exists>ws'. cleanup_candidates h e ids ws = (Inr (), ws') \<and> workspace_ok h e K ws' \<and> without h e (set ids) ws ws'"
  using ok assms(3)
proof (induction ids arbitrary: ws)
  case Nil
  then show ?case by (simp add: without_def)
next
  case (Cons i ids)
  obtain ws1 where 1: "cleanup_candidate h e i ws = (Inr (), ws1)" "workspace_ok h e K ws1" "without h e {i} ws ws1"
    by (rule candidate_removed[OF Cons.prems(1) K, of i]) (use Cons.prems(2) in simp_all)
  obtain ws2 where 2: "cleanup_candidates h e ids ws1 = (Inr (), ws2)" "workspace_ok h e K ws2" "without h e (set ids) ws1 ws2"
    using Cons.IH[OF 1(2)] Cons.prems(2) by auto
  have "without h e (set (i # ids)) ws ws2" using 1(3) 2(3) by (auto simp: without_def)
  then show ?case using 1(1) 2(1,2) by simp
qed

text \<open>Which candidates a cleanup selects.\<close>

lemma picked:
  assumes "distinct (map fst files)"
    and "\<And>f. f \<in> set files \<Longrightarrow> \<exists>c. holds (good_candidate e) (candidate_key h) candidate_to_dict f c \<and>
      g f = Inr (if P f c then [kc_id c] else [])"
  shows "\<exists>ids. bind_res (map_res g files) (\<lambda>iss. Inr (concat iss)) = Inr ids \<and> distinct ids \<and>
    set ids = {kc_id c |c. \<exists>f\<in>set files. holds (good_candidate e) (candidate_key h) candidate_to_dict f c \<and> P f c}"
  using assms
proof (induction files)
  case (Cons f files)
  let ?holds = "holds (good_candidate e) (candidate_key h) candidate_to_dict"
  obtain c where c: "?holds f c" "g f = Inr (if P f c then [kc_id c] else [])" using Cons.prems(2)[of f] by auto
  obtain ids where ids: "bind_res (map_res g files) (\<lambda>iss. Inr (concat iss)) = Inr ids" "distinct ids"
    "set ids = {kc_id c |c. \<exists>f\<in>set files. ?holds f c \<and> P f c}"
    using Cons by auto
  then obtain iss where iss: "map_res g files = Inr iss" "concat iss = ids" by (cases "map_res g files") auto
  have uniq: "c' = c" if "?holds f c'" for c' using candidate_files.holds_unique[OF that c(1)] .
  have new: "kc_id c \<notin> set ids"
  proof
    assume "kc_id c \<in> set ids"
    then obtain c' f' where f': "f' \<in> set files" "?holds f' c'" "kc_id c' = kc_id c" unfolding ids(3) by auto
    have "fst f = fst f'" using c(1) f'(2,3) by (simp add: holds_def candidate_key_def)
    then show False using Cons.prems(1) f'(1) by (auto simp: rev_image_eqI)
  qed
  show ?case
  proof (intro exI[of _ "(if P f c then [kc_id c] else []) @ ids"] conjI)
    show "bind_res (map_res g (f # files)) (\<lambda>iss. Inr (concat iss)) = Inr ((if P f c then [kc_id c] else []) @ ids)"
      using c(2) iss by (simp del: map_res_Inr)
    show "distinct ((if P f c then [kc_id c] else []) @ ids)" using ids(2) new by simp
    show "set ((if P f c then [kc_id c] else []) @ ids) = {kc_id c |c. \<exists>f\<in>set (f # files). ?holds f c \<and> P f c}"
    proof -
      have "?holds f x \<longleftrightarrow> x = c" for x using c(1) uniq by blast
      then have "{kc_id c |c. \<exists>f\<in>set (f # files). ?holds f c \<and> P f c} = {kc_id x |x. x = c \<and> P f x} \<union> set ids"
        unfolding ids(3) list.set by blast
      then show ?thesis by simp
    qed
  qed
qed simp

definition terminal :: "knowledge_candidate \<Rightarrow> bool" where
  "terminal c \<longleftrightarrow> kc_status c \<in> {CandAssimilated, CandRejected}"

definition stored_in :: "digests \<Rightarrow> know_env \<Rightarrow> (wrapper \<Rightarrow> bool) \<Rightarrow> workspace \<Rightarrow> knowledge_candidate set" where
  "stored_in h e P ws = {c. \<exists>f\<in>set (ws_candidates ws).
     holds (good_candidate e) (candidate_key h) candidate_to_dict f c \<and> P (snd f)}"

lemma settled_found:
  assumes ok: "workspace_ok h e K ws"
  shows "\<exists>ids. settled_ids e w (ws_candidates ws) = Inr ids \<and> distinct ids \<and>
    set ids = {kc_id c |c. c \<in> stored_in h e (\<lambda>f. wr_workspace_id f = w) ws \<and> terminal c}"
proof -
  note D = workspace_okD(1)[OF ok, unfolded files_ok_def]
  let ?g = "\<lambda>f. bind_res (check_wrapper (snd f)) (\<lambda>v. if wr_workspace_id v \<noteq> w then Inr []
      else bind_res (candidate_from_dict e (wr_data v)) (\<lambda>c.
        Inr (if kc_status c \<in> {CandAssimilated, CandRejected} then [kc_id c] else [])))"
  have one: "\<exists>c. holds (good_candidate e) (candidate_key h) candidate_to_dict f c \<and>
      ?g f = Inr (if wr_workspace_id (snd f) = w \<and> terminal c then [kc_id c] else [])"
    if "f \<in> set (ws_candidates ws)" for f
  proof -
    obtain c where c: "holds (good_candidate e) (candidate_key h) candidate_to_dict f c" using D \<open>f \<in> _\<close> by blast
    then show ?thesis using check_held[OF c] candidate_files.model_of_file[OF c] by (intro exI[of _ c]) (simp add: terminal_def)
  qed
  have "\<exists>ids. bind_res (map_res ?g (ws_candidates ws)) (\<lambda>iss. Inr (concat iss)) = Inr ids \<and> distinct ids \<and>
    set ids = {kc_id c |c. \<exists>f\<in>set (ws_candidates ws). holds (good_candidate e) (candidate_key h) candidate_to_dict f c \<and>
      (wr_workspace_id (snd f) = w \<and> terminal c)}"
    by (rule picked) (use D one in simp_all)
  moreover have "{kc_id c |c. \<exists>f\<in>set (ws_candidates ws). holds (good_candidate e) (candidate_key h) candidate_to_dict f c \<and>
      (wr_workspace_id (snd f) = w \<and> terminal c)} =
    {kc_id c |c. c \<in> stored_in h e (\<lambda>f. wr_workspace_id f = w) ws \<and> terminal c}"
    unfolding stored_in_def by blast
  ultimately show ?thesis by (simp only: settled_ids_def)
qed

lemma expired_found:
  assumes ok: "workspace_ok h e K ws"
  shows "\<exists>ids. expired_ids e ttl now (ws_candidates ws) = Inr ids \<and> distinct ids \<and>
    set ids = {kc_id c |c. c \<in> stored_in h e (\<lambda>f. now - wr_updated_at f > seconds ttl) ws}"
proof -
  note D = workspace_okD(1)[OF ok, unfolded files_ok_def]
  let ?g = "\<lambda>f. bind_res (check_wrapper (snd f)) (\<lambda>w. if now - wr_updated_at w > seconds ttl
         then (case map_of (wr_data w) ''id'' of None \<Rightarrow> Inl (KeyError ''id'')
               | Some j \<Rightarrow> Inr [json_str (cv_repr (kv_canon e)) j])
         else Inr [])"
  have one: "\<exists>c. holds (good_candidate e) (candidate_key h) candidate_to_dict f c \<and>
      ?g f = Inr (if now - wr_updated_at (snd f) > seconds ttl then [kc_id c] else [])"
    if "f \<in> set (ws_candidates ws)" for f
  proof -
    obtain c where c: "holds (good_candidate e) (candidate_key h) candidate_to_dict f c" using D \<open>f \<in> _\<close> by blast
    then have "map_of (wr_data (snd f)) ''id'' = Some (JStr (kc_id c))"
      by (simp add: holds_def candidate_stored(1)) (simp add: candidate_to_dict_def)
    then show ?thesis using c check_held[OF c] by (intro exI[of _ c]) simp
  qed
  have "\<exists>ids. bind_res (map_res ?g (ws_candidates ws)) (\<lambda>iss. Inr (concat iss)) = Inr ids \<and> distinct ids \<and>
    set ids = {kc_id c |c. \<exists>f\<in>set (ws_candidates ws). holds (good_candidate e) (candidate_key h) candidate_to_dict f c \<and>
      now - wr_updated_at (snd f) > seconds ttl}"
    by (rule picked) (use D one in simp_all)
  then show ?thesis by (simp only: expired_ids_def stored_in_def mem_Collect_eq)
qed

lemma stored_in_sub: "stored_in h e P ws \<subseteq> candidates_of h e ws"
  by (auto simp: stored_in_def candidates_of_def held_def)

text \<open>What a cleanup of selected candidates does.\<close>

lemma all_cleaned:
  assumes ok: "workspace_ok h e K ws" and K: "inj_on (ws_key h) K"
    and f: "\<exists>ids. found = Inr ids \<and> distinct ids \<and> set ids = {kc_id c |c. c \<in> S}" and S: "S \<subseteq> candidates_of h e ws"
  obtains ws' where "cleanup_all h e found ws = (Inr (int (card S)), ws')" "workspace_ok h e K ws'"
    "without h e (kc_id ` S) ws ws'"
proof -
  have "{kc_id c |c. c \<in> S} = kc_id ` S" by blast
  then obtain ids where ids: "found = Inr ids" "distinct ids" "set ids = kc_id ` S" using f by metis
  have "set ids \<subseteq> K" unfolding ids(3) using S workspace_okD(4)[OF ok] by blast
  then obtain ws' where w: "cleanup_candidates h e ids ws = (Inr (), ws')" "workspace_ok h e K ws'"
      "without h e (kc_id ` S) ws ws'" using candidates_removed[OF ok K] ids(3) by metis
  have "inj_on kc_id S" using one_candidate[OF ok] S by (auto intro!: inj_onI)
  then have "length ids = card S" using ids(2,3) by (metis card_image distinct_card)
  then show ?thesis using that w ids(1) by (simp add: cleanup_all_def)
qed

section \<open>Reachable workspaces\<close>

text \<open>A call that raises before it writes leaves the files as they are.\<close>

inductive workspace_reach :: "digests \<Rightarrow> know_env \<Rightarrow> string set \<Rightarrow> workspace \<Rightarrow> bool" for h e K where
  start: "workspace_reach h e K empty_workspace"
| candidate: "workspace_reach h e K ws \<Longrightarrow> good_candidate e c \<Longrightarrow> kc_id c \<in> K \<Longrightarrow>
    save_candidate h e now wid c ws = Inr (i, ws') \<Longrightarrow> workspace_reach h e K ws'"
| evidence: "workspace_reach h e K ws \<Longrightarrow> good_evidence h e x \<Longrightarrow> kx_candidate_id x \<in> K \<Longrightarrow>
    save_evidence h e now now' x ws = Inr (i, ws') \<Longrightarrow> workspace_reach h e K ws'"
| decision: "workspace_reach h e K ws \<Longrightarrow> valid_decision e d \<Longrightarrow> kd_candidate_id d \<in> K \<Longrightarrow>
    save_decision h e now d ws = Inr (i, ws') \<Longrightarrow> workspace_reach h e K ws'"
| cleanup: "workspace_reach h e K ws \<Longrightarrow> i \<in> K \<Longrightarrow> workspace_reach h e K (snd (cleanup_candidate h e i ws))"
| finish: "workspace_reach h e K ws \<Longrightarrow> workspace_reach h e K (snd (cleanup_workspace h e w ws))"
| prune: "workspace_reach h e K ws \<Longrightarrow> workspace_reach h e K (snd (prune_expired h e ttl now ws))"

lemma workspace_cleaned:
  assumes ok: "workspace_ok h e K ws" and K: "inj_on (ws_key h) K"
  obtains ws' where
    "cleanup_workspace h e w ws =
       (Inr (int (card {c \<in> stored_in h e (\<lambda>f. wr_workspace_id f = w) ws. terminal c})), ws')"
    "workspace_ok h e K ws'"
    "without h e (kc_id ` {c \<in> stored_in h e (\<lambda>f. wr_workspace_id f = w) ws. terminal c}) ws ws'"
proof -
  have S: "{c \<in> stored_in h e (\<lambda>f. wr_workspace_id f = w) ws. terminal c} \<subseteq> candidates_of h e ws"
    using stored_in_sub[of h e _ ws] by blast
  have f: "\<exists>ids. settled_ids e w (ws_candidates ws) = Inr ids \<and> distinct ids \<and>
     set ids = {kc_id c |c. c \<in> {c \<in> stored_in h e (\<lambda>f. wr_workspace_id f = w) ws. terminal c}}"
    using settled_found[OF ok, of w] by simp
  show ?thesis by (rule all_cleaned[OF ok K f S]) (use that in \<open>simp add: cleanup_workspace_def\<close>)
qed

lemma expired_cleaned:
  assumes ok: "workspace_ok h e K ws" and K: "inj_on (ws_key h) K" and t: "0 \<le> ttl"
  obtains ws' where
    "prune_expired h e ttl now ws = (Inr (int (card (stored_in h e (\<lambda>f. now - wr_updated_at f > seconds ttl) ws))), ws')"
    "workspace_ok h e K ws'"
    "without h e (kc_id ` stored_in h e (\<lambda>f. now - wr_updated_at f > seconds ttl) ws) ws ws'"
  by (rule all_cleaned[OF ok K expired_found[OF ok, of ttl now] stored_in_sub]) (use that t in \<open>simp add: prune_expired_def\<close>)

lemma workspace_reach_ok:
  assumes "workspace_reach h e K ws" and K: "inj_on (ws_key h) K"
  shows "workspace_ok h e K ws"
  using assms(1)
proof induction
  case start
  then show ?case by (rule empty_workspace_ok)
next
  case (candidate ws c now wid i ws')
  then show ?case using candidate_saved(1)[OF _ K] by blast
next
  case (evidence ws x now now' i ws')
  then show ?case using evidence_saved(1)[OF _ K] by blast
next
  case (decision ws d now i ws')
  then show ?case using decision_saved(1)[OF _ K] by blast
next
  case (cleanup ws i)
  show ?case by (rule candidate_removed[OF cleanup.IH K cleanup.hyps(2)]) simp
next
  case (finish ws w)
  show ?case by (rule workspace_cleaned[OF finish.IH K, of w]) simp
next
  case (prune ws ttl now)
  show ?case
  proof (cases "ttl < 0")
    case True
    then show ?thesis using prune.IH by (simp add: prune_expired_def)
  next
    case False
    show ?thesis by (rule expired_cleaned[OF prune.IH K, of ttl now]) (use False in simp_all)
  qed
qed

end
