(* ===== verification/WorkspaceProps.thy ===== *)
theory WorkspaceProps
  imports WorkspaceRuns KnowledgeProps
begin

text \<open>
  Properties of the job workspace: evidence and unresolved decisions always have their candidate, finishing a job
  removes exactly its assimilated and rejected candidates, and the one job id that locks the workspace.
\<close>

lemma candidate_read:
  assumes ok: "workspace_ok h e K ws" and K: "inj_on (ws_key h) K" and i: "i \<in> K" and c: "c \<in> candidates_of h e ws" "kc_id c = i"
  shows "get_candidate h e i ws = Inr (Some c)"
  using found_candidate[OF ok K i]
proof cases
  case (1 y)
  then show ?thesis using one_candidate[OF ok 1(1) c(1)] c(2) by simp
next
  case 2
  then show ?thesis using c by blast
qed

lemma owner_read:
  assumes ok: "workspace_ok h e K ws" and K: "inj_on (ws_key h) K" and o: "owned (candidates_of h e ws) i p"
  shows "\<exists>c. get_candidate h e i ws = Inr (Some c) \<and> kc_project_name c = p"
proof -
  obtain c where "c \<in> candidates_of h e ws" "kc_id c = i" "kc_project_name c = p" using o unfolding owned_def by blast
  then show ?thesis using candidate_read[OF ok K owned_known[OF ok o]] by blast
qed


text \<open>C12: Finishing a job keeps unresolved work.  The cleanup of a job's workspace removes exactly the assimilated and
  rejected candidates stored under it, each with its evidence and decisions, and returns their number; every
  pending, deferred or conflicting candidate stays with all of its evidence and decisions.\<close>

theorem finishing_keeps_unresolved_work:
  assumes reach: "workspace_reach h e K ws" and K: "inj_on (ws_key h) K"
    and S: "S = {c \<in> stored_in h e (\<lambda>f. wr_workspace_id f = job) ws. terminal c}"
  shows "\<exists>ws'. cleanup_workspace h e job ws = (Inr (int (card S)), ws') \<and>
    candidates_of h e ws' = candidates_of h e ws - S \<and>
    evidence_of h e ws' = {x \<in> evidence_of h e ws. kx_candidate_id x \<notin> kc_id ` S} \<and>
    decisions_of h e ws' = {d \<in> decisions_of h e ws. kd_candidate_id d \<notin> kc_id ` S} \<and>
    (\<forall>c\<in>candidates_of h e ws. kc_status c \<in> {CandPending, CandDeferred, CandConflict} \<longrightarrow>
      get_candidate h e (kc_id c) ws' = Inr (Some c) \<and> kc_id c \<notin> kc_id ` S)"
proof -
  have ok: "workspace_ok h e K ws" using workspace_reach_ok[OF reach K] .
  obtain ws' where w: "cleanup_workspace h e job ws = (Inr (int (card S)), ws')" "workspace_ok h e K ws'"
      "without h e (kc_id ` S) ws ws'"
    unfolding S by (rule workspace_cleaned[OF ok K])
  have sub: "S \<subseteq> candidates_of h e ws" unfolding S using stored_in_sub by fast
  have gone: "kc_id c \<in> kc_id ` S \<longleftrightarrow> c \<in> S" if "c \<in> candidates_of h e ws" for c
    using one_candidate[OF ok that] sub by blast
  have cs: "candidates_of h e ws' = candidates_of h e ws - S" using w(3) gone by (auto simp: without_def)
  have stays: "get_candidate h e (kc_id c) ws' = Inr (Some c) \<and> kc_id c \<notin> kc_id ` S"
    if c: "c \<in> candidates_of h e ws" "kc_status c \<in> {CandPending, CandDeferred, CandConflict}" for c
  proof -
    have "c \<notin> S" using c(2) unfolding S terminal_def by auto
    then have "c \<in> candidates_of h e ws'" "kc_id c \<notin> kc_id ` S" using c(1) cs gone by simp_all
    then show ?thesis using candidate_read[OF w(2) K workspace_okD(4)[OF ok c(1)]] by simp
  qed
  show ?thesis using w(1,3) cs stays unfolding without_def by blast
qed

section \<open>A blank job id\<close>

lemma no_files: "list_models model files = Inr [] \<longleftrightarrow> files = []"
proof -
  have "list_models model files = Inr [] \<longleftrightarrow> sort_key fst files = []"
    by (simp add: list_models_def map_res_Inr)
  then show ?thesis by (metis length_0_conv length_sort sort_key_simps(1))
qed

lemma filter_update:
  "P k \<Longrightarrow> filter (\<lambda>f. P (fst f)) files = [] \<Longrightarrow> filter (\<lambda>f. P (fst f)) (AList.update k v files) = [(k, v)]"
  by (induction files) (auto split: if_splits)

lemma map_res_stops: "x \<in> set xs \<Longrightarrow> f x = Inl err \<Longrightarrow> \<not> is_ok (map_res f xs)"
proof (induction xs)
  case (Cons y ys)
  then show ?case by (cases "f y"; cases "map_res f ys") (auto simp: is_ok_def simp del: map_res_Inr)
qed simp

lemma bind_stops: "\<not> is_ok r \<Longrightarrow> \<not> is_ok (bind_res r f)"
  by (cases r) simp_all


section \<open>A small workspace\<close>

definition plain_digests :: digests where
  "plain_digests = \<lparr> sha256_hex = (\<lambda>s. s), uuid5_url = (\<lambda>s. s) \<rparr>"

lemma plain_apart: "inj_on (ws_key plain_digests) {''c''}"
  by simp

definition demo_settled :: knowledge_candidate where
  "demo_settled = demo_candidate\<lparr>kc_status := CandAssimilated\<rparr>"

lemma demo_reads: "reads_ints demo_know"
  by (simp add: reads_ints_def demo_know_def)

lemma demo_good: "good_candidate demo_know demo_candidate" "good_candidate demo_know demo_settled"
  by (simp_all add: good_candidate_def valid_candidate_def demo_settled_def demo_candidate_def demo_time demo_reads)

definition demo_evidence :: knowledge_evidence where
  "demo_evidence = \<lparr> kx_id = ''x'', kx_project_name = ''p'', kx_candidate_id = ''c'', kx_distill_job_id = Some ''j'',
     kx_evidence_basis = EvRepository, kx_verification_outcome = Verified, kx_verification_refs = [],
     kx_verification_reason_codes = [], kx_verified_at = None, kx_created_at = 0 \<rparr>"

lemma demo_evidence_good: "good_evidence plain_digests demo_know demo_evidence"
  by (simp add: good_evidence_def valid_evidence_def named_job_def demo_evidence_def demo_time demo_reads) code_simp

definition ws_with_candidate :: workspace where
  "ws_with_candidate = empty_workspace\<lparr>ws_candidates :=
     [(''c'', \<lparr> wr_workspace_id = ''adhoc:c'', wr_updated_at = 0, wr_data = stored (candidate_to_dict demo_settled) \<rparr>)]\<rparr>"

definition ws_with_evidence :: workspace where
  "ws_with_evidence = \<lparr> ws_candidates =
     [(''c'', \<lparr> wr_workspace_id = ''j'', wr_updated_at = 0, wr_data = stored (candidate_to_dict demo_settled) \<rparr>)],
     ws_evidence = [((''c'', ''x''), \<lparr> wr_workspace_id = ''j'', wr_updated_at = 0, wr_data = stored (evidence_to_dict demo_evidence) \<rparr>)],
     ws_decisions = [] \<rparr>"

lemma demo_saved: "save_candidate plain_digests demo_know 0 None demo_settled empty_workspace = Inr (''c'', ws_with_candidate)"
  "save_evidence plain_digests demo_know 0 0 demo_evidence ws_with_candidate = Inr (''x'', ws_with_evidence)"
  by code_simp+

lemma demo_workspace: "workspace_reach plain_digests demo_know {''c''} ws_with_candidate"
  by (rule workspace_reach.candidate[OF workspace_reach.start demo_good(2) _ demo_saved(1)])
    (simp add: demo_settled_def demo_candidate_def)

lemma demo_workspace_evidence: "workspace_reach plain_digests demo_know {''c''} ws_with_evidence"
  by (rule workspace_reach.evidence[OF demo_workspace demo_evidence_good _ demo_saved(2)]) (simp add: demo_evidence_def)


theorem finishing_keeps_unresolved_work_witness:
  "\<exists>S ws'. cleanup_workspace plain_digests demo_know ''j'' ws_with_evidence = (Inr (int (card S)), ws') \<and>
     candidates_of plain_digests demo_know ws' = candidates_of plain_digests demo_know ws_with_evidence - S"
  using finishing_keeps_unresolved_work[OF demo_workspace_evidence plain_apart refl, of "''j''"] by blast


end
