(* ===== verification/MaintenanceLock.thy ===== *)
theory MaintenanceLock
  imports KnowledgeSchema
begin

text \<open>
  Exclusion of background work from explicit maintenance runs: \<^verbatim>\<open>harness_mem/maintenance_lock.py\<close>.

  The lock is one file, absent, torn (created but not yet written, or otherwise not JSON) or holding a document.
  The calls are modelled twice: as the functions the source has, each run without interruption, and as the system
  calls each of them makes (\<open>phase\<close>, \<open>lock_step\<close>), so that several processes may interleave.  What the
  operating system says of a process id, what a text reads as a time or an integer, and the environment are
  arguments (\<open>lock_env\<close>).
\<close>

section \<open>The file\<close>

datatype content = Torn | Doc json

record lock_env =
  le_alive :: "int \<Rightarrow> bool" \<comment> \<open>\<^verbatim>\<open>os.kill(pid, 0)\<close> finds the process\<close>
  le_time :: "string \<Rightarrow> time option" \<comment> \<open>\<^verbatim>\<open>datetime.fromisoformat\<close>\<close>
  le_int :: "json \<Rightarrow> py_error + int" \<comment> \<open>\<^verbatim>\<open>int(v)\<close>\<close>
  le_environ :: "string \<Rightarrow> string"

definition read_payload :: "content option \<Rightarrow> jdict option" where
  "read_payload file =
     (case file of None \<Rightarrow> None | Some Torn \<Rightarrow> Some [] | Some (Doc j) \<Rightarrow> Some (json_dict j))"

definition owner_session_ids :: "lock_env \<Rightarrow> string list option \<Rightarrow> string list" where
  "owner_session_ids e values =
     (let candidates = (case values of Some vs \<Rightarrow> vs | None \<Rightarrow> map (le_environ e) [''CODEX_SESSION_ID'', ''CODEX_THREAD_ID''])
      in sort (dedup (filter (\<lambda>v. v \<noteq> []) (map strip candidates))))"

definition owner_is_alive :: "lock_env \<Rightarrow> int \<Rightarrow> content option \<Rightarrow> bool" where
  "owner_is_alive e self file =
     (case file of
        Some (Doc (JObj d)) \<Rightarrow>
          (case map_of d ''pid'' of
             None \<Rightarrow> True
           | Some v \<Rightarrow> (case le_int e v of Inl _ \<Rightarrow> True | Inr pid \<Rightarrow> pid = self \<or> le_alive e pid))
      | _ \<Rightarrow> True)"

definition suppress_until :: "jdict \<Rightarrow> string option" where
  "suppress_until d = (case map_of d ''suppress_until'' of Some (JStr s) \<Rightarrow> Some s | _ \<Rightarrow> None)"

definition suppressed_owners :: "jdict \<Rightarrow> string list" where
  "suppressed_owners d =
     (case map_of d ''owner_session_ids'' of
        Some (JList xs) \<Rightarrow> concat (map (\<lambda>j. case j of JStr s \<Rightarrow> if s \<noteq> [] then [s] else [] | _ \<Rightarrow> []) xs)
      | _ \<Rightarrow> [])"

section \<open>The calls\<close>

text \<open>Whether background work must stay out, and the file afterwards.\<close>

definition maintenance_is_locked ::
  "lock_env \<Rightarrow> int \<Rightarrow> time \<Rightarrow> string option \<Rightarrow> content option \<Rightarrow> bool \<times> content option" where
  "maintenance_is_locked e self now trigger_id file =
     (case read_payload file of
        None \<Rightarrow> (False, file)
      | Some d \<Rightarrow>
          if d = [] then (True, file)
          else (case suppress_until d of
            Some s \<Rightarrow> (case le_time e s of
                None \<Rightarrow> (True, file)
              | Some until \<Rightarrow>
                  if until \<le> now then (False, None)
                  else (case trigger_id of None \<Rightarrow> False | Some t \<Rightarrow> t \<noteq> [] \<and> t \<in> set (suppressed_owners d), file))
          | None \<Rightarrow> if owner_is_alive e self file then (True, file) else (False, None)))"

definition create_exclusive :: "content option \<Rightarrow> py_error + content option" where
  "create_exclusive file = (if file = None then Inr (Some Torn) else Inl (FileExistsError ''exclusive-run.json''))"

text \<open>What a contender that found the file decides from the payload it read: to replace the file at once.\<close>

definition released :: "content option \<Rightarrow> bool" where
  "released file = (case read_payload file of None \<Rightarrow> False | Some d \<Rightarrow> d \<noteq> [] \<and> suppress_until d \<noteq> None)"

definition open_lock :: "lock_env \<Rightarrow> int \<Rightarrow> content option \<Rightarrow> py_error + content option" where
  "open_lock e self file =
     (case create_exclusive file of
        Inr f \<Rightarrow> Inr f
      | Inl err \<Rightarrow>
          if released file then create_exclusive None
          else if owner_is_alive e self file then Inl err
          else create_exclusive None)"

record lock_run =
  lr_run_id :: string
  lr_operation :: string
  lr_pid :: int
  lr_started_at :: time
  lr_sessions :: "string list"

definition lock_payload :: "lock_run \<Rightarrow> jdict" where
  "lock_payload r =
     [(''run_id'', JStr (lr_run_id r)), (''operation'', JStr (lr_operation r)), (''pid'', JInt (lr_pid r)),
      (''started_at'', JStr (isoformat (lr_started_at r))), (''owner_session_ids'', JList (map JStr (lr_sessions r)))]"

definition lock_doc :: "jdict \<Rightarrow> content" where
  "lock_doc d = Doc (JObj (stored d))"

text \<open>Entering the run, up to \<^verbatim>\<open>yield\<close>, and leaving it.\<close>

definition enter_run :: "lock_env \<Rightarrow> lock_run \<Rightarrow> content option \<Rightarrow> py_error + content option" where
  "enter_run e r file = bind_res (open_lock e (lr_pid r) file) (\<lambda>_. Inr (Some (lock_doc (lock_payload r))))"

definition release_payload :: "lock_run \<Rightarrow> time \<Rightarrow> int \<Rightarrow> jdict" where
  "release_payload r now secs =
     lock_payload r @ [(''released_at'', JStr (isoformat now)), (''suppress_until'', JStr (isoformat (now + seconds secs)))]"

definition suppresses :: "lock_run \<Rightarrow> int \<Rightarrow> bool" where
  "suppresses r suppression \<longleftrightarrow> lr_sessions r \<noteq> [] \<and> max 0 suppression \<noteq> 0"

definition leave_run :: "lock_run \<Rightarrow> time \<Rightarrow> int \<Rightarrow> content option" where
  "leave_run r now suppression =
     (if suppresses r suppression then Some (lock_doc (release_payload r now (max 0 suppression))) else None)"

section \<open>The system calls\<close>

text \<open>The points at which one process in \<^verbatim>\<open>exclusive_maintenance_run\<close> may be interrupted.\<close>

datatype phase =
    Starting \<comment> \<open>about to create the file\<close>
  | FoundFile \<comment> \<open>about to read the file another run has left or holds\<close>
  | CheckOwner \<comment> \<open>about to read it again for its owner\<close>
  | Removing \<comment> \<open>about to unlink it\<close>
  | Retrying \<comment> \<open>about to create it again\<close>
  | Opened \<comment> \<open>holds the descriptor, has written nothing\<close>
  | Running \<comment> \<open>inside the protected block\<close>
  | Truncated \<comment> \<open>rewriting the file after the block\<close>
  | Finished
  | Refused

record lock_world =
  lw_file :: "content option"
  lw_phase :: "int \<Rightarrow> phase"

definition go :: "int \<Rightarrow> phase \<Rightarrow> lock_world \<Rightarrow> lock_world" where
  "go p ph w = w\<lparr>lw_phase := (lw_phase w)(p := ph)\<rparr>"

definition put_file :: "content option \<Rightarrow> lock_world \<Rightarrow> lock_world" where
  "put_file f w = w\<lparr>lw_file := f\<rparr>"

text \<open>One system call of the run \<open>r\<close>.\<close>

definition lock_step :: "lock_env \<Rightarrow> lock_run \<Rightarrow> time \<Rightarrow> int \<Rightarrow> lock_world \<Rightarrow> lock_world" where
  "lock_step e r now suppression w =
     (let p = lr_pid r; file = lw_file w in
      case lw_phase w p of
        Starting \<Rightarrow> if file = None then put_file (Some Torn) (go p Opened w) else go p FoundFile w
      | FoundFile \<Rightarrow> go p (if released file then Removing else CheckOwner) w
      | CheckOwner \<Rightarrow> go p (if owner_is_alive e p file then Refused else Removing) w
      | Removing \<Rightarrow> put_file None (go p Retrying w)
      | Retrying \<Rightarrow> if file = None then put_file (Some Torn) (go p Opened w) else go p Refused w
      | Opened \<Rightarrow> put_file (Some (lock_doc (lock_payload r))) (go p Running w)
      | Running \<Rightarrow>
          if suppresses r suppression then put_file (Some Torn) (go p Truncated w)
          else put_file None (go p Finished w)
      | Truncated \<Rightarrow> put_file (leave_run r now suppression) (go p Finished w)
      | Finished \<Rightarrow> w
      | Refused \<Rightarrow> w)"

definition schedule :: "lock_env \<Rightarrow> time \<Rightarrow> int \<Rightarrow> lock_run list \<Rightarrow> lock_world \<Rightarrow> lock_world" where
  "schedule e now suppression rs w = fold (\<lambda>r. lock_step e r now suppression) rs w"

end
