(* ===== verification/LockProps.thy ===== *)
theory LockProps
  imports MaintenanceLock
begin

text \<open>
  What the maintenance lock guarantees: calls that are not interrupted admit one run at a time and are what their
  system calls come to, a finished run keeps only its own sessions out, and interrupted calls can admit two runs.
\<close>

definition sees :: "lock_env \<Rightarrow> lock_run list \<Rightarrow> bool" where
  "sees e rs \<longleftrightarrow> (\<forall>r\<in>set rs. le_alive e (lr_pid r)) \<and> (\<forall>i. le_int e (JInt i) = Inr i)"

lemma lock_fields:
  "map_of (stored (lock_payload r)) ''pid'' = Some (JInt (lr_pid r))"
  "map_of (stored (lock_payload r)) ''suppress_until'' = None"
  "stored (lock_payload r) \<noteq> []"
proof -
  show "map_of (stored (lock_payload r)) ''pid'' = Some (JInt (lr_pid r))"
    "map_of (stored (lock_payload r)) ''suppress_until'' = None"
    by (simp_all add: map_of_stored lock_payload_def)
  then show "stored (lock_payload r) \<noteq> []" by auto
qed

lemma held_lock:
  assumes "le_alive e (lr_pid r)" "\<And>i. le_int e (JInt i) = Inr i"
  shows "owner_is_alive e p (Some (lock_doc (lock_payload r)))"
    and "\<not> released (Some (lock_doc (lock_payload r)))"
    and "enter_run e r' (Some (lock_doc (lock_payload r))) = Inl (FileExistsError ''exclusive-run.json'')"
    and "maintenance_is_locked e p now t (Some (lock_doc (lock_payload r))) = (True, Some (lock_doc (lock_payload r)))"
proof -
  show a: "owner_is_alive e p (Some (lock_doc (lock_payload r)))" for p
    using assms by (simp add: owner_is_alive_def lock_doc_def lock_fields)
  show n: "\<not> released (Some (lock_doc (lock_payload r)))"
    by (simp add: released_def read_payload_def lock_doc_def json_dict_def suppress_until_def lock_fields)
  show "enter_run e r' (Some (lock_doc (lock_payload r))) = Inl (FileExistsError ''exclusive-run.json'')"
    using a n by (simp add: enter_run_def open_lock_def create_exclusive_def)
  show "maintenance_is_locked e p now t (Some (lock_doc (lock_payload r))) = (True, Some (lock_doc (lock_payload r)))"
    using a by (simp add: maintenance_is_locked_def read_payload_def json_dict_def suppress_until_def lock_doc_def lock_fields)
qed

section \<open>Uninterrupted calls\<close>

text \<open>The file and the runs inside the protected block, under calls that do not interrupt each other.  A process may
  die inside; whoever looks at a process that runs sees it alive.\<close>

inductive lock_reach :: "content option \<Rightarrow> lock_run list \<Rightarrow> bool" where
  start: "lock_reach file []"
| enter: "lock_reach file rs \<Longrightarrow> sees e rs \<Longrightarrow> enter_run e r file = Inr file' \<Longrightarrow> lock_reach file' (r # rs)"
| leave: "lock_reach file rs \<Longrightarrow> r \<in> set rs \<Longrightarrow> lock_reach (leave_run r now suppression) (remove1 r rs)"
| ask: "lock_reach file rs \<Longrightarrow> sees e rs \<Longrightarrow>
    lock_reach (snd (maintenance_is_locked e self now trigger file)) rs"
| die: "lock_reach file rs \<Longrightarrow> lock_reach file (remove1 r rs)"

lemma lock_reach_inv: "lock_reach file rs \<Longrightarrow> rs = [] \<or> (\<exists>r. rs = [r] \<and> file = Some (lock_doc (lock_payload r)))"
proof (induction rule: lock_reach.induct)
  case (enter f rs e r f')
  have "rs = []"
  proof (rule ccontr)
    assume "rs \<noteq> []"
    then obtain r0 where r0: "rs = [r0]" "f = Some (lock_doc (lock_payload r0))" using enter.IH by blast
    then have "enter_run e r f = Inl (FileExistsError ''exclusive-run.json'')"
      using held_lock(3) enter.hyps(2) by (simp add: sees_def)
    then show False using enter.hyps(3) by simp
  qed
  then show ?case using enter.hyps(3) by (auto simp: enter_run_def bind_res_Inr)
next
  case (leave f rs r now suppression)
  then show ?case by auto
next
  case (ask f rs e self now trigger)
  show ?case
  proof (cases "rs = []")
    case False
    then obtain r0 where r0: "rs = [r0]" "f = Some (lock_doc (lock_payload r0))" using ask.IH by blast
    then have "maintenance_is_locked e self now trigger f = (True, f)"
      using held_lock(4) ask.hyps(2) by (simp add: sees_def)
    then show ?thesis using r0 by simp
  qed simp
next
  case (die f rs r)
  then show ?case by (auto split: if_splits)
qed simp

text \<open>C18: One maintenance run at a time.  Whatever the file held at first and whichever calls follow, as long as calls
  do not interrupt each other at most one process is inside a maintenance run; while one is, every other attempt to
  enter raises, background work is told to stay out whatever its session, and neither call changes the file.\<close>

theorem one_maintenance_run:
  assumes reach: "lock_reach file rs" and e: "sees e rs"
  shows "length rs \<le> 1 \<and> (rs \<noteq> [] \<longrightarrow>
    enter_run e r file = Inl (FileExistsError ''exclusive-run.json'') \<and>
    maintenance_is_locked e self now trigger file = (True, file))"
  using lock_reach_inv[OF reach] e held_lock(3,4) by (auto simp: sees_def)

text \<open>C19: A finished run keeps out its own sessions.  After a run of some sessions with a positive suppression time the
  background work of exactly these sessions stays out until that time has passed, nobody else's does, and from then
  on the file is removed at the next look; without sessions or time the file is removed at once.\<close>

theorem finished_run_suppresses_its_sessions:
  assumes t: "le_time e (isoformat (released_at + seconds suppression)) = Some (released_at + seconds suppression)"
  shows "maintenance_is_locked e self now trigger (leave_run r released_at suppression) =
    (if lr_sessions r = [] \<or> suppression \<le> 0 \<or> released_at + seconds suppression \<le> now then (False, None)
     else (\<exists>s\<in>set (lr_sessions r). s \<noteq> [] \<and> trigger = Some s, leave_run r released_at suppression))"
proof (cases "lr_sessions r = [] \<or> suppression \<le> 0")
  case True
  then have "leave_run r released_at suppression = None" by (auto simp: leave_run_def suppresses_def)
  then show ?thesis using True by (auto simp: maintenance_is_locked_def read_payload_def)
next
  case False
  let ?d = "stored (release_payload r released_at suppression)"
  have l: "leave_run r released_at suppression = Some (Doc (JObj ?d))"
    using False by (simp add: leave_run_def suppresses_def lock_doc_def)
  have m: "map_of ?d ''suppress_until'' = Some (JStr (isoformat (released_at + seconds suppression)))"
    "map_of ?d ''owner_session_ids'' = Some (JList (map JStr (lr_sessions r)))"
    by (simp_all add: map_of_stored release_payload_def lock_payload_def comp_def)
  then have "?d \<noteq> []" by auto
  moreover have "set (suppressed_owners ?d) = {s \<in> set (lr_sessions r). s \<noteq> []}"
    by (auto simp: suppressed_owners_def m split: if_splits)
  ultimately show ?thesis using False t
    unfolding l by (auto simp: maintenance_is_locked_def read_payload_def json_dict_def suppress_until_def m split: option.split)
qed

section \<open>Interrupted calls\<close>

lemma world_simps [simp]:
  "lw_phase (go p ph w) q = (if q = p then ph else lw_phase w q)" "lw_file (go p ph w) = lw_file w"
  "lw_phase (put_file f w) = lw_phase w" "lw_file (put_file f w) = f"
  by (simp_all add: go_def put_file_def)

lemma step_phases:
  "lw_phase w (lr_pid r) = Starting \<Longrightarrow> lw_file w = None \<Longrightarrow> lock_step e r now s w = put_file (Some Torn) (go (lr_pid r) Opened w)"
  "lw_phase w (lr_pid r) = Starting \<Longrightarrow> lw_file w \<noteq> None \<Longrightarrow> lock_step e r now s w = go (lr_pid r) FoundFile w"
  "lw_phase w (lr_pid r) = FoundFile \<Longrightarrow>
     lock_step e r now s w = go (lr_pid r) (if released (lw_file w) then Removing else CheckOwner) w"
  "lw_phase w (lr_pid r) = CheckOwner \<Longrightarrow>
     lock_step e r now s w = go (lr_pid r) (if owner_is_alive e (lr_pid r) (lw_file w) then Refused else Removing) w"
  "lw_phase w (lr_pid r) = Removing \<Longrightarrow> lock_step e r now s w = put_file None (go (lr_pid r) Retrying w)"
  "lw_phase w (lr_pid r) = Retrying \<Longrightarrow> lw_file w = None \<Longrightarrow> lock_step e r now s w = put_file (Some Torn) (go (lr_pid r) Opened w)"
  "lw_phase w (lr_pid r) = Opened \<Longrightarrow>
     lock_step e r now s w = put_file (Some (lock_doc (lock_payload r))) (go (lr_pid r) Running w)"
  by (auto simp: lock_step_def Let_def)

text \<open>The functions are what their system calls come to when nobody interrupts.\<close>

theorem open_lock_is_its_system_calls:
  assumes st: "lw_phase w (lr_pid r) = Starting"
  shows "\<exists>n. let w' = (lock_step e r now suppression ^^ n) w in
    (case open_lock e (lr_pid r) (lw_file w) of
       Inr f \<Rightarrow> lw_phase w' (lr_pid r) = Opened \<and> lw_file w' = f
     | Inl _ \<Rightarrow> lw_phase w' (lr_pid r) = Refused \<and> lw_file w' = lw_file w)"
proof -
  let ?s = "lock_step e r now suppression" and ?p = "lr_pid r"
  note O = open_lock_def create_exclusive_def
  show ?thesis
  proof (cases "lw_file w = None")
    case True
    then show ?thesis using st by (intro exI[of _ 1]) (simp add: O step_phases)
  next
    case there: False
    show ?thesis
    proof (cases "released (lw_file w)")
      case True
      then have "(?s ^^ 4) w = put_file (Some Torn) (go ?p Opened (put_file None (go ?p Retrying (go ?p Removing (go ?p FoundFile w)))))"
        using st there by (simp add: eval_nat_numeral step_phases)
      then show ?thesis using True there by (intro exI[of _ 4]) (simp add: O)
    next
      case not: False
      show ?thesis
      proof (cases "owner_is_alive e ?p (lw_file w)")
        case True
        then have "(?s ^^ 3) w = go ?p Refused (go ?p CheckOwner (go ?p FoundFile w))"
          using st there not by (simp add: eval_nat_numeral step_phases)
        then show ?thesis using True there not by (intro exI[of _ 3]) (simp add: O)
      next
        case dead: False
        then have "(?s ^^ 5) w = put_file (Some Torn) (go ?p Opened (put_file None (go ?p Retrying (go ?p Removing
            (go ?p CheckOwner (go ?p FoundFile w))))))"
          using st there not by (simp add: eval_nat_numeral step_phases)
        then show ?thesis using dead there not by (intro exI[of _ 5]) (simp add: O)
      qed
    qed
  qed
qed

text \<open>C20: Interrupted calls admit two runs.  When the file an earlier run released is still there, two processes that
  both read it before either removes it both end up inside the protected block: the second unlinks the lock the
  first has just written.\<close>

theorem interrupted_calls_admit_two_runs:
  assumes "lw_phase w (lr_pid r) = Starting" "lw_phase w (lr_pid r') = Starting" "lr_pid r \<noteq> lr_pid r'"
    and "released (lw_file w)"
  shows "let w' = schedule e now suppression ([r, r, r', r'] @ [r, r, r] @ [r', r', r']) w in
    lw_phase w' (lr_pid r) = Running \<and> lw_phase w' (lr_pid r') = Running \<and>
    lw_file w' = Some (lock_doc (lock_payload r'))"
proof -
  have "lw_file w \<noteq> None" using assms(4) unfolding released_def read_payload_def by (metis option.simps(4))
  then show ?thesis using assms by (simp add: schedule_def step_phases)
qed

section \<open>Two runs\<close>

definition demo_lock_env :: lock_env where
  "demo_lock_env = \<lparr> le_alive = (\<lambda>p. p = 1), le_time = (\<lambda>s. if s = isoformat (seconds 300) then Some (seconds 300) else None),
     le_int = (\<lambda>j. case j of JInt i \<Rightarrow> Inr i | _ \<Rightarrow> Inl (ValueError ''int'')), le_environ = (\<lambda>_. []) \<rparr>"

definition demo_run :: "int \<Rightarrow> lock_run" where
  "demo_run p = \<lparr> lr_run_id = ''r'', lr_operation = ''o'', lr_pid = p, lr_started_at = 0, lr_sessions = [''s''] \<rparr>"

theorem one_maintenance_run_witness:
  "enter_run demo_lock_env (demo_run 2) (Some (lock_doc (lock_payload (demo_run 1)))) = Inl (FileExistsError ''exclusive-run.json'')"
proof -
  have s: "sees demo_lock_env []" "sees demo_lock_env [demo_run 1]"
    by (simp_all add: sees_def demo_lock_env_def demo_run_def)
  have "enter_run demo_lock_env (demo_run 1) None = Inr (Some (lock_doc (lock_payload (demo_run 1))))"
    by (simp add: enter_run_def open_lock_def create_exclusive_def)
  then have reach: "lock_reach (Some (lock_doc (lock_payload (demo_run 1)))) [demo_run 1]"
    using lock_reach.enter[OF lock_reach.start s(1)] by blast
  show ?thesis using one_maintenance_run[OF reach s(2), of "demo_run 2"] by simp
qed

theorem finished_run_suppresses_its_sessions_witness:
  "fst (maintenance_is_locked demo_lock_env 9 1 (Some ''s'') (leave_run (demo_run 1) 0 300))"
proof -
  have t: "le_time demo_lock_env (isoformat (0 + seconds 300)) = Some (0 + seconds 300)" by (simp add: demo_lock_env_def)
  show ?thesis using finished_run_suppresses_its_sessions[OF t, of 9 1 "Some ''s''" "demo_run 1"]
    by (simp add: demo_run_def seconds_def)
qed

theorem interrupted_calls_admit_two_runs_witness:
  "\<exists>w. lw_phase w 1 = Running \<and> lw_phase w 2 = Running"
proof -
  let ?w = "\<lparr> lw_file = leave_run (demo_run 3) 0 300, lw_phase = (\<lambda>_. Starting) \<rparr>"
  have rel: "released (lw_file ?w)" by code_simp
  have "lr_pid (demo_run 1) \<noteq> lr_pid (demo_run 2)" "lr_pid (demo_run 1) = 1" "lr_pid (demo_run 2) = 2" by (simp_all add: demo_run_def)
  then show ?thesis using interrupted_calls_admit_two_runs[of ?w "demo_run 1" "demo_run 2", OF _ _ _ rel]
    unfolding Let_def by (metis lock_world.select_convs(2))
qed

end
