(* ===== verification/CapturePolicy.thy ===== *)
theory CapturePolicy
  imports JsonText ConfigMerge
begin

text \<open>
  Which sources may be captured, and what is cut out of them: \<^verbatim>\<open>harness_mem/capture_policy.py\<close>.

  The two regular expressions for private spans are written out as a matcher (\<open>private_span\<close>), once for text and
  once for bytes, which differ in what counts as a letter and as white space; a byte is a character.  Parsing JSON,
  UTF-8 decoding, base64, case folding, glob matching and path handling are the standard library's and arguments
  (\<open>capture_env\<close>); the parser with the duplicate-key hook is \<open>ca_object\<close>.
\<close>

record capture_env =
  ca_casefold :: "string \<Rightarrow> string"
  ca_glob :: "string \<Rightarrow> string \<Rightarrow> bool" \<comment> \<open>\<^verbatim>\<open>fnmatch.fnmatchcase(name, pattern)\<close>\<close>
  ca_loads :: "string \<Rightarrow> json option"
  ca_object :: "string \<Rightarrow> json option"
  ca_decode :: "string \<Rightarrow> string option" \<comment> \<open>\<^verbatim>\<open>bytes.decode("utf-8-sig")\<close>\<close>
  ca_b64decode :: "string \<Rightarrow> string option"
  ca_b64encode :: "string \<Rightarrow> string"
  ca_urlsplit :: "string \<Rightarrow> string \<times> string \<times> string" \<comment> \<open>scheme, netloc and path\<close>
  ca_unquote :: "string \<Rightarrow> string"
  ca_windows :: bool
  ca_expand :: "string \<Rightarrow> string"
  ca_absolute :: "string \<Rightarrow> bool"
  ca_resolve :: "string \<Rightarrow> string"
  ca_is_dir :: "string \<Rightarrow> bool"
  ca_parts :: "string \<Rightarrow> string list" \<comment> \<open>what paths are ordered by\<close>

section \<open>Admission\<close>

definition config_texts :: "merged_config \<Rightarrow> string \<Rightarrow> string list" where
  "config_texts c k =
     (case json_get (mc_fields c) k of
        JList xs \<Rightarrow> concat (map (\<lambda>j. case j of JStr s \<Rightarrow> [s] | _ \<Rightarrow> []) xs)
      | _ \<Rightarrow> [])"

definition config_flag :: "merged_config \<Rightarrow> string \<Rightarrow> bool" where
  "config_flag c k = json_truthy (json_get (mc_fields c) k)"

definition forward_slashes :: "string \<Rightarrow> string" where
  "forward_slashes s = map (\<lambda>c. if c = CHR 0x5C then CHR ''/'' else c) s"

definition source_ignored :: "capture_env \<Rightarrow> merged_config \<Rightarrow> string \<Rightarrow> bool" where
  "source_ignored e c source_uri \<longleftrightarrow>
     list_ex (\<lambda>pattern. ca_glob e (ca_casefold e (forward_slashes source_uri)) (ca_casefold e (forward_slashes pattern)))
       (config_texts c ''capture_ignore_source_globs'')"

definition decide_capture :: "capture_env \<Rightarrow> merged_config \<Rightarrow> string \<Rightarrow> string \<Rightarrow> string \<Rightarrow> bool \<times> string" where
  "decide_capture e c client session_id source_uri =
     (if \<not> config_flag c ''capture_enabled'' then (False, ''capture_disabled'')
      else if ca_casefold e client \<in> set (map (ca_casefold e) (config_texts c ''capture_ignore_clients''))
      then (False, ''client_ignored'')
      else if session_id \<in> set (config_texts c ''capture_ignore_session_ids'') then (False, ''session_ignored'')
      else if source_ignored e c source_uri then (False, ''source_ignored'')
      else (True, ''admitted''))"

definition remote_path :: "string \<Rightarrow> bool" where
  "remote_path s \<longleftrightarrow> starts_with [CHR 0x5C, CHR 0x5C] s \<or> starts_with ''//'' s"

definition local_path :: "capture_env \<Rightarrow> string \<Rightarrow> string option" where
  "local_path e value =
     (if \<not> contains ''://'' value then Some value
      else case ca_urlsplit e value of (scheme, netloc, path) \<Rightarrow>
        if scheme \<noteq> ''file'' \<or> netloc \<notin> set [[], ''localhost''] then None
        else let v = ca_unquote e path in
          Some (if ca_windows e \<and> starts_with ''/'' v \<and> slice v 2 3 = '':'' then drop 1 v else v))"

definition local_context_root :: "capture_env \<Rightarrow> string \<Rightarrow> string option" where
  "local_context_root e value =
     (if value = [] \<or> remote_path value then None
      else case local_path e value of
        None \<Rightarrow> None
      | Some v \<Rightarrow>
          let path = ca_expand e v in
          if \<not> ca_absolute e path \<or> remote_path path then None else Some (ca_resolve e path))"

definition local_roots :: "capture_env \<Rightarrow> string list \<Rightarrow> string list" where
  "local_roots e project_roots =
     sort_key (ca_parts e) (dedup (concat (map (\<lambda>v. case local_context_root e v of None \<Rightarrow> [] | Some p \<Rightarrow> [p]) project_roots)))"

definition sorted_texts :: "merged_config list \<Rightarrow> string \<Rightarrow> json" where
  "sorted_texts cs k = JList (map JStr (sort (dedup (concat (map (\<lambda>c. config_texts c k) cs)))))"

definition combined_policy :: "merged_config list \<Rightarrow> merged_config" where
  "combined_policy cs =
     (let c = hd cs;
          d = AList.update ''capture_enabled'' (JBool (list_all (\<lambda>c. config_flag c ''capture_enabled'') cs))
             (AList.update ''capture_private_tags'' (JBool (list_ex (\<lambda>c. config_flag c ''capture_private_tags'') cs)) (mc_fields c))
      in c\<lparr>mc_fields := fold (\<lambda>k. AList.update k (sorted_texts cs k))
           [''capture_ignore_clients'', ''capture_ignore_session_ids'', ''capture_ignore_source_globs''] d\<rparr>)"

definition source_capture_policy ::
  "capture_env \<Rightarrow> (string option \<Rightarrow> 'e + merged_config) \<Rightarrow> string list \<Rightarrow> 'e + merged_config" where
  "source_capture_policy e loader project_roots =
     bind_res (loader None) (\<lambda>user.
     bind_res (map_res (\<lambda>p. loader (Some p)) (filter (ca_is_dir e) (local_roots e project_roots))) (\<lambda>locals.
     Inr (combined_policy (user # locals))))"

section \<open>Private spans\<close>

definition private_redaction :: string where
  "private_redaction = ''[private content omitted]''"

text \<open>What \<^verbatim>\<open>\w\<close> and \<^verbatim>\<open>\s\<close> accept.\<close>

record alphabet =
  al_word :: "char \<Rightarrow> bool"
  al_space :: "char \<Rightarrow> bool"

definition text_alphabet :: alphabet where
  "text_alphabet = \<lparr> al_word = (\<lambda>c. let n = (of_char c :: nat) in
       (48 \<le> n \<and> n \<le> 57) \<or> (65 \<le> n \<and> n \<le> 90) \<or> n = 95 \<or> (97 \<le> n \<and> n \<le> 122) \<or>
       n \<in> {170, 178, 179, 181, 185, 186, 188, 189, 190} \<or> (192 \<le> n \<and> n \<noteq> 215 \<and> n \<noteq> 247)),
     al_space = py_space \<rparr>"

definition byte_space :: "char \<Rightarrow> bool" where
  "byte_space c = (let n = (of_char c :: nat) in n = 32 \<or> (9 \<le> n \<and> n \<le> 13))"

definition byte_alphabet :: alphabet where
  "byte_alphabet = \<lparr> al_word = (\<lambda>c. let n = (of_char c :: nat) in
       (48 \<le> n \<and> n \<le> 57) \<or> (65 \<le> n \<and> n \<le> 90) \<or> n = 95 \<or> (97 \<le> n \<and> n \<le> 122)),
     al_space = byte_space \<rparr>"

text \<open>\<^verbatim>\<open><private\b\<close> at the start, ignoring case.\<close>

definition open_tag :: "alphabet \<Rightarrow> string \<Rightarrow> bool" where
  "open_tag a s \<longleftrightarrow> map lower_char (take 8 s) = ''<private'' \<and> (case drop 8 s of [] \<Rightarrow> True | c # _ \<Rightarrow> \<not> al_word a c)"

text \<open>\<^verbatim>\<open></private\s*>\<close> at the start, and the rest behind it.\<close>

definition close_tag :: "alphabet \<Rightarrow> string \<Rightarrow> string option" where
  "close_tag a s =
     (if map lower_char (take 9 s) = ''</private''
      then (case dropWhile (al_space a) (drop 9 s) of c # rest \<Rightarrow> (if c = CHR ''>'' then Some rest else None) | [] \<Rightarrow> None)
      else None)"

text \<open>\<^verbatim>\<open>.*?\<close> before the first closing tag.\<close>

fun find_close :: "alphabet \<Rightarrow> string \<Rightarrow> string option" where
  "find_close a [] = None"
| "find_close a (c # cs) = (case close_tag a (c # cs) of Some rest \<Rightarrow> Some rest | None \<Rightarrow> find_close a cs)"

definition private_span :: "alphabet \<Rightarrow> string \<Rightarrow> string option" where
  "private_span a s =
     (if \<not> open_tag a s then None
      else case dropWhile (\<lambda>c. c \<noteq> CHR ''>'') (drop 8 s) of [] \<Rightarrow> None | _ # rest \<Rightarrow> find_close a rest)"

lemma close_tag_shorter: "close_tag a s = Some rest \<Longrightarrow> length rest < length s"
proof -
  assume "close_tag a s = Some rest"
  then obtain c where "dropWhile (al_space a) (drop 9 s) = c # rest"
    by (auto simp: close_tag_def split: if_splits list.splits)
  then have "length (c # rest) \<le> length (drop 9 s)" by (metis length_dropWhile_le)
  then show ?thesis by simp
qed

lemma find_close_shorter: "find_close a s = Some rest \<Longrightarrow> length rest < length s"
proof (induction s)
  case (Cons c s)
  then show ?case
  proof (cases "close_tag a (c # s)")
    case None
    then show ?thesis using Cons by fastforce
  next
    case (Some r)
    then show ?thesis using Cons.prems close_tag_shorter[OF Some] by simp
  qed
qed simp

lemma private_span_shorter: "private_span a s = Some rest \<Longrightarrow> length rest < length s"
proof -
  assume "private_span a s = Some rest"
  then obtain c r where r: "dropWhile (\<lambda>c. c \<noteq> CHR ''>'') (drop 8 s) = c # r" "find_close a r = Some rest"
    by (auto simp: private_span_def split: if_splits list.splits)
  have "length (c # r) \<le> length (drop 8 s)" using length_dropWhile_le by (metis r(1))
  then show ?thesis using find_close_shorter[OF r(2)] by simp
qed

text \<open>\<^verbatim>\<open>re.subn\<close>: spans do not overlap and are found from the left.\<close>

function redact_spans :: "alphabet \<Rightarrow> string \<Rightarrow> string \<times> nat" where
  "redact_spans a s =
     (case private_span a s of
        Some rest \<Rightarrow> (case redact_spans a rest of (t, n) \<Rightarrow> (private_redaction @ t, Suc n))
      | None \<Rightarrow> (case s of [] \<Rightarrow> ([], 0) | c # cs \<Rightarrow> (case redact_spans a cs of (t, n) \<Rightarrow> (c # t, n))))"
  by pat_completeness auto
termination
  by (relation "measure (length \<circ> snd)") (auto dest: private_span_shorter)

declare redact_spans.simps [simp del]

definition redact_private_text :: "string \<Rightarrow> string \<times> nat" where
  "redact_private_text s = redact_spans text_alphabet s"

section \<open>Structured captures\<close>

definition antigravity_export :: string where
  "antigravity_export = ''harness-mem-antigravity-history-v1''"

definition capture_json_depth :: nat where
  "capture_json_depth = 64"

fun redact_items ::
  "(string \<Rightarrow> json \<Rightarrow> py_error + json \<times> nat) \<Rightarrow> jdict \<Rightarrow> jdict \<Rightarrow> py_error + jdict \<times> nat" where
  "redact_items f result [] = Inr (result, 0)"
| "redact_items f result ((k, v) # d) =
     (case redact_private_text k of (k', n) \<Rightarrow>
        if map_of result k' \<noteq> None then Inl (ValueError ''ambiguous redacted capture record'')
        else bind_res (f k v) (\<lambda>(v', m).
          bind_res (redact_items f (result @ [(k', v')]) d) (\<lambda>(r, c). Inr (r, n + m + c))))"

definition total :: "('a \<times> nat) list \<Rightarrow> nat" where
  "total ps = sum_list (map snd ps)"

text \<open>\<^verbatim>\<open>bytes.splitlines(keepends=True)\<close>.\<close>

fun byte_lines :: "string \<Rightarrow> string \<Rightarrow> string list" where
  "byte_lines acc [] = (if acc = [] then [] else [rev acc])"
| "byte_lines acc (c # cs) =
     (if c = CHR 0x0A then rev (c # acc) # byte_lines [] cs
      else if c = CHR 0x0D then
        (case cs of
           d # ds \<Rightarrow> (if d = CHR 0x0A then rev (d # c # acc) # byte_lines [] ds else rev (c # acc) # byte_lines [] cs)
         | [] \<Rightarrow> [rev (c # acc)])
      else byte_lines (c # acc) cs)"

definition blank_line :: "string \<Rightarrow> bool" where
  "blank_line s \<longleftrightarrow> list_all byte_space s"

definition byte_order_mark :: string where
  "byte_order_mark = [CHR 0xEF, CHR 0xBB, CHR 0xBF]"

definition line_ending :: "string \<Rightarrow> string" where
  "line_ending s = rev (takeWhile (\<lambda>c. c = CHR 0x0A \<or> c = CHR 0x0D) (rev s))"

definition reprinted :: "string \<Rightarrow> json \<Rightarrow> string" where
  "reprinted line j =
     (if starts_with byte_order_mark line then byte_order_mark else []) @ stable_json j @ line_ending line"

text \<open>The lines of a capture, given what to do with a record; \<open>first\<close> holds until a record was read.\<close>

fun redact_lines ::
  "capture_env \<Rightarrow> (bool \<Rightarrow> json \<Rightarrow> py_error + json \<times> nat) \<Rightarrow> bool \<Rightarrow> string list \<Rightarrow> py_error + string list \<times> nat" where
  "redact_lines e f first [] = Inr ([], 0)"
| "redact_lines e f first (line # lines) =
     (if blank_line line then bind_res (redact_lines e f first lines) (\<lambda>(ls, n). Inr (line # ls, n))
      else case Option.bind (ca_decode e line) (ca_object e) of
        None \<Rightarrow> Inl (ValueError ''invalid encoded capture record'')
      | Some (JObj d) \<Rightarrow>
          bind_res (f first (JObj d)) (\<lambda>(j, removed).
          bind_res (redact_lines e f False lines) (\<lambda>(ls, n).
          Inr ((if removed = 0 then line else reprinted line j) # ls, removed + n)))
      | Some _ \<Rightarrow> Inl (ValueError ''unsupported encoded capture record''))"

definition redact_jsonl_with ::
  "capture_env \<Rightarrow> (bool \<Rightarrow> json \<Rightarrow> py_error + json \<times> nat) \<Rightarrow> string \<Rightarrow> py_error + string \<times> nat" where
  "redact_jsonl_with e f bytes =
     bind_res (redact_lines e f True (byte_lines [] bytes)) (\<lambda>(ls, n). Inr (concat ls, n))"

fun json_spaced :: "json \<Rightarrow> string" where \<comment> \<open>\<^verbatim>\<open>json.dumps\<close> with its default separators\<close>
  "json_spaced (JList xs) = ''['' @ join_words '', '' (map json_spaced xs) @ '']''"
| "json_spaced (JObj d) = ''{'' @ join_words '', '' (map (\<lambda>(k, v). json_text k @ '': '' @ json_spaced v) d) @ ''}''"
| "json_spaced j = json_dumps j"

definition redact_cursor_record ::
  "capture_env \<Rightarrow> (json \<Rightarrow> py_error + json \<times> nat) \<Rightarrow> json \<Rightarrow> py_error + json \<times> nat" where
  "redact_cursor_record e f record =
     (case record of
        JList [JStr k, JStr s] \<Rightarrow>
          (case ca_object e s of
             None \<Rightarrow> Inl (ValueError ''invalid native cursor capture'')
           | Some j \<Rightarrow> bind_res (f j) (\<lambda>(j', n). Inr (JList [JStr k, JStr (if n = 0 then s else json_spaced j')], n)))
      | _ \<Rightarrow> Inl (ValueError ''invalid native cursor capture''))"

definition redact_cursor ::
  "capture_env \<Rightarrow> (json \<Rightarrow> py_error + json \<times> nat) \<Rightarrow> jdict \<Rightarrow> py_error + jdict \<times> nat" where
  "redact_cursor e f d =
     (if json_get d ''format'' \<noteq> JStr ''cursorDiskKV-v1'' then Inr (d, 0)
      else case json_get d ''records'' of
        JList rs \<Rightarrow> bind_res (map_res (redact_cursor_record e f) rs) (\<lambda>ps.
          Inr (AList.update ''records'' (JList (map fst ps)) d, total ps))
      | _ \<Rightarrow> Inl (ValueError ''invalid native cursor capture''))"

definition redact_attachment ::
  "capture_env \<Rightarrow> (string \<Rightarrow> py_error + string \<times> nat) \<Rightarrow> bool \<Rightarrow> jdict \<Rightarrow> string \<Rightarrow> json \<Rightarrow> py_error + json \<times> nat" where
  "redact_attachment e f allow d k v =
     (case v of
        JStr s \<Rightarrow>
          if \<not> (allow \<and> k = ''transcript_raw_base64'' \<and> json_get d ''format'' = JStr antigravity_export)
          then Inl (ValueError ''unsupported encoded capture field'')
          else (case ca_b64decode e s of
              None \<Rightarrow> Inl (ValueError ''invalid encoded capture attachment'')
            | Some bytes \<Rightarrow> bind_res (f bytes) (\<lambda>(r, n). Inr (JStr (if n = 0 then s else ca_b64encode e r), n)))
      | _ \<Rightarrow> Inl (ValueError ''unsupported encoded capture field''))"

text \<open>
  \<^verbatim>\<open>_redact_capture_value\<close>.  An attachment is decoded at most once: only where \<open>allow\<close> holds, which it never does
  inside; every other recursion goes one level deeper, and the depth is bounded.
\<close>

function redact_capture_value ::
  "capture_env \<Rightarrow> bool \<Rightarrow> bool \<Rightarrow> nat \<Rightarrow> json \<Rightarrow> py_error + json \<times> nat" where
  "redact_capture_value e allow strict depth v =
     (if capture_json_depth < depth then Inl (ValueError ''encoded capture nesting exceeds privacy validation limit'')
      else case v of
        JStr s \<Rightarrow> (case redact_private_text s of (t, n) \<Rightarrow> Inr (JStr t, n))
      | JObj d0 \<Rightarrow>
          bind_res (redact_cursor e (redact_capture_value e False False (Suc depth)) d0) (\<lambda>(d, n).
          bind_res (redact_items (\<lambda>k item.
              if strict \<and> starts_with ''transcript_raw'' (ca_casefold e k)
              then (if allow
                    then redact_attachment e (redact_jsonl_with e (\<lambda>_. redact_capture_value e False True 0)) True d k item
                    else redact_attachment e (\<lambda>_. Inl (ValueError [])) False d k item)
              else redact_capture_value e False strict (Suc depth) item) [] d) (\<lambda>(result, m).
          Inr (JObj result, n + m)))
      | JList xs \<Rightarrow>
          bind_res (map_res (redact_capture_value e False strict (Suc depth)) xs) (\<lambda>ps.
          Inr (JList (map fst ps), total ps))
      | _ \<Rightarrow> Inr (v, 0))"
  by pat_completeness auto
termination
  by (relation "measures [\<lambda>(e, allow, strict, depth, v). if allow then 1 else 0,
       \<lambda>(e, allow, strict, depth, v). Suc capture_json_depth - depth]") auto

declare redact_capture_value.simps [simp del]

definition redact_capture_jsonl :: "capture_env \<Rightarrow> bool \<Rightarrow> bool \<Rightarrow> string \<Rightarrow> py_error + string \<times> nat" where
  "redact_capture_jsonl e allow strict bytes =
     redact_jsonl_with e (\<lambda>first. redact_capture_value e (allow \<and> first) strict 0) bytes"

definition first_line :: "string \<Rightarrow> string" where
  "first_line bytes = (case filter (\<lambda>l. \<not> blank_line l) (byte_lines [] bytes) of
     [] \<Rightarrow> [] | l # _ \<Rightarrow> rev (dropWhile (\<lambda>c. c = CHR 0x0A \<or> c = CHR 0x0D) (rev l)))"

definition encoded_header :: "capture_env \<Rightarrow> jdict \<Rightarrow> bool" where
  "encoded_header e d \<longleftrightarrow> (case json_get d ''format'' of JStr s \<Rightarrow> starts_with ''harness-mem-antigravity-history-'' s | _ \<Rightarrow> False) \<or>
     list_ex (\<lambda>(k, v). starts_with ''transcript_raw'' (ca_casefold e k)) d"

definition redact_private_bytes :: "capture_env \<Rightarrow> string \<Rightarrow> py_error + string \<times> nat" where
  "redact_private_bytes e bytes =
     (let first = first_line bytes;
          plain = Inr (redact_spans byte_alphabet bytes);
          pretty =
            (if \<not> starts_with ''{'' (dropWhile (\<lambda>c. c \<in> set (byte_order_mark @ [CHR 0x20, CHR 0x0D, CHR 0x0A, CHR 0x09])) bytes)
             then plain
             else case Option.bind (ca_decode e bytes) (ca_object e) of
               None \<Rightarrow> plain
             | Some document \<Rightarrow> bind_res (redact_capture_value e False False 0 document) (\<lambda>(j, removed).
                 if removed = 0 then plain
                 else Inr ((if starts_with byte_order_mark bytes then byte_order_mark else []) @ json_spaced j, removed)))
      in case Option.bind (ca_decode e first) (ca_loads e) of
           None \<Rightarrow>
             if contains ''harness-mem-antigravity-history-'' first \<or> contains ''transcript_raw_'' first
             then Inl (ValueError ''invalid encoded capture envelope'') else pretty
         | Some (JObj d) \<Rightarrow>
             if encoded_header e d
             then (if json_get d ''format'' \<noteq> JStr antigravity_export then Inl (ValueError ''unsupported encoded capture envelope'')
                   else redact_capture_jsonl e True True bytes)
             else redact_capture_jsonl e False False bytes
         | Some _ \<Rightarrow> pretty)"

end
