(* ===== verification/CaptureProps.thy ===== *)
theory CaptureProps
  imports CapturePolicy
begin

text \<open>
  What the capture policy guarantees: contexts only add restrictions, no private span is left in a text or in a
  captured record, and a capture without private spans keeps its bytes.
\<close>

section \<open>Combined policies\<close>

lemma admitted_iff:
  "fst (decide_capture e c client session uri) \<longleftrightarrow> config_flag c ''capture_enabled'' \<and>
     ca_casefold e client \<notin> ca_casefold e ` set (config_texts c ''capture_ignore_clients'') \<and>
     session \<notin> set (config_texts c ''capture_ignore_session_ids'') \<and> \<not> source_ignored e c uri"
  by (simp add: decide_capture_def)

lemma combined_flag: "config_flag (combined_policy cs) ''capture_enabled'' \<longleftrightarrow> (\<forall>c\<in>set cs. config_flag c ''capture_enabled'')"
  by (simp add: combined_policy_def Let_def config_flag_def json_get_def update_conv' list_all_iff)

lemma combined_texts:
  assumes "k \<in> {''capture_ignore_clients'', ''capture_ignore_session_ids'', ''capture_ignore_source_globs''}"
  shows "set (config_texts (combined_policy cs) k) = (\<Union>c\<in>set cs. set (config_texts c k))"
proof -
  have "json_get (mc_fields (combined_policy cs)) k = sorted_texts cs k"
    using assms by (auto simp: combined_policy_def Let_def json_get_def update_conv')
  then show ?thesis unfolding config_texts_def[of "combined_policy cs"] by (simp add: sorted_texts_def comp_def)
qed

lemma combined_admits:
  "fst (decide_capture e (combined_policy cs) client session uri) \<longleftrightarrow>
     (\<forall>c\<in>set cs. fst (decide_capture e c client session uri))"
  unfolding admitted_iff combined_flag source_ignored_def list_ex_iff by (auto simp: combined_texts)

text \<open>C17: Contexts only add restrictions.  The policy of a source with several contexts admits a session exactly when
  the user's policy and the policy of every context that is a local directory admit it.\<close>

theorem contexts_only_restrict:
  assumes "source_capture_policy e loader roots = Inr c"
  shows "fst (decide_capture e c client session uri) \<longleftrightarrow>
    (\<forall>r\<in>insert None (Some ` {p \<in> set (local_roots e roots). ca_is_dir e p}).
       \<exists>x. loader r = Inr x \<and> fst (decide_capture e x client session uri))"
proof -
  let ?dirs = "filter (ca_is_dir e) (local_roots e roots)"
  obtain user locals where u: "loader None = Inr user" "list_all2 (\<lambda>p x. loader (Some p) = Inr x) ?dirs locals"
      "c = combined_policy (user # locals)"
    using assms by (auto simp: source_capture_policy_def bind_res_Inr map_res_Inr)
  have "(\<forall>x\<in>set locals. fst (decide_capture e x client session uri)) \<longleftrightarrow>
      (\<forall>p\<in>set ?dirs. \<exists>x. loader (Some p) = Inr x \<and> fst (decide_capture e x client session uri))"
    using u(2) by (induction rule: list_all2_induct) auto
  then show ?thesis unfolding u(3) combined_admits using u(1) by auto
qed

section \<open>Redacted texts\<close>

definition span_free :: "alphabet \<Rightarrow> string \<Rightarrow> bool" where
  "span_free a s \<longleftrightarrow> (\<forall>i. private_span a (drop i s) = None)"

lemma find_close_prefix: "find_close a s \<noteq> None \<Longrightarrow> find_close a (x @ s) \<noteq> None"
  by (induction x) (auto split: option.split)

lemma close_suffix: "close_tag a s = Some r \<Longrightarrow> \<exists>m. s = m @ r"
proof -
  assume "close_tag a s = Some r"
  then obtain c where "dropWhile (al_space a) (drop 9 s) = c # r" by (auto simp: close_tag_def split: if_splits list.splits)
  then have "s = take 9 s @ takeWhile (al_space a) (drop 9 s) @ [c] @ r"
    by (metis append_Cons append_Nil append_take_drop_id takeWhile_dropWhile_id)
  then show ?thesis by (metis append_assoc)
qed

lemma find_close_suffix: "find_close a s = Some r \<Longrightarrow> \<exists>m. s = m @ r"
proof (induction s)
  case (Cons c s)
  show ?case
  proof (cases "close_tag a (c # s)")
    case None
    then obtain m where "s = m @ r" using Cons by auto
    then show ?thesis by (intro exI[of _ "c # m"]) simp
  next
    case (Some q)
    then show ?thesis using Cons.prems close_suffix by auto
  qed
qed simp

lemma lower_exact:
  assumes l: "lower_char c = d" and d: "d \<in> {CHR ''<'', CHR ''>'', CHR ''[''}"
  shows "c = d"
proof (rule ccontr)
  assume "c \<noteq> d"
  let ?n = "of_char c :: nat"
  have n: "(65 \<le> ?n \<and> ?n \<le> 90) \<or> (192 \<le> ?n \<and> ?n \<le> 222)" and "d = char_of (?n + 32)"
    using l \<open>c \<noteq> d\<close> by (auto simp: lower_char_def Let_def split: if_splits)
  then have "of_char d = ?n + 32" by auto
  moreover have "(of_char d :: nat) \<in> {60, 62, 91}" using d by auto
  ultimately show False using n by auto
qed

lemma span_iff:
  "private_span a s \<noteq> None \<longleftrightarrow> open_tag a s \<and> (\<exists>x y. s = x @ CHR ''>'' # y \<and> find_close a y \<noteq> None)"
proof
  assume "private_span a s \<noteq> None"
  then obtain c r where r: "open_tag a s" "dropWhile (\<lambda>c. c \<noteq> CHR ''>'') (drop 8 s) = c # r" "find_close a r \<noteq> None"
    by (auto simp: private_span_def split: if_splits list.splits)
  have "c = CHR ''>''" using r(2) by (metis (mono_tags, lifting) dropWhile_eq_Cons_conv)
  then have "s = (take 8 s @ takeWhile (\<lambda>c. c \<noteq> CHR ''>'') (drop 8 s)) @ CHR ''>'' # r"
    using r(2) by (metis append_assoc append_take_drop_id takeWhile_dropWhile_id)
  then show "open_tag a s \<and> (\<exists>x y. s = x @ CHR ''>'' # y \<and> find_close a y \<noteq> None)" using r(1,3) by blast
next
  assume "open_tag a s \<and> (\<exists>x y. s = x @ CHR ''>'' # y \<and> find_close a y \<noteq> None)"
  then obtain x y where o: "open_tag a s" and s: "s = x @ CHR ''>'' # y" and y: "find_close a y \<noteq> None" by blast
  have "8 \<le> length x"
  proof (rule ccontr)
    assume "\<not> 8 \<le> length x"
    then have "CHR ''>'' \<in> set (take 8 s)" unfolding s by (simp add: take_Cons')
    then have "lower_char (CHR ''>'') \<in> set (map lower_char (take 8 s))" by simp
    then have "lower_char (CHR ''>'') \<in> set ''<private''" using o unfolding open_tag_def by simp
    then show False by (simp add: lower_char_def)
  qed
  then have d: "drop 8 s = drop 8 x @ CHR ''>'' # y" unfolding s by simp
  have "\<exists>r. dropWhile (\<lambda>c. c \<noteq> CHR ''>'') (p @ CHR ''>'' # y) = CHR ''>'' # r \<and> (\<exists>z. r = z @ y)" for p
    by (induction p) auto
  then obtain r z where "dropWhile (\<lambda>c. c \<noteq> CHR ''>'') (drop 8 x @ CHR ''>'' # y) = CHR ''>'' # r" "r = z @ y" by blast
  then show "private_span a s \<noteq> None"
    using o find_close_prefix[OF y, of z] unfolding private_span_def d by simp
qed

lemma span_suffix: "private_span a s = Some v \<Longrightarrow> \<exists>m. s = m @ v"
proof -
  assume "private_span a s = Some v"
  then obtain c r where r: "dropWhile (\<lambda>c. c \<noteq> CHR ''>'') (drop 8 s) = c # r" "find_close a r = Some v"
    by (auto simp: private_span_def split: if_splits list.splits)
  obtain m where "r = m @ v" using find_close_suffix[OF r(2)] by blast
  then have "s = (take 8 s @ takeWhile (\<lambda>c. c \<noteq> CHR ''>'') (drop 8 s) @ [c] @ m) @ v"
    using r(1) by (metis append.assoc append_Cons append_Nil append_take_drop_id takeWhile_dropWhile_id)
  then show ?thesis by blast
qed

text \<open>Where the first span of a text is.\<close>

lemma redact_split:
  obtains "span_free a s" "redact_spans a s = (s, 0)"
  | u m v where "s = u @ m @ v" "\<And>i. i < length u \<Longrightarrow> private_span a (drop i s) = None" "private_span a (m @ v) = Some v"
      "redact_spans a s = (u @ private_redaction @ fst (redact_spans a v), Suc (snd (redact_spans a v)))"
proof -
  have "(span_free a s \<and> redact_spans a s = (s, 0)) \<or>
    (\<exists>u m v. s = u @ m @ v \<and> (\<forall>i<length u. private_span a (drop i s) = None) \<and> private_span a (m @ v) = Some v \<and>
      redact_spans a s = (u @ private_redaction @ fst (redact_spans a v), Suc (snd (redact_spans a v))))"
  proof (induction s)
    case Nil
    have "private_span a [] = None" by (simp add: private_span_def open_tag_def)
    then show ?case by (simp add: redact_spans.simps[of a "[]"] span_free_def)
  next
    case (Cons c s)
    show ?case
    proof (cases "private_span a (c # s)")
      case (Some v)
      have step: "redact_spans a (c # s) = (private_redaction @ fst (redact_spans a v), Suc (snd (redact_spans a v)))"
        by (subst redact_spans.simps) (simp add: Some split: prod.split)
      obtain m where m: "c # s = m @ v" using span_suffix[OF Some] by blast
      have "c # s = [] @ m @ v \<and> (\<forall>i<length []. private_span a (drop i (c # s)) = None) \<and> private_span a (m @ v) = Some v \<and>
        redact_spans a (c # s) = ([] @ private_redaction @ fst (redact_spans a v), Suc (snd (redact_spans a v)))"
        unfolding step using Some m by simp
      then show ?thesis by blast
    next
      case None
      have step: "redact_spans a (c # s) = (c # fst (redact_spans a s), snd (redact_spans a s))"
        using None by (simp add: redact_spans.simps[of a "c # s"] split: prod.split)
      have at: "private_span a (drop i (c # s)) = None \<longleftrightarrow> i = 0 \<or> private_span a (drop (i - 1) s) = None" for i
        using None by (cases i) auto
      from Cons show ?thesis
      proof (elim disjE exE conjE)
        assume "span_free a s" "redact_spans a s = (s, 0)"
        then show ?thesis using step at by (simp add: span_free_def)
      next
        fix u m v
        assume s: "s = u @ m @ v" "\<forall>i<length u. private_span a (drop i s) = None" "private_span a (m @ v) = Some v"
          "redact_spans a s = (u @ private_redaction @ fst (redact_spans a v), Suc (snd (redact_spans a v)))"
        have "\<forall>i<length (c # u). private_span a (drop i (c # s)) = None" unfolding at
        proof (intro allI impI)
          fix i
          assume "i < length (c # u)"
          then show "i = 0 \<or> private_span a (drop (i - 1) s) = None" using s(2) by (cases i) auto
        qed
        moreover have "c # s = (c # u) @ m @ v" using s(1) by simp
        moreover have "redact_spans a (c # s) = ((c # u) @ private_redaction @ fst (redact_spans a v), Suc (snd (redact_spans a v)))"
          using step s(4) by simp
        ultimately show ?thesis using s(3) by blast
      qed
    qed
  qed
  then show ?thesis using that by blast
qed

lemma open_across:
  assumes o: "open_tag a (u @ private_redaction @ t)" and u: "u \<noteq> []" and m: "open_tag a m" and w: "\<not> al_word a (CHR ''<'')"
  shows "open_tag a (u @ m)"
proof -
  have low: "map lower_char (take 8 (u @ private_redaction @ t)) = ''<private''" using o by (simp add: open_tag_def)
  have len: "8 \<le> length u"
  proof (rule ccontr)
    assume short: "\<not> 8 \<le> length u"
    then have "CHR ''['' \<in> set (take 8 (u @ private_redaction @ t))" by (simp add: private_redaction_def take_Cons')
    then have "lower_char (CHR ''['') \<in> set (map lower_char (take 8 (u @ private_redaction @ t)))" unfolding set_map by (rule imageI)
    then have "lower_char (CHR ''['') \<in> set ''<private''" unfolding low .
    then show False by (simp add: lower_char_def)
  qed
  show ?thesis
  proof (cases "drop 8 u")
    case (Cons c cs)
    then show ?thesis using o len by (simp add: open_tag_def)
  next
    case Nil
    obtain c cs where m': "m = c # cs" "lower_char c = CHR ''<''" using m by (cases m) (auto simp: open_tag_def)
    have "c = CHR ''<''" using lower_exact[OF m'(2)] by simp
    then show ?thesis using low len Nil w m'(1) by (simp add: open_tag_def)
  qed
qed

lemma redacted_span_free:
  assumes w: "\<not> al_word a (CHR ''<'')"
  shows "span_free a (fst (redact_spans a s))"
proof (induction "length s" arbitrary: s rule: less_induct)
  case less
  show ?case
  proof (cases rule: redact_split[of a s])
    case 1
    then show ?thesis by simp
  next
    case (2 u m v)
    let ?t = "fst (redact_spans a v)"
    have mv: "open_tag a (m @ v)" "\<exists>x y. m @ v = x @ CHR ''>'' # y \<and> find_close a y \<noteq> None"
      using span_iff[of a "m @ v"] 2(3) by auto
    have "length v < length s" using private_span_shorter[OF 2(3)] 2(1) by simp
    then have t: "span_free a ?t" using less by blast
    have "private_span a (drop i (u @ private_redaction @ ?t)) = None" for i
    proof -
      consider "i < length u" | "length u \<le> i" "i < length u + length private_redaction" | "length u + length private_redaction \<le> i"
        by linarith
      then show ?thesis
      proof cases
        case 1
        let ?u = "drop i u"
        have eq: "drop i (u @ private_redaction @ ?t) = ?u @ private_redaction @ ?t" "drop i s = ?u @ m @ v" using 1 2(1) by simp_all
        show ?thesis
        proof (rule ccontr)
          assume "private_span a (drop i (u @ private_redaction @ ?t)) \<noteq> None"
          then have "open_tag a (?u @ private_redaction @ ?t)" unfolding eq span_iff by blast
          then have "open_tag a (?u @ m @ v)" using open_across[OF _ _ mv(1) w] 1 by simp
          moreover obtain x y where "m @ v = x @ CHR ''>'' # y" "find_close a y \<noteq> None" using mv(2) by blast
          then have "?u @ m @ v = (?u @ x) @ CHR ''>'' # y \<and> find_close a y \<noteq> None" by simp
          ultimately have "private_span a (?u @ m @ v) \<noteq> None" unfolding span_iff by blast
          then show False using 2(2)[OF 1] eq(2) by simp
        qed
      next
        case 2
        let ?r = "drop (i - length u) private_redaction"
        obtain c cs where r: "?r = c # cs" using 2 by (cases ?r) auto
        then have "c \<in> set private_redaction" by (metis in_set_dropD list.set_intros(1))
        then have "c \<noteq> CHR ''<''" by (auto simp: private_redaction_def)
        then have "\<not> open_tag a (c # cs @ ?t)" using lower_exact[of c "CHR ''<''"] by (auto simp: open_tag_def)
        then show ?thesis using r 2 by (simp add: private_span_def)
      next
        case 3
        then have "drop i (u @ private_redaction @ ?t) = drop (i - length u - length private_redaction) ?t" by simp
        then show ?thesis using t by (simp add: span_free_def)
      qed
    qed
    then show ?thesis unfolding 2(4) span_free_def by simp
  qed
qed

lemma span_free_kept: "span_free a s \<Longrightarrow> redact_spans a s = (s, 0)"
proof (cases rule: redact_split[of a s])
  case (2 u m v)
  assume "span_free a s"
  then have "private_span a (drop (length u) s) = None" unfolding span_free_def by blast
  then show ?thesis using 2(1,3) by simp
qed

lemma kept_span_free: "snd (redact_spans a s) = 0 \<Longrightarrow> span_free a s \<and> fst (redact_spans a s) = s"
  by (rule redact_split[of a s]) auto

lemma alphabets: "\<not> al_word text_alphabet (CHR ''<'')" "\<not> al_word byte_alphabet (CHR ''<'')"
  by (simp_all add: text_alphabet_def byte_alphabet_def)

text \<open>C15: Redacting a text leaves no private span in it: a second pass finds none and changes nothing, and the count is
  zero exactly for a text without one, which is kept.\<close>

theorem redaction_leaves_no_span:
  "span_free text_alphabet (fst (redact_private_text s)) \<and>
   redact_private_text (fst (redact_private_text s)) = (fst (redact_private_text s), 0) \<and>
   (snd (redact_private_text s) = 0 \<longleftrightarrow> span_free text_alphabet s) \<and>
   (span_free text_alphabet s \<longleftrightarrow> fst (redact_private_text s) = s)"
proof -
  have "span_free text_alphabet (fst (redact_private_text s))"
    unfolding redact_private_text_def by (rule redacted_span_free[OF alphabets(1)])
  then show ?thesis
    unfolding redact_private_text_def using span_free_kept[of text_alphabet] kept_span_free[of text_alphabet s] by auto
qed

section \<open>Redacted records\<close>

fun clean_json :: "json \<Rightarrow> bool" where
  "clean_json (JStr s) \<longleftrightarrow> span_free text_alphabet s"
| "clean_json (JList xs) \<longleftrightarrow> (\<forall>x\<in>set xs. clean_json x)"
| "clean_json (JObj d) \<longleftrightarrow> (\<forall>(k, v)\<in>set d. span_free text_alphabet k \<and> clean_json v)"
| "clean_json _ \<longleftrightarrow> True"

lemma redacted_text:
  assumes "redact_private_text s = (t, n)"
  shows "span_free text_alphabet t" "n = 0 \<Longrightarrow> t = s"
  using redacted_span_free[OF alphabets(1), of s] kept_span_free[of text_alphabet s] assms
  by (simp_all add: redact_private_text_def)

lemma redact_items_Cons:
  assumes "redact_items f acc ((k, v) # d) = Inr (r, c)"
  obtains k' n v' m l where "redact_private_text k = (k', n)" "f k v = Inr (v', m)"
    "redact_items f (acc @ [(k', v')]) d = Inr (r, l)" "c = n + m + l"
  using assms by (auto simp: bind_res_Inr split: prod.splits if_splits)

lemma redact_items_clean:
  assumes "redact_items f acc d = Inr (r, c)" "clean_json (JObj acc)"
    "\<forall>(k, v)\<in>set d. \<forall>v' m. f k v = Inr (v', m) \<longrightarrow> clean_json v'"
  shows "clean_json (JObj r)"
  using assms
proof (induction d arbitrary: acc c)
  case (Cons p d)
  obtain k v where p: "p = (k, v)" by (cases p)
  obtain k' n v' m l where s: "redact_private_text k = (k', n)" "f k v = Inr (v', m)"
      "redact_items f (acc @ [(k', v')]) d = Inr (r, l)" "c = n + m + l"
    using Cons.prems(1) unfolding p by (rule redact_items_Cons)
  have "clean_json (JObj (acc @ [(k', v')]))"
    using Cons.prems(2,3) redacted_text(1)[OF s(1)] s(2) p by auto
  moreover have "\<forall>(k, v)\<in>set d. \<forall>v' m. f k v = Inr (v', m) \<longrightarrow> clean_json v'" using Cons.prems(3) by simp
  ultimately show ?case by (rule Cons.IH[OF s(3)])
qed simp

lemma redact_items_kept:
  assumes "redact_items f acc d = Inr (r, 0)" "\<forall>(k, v)\<in>set d. \<forall>v'. f k v = Inr (v', 0) \<longrightarrow> v' = v"
  shows "r = acc @ d"
  using assms
proof (induction d arbitrary: acc)
  case (Cons p d)
  obtain k v where p: "p = (k, v)" by (cases p)
  obtain k' n v' m l where s: "redact_private_text k = (k', n)" "f k v = Inr (v', m)"
      "redact_items f (acc @ [(k', v')]) d = Inr (r, l)" "0 = n + m + l"
    using Cons.prems(1) unfolding p by (rule redact_items_Cons)
  have z: "n = 0" "m = 0" "l = 0" using s(4) by simp_all
  have "k' = k" using redacted_text(2)[OF s(1)] z by simp
  moreover have "v' = v" using Cons.prems(2) s(2) z p by simp
  moreover have "\<forall>(k, v)\<in>set d. \<forall>v'. f k v = Inr (v', 0) \<longrightarrow> v' = v" using Cons.prems(2) by simp
  then have "r = (acc @ [(k', v')]) @ d" using Cons.IH[of "acc @ [(k', v')]"] s(3) z by blast
  ultimately show ?case using p by simp
qed simp

lemma map_res_clean:
  assumes "map_res f xs = Inr ps" "\<forall>x\<in>set xs. \<forall>y n. f x = Inr (y, n) \<longrightarrow> clean_json y"
  shows "clean_json (JList (map fst ps))"
proof -
  have "list_all2 (\<lambda>x p. f x = Inr p) xs ps" using assms(1) by (simp add: map_res_Inr)
  then have "\<forall>p\<in>set ps. clean_json (fst p)"
    using assms(2)
  proof (induction rule: list_all2_induct)
    case (Cons x xs p ps)
    have "f x = Inr (fst p, snd p)" using Cons.hyps(1) by simp
    then show ?case using Cons by (cases p) simp
  qed simp
  then show ?thesis by simp
qed

lemma map_res_kept:
  assumes "map_res f xs = Inr ps" "total ps = 0" "\<forall>x\<in>set xs. \<forall>y. f x = Inr (y, 0) \<longrightarrow> y = x"
  shows "map fst ps = xs"
proof -
  have "list_all2 (\<lambda>x p. f x = Inr p) xs ps" using assms(1) by (simp add: map_res_Inr)
  then show ?thesis using assms(2,3)
  proof (induction rule: list_all2_induct)
    case (Cons x xs p ps)
    have "f x = Inr (fst p, 0)" using Cons.hyps(1) Cons.prems(1) by (cases p) (simp add: total_def)
    then show ?case using Cons by (simp add: total_def)
  qed simp
qed

lemma update_same: "map_of d k = Some v \<Longrightarrow> AList.update k v d = d"
  by (induction d) (auto split: if_splits)

lemma cursor_kept:
  assumes "redact_cursor e f d = Inr (d', 0)" "\<And>v v'. f v = Inr (v', 0) \<Longrightarrow> v' = v"
  shows "d' = d"
proof (cases "json_get d ''format'' = JStr ''cursorDiskKV-v1''")
  case True
  then obtain rs ps where rs: "json_get d ''records'' = JList rs" "map_res (redact_cursor_record e f) rs = Inr ps"
      "d' = AList.update ''records'' (JList (map fst ps)) d" "total ps = 0"
    using assms(1) by (auto simp: redact_cursor_def bind_res_Inr split: json.splits)
  have "y = x" if "redact_cursor_record e f x = Inr (y, 0)" for x y
    using that by (auto simp: redact_cursor_record_def bind_res_Inr split: json.splits list.splits option.splits)
  then have "map fst ps = rs" using map_res_kept[OF rs(2,4)] by blast
  then have "d' = AList.update ''records'' (JList rs) d" using rs(3) by simp
  moreover have "map_of d ''records'' = Some (JList rs)" using rs(1) by (simp add: json_get_def split: option.splits)
  ultimately show ?thesis by (simp add: update_same)
next
  case False
  then show ?thesis using assms(1) by (simp add: redact_cursor_def)
qed

lemma attachment_kept: "redact_attachment e f allow d k v = Inr (v', 0) \<Longrightarrow> v' = v"
  by (auto simp: redact_attachment_def bind_res_Inr split: json.splits if_splits option.splits)

lemma attachment_refused: "redact_attachment e f False d k v \<noteq> Inr r"
  by (auto simp: redact_attachment_def split: json.splits)

lemma redact_object:
  assumes "redact_capture_value e allow strict depth (JObj d0) = Inr (v', c)"
  obtains d n r m where "redact_cursor e (redact_capture_value e False False (Suc depth)) d0 = Inr (d, n)"
    "redact_items (\<lambda>k item.
       if strict \<and> starts_with ''transcript_raw'' (ca_casefold e k)
       then (if allow
             then redact_attachment e (redact_jsonl_with e (\<lambda>_. redact_capture_value e False True 0)) True d k item
             else redact_attachment e (\<lambda>_. Inl (ValueError [])) False d k item)
       else redact_capture_value e False strict (Suc depth) item) [] d = Inr (r, m)"
    "v' = JObj r" "c = n + m"
  using assms by (auto simp: redact_capture_value.simps[of e allow strict depth] bind_res_Inr split: if_splits)

lemma redact_list:
  assumes "redact_capture_value e allow strict depth (JList xs) = Inr (v', c)"
  obtains ps where "map_res (redact_capture_value e False strict (Suc depth)) xs = Inr ps"
    "v' = JList (map fst ps)" "c = total ps"
  using assms by (auto simp: redact_capture_value.simps[of e allow strict depth] bind_res_Inr split: if_splits)

lemma redact_string:
  assumes "redact_capture_value e allow strict depth (JStr s) = Inr (v', c)"
  obtains t where "redact_private_text s = (t, c)" "v' = JStr t"
  using assms by (auto simp: redact_capture_value.simps[of e allow strict depth] split: if_splits prod.splits)

lemma redact_bounded: "redact_capture_value e allow strict depth v = Inr r \<Longrightarrow> depth \<le> capture_json_depth"
  by (simp add: redact_capture_value.simps[of e allow strict depth v] split: if_splits)

lemma redact_scalar:
  "redact_capture_value e allow strict depth v = Inr (v', c) \<Longrightarrow> \<forall>s. v \<noteq> JStr s \<Longrightarrow> \<forall>xs. v \<noteq> JList xs \<Longrightarrow>
   \<forall>d. v \<noteq> JObj d \<Longrightarrow> v' = v"
  by (cases v) (simp_all add: redact_capture_value.simps[of e allow strict depth] split: if_splits)

lemma value_clean: "redact_capture_value e False strict depth v = Inr (v', c) \<Longrightarrow> clean_json v'"
proof (induction "Suc capture_json_depth - depth" arbitrary: strict depth v v' c rule: less_induct)
  case less
  have "depth \<le> capture_json_depth" using redact_bounded[OF less.prems] .
  then have IH: "redact_capture_value e False s (Suc depth) x = Inr (y, n) \<Longrightarrow> clean_json y" for s x y n
    using less.hyps[of "Suc depth"] by simp
  show ?case
  proof (cases v)
    case (JStr s)
    then show ?thesis using redact_string less.prems redacted_text(1) by (metis clean_json.simps(1))
  next
    case (JList xs)
    obtain ps where ps: "map_res (redact_capture_value e False strict (Suc depth)) xs = Inr ps" "v' = JList (map fst ps)"
      using less.prems unfolding JList by (rule redact_list)
    show ?thesis unfolding ps(2) by (rule map_res_clean[OF ps(1)]) (use IH in blast)
  next
    case (JObj d0)
    obtain d n r m where r: "v' = JObj r" and
      items: "redact_items (\<lambda>k item.
       if strict \<and> starts_with ''transcript_raw'' (ca_casefold e k)
       then (if False
             then redact_attachment e (redact_jsonl_with e (\<lambda>_. redact_capture_value e False True 0)) True d k item
             else redact_attachment e (\<lambda>_. Inl (ValueError [])) False d k item)
       else redact_capture_value e False strict (Suc depth) item) [] d = Inr (r, m)"
      using less.prems unfolding JObj by (rule redact_object)
    show ?thesis unfolding r
      by (rule redact_items_clean[OF items]) (use IH in \<open>auto simp: attachment_refused split: if_splits\<close>)
  qed (use redact_scalar[OF less.prems] in simp_all)
qed

lemma value_kept_step:
  assumes IH: "\<And>s x y. redact_capture_value e False s (Suc depth) x = Inr (y, 0) \<Longrightarrow> y = x"
    and v: "redact_capture_value e allow strict depth v = Inr (v', 0)"
  shows "v' = v"
proof (cases v)
  case (JStr s)
  then show ?thesis using redact_string v redacted_text(2) by metis
next
  case (JList xs)
  obtain ps where ps: "map_res (redact_capture_value e False strict (Suc depth)) xs = Inr ps" "v' = JList (map fst ps)" "0 = total ps"
    using v unfolding JList by (rule redact_list)
  have "map fst ps = xs" by (rule map_res_kept[OF ps(1) ps(3)[symmetric]]) (use IH in blast)
  then show ?thesis using ps(2) JList by simp
next
  case (JObj d0)
  obtain d n r m where c: "redact_cursor e (redact_capture_value e False False (Suc depth)) d0 = Inr (d, n)" and
    items: "redact_items (\<lambda>k item.
     if strict \<and> starts_with ''transcript_raw'' (ca_casefold e k)
     then (if allow
           then redact_attachment e (redact_jsonl_with e (\<lambda>_. redact_capture_value e False True 0)) True d k item
           else redact_attachment e (\<lambda>_. Inl (ValueError [])) False d k item)
     else redact_capture_value e False strict (Suc depth) item) [] d = Inr (r, m)"
    and r: "v' = JObj r" "0 = n + m"
    using v unfolding JObj by (rule redact_object)
  have z: "n = 0" "m = 0" using r(2) by simp_all
  have "d = d0" by (rule cursor_kept[OF c[unfolded z]]) (rule IH)
  moreover have "r = [] @ d"
    by (rule redact_items_kept[OF items[unfolded z]]) (use IH in \<open>auto simp: attachment_refused dest: attachment_kept split: if_splits\<close>)
  ultimately show ?thesis using r(1) JObj by simp
qed (use redact_scalar[OF v] in simp_all)

lemma value_kept: "redact_capture_value e allow strict depth v = Inr (v', 0) \<Longrightarrow> v' = v"
proof (induction "Suc capture_json_depth - depth" arbitrary: allow strict depth v v' rule: less_induct)
  case less
  have "depth \<le> capture_json_depth" using redact_bounded[OF less.prems] .
  then have "redact_capture_value e False s (Suc depth) x = Inr (y, 0) \<Longrightarrow> y = x" for s x y
    using less.hyps[of "Suc depth"] by simp
  then show ?case using value_kept_step less.prems by blast
qed

section \<open>Redacted captures\<close>

text \<open>A line of the result is a line of the capture or the print of a record, and what it holds has no span.\<close>

definition clean_line :: "capture_env \<Rightarrow> string \<Rightarrow> bool" where
  "clean_line e l \<longleftrightarrow> blank_line l \<or>
     (\<exists>j. clean_json j \<and> (Option.bind (ca_decode e l) (ca_object e) = Some j \<or> (\<exists>line. l = reprinted line j)))"

lemma redact_lines_step:
  assumes "redact_lines e f first (line # lines) = Inr (out, c)" "\<not> blank_line line"
  obtains d j m ls n where "Option.bind (ca_decode e line) (ca_object e) = Some (JObj d)" "f first (JObj d) = Inr (j, m)"
    "redact_lines e f False lines = Inr (ls, n)" "out = (if m = 0 then line else reprinted line j) # ls" "c = m + n"
  using assms by (auto simp: bind_res_Inr split: option.splits json.splits)

lemma redact_lines_kept:
  assumes f: "\<And>b d j. f b (JObj d) = Inr (j, 0) \<Longrightarrow> j = JObj d"
  shows "redact_lines e f first lines = Inr (out, 0) \<Longrightarrow> out = lines"
proof (induction lines arbitrary: first out)
  case (Cons line lines)
  show ?case
  proof (cases "blank_line line")
    case True
    then show ?thesis using Cons by (auto simp: bind_res_Inr)
  next
    case False
    obtain d j m ls n where s: "f first (JObj d) = Inr (j, m)" "redact_lines e f False lines = Inr (ls, n)"
        "out = (if m = 0 then line else reprinted line j) # ls" "0 = m + n"
      using Cons.prems False by (rule redact_lines_step)
    then show ?thesis using Cons.IH[of False ls] by simp
  qed
qed simp

lemma redact_lines_clean:
  assumes c: "\<And>b d j m. f b (JObj d) = Inr (j, m) \<Longrightarrow> clean_json j"
    and k: "\<And>b d j. f b (JObj d) = Inr (j, 0) \<Longrightarrow> j = JObj d"
  shows "redact_lines e f first lines = Inr (out, n) \<Longrightarrow> length out = length lines \<and> (\<forall>l\<in>set out. clean_line e l)"
proof (induction lines arbitrary: first out n)
  case (Cons line lines)
  show ?case
  proof (cases "blank_line line")
    case True
    then obtain ls m where "redact_lines e f first lines = Inr (ls, m)" "out = line # ls"
      using Cons.prems by (auto simp: bind_res_Inr)
    then show ?thesis using Cons.IH True by (simp add: clean_line_def)
  next
    case False
    obtain d j m ls n' where s: "Option.bind (ca_decode e line) (ca_object e) = Some (JObj d)" "f first (JObj d) = Inr (j, m)"
        "redact_lines e f False lines = Inr (ls, n')" "out = (if m = 0 then line else reprinted line j) # ls"
      using Cons.prems False by (rule redact_lines_step)
    have "clean_line e (if m = 0 then line else reprinted line j)"
    proof (cases "m = 0")
      case True
      then have "clean_json (JObj d)" using c[OF s(2)] k[of first d j] s(2) by simp
      then show ?thesis using True s(1) unfolding clean_line_def by (auto simp del: clean_json.simps)
    next
      case False
      then show ?thesis using c[OF s(2)] unfolding clean_line_def by auto
    qed
    then show ?thesis using Cons.IH[OF s(3)] s(4) by simp
  qed
qed simp

lemma byte_lines_concat: "concat (byte_lines acc s) = rev acc @ s"
proof (induction acc s rule: byte_lines.induct)
  case (2 acc c cs)
  then show ?case by (auto split: list.splits)
qed simp

lemma jsonl_kept:
  assumes "\<And>b d j. f b (JObj d) = Inr (j, 0) \<Longrightarrow> j = JObj d" "redact_jsonl_with e f bytes = Inr (out, 0)"
  shows "out = bytes"
proof -
  obtain ls where ls: "redact_lines e f True (byte_lines [] bytes) = Inr (ls, 0)" "out = concat ls"
    using assms(2) by (auto simp: redact_jsonl_with_def bind_res_Inr)
  have "ls = byte_lines [] bytes" by (rule redact_lines_kept[OF _ ls(1)]) (rule assms(1))
  then show ?thesis using ls(2) by (simp add: byte_lines_concat)
qed

lemma capture_jsonl_kept: "redact_capture_jsonl e allow strict bytes = Inr (out, 0) \<Longrightarrow> out = bytes"
  unfolding redact_capture_jsonl_def by (rule jsonl_kept) (auto dest: value_kept)

definition demo_env :: "string \<Rightarrow> json \<Rightarrow> capture_env" where
  "demo_env s j = \<lparr> ca_casefold = map lower_char, ca_glob = (=), ca_loads = (\<lambda>t. if t = s then Some j else None),
     ca_object = (\<lambda>t. if t = s then Some j else None), ca_decode = Some, ca_b64decode = Some, ca_b64encode = (\<lambda>t. t),
     ca_urlsplit = (\<lambda>t. ([], [], t)), ca_unquote = (\<lambda>t. t), ca_windows = False, ca_expand = (\<lambda>t. t),
     ca_absolute = starts_with ''/'', ca_resolve = (\<lambda>t. t), ca_is_dir = (\<lambda>t. t = ''/w''), ca_parts = (\<lambda>t. [t]) \<rparr>"

text \<open>C14: A capture of plain records leaves redaction with as many lines, each of them blank or a record no key or text
  of which holds a private span, at any depth.\<close>

theorem captured_records_are_clean:
  assumes "Option.bind (ca_decode e (first_line bytes)) (ca_loads e) = Some (JObj d)" "\<not> encoded_header e d"
    and "redact_private_bytes e bytes = Inr (out, n)"
  shows "\<exists>ls. out = concat ls \<and> length ls = length (byte_lines [] bytes) \<and> (\<forall>l\<in>set ls. clean_line e l)"
proof -
  have "redact_capture_jsonl e False False bytes = Inr (out, n)"
    using assms by (simp add: redact_private_bytes_def)
  then obtain ls where ls: "redact_lines e (\<lambda>_. redact_capture_value e False False 0) True (byte_lines [] bytes) = Inr (ls, n)" "out = concat ls"
    by (auto simp: redact_capture_jsonl_def redact_jsonl_with_def bind_res_Inr)
  have "length ls = length (byte_lines [] bytes) \<and> (\<forall>l\<in>set ls. clean_line e l)"
    by (rule redact_lines_clean[OF _ _ ls(1)]) (auto dest: value_clean value_kept)
  then show ?thesis using ls(2) by blast
qed

lemma demo_capture:
  "Option.bind (ca_decode (demo_env ''{r}'' (JObj [(''t'', JStr ''a<Private x>b</private >c'')])) (first_line ''{r}''))
     (ca_loads (demo_env ''{r}'' (JObj [(''t'', JStr ''a<Private x>b</private >c'')]))) = Some (JObj [(''t'', JStr ''a<Private x>b</private >c'')])"
  "\<not> encoded_header (demo_env ''{r}'' (JObj [(''t'', JStr ''a<Private x>b</private >c'')])) [(''t'', JStr ''a<Private x>b</private >c'')]"
  "redact_private_bytes (demo_env ''{r}'' (JObj [(''t'', JStr ''a<Private x>b</private >c'')])) ''{r}''
     = Inr (stable_json (JObj [(''t'', JStr ''a[private content omitted]c'')]), 1)"
  by code_simp+

theorem captured_records_are_clean_witness:
  "\<exists>ls. stable_json (JObj [(''t'', JStr ''a[private content omitted]c'')]) = concat ls \<and> length ls = length (byte_lines [] ''{r}'') \<and>
     (\<forall>l\<in>set ls. clean_line (demo_env ''{r}'' (JObj [(''t'', JStr ''a<Private x>b</private >c'')])) l)"
  by (rule captured_records_are_clean[OF demo_capture])

text \<open>C16: A capture in which nothing was redacted keeps its exact bytes, byte order marks, line ends and an encoded
  attachment included, whichever of the formats it has.\<close>

theorem public_captures_keep_their_bytes:
  assumes "redact_private_bytes e bytes = Inr (out, 0)"
  shows "out = bytes"
proof -
  have plain: "redact_spans byte_alphabet bytes = (out, 0) \<Longrightarrow> out = bytes"
    using kept_span_free[of byte_alphabet bytes] by simp
  show ?thesis
    using assms plain unfolding redact_private_bytes_def Let_def
    by (auto simp: bind_res_Inr dest: capture_jsonl_kept split: option.splits json.splits if_splits)
qed

theorem public_captures_keep_their_bytes_witness:
  "redact_private_bytes (demo_env ''x'' (JObj [])) ''plain <private'' = Inr (''plain <private'', 0) \<and> ''plain <private'' = ''plain <private''"
proof (rule conjI)
  show r: "redact_private_bytes (demo_env ''x'' (JObj [])) ''plain <private'' = Inr (''plain <private'', 0)"
    by code_simp
  show "''plain <private'' = ''plain <private''" by (rule public_captures_keep_their_bytes[OF r])
qed

text \<open>A witness for the combined policies: a user policy, and a workspace that ignores one client.\<close>

definition policy_fields :: "string list \<Rightarrow> jdict" where
  "policy_fields clients = [(''capture_enabled'', JBool True), (''capture_private_tags'', JBool True),
     (''capture_ignore_clients'', JList (map JStr clients)), (''capture_ignore_session_ids'', JList []),
     (''capture_ignore_source_globs'', JList [])]"

definition demo_policies :: "string option \<Rightarrow> unit + merged_config" where
  "demo_policies r = Inr \<lparr> mc_fields = policy_fields (case r of None \<Rightarrow> [] | Some _ \<Rightarrow> [''codex'']), mc_extras = [] \<rparr>"

lemma demo_policy:
  "source_capture_policy (demo_env [] JNull) demo_policies [''/w'', ''//host/share'', ''/gone'']
     = Inr \<lparr> mc_fields = policy_fields [''codex''], mc_extras = [] \<rparr>"
  by code_simp

theorem contexts_only_restrict_witness:
  "fst (decide_capture (demo_env [] JNull) \<lparr> mc_fields = policy_fields [''codex''], mc_extras = [] \<rparr> ''Codex'' ''s'' ''u'') \<longleftrightarrow>
   (\<forall>r\<in>insert None (Some ` {p \<in> set (local_roots (demo_env [] JNull) [''/w'', ''//host/share'', ''/gone'']). ca_is_dir (demo_env [] JNull) p}).
      \<exists>x. demo_policies r = Inr x \<and> fst (decide_capture (demo_env [] JNull) x ''Codex'' ''s'' ''u''))"
  by (rule contexts_only_restrict[OF demo_policy])

end
