(* ===== verification/Spec2Isabelle.thy ===== *)
theory Spec2Isabelle
  imports QueueCompletion QueueScheduling ErasureProps ConfigProps BatchProps ScanReach CanonicalProps KnowledgeProps WorkspaceProps LockProps CaptureProps
begin

text \<open>
  Verification development of harness-mem, a local memory engine for coding agents: native sessions are scanned
  and captured into an immutable transcript ledger, distilled chunk by chunk under leases, and turned into
  current knowledge in a canonical store.  Paths below are relative to \<^verbatim>\<open>src/harness_mem/\<close>.

  \<^bold>\<open>The program's parts and the theories that model them.\<close>

  \<^item> \<^verbatim>\<open>config/merge.py\<close>, \<^verbatim>\<open>config/errors.py\<close>: \<open>ConfigMerge\<close> (three layers of settings, coercion, legacy switch, runtime
    view); properties in \<open>ConfigProps\<close>.
  \<^item> \<^verbatim>\<open>adapters/scan_scheduler.py\<close>, the frontier rows of \<^verbatim>\<open>core/schemas/transcript.py\<close> and their table in
    \<^verbatim>\<open>storage/transcript_store.py\<close>: \<open>ScanScheduler\<close> (planning, two passes, retries, lanes); \<open>ScanPlans\<close>, \<open>ScanRounds\<close> and
    \<open>ScanReach\<close> (budget, backoff, fairness).
  \<^item> \<^verbatim>\<open>transcript_chunking.py\<close>: \<open>Chunking\<close> (the lossless chunker and its inverse).
  \<^item> \<^verbatim>\<open>core/schemas/session_distill.py\<close>: \<open>DistillSchema\<close> (jobs, checkpoints, semantic reviews and their validators).
  \<^item> \<^verbatim>\<open>storage/transcript_store.py\<close>: \<open>Ledger\<close> (sources, revisions, chunks, snapshots) and \<open>Erasure\<close> (projection cache,
    cleanup of processed sources, hard deletion, tombstones); properties in \<open>ErasureProps\<close>.
  \<^item> \<^verbatim>\<open>storage/session_distill_store.py\<close>: \<open>DistillQueue\<close>, every method of the queue on the ledger it shares with the
    transcript store; \<open>QueueInvariant\<close>, \<open>QueueSteps\<close>, \<open>QueueMachine\<close>, \<open>QueueRuns\<close> (what every operation keeps, and the
    queue as a machine); properties in \<open>QueueProps\<close>, \<open>QueueScheduling\<close>, \<open>QueueCompletion\<close>.
  \<^item> \<^verbatim>\<open>storage/manual_batch_store.py\<close>: \<open>ManualBatch\<close>, \<open>BatchInvariant\<close>, \<open>BatchProps\<close>.
  \<^item> \<^verbatim>\<open>storage/canonical_store.py\<close> (its runtime half): \<open>CanonicalStore\<close>, \<open>CanonicalProps\<close>, on the texts of \<open>JsonText\<close>.
  \<^item> \<^verbatim>\<open>core/schemas/knowledge.py\<close>, \<^verbatim>\<open>source_report.py\<close>, \<^verbatim>\<open>project_knowledge_base.py\<close>, \<^verbatim>\<open>storage/knowledge_store.py\<close>:
    \<open>KnowledgeSchema\<close>, \<open>KnowledgeStore\<close>; \<open>KnowledgeWrites\<close>, \<open>KnowledgeRows\<close>, \<open>KnowledgeChanges\<close>, \<open>KnowledgeRuns\<close> lift its
    transactions to the entries and sources they stand for; properties in \<open>KnowledgeProps\<close>.

  \<open>Prelude\<close> holds what they share: Python values, errors as sums, keyed tables, the interfaces below.

  \<^bold>\<open>How state and operations correspond.\<close>  A database is a record with one list of rows per table, in rowid
  order; a row is a record with the columns, or the model the JSON column holds.  An operation is a function
  of its arguments, the clock readings and random identifiers it uses, and the state; it returns
  \<open>py_error + result \<times> state\<close>.  \<open>Inl\<close> is a raised exception; the transaction is rolled back then, so the state is
  the one before.  A loop is a recursion on the rows it visits; \<open>chunk_loop\<close> and \<open>drain_loop\<close>, which are not
  structural, have termination proofs, so no function here needs fuel.  The numeric limits (chunk size, lease
  seconds, recovery budget, backoff bounds, probe budget) are the constants and arguments of the source.

  \<^bold>\<open>Interfaces.\<close>  \<open>row_store\<close> (what a lookup returns after an upsert), \<open>guarded_machine\<close> and \<open>monotone_machine\<close> (an
  invariant and an order every operation keeps) are in \<open>Prelude\<close>; \<open>path_store\<close> (dotted-path access) in
  \<open>ConfigProps\<close>; \<open>row_kind\<close> (rows that stand for models) in \<open>KnowledgeRows\<close>.  Each is interpreted on the model's own
  operations: the tables of the ledger, the queue, the batch store, configuration tables, entries and
  sources.

  \<^bold>\<open>What the lemma groups show.\<close>  Configuration: merging refines the override of key paths, loading is typed,
  every setting reads back.  Scanning: a round keeps its budget, failed sessions wait, every session is
  reached.  Chunking and ledger: texts read back exactly, revisions are immutable.  Queue: reachable states
  are sound, completed work is final, leases exclude, scheduling is exact, recovery is bounded.  Erasure:
  nothing but the selected evidence goes, nothing of it stays, it does not come back.  Batches: manifests load
  again, decisions are final, a batch owns its jobs.  Canonical store: a transaction is an atomic
  compare-and-set that applies once.  Knowledge: entries always have sources, a change swaps exactly what it
  names.  Some theorems state where the code departs from its documentation; they are listed as findings in
  the manifest.

  \<^bold>\<open>Parameters.\<close>  SHA-256 and UUID5 (\<open>digests\<close>), what a path resolves to (\<open>path_env\<close>, \<open>scan_env\<close>), float and integer
  conversion and the printing of containers (\<open>canon_env\<close>), what pydantic's datetime and integer fields accept,
  URL parsing and a dash beyond the characters of HOL strings (\<open>know_env\<close>), parsed configuration files
  (\<open>config_env\<close>), the adapter that synchronizes one session, and the callbacks the queue is given.

  \<^bold>\<open>Not modelled.\<close>  Host adapters and parsers, the MCP and command-line surfaces, search indexes and embeddings,
  model providers and worker processes: they read files, run processes and call services, or rank by
  floating-point scores.  Migration of older layouts copies databases and files.  The manifest lists every
  part with its reason.
\<close>

section \<open>Across components\<close>


definition demo_owned :: job where
  "demo_owned = demo_job\<lparr>j_id := ''j1''\<rparr>"


end
